(* ===== verification/Float64.thy ===== *)
theory Float64
  imports Complex_Main
begin

section \<open>IEEE 754 binary64 values\<close>

text \<open>
  Go's \<open>float64\<close>. A value is a rational, an infinity or NaN, and every arithmetic operation
  rounds its exact result to nearest, ties to even, with a 53-bit significand, the subnormal
  exponent \<open>- 1074\<close> and overflow to an infinity at \<open>2 ^ 1024\<close>. Comparisons with NaN are
  false, as in the language. The one thing left out is the sign of zero: both zeros are
  \<open>Fin 0\<close>, which no comparison of the program can tell apart; a division by zero is read as
  one by \<open>+0\<close> (every division of the modelled code is guarded against it).

  The lemmas show that rounding is monotone (\<open>fl_mono\<close>), idempotent (\<open>fl_idem\<close>) and exact
  on integers of up to 53 bits (\<open>fl_int\<close>); range properties of scores follow from these three.
\<close>

subsection \<open>Rounding a rational to 53 bits\<close>

text \<open>\<open>bits n\<close> is the number of binary digits of \<open>n\<close>, \<open>rat_log2 q\<close> the exponent of the
  leading digit of \<open>q\<close>, and \<open>ulp_exp q\<close> the exponent of the unit in the last place.\<close>

fun bits :: "int \<Rightarrow> int" where
  "bits n = (if n \<le> 0 then 0 else 1 + bits (n div 2))"

declare bits.simps [simp del]

definition pow2 :: "int \<Rightarrow> rat" where
  "pow2 e = (if 0 \<le> e then of_int (2 ^ nat e) else 1 / of_int (2 ^ nat (- e)))"

lemma pow2_powi: "pow2 e = 2 powi e"
  by (simp add: pow2_def power_int_def field_simps)

definition rat_log2 :: "rat \<Rightarrow> int" where
  "rat_log2 q = (let (n, d) = quotient_of q; k = bits n - bits d
     in if pow2 k \<le> q then k else k - 1)"

definition ulp_exp :: "rat \<Rightarrow> int" where
  "ulp_exp q = max (- 1074) (rat_log2 q - 52)"

definition round_even :: "rat \<Rightarrow> int" where
  "round_even x = (let f = \<lfloor>x\<rfloor>; r = x - of_int f in
     if r < 1 / 2 then f else if 1 / 2 < r then f + 1 else if even f then f else f + 1)"

definition fl_pos :: "rat \<Rightarrow> rat" where
  "fl_pos q = of_int (round_even (q / pow2 (ulp_exp q))) * pow2 (ulp_exp q)"

definition fl :: "rat \<Rightarrow> rat" where
  "fl q = (if q = 0 then 0 else if q < 0 then - fl_pos (- q) else fl_pos q)"

lemma bits_nonneg: "0 \<le> bits n"
  by (induction n rule: bits.induct) (subst bits.simps, simp)

lemma bits_pos: "0 < n \<Longrightarrow> 0 < bits n"
  using bits_nonneg [of "n div 2"] by (subst bits.simps) simp

lemma bits_bounds:
  "0 < n \<Longrightarrow> (2::rat) powi (bits n - 1) \<le> of_int n \<and> of_int n < (2::rat) powi bits n"
proof (induction n rule: bits.induct)
  case (1 n)
  show ?case
  proof (cases "n = 1")
    case True
    then show ?thesis by (simp add: bits.simps [of 1] bits.simps [of 0])
  next
    case False
    with "1.prems" have pos: "0 < n div 2" by simp
    let ?b = "bits (n div 2)"
    have IH: "(2::rat) powi (?b - 1) \<le> of_int (n div 2)" "of_int (n div 2) < (2::rat) powi ?b"
      using "1.IH" "1.prems" pos by simp_all
    have b: "bits n = 1 + ?b" using "1.prems" by (simp add: bits.simps [of n])
    have lo: "2 * (n div 2) \<le> n" and hi: "n \<le> 2 * (n div 2) + 1" by presburger+
    have "0 < ?b" using pos by (rule bits_pos)
    have eq: "(2::rat) powi ?b = of_int (2 ^ nat ?b)"
      using \<open>0 < ?b\<close> by (simp add: power_int_def)
    with IH(2) have "n div 2 < 2 ^ nat ?b" by simp
    then have "n < 2 * 2 ^ nat ?b" using hi by linarith
    then have "(of_int n :: rat) < of_int (2 * 2 ^ nat ?b)" by (simp only: of_int_less_iff)
    also have "\<dots> = 2 powi (1 + ?b)"
      using eq by (simp add: power_int_add)
    finally have up: "(of_int n :: rat) < 2 powi (1 + ?b)" .
    have "(2::rat) powi ?b = 2 * 2 powi (?b - 1)"
      by (simp add: power_int_diff)
    also have "\<dots> \<le> 2 * of_int (n div 2)" using IH(1) by simp
    also have "\<dots> = of_int (2 * (n div 2))" by simp
    also have "\<dots> \<le> of_int n" using lo by (simp only: of_int_le_iff)
    finally show ?thesis using up b by simp
  qed
qed

lemma rat_log2_bounds:
  assumes "0 < q"
  shows "2 powi rat_log2 q \<le> q" and "q < 2 powi (rat_log2 q + 1)"
proof -
  obtain n d where nd: "quotient_of q = (n, d)" by force
  have q: "q = of_int n / of_int d" and d: "0 < d"
    using nd quotient_of_div quotient_of_denom_pos by blast+
  with assms have n: "0 < n" by (simp add: zero_less_divide_iff)
  let ?k = "bits n - bits d"
  have nb: "(2::rat) powi (bits n - 1) \<le> of_int n" "of_int n < (2::rat) powi bits n"
    using bits_bounds [OF n] by simp_all
  have db: "(2::rat) powi (bits d - 1) \<le> of_int d" "of_int d < (2::rat) powi bits d"
    using bits_bounds [OF d] by simp_all
  have "q \<le> of_int n / 2 powi (bits d - 1)"
    unfolding q using db(1) n d by (intro divide_left_mono) auto
  also have "\<dots> < 2 powi bits n / 2 powi (bits d - 1)"
    using nb(2) by (intro divide_strict_right_mono) auto
  also have "\<dots> = 2 powi (?k + 1)"
    by (simp flip: power_int_diff add: algebra_simps)
  finally have up: "q < 2 powi (?k + 1)" .
  have "(2::rat) powi (?k - 1) = 2 powi (bits n - 1) / 2 powi bits d"
    by (simp flip: power_int_diff add: algebra_simps)
  also have "\<dots> \<le> of_int n / 2 powi bits d"
    using nb(1) by (intro divide_right_mono) auto
  also have "\<dots> \<le> q"
    unfolding q using db(2) n d by (intro divide_left_mono) auto
  finally have lo: "2 powi (?k - 1) \<le> q" .
  have L: "rat_log2 q = (if 2 powi ?k \<le> q then ?k else ?k - 1)"
    by (simp add: rat_log2_def nd Let_def pow2_powi)
  show "2 powi rat_log2 q \<le> q" and "q < 2 powi (rat_log2 q + 1)"
    using up lo by (auto simp: L)
qed

lemma round_even_of_int [simp]: "round_even (of_int n) = n"
  by (simp add: round_even_def Let_def)

lemma round_even_floor: "\<lfloor>x\<rfloor> \<le> round_even x" "round_even x \<le> \<lfloor>x\<rfloor> + 1"
  by (auto simp: round_even_def Let_def)

lemma round_even_mono:
  assumes "x \<le> y"
  shows "round_even x \<le> round_even y"
proof (cases "\<lfloor>x\<rfloor> = \<lfloor>y\<rfloor>")
  case True
  with assms show ?thesis by (auto simp: round_even_def Let_def)
next
  case False
  moreover have "\<lfloor>x\<rfloor> \<le> \<lfloor>y\<rfloor>" using assms by (rule floor_mono)
  ultimately have "\<lfloor>x\<rfloor> + 1 \<le> \<lfloor>y\<rfloor>" by simp
  then show ?thesis
    using round_even_floor [of x] round_even_floor [of y] by linarith
qed

lemma round_even_ge: "of_int n \<le> x \<Longrightarrow> n \<le> round_even x"
  using round_even_mono [of "of_int n" x] by simp

lemma round_even_le: "x \<le> of_int n \<Longrightarrow> round_even x \<le> n"
  using round_even_mono [of x "of_int n"] by simp

lemma fl_pos_eq: "fl_pos q = of_int (round_even (q / 2 powi ulp_exp q)) * 2 powi ulp_exp q"
  by (simp add: fl_pos_def pow2_powi)

lemma fl_pos_nonneg: "0 < q \<Longrightarrow> 0 \<le> fl_pos q"
  unfolding fl_pos_eq by (intro mult_nonneg_nonneg) (simp_all add: round_even_ge [of 0, simplified])

lemma rat_log2_mono:
  assumes "0 < p" and "p \<le> q"
  shows "rat_log2 p \<le> rat_log2 q"
proof (rule ccontr)
  assume "\<not> ?thesis"
  then have "rat_log2 q + 1 \<le> rat_log2 p" by simp
  then have "(2::rat) powi (rat_log2 q + 1) \<le> 2 powi rat_log2 p"
    by (intro power_int_increasing) auto
  with rat_log2_bounds [of p] rat_log2_bounds [of q] assms show False by linarith
qed

text \<open>Within one binade the rounded significand stays below \<open>2 ^ 53\<close>; across binades the
  next power of two separates the two values, so rounding is monotone.\<close>

lemma fl_pos_upper:
  assumes "0 < q"
  shows "fl_pos q \<le> 2 powi (ulp_exp q + 53)"
proof -
  have "q < 2 powi (rat_log2 q + 1)" using rat_log2_bounds(2) [OF assms] .
  also have "\<dots> \<le> 2 powi (ulp_exp q + 53)"
    by (intro power_int_increasing) (auto simp: ulp_exp_def)
  finally have "q / 2 powi ulp_exp q \<le> of_int (2 ^ 53)"
    by (simp add: divide_le_eq power_int_add mult.commute)
  then have "round_even (q / 2 powi ulp_exp q) \<le> 2 ^ 53" by (rule round_even_le)
  then have "(of_int (round_even (q / 2 powi ulp_exp q)) :: rat) \<le> of_int (2 ^ 53)"
    by (simp only: of_int_le_iff)
  then show ?thesis
    by (simp add: fl_pos_eq power_int_add mult.commute)
qed

lemma fl_pos_lower:
  assumes "0 < q" and "- 1074 < ulp_exp q"
  shows "2 powi (ulp_exp q + 52) \<le> fl_pos q"
proof -
  have "ulp_exp q + 52 = rat_log2 q" using assms(2) by (auto simp: ulp_exp_def)
  then have "2 powi (ulp_exp q + 52) \<le> q" using rat_log2_bounds(1) [OF assms(1)] by simp
  then have "of_int (2 ^ 52) \<le> q / 2 powi ulp_exp q"
    by (simp add: le_divide_eq power_int_add mult.commute)
  then have "2 ^ 52 \<le> round_even (q / 2 powi ulp_exp q)" by (rule round_even_ge)
  then have "of_int (2 ^ 52) \<le> (of_int (round_even (q / 2 powi ulp_exp q)) :: rat)"
    by (simp only: of_int_le_iff)
  then show ?thesis
    by (simp add: fl_pos_eq power_int_add mult.commute)
qed

lemma fl_pos_mono:
  assumes "0 < p" and "p \<le> q"
  shows "fl_pos p \<le> fl_pos q"
proof (cases "ulp_exp p = ulp_exp q")
  case True
  have "p / 2 powi ulp_exp q \<le> q / 2 powi ulp_exp q"
    using assms by (intro divide_right_mono) auto
  then show ?thesis
    unfolding fl_pos_eq True by (intro mult_right_mono) (auto dest: round_even_mono)
next
  case False
  have "rat_log2 p \<le> rat_log2 q" using assms by (rule rat_log2_mono)
  with False have lt: "ulp_exp p < ulp_exp q" by (auto simp: ulp_exp_def)
  have "fl_pos p \<le> 2 powi (ulp_exp p + 53)" using assms(1) by (rule fl_pos_upper)
  also have "\<dots> \<le> 2 powi (ulp_exp q + 52)"
    using lt by (intro power_int_increasing) auto
  also have "\<dots> \<le> fl_pos q"
    using assms lt by (intro fl_pos_lower) (auto simp: ulp_exp_def)
  finally show ?thesis .
qed

lemma fl_mono: "p \<le> q \<Longrightarrow> fl p \<le> fl q"
proof -
  assume pq: "p \<le> q"
  consider "0 < p" | "q < 0" | "p \<le> 0" "0 \<le> q" by linarith
  then show ?thesis
  proof cases
    case 1
    with pq show ?thesis by (simp add: fl_def fl_pos_mono)
  next
    case 2
    with pq show ?thesis by (simp add: fl_def fl_pos_mono)
  next
    case 3
    then have "fl p \<le> 0" and "0 \<le> fl q"
      using fl_pos_nonneg [of q] fl_pos_nonneg [of "- p"] by (auto simp: fl_def)
    then show ?thesis by linarith
  qed
qed

lemma fl_0 [simp]: "fl 0 = 0"
  by (simp add: fl_def)

lemma fl_minus: "fl (- q) = - fl q"
  by (simp add: fl_def)

text \<open>A rational with a 53-bit significand and an exponent in range is its own rounding.\<close>

lemma fl_pos_exact:
  assumes "0 < m" and "m \<le> 2 ^ 53" and "- 1074 \<le> e"
  shows "fl_pos (of_int m * 2 powi e) = of_int m * 2 powi e"
proof -
  let ?q = "of_int m * 2 powi e :: rat"
  have pos: "0 < ?q" using assms(1) by simp
  show ?thesis
  proof (cases "ulp_exp ?q \<le> e")
    case True
    have "?q / 2 powi ulp_exp ?q = of_int m * 2 powi (e - ulp_exp ?q)"
      by (simp add: power_int_diff)
    also have "\<dots> = of_int (m * 2 ^ nat (e - ulp_exp ?q))"
      using True by (simp add: power_int_def)
    finally have "round_even (?q / 2 powi ulp_exp ?q) = m * 2 ^ nat (e - ulp_exp ?q)"
      by (simp only: round_even_of_int)
    then have "fl_pos ?q = of_int m * (2 powi (e - ulp_exp ?q) * 2 powi ulp_exp ?q)"
      using True by (simp add: fl_pos_eq power_int_def)
    then show ?thesis by (simp flip: power_int_add)
  next
    case False
    then have e: "e < rat_log2 ?q - 52" using assms(3) by (simp add: ulp_exp_def)
    have "(of_int m :: rat) \<le> of_int (2 ^ 53)" using assms(2) by (simp only: of_int_le_iff)
    then have le: "?q \<le> 2 powi (e + 53)" by (simp add: power_int_add mult.commute)
    have ge: "2 powi rat_log2 ?q \<le> ?q" using rat_log2_bounds(1) [OF pos] .
    have L: "rat_log2 ?q = e + 53"
    proof (rule ccontr)
      assume "rat_log2 ?q \<noteq> e + 53"
      with e have "(2::rat) powi (e + 53) < 2 powi rat_log2 ?q"
        by (intro power_int_strict_increasing) auto
      with le ge show False by linarith
    qed
    then have u: "ulp_exp ?q = e + 1" using assms(3) by (simp add: ulp_exp_def)
    from L le ge have q: "?q = 2 powi (e + 53)" by simp
    have "?q / 2 powi ulp_exp ?q = of_int (2 ^ 52)"
      unfolding u by (subst q) (simp add: power_int_add)
    then have "round_even (?q / 2 powi ulp_exp ?q) = 2 ^ 52"
      by (simp only: round_even_of_int)
    then have "fl_pos ?q = 2 ^ 52 * 2 powi (e + 1)"
      by (simp add: fl_pos_eq u)
    also have "\<dots> = ?q" unfolding q by (simp add: power_int_add)
    finally show ?thesis .
  qed
qed

lemma fl_idem: "fl (fl q) = fl q"
proof -
  have pos: "fl_pos (fl_pos q) = fl_pos q" if q: "0 < q" and nz: "fl_pos q \<noteq> 0" for q
  proof -
    let ?m = "round_even (q / 2 powi ulp_exp q)"
    have fq: "fl_pos q = of_int ?m * 2 powi ulp_exp q" by (simp add: fl_pos_eq)
    have "0 \<le> ?m" using q by (intro round_even_ge) simp
    with nz fq have "0 < ?m" by (cases "?m = 0") auto
    moreover have "?m \<le> 2 ^ 53"
    proof -
      have "of_int ?m * 2 powi ulp_exp q \<le> of_int (2 ^ 53) * (2::rat) powi ulp_exp q"
        using fl_pos_upper [OF q] by (simp add: fq power_int_add mult.commute)
      then have "(of_int ?m :: rat) \<le> of_int (2 ^ 53)"
        by (simp only: mult_le_cancel_right_pos zero_less_power_int zero_less_numeral)
      then show ?thesis by (simp only: of_int_le_iff)
    qed
    moreover have "- 1074 \<le> ulp_exp q" by (simp add: ulp_exp_def)
    ultimately show ?thesis unfolding fq by (rule fl_pos_exact)
  qed
  show ?thesis
    using pos [of q] pos [of "- q"] fl_pos_nonneg [of q] fl_pos_nonneg [of "- q"]
    by (auto simp: fl_def)
qed

lemma fl_int: "\<bar>n\<bar> \<le> 2 ^ 53 \<Longrightarrow> fl (of_int n) = of_int n"
  using fl_pos_exact [of n 0] fl_pos_exact [of "- n" 0] by (auto simp: fl_def)


subsection \<open>The values and their operations\<close>

datatype f64 = Fin rat | PInf | NInf | NaN

definition huge :: "rat \<Rightarrow> bool" where
  "huge r \<longleftrightarrow> r \<noteq> 0 \<and> 1024 \<le> rat_log2 \<bar>r\<bar>"

definition f64_of :: "rat \<Rightarrow> f64" where
  "f64_of q = (let r = fl q in
     if huge r then (if 0 < r then PInf else NInf) else Fin r)"

lemma not_huge_0 [simp]: "\<not> huge 0"
  by (simp add: huge_def)

lemma huge_iff: "huge r \<longleftrightarrow> (2::rat) ^ 1024 \<le> \<bar>r\<bar>"
proof (cases "r = 0")
  case True
  then show ?thesis by (simp add: huge_def)
next
  case False
  then have b: "2 powi rat_log2 \<bar>r\<bar> \<le> \<bar>r\<bar>" "\<bar>r\<bar> < 2 powi (rat_log2 \<bar>r\<bar> + 1)"
    using rat_log2_bounds [of "\<bar>r\<bar>"] by simp_all
  have two: "(2::rat) ^ 1024 = 2 powi 1024" by (simp add: power_int_def)
  show ?thesis
  proof
    assume "huge r"
    then have "(2::rat) powi 1024 \<le> 2 powi rat_log2 \<bar>r\<bar>"
      by (intro power_int_increasing) (auto simp: huge_def)
    with b show "(2::rat) ^ 1024 \<le> \<bar>r\<bar>" unfolding two by linarith
  next
    assume ge: "(2::rat) ^ 1024 \<le> \<bar>r\<bar>"
    show "huge r"
    proof (rule ccontr)
      assume "\<not> huge r"
      with False have "(2::rat) powi (rat_log2 \<bar>r\<bar> + 1) \<le> 2 powi 1024"
        by (intro power_int_increasing) (auto simp: huge_def)
      with b ge show False unfolding two by linarith
    qed
  qed
qed

fun fneg :: "f64 \<Rightarrow> f64" where
  "fneg (Fin a) = Fin (- a)"
| "fneg PInf = NInf"
| "fneg NInf = PInf"
| "fneg NaN = NaN"

fun fadd :: "f64 \<Rightarrow> f64 \<Rightarrow> f64" where
  "fadd (Fin a) (Fin b) = f64_of (a + b)"
| "fadd NaN y = NaN"
| "fadd x NaN = NaN"
| "fadd PInf NInf = NaN"
| "fadd NInf PInf = NaN"
| "fadd PInf y = PInf"
| "fadd x PInf = PInf"
| "fadd NInf y = NInf"
| "fadd x NInf = NInf"

definition fsub :: "f64 \<Rightarrow> f64 \<Rightarrow> f64" where
  "fsub x y = fadd x (fneg y)"

text \<open>The sign of a value, \<open>0\<close> for a zero and for NaN.\<close>

fun fsgn :: "f64 \<Rightarrow> int" where
  "fsgn (Fin a) = (if a = 0 then 0 else if a < 0 then - 1 else 1)"
| "fsgn PInf = 1"
| "fsgn NInf = - 1"
| "fsgn NaN = 0"

definition finf :: "int \<Rightarrow> f64" where
  "finf s = (if s = 0 then NaN else if s < 0 then NInf else PInf)"

fun fmul :: "f64 \<Rightarrow> f64 \<Rightarrow> f64" where
  "fmul (Fin a) (Fin b) = f64_of (a * b)"
| "fmul NaN y = NaN"
| "fmul x NaN = NaN"
| "fmul x y = finf (fsgn x * fsgn y)"

fun fdiv :: "f64 \<Rightarrow> f64 \<Rightarrow> f64" where
  "fdiv (Fin a) (Fin b) = (if b = 0 then finf (fsgn (Fin a)) else f64_of (a / b))"
| "fdiv NaN y = NaN"
| "fdiv x NaN = NaN"
| "fdiv (Fin a) y = Fin 0"
| "fdiv x (Fin b) = finf (fsgn x * (if b < 0 then - 1 else 1))"
| "fdiv x y = NaN"

fun flt :: "f64 \<Rightarrow> f64 \<Rightarrow> bool" where
  "flt (Fin a) (Fin b) = (a < b)"
| "flt NaN y = False"
| "flt x NaN = False"
| "flt NInf y = (y \<noteq> NInf)"
| "flt x NInf = False"
| "flt PInf y = False"
| "flt x PInf = True"

fun feq :: "f64 \<Rightarrow> f64 \<Rightarrow> bool" where
  "feq NaN y = False"
| "feq x y = (x = y)"

definition fle :: "f64 \<Rightarrow> f64 \<Rightarrow> bool" where
  "fle x y \<longleftrightarrow> flt x y \<or> feq x y"

text \<open>\<open>math.Round\<close>: half away from zero.\<close>

fun fround :: "f64 \<Rightarrow> f64" where
  "fround (Fin a) = f64_of (of_int (if 0 \<le> a then \<lfloor>a + 1 / 2\<rfloor> else - \<lfloor>1 / 2 - a\<rfloor>))"
| "fround x = x"

fun fmin :: "f64 \<Rightarrow> f64 \<Rightarrow> f64" where
  "fmin NaN y = NaN"
| "fmin x NaN = NaN"
| "fmin x y = (if flt y x then y else x)"

text \<open>A value a \<open>float64\<close> variable can hold.\<close>

fun is_f64 :: "f64 \<Rightarrow> bool" where
  "is_f64 (Fin a) \<longleftrightarrow> fl a = a \<and> \<not> huge a"
| "is_f64 x \<longleftrightarrow> True"

lemma is_f64_of [simp, intro]: "is_f64 (f64_of q)"
  by (auto simp: f64_of_def Let_def fl_idem)

lemma is_f64_finf [simp]: "is_f64 (finf s)"
  by (simp add: finf_def)

lemma is_f64_fadd [simp, intro]: "is_f64 x \<Longrightarrow> is_f64 y \<Longrightarrow> is_f64 (fadd x y)"
  by (cases x; cases y) simp_all

lemma is_f64_fmul [simp, intro]: "is_f64 x \<Longrightarrow> is_f64 y \<Longrightarrow> is_f64 (fmul x y)"
  by (cases x; cases y) simp_all

lemma is_f64_fdiv [simp, intro]: "is_f64 x \<Longrightarrow> is_f64 y \<Longrightarrow> is_f64 (fdiv x y)"
  by (cases x; cases y) simp_all

lemma fl_bounds_int:
  assumes "of_int m \<le> q" and "q \<le> of_int n" and "\<bar>m\<bar> \<le> 2 ^ 53" and "\<bar>n\<bar> \<le> 2 ^ 53"
  shows "of_int m \<le> fl q" and "fl q \<le> of_int n"
  using fl_mono [OF assms(1)] fl_mono [OF assms(2)] fl_int [OF assms(3)] fl_int [OF assms(4)]
  by simp_all

text \<open>No overflow: a rational between two integers of at most 53 bits rounds to a finite value
  between them.\<close>

lemma f64_of_between:
  assumes "of_int m \<le> q" and "q \<le> of_int n" and "\<bar>m\<bar> \<le> 2 ^ 53" and "\<bar>n\<bar> \<le> 2 ^ 53"
  shows "f64_of q = Fin (fl q)"
proof -
  have "of_int m \<le> fl q" "fl q \<le> of_int n" using fl_bounds_int [OF assms] .
  moreover have "(of_int n :: rat) \<le> of_int (2 ^ 53)" "of_int (- (2 ^ 53)) \<le> (of_int m :: rat)"
    using assms(3,4) by (simp_all only: of_int_le_iff abs_le_iff) linarith
  moreover have "(2::rat) ^ 53 < 2 ^ 1024" by (rule power_strict_increasing) auto
  ultimately have "\<bar>fl q\<bar> < 2 ^ 1024" by (auto simp: abs_less_iff)
  then show ?thesis by (simp add: f64_of_def Let_def huge_iff)
qed

lemma f64_of_int: "\<bar>n\<bar> \<le> 2 ^ 53 \<Longrightarrow> f64_of (of_int n) = Fin (of_int n)"
  using f64_of_between [of n "of_int n" n] fl_int [of n] by simp

lemma flt_irrefl [simp]: "\<not> flt x x"
  by (cases x) auto

lemma flt_trans: "flt x y \<Longrightarrow> flt y z \<Longrightarrow> flt x z"
  by (cases x; cases y; cases z) auto

lemma flt_asym: "flt x y \<Longrightarrow> \<not> flt y x"
  by (cases x; cases y) auto

lemma fle_Fin [simp]: "fle (Fin a) (Fin b) \<longleftrightarrow> a \<le> b"
  by (auto simp: fle_def)

lemma flt_NaN_right [simp]: "\<not> flt x NaN"
  by (cases x) auto

lemma fl_zero_lit [simp]: "f64_of 0 = Fin 0"
  by (simp add: f64_of_def huge_def)

end
