(* ===== verification/Unicode.thy ===== *)
theory Unicode
  imports Main
begin

section \<open>Unicode character properties\<close>

text \<open>
  The part of Go's \<open>unicode\<close> package (Unicode 15.0.0, as shipped with the Go version that
  \<open>src/go.mod\<close> names) that the program uses: \<open>IsSpace\<close>, \<open>IsControl\<close>, \<open>IsDigit\<close>, the category
  \<open>Cf\<close>, \<open>ToLower\<close> and simple case folding. A rune is a code point, an \<open>int\<close>.

  A case range \<open>(lo, hi, stride, delta)\<close> maps \<open>lo, lo + stride, ...\<close> up to \<open>hi\<close> to the code
  point \<open>delta\<close> away, as the entries of \<open>unicode.CaseRanges\<close> do.
\<close>

type_synonym rune = int
type_synonym case_range = "int \<times> int \<times> int \<times> int"

fun shift_in :: "case_range list \<Rightarrow> rune \<Rightarrow> rune option" where
  "shift_in [] r = None"
| "shift_in ((lo, hi, st, d) # rs) r =
     (if lo \<le> r \<and> r \<le> hi \<and> (r - lo) mod st = 0 then Some (r + d) else shift_in rs r)"

fun in_ranges :: "(int \<times> int) list \<Rightarrow> rune \<Rightarrow> bool" where
  "in_ranges [] r \<longleftrightarrow> False"
| "in_ranges ((lo, hi) # rs) r \<longleftrightarrow> lo \<le> r \<and> r \<le> hi \<or> in_ranges rs r"

definition lower_ranges :: "case_range list" where
  "lower_ranges =
    [(192, 214, 1, 32), (216, 222, 1, 32), (256, 302, 2, 1), (304, 304, 2, - 199),
     (306, 310, 2, 1), (313, 327, 2, 1), (330, 374, 2, 1), (376, 376, 2, - 121),
     (377, 381, 2, 1), (385, 385, 2, 210), (386, 388, 2, 1), (390, 390, 2, 206),
     (391, 391, 2, 1), (393, 394, 1, 205), (395, 395, 2, 1), (398, 398, 2, 79),
     (399, 399, 2, 202), (400, 400, 2, 203), (401, 401, 2, 1), (403, 403, 2, 205),
     (404, 404, 2, 207), (406, 406, 2, 211), (407, 407, 2, 209), (408, 408, 2, 1),
     (412, 412, 2, 211), (413, 413, 2, 213), (415, 415, 2, 214), (416, 420, 2, 1),
     (422, 422, 2, 218), (423, 423, 2, 1), (425, 425, 2, 218), (428, 428, 2, 1),
     (430, 430, 2, 218), (431, 431, 2, 1), (433, 434, 1, 217), (435, 437, 2, 1),
     (439, 439, 2, 219), (440, 440, 2, 1), (444, 444, 2, 1), (452, 452, 2, 2),
     (453, 453, 2, 1), (455, 455, 2, 2), (456, 456, 2, 1), (458, 458, 2, 2), (459, 475, 2, 1),
     (478, 494, 2, 1), (497, 497, 2, 2), (498, 500, 2, 1), (502, 502, 2, - 97),
     (503, 503, 2, - 56), (504, 542, 2, 1), (544, 544, 2, - 130), (546, 562, 2, 1),
     (570, 570, 2, 10795), (571, 571, 2, 1), (573, 573, 2, - 163), (574, 574, 2, 10792),
     (577, 577, 2, 1), (579, 579, 2, - 195), (580, 580, 2, 69), (581, 581, 2, 71),
     (582, 590, 2, 1), (880, 882, 2, 1), (886, 886, 2, 1), (895, 895, 2, 116),
     (902, 902, 2, 38), (904, 906, 1, 37), (908, 908, 2, 64), (910, 911, 1, 63),
     (913, 929, 1, 32), (931, 939, 1, 32), (975, 975, 2, 8), (984, 1006, 2, 1),
     (1012, 1012, 2, - 60), (1015, 1015, 2, 1), (1017, 1017, 2, - 7), (1018, 1018, 2, 1),
     (1021, 1023, 1, - 130), (1024, 1039, 1, 80), (1040, 1071, 1, 32), (1120, 1152, 2, 1),
     (1162, 1214, 2, 1), (1216, 1216, 2, 15), (1217, 1229, 2, 1), (1232, 1326, 2, 1),
     (1329, 1366, 1, 48), (4256, 4293, 1, 7264), (4295, 4295, 2, 7264), (4301, 4301, 2, 7264),
     (5024, 5103, 1, 38864), (5104, 5109, 1, 8), (7312, 7354, 1, - 3008),
     (7357, 7359, 1, - 3008), (7680, 7828, 2, 1), (7838, 7838, 2, - 7615), (7840, 7934, 2, 1),
     (7944, 7951, 1, - 8), (7960, 7965, 1, - 8), (7976, 7983, 1, - 8), (7992, 7999, 1, - 8),
     (8008, 8013, 1, - 8), (8025, 8031, 2, - 8), (8040, 8047, 1, - 8), (8072, 8079, 1, - 8),
     (8088, 8095, 1, - 8), (8104, 8111, 1, - 8), (8120, 8121, 1, - 8), (8122, 8123, 1, - 74),
     (8124, 8124, 2, - 9), (8136, 8139, 1, - 86), (8140, 8140, 2, - 9), (8152, 8153, 1, - 8),
     (8154, 8155, 1, - 100), (8168, 8169, 1, - 8), (8170, 8171, 1, - 112),
     (8172, 8172, 2, - 7), (8184, 8185, 1, - 128), (8186, 8187, 1, - 126),
     (8188, 8188, 2, - 9), (8486, 8486, 2, - 7517), (8490, 8490, 2, - 8383),
     (8491, 8491, 2, - 8262), (8498, 8498, 2, 28), (8544, 8559, 1, 16), (8579, 8579, 2, 1),
     (9398, 9423, 1, 26), (11264, 11311, 1, 48), (11360, 11360, 2, 1),
     (11362, 11362, 2, - 10743), (11363, 11363, 2, - 3814), (11364, 11364, 2, - 10727),
     (11367, 11371, 2, 1), (11373, 11373, 2, - 10780), (11374, 11374, 2, - 10749),
     (11375, 11375, 2, - 10783), (11376, 11376, 2, - 10782), (11378, 11378, 2, 1),
     (11381, 11381, 2, 1), (11390, 11391, 1, - 10815), (11392, 11490, 2, 1),
     (11499, 11501, 2, 1), (11506, 11506, 2, 1), (42560, 42604, 2, 1), (42624, 42650, 2, 1),
     (42786, 42798, 2, 1), (42802, 42862, 2, 1), (42873, 42875, 2, 1),
     (42877, 42877, 2, - 35332), (42878, 42886, 2, 1), (42891, 42891, 2, 1),
     (42893, 42893, 2, - 42280), (42896, 42898, 2, 1), (42902, 42920, 2, 1),
     (42922, 42922, 2, - 42308), (42923, 42923, 2, - 42319), (42924, 42924, 2, - 42315),
     (42925, 42925, 2, - 42305), (42926, 42926, 2, - 42308), (42928, 42928, 2, - 42258),
     (42929, 42929, 2, - 42282), (42930, 42930, 2, - 42261), (42931, 42931, 2, 928),
     (42932, 42946, 2, 1), (42948, 42948, 2, - 48), (42949, 42949, 2, - 42307),
     (42950, 42950, 2, - 35384), (42951, 42953, 2, 1), (42960, 42960, 2, 1),
     (42966, 42968, 2, 1), (42997, 42997, 2, 1), (65313, 65338, 1, 32), (66560, 66599, 1, 40),
     (66736, 66771, 1, 40), (66928, 66938, 1, 39), (66940, 66954, 1, 39),
     (66956, 66962, 1, 39), (66964, 66965, 1, 39), (68736, 68786, 1, 64),
     (71840, 71871, 1, 32), (93760, 93791, 1, 32), (125184, 125217, 1, 34)]"

text \<open>Code points whose simple case folding is not their lower case.\<close>

definition fold_exceptions :: "case_range list" where
  "fold_exceptions =
    [(181, 181, 2, 775), (383, 383, 2, - 268), (837, 837, 2, 116), (962, 962, 2, 1),
     (976, 976, 2, - 30), (977, 977, 2, - 25), (981, 981, 2, - 15), (982, 982, 2, - 22),
     (1008, 1008, 2, - 54), (1009, 1009, 2, - 48), (1013, 1013, 2, - 64), (5024, 5109, 1, 0),
     (5112, 5117, 1, - 8), (7296, 7296, 2, - 6222), (7297, 7297, 2, - 6221),
     (7298, 7298, 2, - 6212), (7299, 7300, 1, - 6210), (7301, 7301, 2, - 6211),
     (7302, 7302, 2, - 6204), (7303, 7303, 2, - 6180), (7304, 7304, 2, 35267),
     (7835, 7835, 2, - 58), (8126, 8126, 2, - 7173), (43888, 43967, 1, - 38864)]"

definition format_ranges :: "(int \<times> int) list" where
  "format_ranges =
    [(173, 173), (1536, 1541), (1564, 1564), (1757, 1757), (1807, 1807), (2192, 2193),
     (2274, 2274), (6158, 6158), (8203, 8207), (8234, 8238), (8288, 8292), (8294, 8303),
     (65279, 65279), (65529, 65531), (69821, 69821), (69837, 69837), (78896, 78911),
     (113824, 113827), (119155, 119162), (917505, 917505), (917536, 917631)]"

definition digit_ranges :: "(int \<times> int) list" where
  "digit_ranges =
    [(48, 57), (1632, 1641), (1776, 1785), (1984, 1993), (2406, 2415), (2534, 2543),
     (2662, 2671), (2790, 2799), (2918, 2927), (3046, 3055), (3174, 3183), (3302, 3311),
     (3430, 3439), (3558, 3567), (3664, 3673), (3792, 3801), (3872, 3881), (4160, 4169),
     (4240, 4249), (6112, 6121), (6160, 6169), (6470, 6479), (6608, 6617), (6784, 6793),
     (6800, 6809), (6992, 7001), (7088, 7097), (7232, 7241), (7248, 7257), (42528, 42537),
     (43216, 43225), (43264, 43273), (43472, 43481), (43504, 43513), (43600, 43609),
     (44016, 44025), (65296, 65305), (66720, 66729), (68912, 68921), (69734, 69743),
     (69872, 69881), (69942, 69951), (70096, 70105), (70384, 70393), (70736, 70745),
     (70864, 70873), (71248, 71257), (71360, 71369), (71472, 71481), (71904, 71913),
     (72016, 72025), (72784, 72793), (73040, 73049), (73120, 73129), (73552, 73561),
     (92768, 92777), (92864, 92873), (93008, 93017), (120782, 120831), (123200, 123209),
     (123632, 123641), (124144, 124153), (125264, 125273), (130032, 130041)]"

definition unicode_ToLower :: "rune \<Rightarrow> rune" where
  "unicode_ToLower r =
     (if r < 128 then (if 65 \<le> r \<and> r \<le> 90 then r + 32 else r)
      else case shift_in lower_ranges r of None \<Rightarrow> r | Some r' \<Rightarrow> r')"

definition unicode_IsSpace :: "rune \<Rightarrow> bool" where
  "unicode_IsSpace r \<longleftrightarrow>
     (if r \<le> 255 then r \<in> {9, 10, 11, 12, 13, 32, 133, 160}
      else r = 5760 \<or> 8192 \<le> r \<and> r \<le> 8202 \<or> r \<in> {8232, 8233, 8239, 8287, 12288})"

definition unicode_IsControl :: "rune \<Rightarrow> bool" where
  "unicode_IsControl r \<longleftrightarrow> 0 \<le> r \<and> r < 32 \<or> 127 \<le> r \<and> r < 160"

definition unicode_Cf :: "rune \<Rightarrow> bool" where
  "unicode_Cf r \<longleftrightarrow> in_ranges format_ranges r"

definition unicode_IsDigit :: "rune \<Rightarrow> bool" where
  "unicode_IsDigit r \<longleftrightarrow> (if r \<le> 255 then 48 \<le> r \<and> r \<le> 57 else in_ranges digit_ranges r)"

text \<open>
  \<open>unicode.SimpleFold\<close> walks the orbit of the runes that fold to the same rune; two runes are
  in one orbit iff \<open>simple_fold\<close> maps them to the same rune.
\<close>

definition simple_fold :: "rune \<Rightarrow> rune" where
  "simple_fold r =
     (if r < 128 then unicode_ToLower r
      else case shift_in fold_exceptions r of None \<Rightarrow> unicode_ToLower r | Some r' \<Rightarrow> r')"

subsection \<open>What lower-casing keeps\<close>

text \<open>
  White space and the separators of the program's tokenizers and of e-mail addresses have no
  case: no case range meets one of these runes and none maps onto one.
\<close>

definition space_runes :: "rune list" where
  "space_runes = [9, 10, 11, 12, 13, 32, 133, 160, 5760, 8192, 8193, 8194, 8195, 8196, 8197, 8198,
     8199, 8200, 8201, 8202, 8232, 8233, 8239, 8287, 12288]"

definition caseless_runes :: "rune list" where
  "caseless_runes = [44, 46, 47, 59, 64] @ space_runes"

definition avoids :: "case_range list \<Rightarrow> rune list \<Rightarrow> bool" where
  "avoids rs xs \<longleftrightarrow> list_all (\<lambda>(lo, hi, st, d).
     list_all (\<lambda>x. (hi < x \<or> x < lo) \<and> (hi + d < x \<or> x < lo + d)) xs) rs"

lemma shift_in_cases:
  "shift_in rs r = Some r' \<Longrightarrow>
     \<exists>(lo, hi, st, d) \<in> set rs. lo \<le> r \<and> r \<le> hi \<and> r' = r + d"
  by (induction rs r rule: shift_in.induct) (auto split: if_splits)

lemma avoids_shift_in:
  "avoids rs xs \<Longrightarrow> shift_in rs r = Some r' \<Longrightarrow> r \<notin> set xs \<and> r' \<notin> set xs"
  by (drule shift_in_cases) (fastforce simp: avoids_def list_all_iff)

lemma lower_ranges_avoid: "avoids lower_ranges caseless_runes"
  by code_simp

lemma unicode_IsSpace_iff: "unicode_IsSpace r \<longleftrightarrow> r \<in> set space_runes"
  by (auto simp: unicode_IsSpace_def space_runes_def) presburger

lemma unicode_ToLower_caseless:
  assumes "x \<in> set caseless_runes"
  shows "unicode_ToLower r = x \<longleftrightarrow> r = x"
proof (cases "r < 128")
  case True
  with assms show ?thesis
    by (auto simp: unicode_ToLower_def caseless_runes_def space_runes_def)
next
  case False
  with assms show ?thesis
    by (auto simp: unicode_ToLower_def split: option.splits
        dest: avoids_shift_in [OF lower_ranges_avoid])
qed

lemma unicode_IsSpace_ToLower [simp]: "unicode_IsSpace (unicode_ToLower r) = unicode_IsSpace r"
proof -
  have "unicode_ToLower r \<in> set space_runes \<longleftrightarrow> (\<exists>x \<in> set space_runes. unicode_ToLower r = x)"
    by blast
  also have "\<dots> \<longleftrightarrow> (\<exists>x \<in> set space_runes. r = x)"
    by (intro bex_cong refl unicode_ToLower_caseless) (simp only: caseless_runes_def set_append, blast)
  finally show ?thesis unfolding unicode_IsSpace_iff by blast
qed

end
