(* ===== verification/Go_Prelude.thy ===== *)
theory Go_Prelude
  imports Float64 Unicode "HOL-Library.Sublist" "HOL-Library.AList" "HOL-Library.Multiset"
    "HOL-Library.Signed_Division"
begin

section \<open>Shared vocabulary of the model\<close>

text \<open>
  Strings, machine integers, slices, errors, sorting and effects of the Go language and its
  standard library, as far as the program uses them, with the generic lemmas the component
  theories share. The collection \<open>go_str\<close> holds the rewrite rules on strings, \<open>io_simps\<close>
  those on effectful calls.
\<close>

named_theorems go_str \<open>rewrite rules on strings\<close>
named_theorems io_simps \<open>rewrite rules on effectful calls\<close>

subsection \<open>Strings\<close>

text \<open>
  A string is the list of its runes. Every string that reaches the modelled code is valid UTF-8
  (protobuf and JSON decoding guarantee it), so the list determines the bytes;
  \<open>len(s)\<close> is the length of the UTF-8 encoding, \<open>len([]rune(s))\<close> is \<open>length\<close>.
\<close>

type_synonym gostr = "rune list"

definition lit :: "string \<Rightarrow> gostr" where
  "lit s = map of_char s"

definition rune_width :: "rune \<Rightarrow> int" where
  "rune_width r = (if r < 128 then 1 else if r < 2048 then 2 else if r < 65536 then 3 else 4)"

definition byte_len :: "gostr \<Rightarrow> int" where
  "byte_len s = sum_list (map rune_width s)"

definition rune_count :: "gostr \<Rightarrow> int" where
  "rune_count s = int (length s)"

definition strings_ToLower :: "gostr \<Rightarrow> gostr" where
  "strings_ToLower s = map unicode_ToLower s"

definition strings_TrimSpace :: "gostr \<Rightarrow> gostr" where
  "strings_TrimSpace s = rev (dropWhile unicode_IsSpace (rev (dropWhile unicode_IsSpace s)))"

function strings_FieldsFunc :: "(rune \<Rightarrow> bool) \<Rightarrow> gostr \<Rightarrow> gostr list" where
  "strings_FieldsFunc p s = (case dropWhile p s of [] \<Rightarrow> []
     | c # cs \<Rightarrow> (c # takeWhile (\<lambda>r. \<not> p r) cs) # strings_FieldsFunc p (dropWhile (\<lambda>r. \<not> p r) cs))"
  by pat_completeness auto
termination
proof (relation "measure (\<lambda>(p, s). length s)", goal_cases)
  case (2 p s c cs)
  have "length (dropWhile (\<lambda>r. \<not> p r) cs) \<le> length cs" by (rule length_dropWhile_le)
  moreover have "length (dropWhile p s) \<le> length s" by (rule length_dropWhile_le)
  ultimately show ?case using 2 by simp
qed simp

declare strings_FieldsFunc.simps [simp del]

definition strings_Fields :: "gostr \<Rightarrow> gostr list" where
  "strings_Fields = strings_FieldsFunc unicode_IsSpace"

fun strings_HasPrefix :: "gostr \<Rightarrow> gostr \<Rightarrow> bool" where
  "strings_HasPrefix s [] \<longleftrightarrow> True"
| "strings_HasPrefix [] (p # ps) \<longleftrightarrow> False"
| "strings_HasPrefix (c # cs) (p # ps) \<longleftrightarrow> c = p \<and> strings_HasPrefix cs ps"

fun strings_Contains :: "gostr \<Rightarrow> gostr \<Rightarrow> bool" where
  "strings_Contains [] sub \<longleftrightarrow> sub = []"
| "strings_Contains (c # cs) sub \<longleftrightarrow> strings_HasPrefix (c # cs) sub \<or> strings_Contains cs sub"

fun strings_Join :: "gostr list \<Rightarrow> gostr \<Rightarrow> gostr" where
  "strings_Join [] sep = []"
| "strings_Join [x] sep = x"
| "strings_Join (x # xs) sep = x @ sep @ strings_Join xs sep"

definition strings_EqualFold :: "gostr \<Rightarrow> gostr \<Rightarrow> bool" where
  "strings_EqualFold s t \<longleftrightarrow> map simple_fold s = map simple_fold t"

lemma strings_HasPrefix_iff: "strings_HasPrefix s p \<longleftrightarrow> prefix p s"
  by (induction s p rule: strings_HasPrefix.induct) auto

lemma strings_Contains_iff: "strings_Contains s sub \<longleftrightarrow> sublist sub s"
  by (induction s sub rule: strings_Contains.induct)
    (auto simp: strings_HasPrefix_iff sublist_Cons_right)

lemma lit_simps [simp]: "lit [] = []" "lit (c # cs) = of_char c # lit cs"
  by (simp_all add: lit_def)

lemma byte_len_simps [simp]: "byte_len [] = 0" "byte_len (c # cs) = rune_width c + byte_len cs"
  by (simp_all add: byte_len_def)

lemma rune_width_pos: "1 \<le> rune_width r" "rune_width r \<le> 4"
  by (simp_all add: rune_width_def)

lemma byte_len_ge: "rune_count s \<le> byte_len s"
  by (induction s) (use rune_width_pos in \<open>auto simp: rune_count_def add_mono\<close>)

text \<open>Trimming.\<close>

lemma TrimSpace_Nil_iff [go_str]: "strings_TrimSpace s = [] \<longleftrightarrow> (\<forall>c \<in> set s. unicode_IsSpace c)"
proof
  assume "strings_TrimSpace s = []"
  then have all: "\<forall>c \<in> set (dropWhile unicode_IsSpace s). unicode_IsSpace c"
    by (simp add: strings_TrimSpace_def dropWhile_eq_Nil_conv)
  then have "dropWhile unicode_IsSpace s = []"
    using hd_dropWhile [of unicode_IsSpace s] list.set_sel(1) by blast
  then show "\<forall>c \<in> set s. unicode_IsSpace c" by (simp add: dropWhile_eq_Nil_conv)
next
  assume "\<forall>c \<in> set s. unicode_IsSpace c"
  then have "dropWhile unicode_IsSpace s = []" by simp
  then show "strings_TrimSpace s = []" by (simp only: strings_TrimSpace_def) simp
qed

definition trimmed :: "gostr \<Rightarrow> bool" where
  "trimmed s \<longleftrightarrow> s = [] \<or> \<not> unicode_IsSpace (hd s) \<and> \<not> unicode_IsSpace (last s)"

lemma TrimSpace_id: "trimmed s \<Longrightarrow> strings_TrimSpace s = s"
proof (cases s)
  case (Cons c cs)
  assume t: "trimmed s"
  with Cons have "dropWhile unicode_IsSpace s = s" by (simp add: trimmed_def)
  moreover have "dropWhile unicode_IsSpace (rev s) = rev s"
    using t Cons by (cases "rev s") (auto simp: trimmed_def last_rev hd_rev simp flip: hd_rev)
  ultimately show ?thesis by (simp add: strings_TrimSpace_def)
qed (simp add: strings_TrimSpace_def)

lemma last_dropWhile: "dropWhile P xs \<noteq> [] \<Longrightarrow> last (dropWhile P xs) = last xs"
  by (metis dropWhile_eq_Nil_conv last_appendR takeWhile_dropWhile_id)

lemma TrimSpace_trimmed [simp]: "trimmed (strings_TrimSpace s)"
proof (cases "strings_TrimSpace s = []")
  case False
  let ?d = "dropWhile unicode_IsSpace s"
  let ?e = "dropWhile unicode_IsSpace (rev ?d)"
  have e: "?e \<noteq> []" using False unfolding strings_TrimSpace_def by blast
  have d: "?d \<noteq> []"
  proof
    assume "?d = []"
    then have "?e = []" by (simp only:) simp
    with e show False by contradiction
  qed
  have "last (rev ?e) = hd ?e" using e by (simp add: last_rev)
  then have "\<not> unicode_IsSpace (last (rev ?e))" using hd_dropWhile [OF e] by simp
  moreover have "hd (rev ?e) = hd ?d"
    using last_dropWhile [OF e] e d by (simp add: hd_rev last_rev)
  then have "\<not> unicode_IsSpace (hd (rev ?e))" using hd_dropWhile [OF d] by simp
  ultimately show ?thesis by (simp add: trimmed_def strings_TrimSpace_def)
qed (simp add: trimmed_def)

lemma TrimSpace_idem [simp]: "strings_TrimSpace (strings_TrimSpace s) = strings_TrimSpace s"
  by (simp add: TrimSpace_id)

lemma set_TrimSpace: "set (strings_TrimSpace s) \<subseteq> set s"
  by (auto simp: strings_TrimSpace_def dest!: set_dropWhileD)

lemma length_TrimSpace: "length (strings_TrimSpace s) \<le> length s"
  using length_dropWhile_le [of unicode_IsSpace s]
    length_dropWhile_le [of unicode_IsSpace "rev (dropWhile unicode_IsSpace s)"]
  by (simp add: strings_TrimSpace_def)

lemma IsSpace_comp_ToLower [simp]: "unicode_IsSpace \<circ> unicode_ToLower = unicode_IsSpace"
  by (simp add: fun_eq_iff)

lemma TrimSpace_ToLower [go_str]:
  "strings_TrimSpace (strings_ToLower s) = strings_ToLower (strings_TrimSpace s)"
  by (simp add: strings_TrimSpace_def strings_ToLower_def dropWhile_map rev_map)

lemma ToLower_Nil_iff [simp]: "strings_ToLower s = [] \<longleftrightarrow> s = []"
  by (simp add: strings_ToLower_def)

text \<open>Splitting.\<close>

lemma FieldsFunc_Nil [simp]: "strings_FieldsFunc p [] = []"
  by (subst strings_FieldsFunc.simps) simp

lemma FieldsFunc_sep [simp]: "p c \<Longrightarrow> strings_FieldsFunc p (c # cs) = strings_FieldsFunc p cs"
  by (subst (1 2) strings_FieldsFunc.simps) simp

lemma FieldsFunc_tok:
  "\<not> p c \<Longrightarrow> strings_FieldsFunc p (c # cs) =
     (c # takeWhile (\<lambda>r. \<not> p r) cs) # strings_FieldsFunc p (dropWhile (\<lambda>r. \<not> p r) cs)"
  by (subst strings_FieldsFunc.simps) simp

lemma FieldsFunc_tokens:
  "t \<in> set (strings_FieldsFunc p s) \<Longrightarrow> t \<noteq> [] \<and> (\<forall>c \<in> set t. \<not> p c) \<and> set t \<subseteq> set s"
proof (induction p s rule: strings_FieldsFunc.induct)
  case (1 p s)
  show ?case
  proof (cases "dropWhile p s")
    case Nil
    with "1.prems" show ?thesis by (simp add: strings_FieldsFunc.simps [of p s])
  next
    case (Cons c cs)
    have sub: "set (c # cs) \<subseteq> set s" using set_dropWhileD [of _ p s] Cons by auto
    have c: "\<not> p c" using Cons hd_dropWhile [of p s] by simp
    from "1.prems" consider "t = c # takeWhile (\<lambda>r. \<not> p r) cs"
      | "t \<in> set (strings_FieldsFunc p (dropWhile (\<lambda>r. \<not> p r) cs))"
      by (auto simp: strings_FieldsFunc.simps [of p s] Cons)
    then show ?thesis
    proof cases
      case 1
      then show ?thesis using sub c by (auto dest: set_takeWhileD)
    next
      case 2
      from "1.IH" [OF Cons 2] sub show ?thesis by (auto dest: set_dropWhileD)
    qed
  qed
qed

lemma takeWhile_map_inv: "p \<circ> f = p \<Longrightarrow> takeWhile (\<lambda>r. \<not> p r) (map f s) = map f (takeWhile (\<lambda>r. \<not> p r) s)"
  by (induction s) (auto simp: fun_eq_iff)

lemma dropWhile_map_inv: "p \<circ> f = p \<Longrightarrow> dropWhile (\<lambda>r. \<not> p r) (map f s) = map f (dropWhile (\<lambda>r. \<not> p r) s)"
  by (induction s) (auto simp: fun_eq_iff)

lemma FieldsFunc_map:
  assumes "p \<circ> f = p"
  shows "strings_FieldsFunc p (map f s) = map (map f) (strings_FieldsFunc p s)"
proof (induction s rule: length_induct)
  case (1 s)
  show ?case
  proof (cases s)
    case (Cons c cs)
    have pc: "p (f c) = p c" using assms by (simp add: fun_eq_iff)
    show ?thesis
    proof (cases "p c")
      case True
      with 1 Cons pc show ?thesis by simp
    next
      case False
      have "length (dropWhile (\<lambda>r. \<not> p r) cs) < length s"
        using Cons length_dropWhile_le [of "\<lambda>r. \<not> p r" cs] by simp
      with 1 have "strings_FieldsFunc p (map f (dropWhile (\<lambda>r. \<not> p r) cs)) =
          map (map f) (strings_FieldsFunc p (dropWhile (\<lambda>r. \<not> p r) cs))" by blast
      with False Cons pc show ?thesis
        by (simp add: FieldsFunc_tok takeWhile_map_inv [OF assms] dropWhile_map_inv [OF assms])
    qed
  qed simp
qed

lemma FieldsFunc_append_sep:
  assumes "p c"
  shows "strings_FieldsFunc p (xs @ c # ys) = strings_FieldsFunc p xs @ strings_FieldsFunc p ys"
proof (induction xs rule: length_induct)
  case (1 xs)
  show ?case
  proof (cases xs)
    case Nil
    with assms show ?thesis by simp
  next
    case (Cons d ds)
    show ?thesis
    proof (cases "p d")
      case True
      with 1 Cons show ?thesis by simp
    next
      case False
      have "length (dropWhile (\<lambda>r. \<not> p r) ds) < length xs"
        using Cons length_dropWhile_le [of "\<lambda>r. \<not> p r" ds] by simp
      with 1 have IH: "strings_FieldsFunc p (dropWhile (\<lambda>r. \<not> p r) ds @ c # ys) =
          strings_FieldsFunc p (dropWhile (\<lambda>r. \<not> p r) ds) @ strings_FieldsFunc p ys" by blast
      have "takeWhile (\<lambda>r. \<not> p r) (ds @ c # ys) = takeWhile (\<lambda>r. \<not> p r) ds"
        using assms by (induction ds) auto
      moreover have "dropWhile (\<lambda>r. \<not> p r) (ds @ c # ys) = dropWhile (\<lambda>r. \<not> p r) ds @ c # ys"
        using assms by (induction ds) auto
      ultimately show ?thesis using False Cons IH by (simp add: FieldsFunc_tok)
    qed
  qed
qed

lemma FieldsFunc_token:
  assumes "t \<noteq> []" and "\<forall>c \<in> set t. \<not> p c"
  shows "strings_FieldsFunc p t = [t]"
proof (cases t)
  case (Cons c cs)
  with assms have c: "\<not> p c" and tw: "takeWhile (\<lambda>r. \<not> p r) cs = cs"
    and dw: "dropWhile (\<lambda>r. \<not> p r) cs = []" by simp_all
  show ?thesis unfolding Cons FieldsFunc_tok [of p, OF c] tw dw by simp
qed (use assms in simp)

lemma FieldsFunc_Join:
  assumes "p c" and "\<forall>t \<in> set ts. t \<noteq> [] \<and> (\<forall>r \<in> set t. \<not> p r)"
  shows "strings_FieldsFunc p (strings_Join ts [c]) = ts"
  using assms(2)
  by (induction ts "[c]" rule: strings_Join.induct)
    (simp_all add: FieldsFunc_token FieldsFunc_append_sep [of p, OF assms(1)])

lemma FieldsFunc_Nil_iff: "strings_FieldsFunc p s = [] \<longleftrightarrow> (\<forall>c \<in> set s. p c)"
proof (induction s)
  case (Cons c cs)
  then show ?case by (cases "p c") (simp_all add: FieldsFunc_tok)
qed simp

subsection \<open>Machine integers and slices\<close>

text \<open>
  \<open>int\<close> and \<open>int64\<close> are 64 bits wide; \<open>wrap64\<close> is the two's complement reading of an exact
  result. A slice expression outside the slice panics, here \<open>None\<close>.
\<close>

definition wrap64 :: "int \<Rightarrow> int" where
  "wrap64 x = (x + 2 ^ 63) mod 2 ^ 64 - 2 ^ 63"

definition int64 :: "int \<Rightarrow> bool" where
  "int64 x \<longleftrightarrow> - (2 ^ 63) \<le> x \<and> x < 2 ^ 63"

lemma wrap64_id: "int64 x \<Longrightarrow> wrap64 x = x"
  by (simp add: wrap64_def int64_def mod_pos_pos_trivial)

lemma int64_wrap64: "int64 (wrap64 x)"
  by (simp add: wrap64_def int64_def)

definition go_slice :: "'a list \<Rightarrow> int \<Rightarrow> int \<Rightarrow> 'a list option" where
  "go_slice xs i j =
     (if 0 \<le> i \<and> i \<le> j \<and> j \<le> int (length xs) then Some (take (nat (j - i)) (drop (nat i) xs)) else None)"

subsection \<open>Time\<close>

text \<open>
  A \<open>time.Time\<close> is its distance in nanoseconds from the zero time, a \<open>time.Duration\<close> an
  \<open>int64\<close> number of nanoseconds; \<open>Sub\<close> saturates.
\<close>

type_synonym time = int
type_synonym duration = int

definition time_IsZero :: "time \<Rightarrow> bool" where
  "time_IsZero t \<longleftrightarrow> t = 0"

definition time_Sub :: "time \<Rightarrow> time \<Rightarrow> duration" where
  "time_Sub t u = max (- (2 ^ 63)) (min (2 ^ 63 - 1) (t - u))"

definition nanosecond :: duration where "nanosecond = 1"
definition second :: duration where "second = 1000000000"
definition minute :: duration where "minute = 60 * second"
definition hour :: duration where "hour = 60 * minute"

lemmas time_units = nanosecond_def second_def minute_def hour_def

subsection \<open>Errors\<close>

text \<open>
  \<open>DomErr\<close> is the domain's \<open>*kernel.Error\<close>: kind, message and optional cause. \<open>PlainErr\<close> is any
  other error value, with the errors it wraps (\<open>fmt.Errorf\<close> with \<open>%w\<close>, \<open>errors.Join\<close>).
  A message is kept as its format string and operands.
\<close>

datatype kind = KindInternal | KindInvalid | KindNotFound | KindConflict | KindUnauthorized
  | KindForbidden | KindTooManyRequests

datatype fmtarg = AStr gostr | AInt int | AFloat f64

datatype go_error =
    DomErr kind string "fmtarg list" "go_error option"
  | PlainErr string "fmtarg list" "go_error list"

type_synonym 'a res = "go_error + 'a"

subsection \<open>Effects\<close>

text \<open>
  A method that talks to its ports is a function of the world they share: it returns a result or
  an error and the world after the call.
\<close>

type_synonym ('w, 'a) io = "'w \<Rightarrow> 'a res \<times> 'w"

definition io_ret :: "'a \<Rightarrow> ('w, 'a) io" where
  "io_ret a = (\<lambda>w. (Inr a, w))"

definition io_fail :: "go_error \<Rightarrow> ('w, 'a) io" where
  "io_fail e = (\<lambda>w. (Inl e, w))"

definition io_lift :: "'a res \<Rightarrow> ('w, 'a) io" where
  "io_lift r = (\<lambda>w. (r, w))"

definition io_bind :: "('w, 'a) io \<Rightarrow> ('a \<Rightarrow> ('w, 'b) io) \<Rightarrow> ('w, 'b) io" where
  "io_bind m f = (\<lambda>w. case m w of (Inl e, w') \<Rightarrow> (Inl e, w') | (Inr a, w') \<Rightarrow> f a w')"

text \<open>The call whose error the caller inspects or drops.\<close>

definition io_try :: "('w, 'a) io \<Rightarrow> ('w, 'a res) io" where
  "io_try m = (\<lambda>w. case m w of (r, w') \<Rightarrow> (Inr r, w'))"

text \<open>A call without a result that cannot fail.\<close>

definition io_do :: "('w \<Rightarrow> 'w) \<Rightarrow> ('w, unit) io" where
  "io_do f = (\<lambda>w. (Inr (), f w))"

text \<open>A component of the world, and a call that touches only that component.\<close>

definition on_part :: "('w \<Rightarrow> 's) \<Rightarrow> ('s \<Rightarrow> 'w \<Rightarrow> 'w) \<Rightarrow> ('s, 'a) io \<Rightarrow> ('w, 'a) io" where
  "on_part get put m = (\<lambda>w. case m (get w) of (r, s) \<Rightarrow> (r, put s w))"

lemma io_apply [io_simps]:
  "io_ret a w = (Inr a, w)" "io_fail e w = (Inl e, w)" "io_lift r w = (r, w)"
  "io_bind m f w = (case m w of (Inl e, w') \<Rightarrow> (Inl e, w') | (Inr a, w') \<Rightarrow> f a w')"
  "io_try m w = (case m w of (r, w') \<Rightarrow> (Inr r, w'))"
  "io_do g w = (Inr (), g w)"
  "on_part get put part w = (case part (get w) of (r, s) \<Rightarrow> (r, put s w))"
  by (simp_all add: io_ret_def io_fail_def io_lift_def io_bind_def io_try_def io_do_def on_part_def)

lemma io_bind_Inr_iff:
  "io_bind m f w = (Inr b, w') \<longleftrightarrow> (\<exists>a v. m w = (Inr a, v) \<and> f a v = (Inr b, w'))"
  by (auto simp: io_simps split: prod.splits sum.splits)

lemma io_bind_Inl_iff:
  "io_bind m f w = (Inl e, w') \<longleftrightarrow> m w = (Inl e, w') \<or> (\<exists>a v. m w = (Inr a, v) \<and> f a v = (Inl e, w'))"
  by (auto simp: io_simps split: prod.splits sum.splits)

fun res_bind :: "'a res \<Rightarrow> ('a \<Rightarrow> 'b res) \<Rightarrow> 'b res" where
  "res_bind (Inl e) f = Inl e"
| "res_bind (Inr a) f = f a"

lemma res_bind_Inr_iff: "res_bind r f = Inr b \<longleftrightarrow> (\<exists>a. r = Inr a \<and> f a = Inr b)"
  by (cases r) simp_all

lemma res_bind_Inl_iff: "res_bind r f = Inl e \<longleftrightarrow> r = Inl e \<or> (\<exists>a. r = Inr a \<and> f a = Inl e)"
  by (cases r) auto

text \<open>A method that only reads leaves the world as it is.\<close>

definition io_pure :: "('w, 'a) io \<Rightarrow> bool" where
  "io_pure m \<longleftrightarrow> (\<forall>w. snd (m w) = w)"

lemma io_pure_simps [simp]: "io_pure (io_ret a)" "io_pure (io_fail e)" "io_pure (io_lift r)"
  by (simp_all add: io_pure_def io_simps)

lemma io_pure_bind [intro]: "io_pure m \<Longrightarrow> (\<And>a. io_pure (f a)) \<Longrightarrow> io_pure (io_bind m f)"
  by (auto simp: io_pure_def io_simps split: prod.splits sum.splits) (metis snd_conv)+

lemma io_pure_try [intro]: "io_pure m \<Longrightarrow> io_pure (io_try m)"
  by (simp add: io_pure_def io_simps split: prod.splits) (metis snd_conv)

end
