(* ===== verification/Kernel.thy ===== *)
theory Kernel
  imports Go_Prelude
begin

section \<open>The shared kernel\<close>

text \<open>
  \<open>internal/domain/kernel\<close>: the typed errors and their kinds (\<open>errors.go\<close>), identifiers
  (\<open>id.go\<close>), confidence levels (\<open>confidence.go\<close>), salary bands (\<open>money.go\<close>), pagination
  (\<open>page.go\<close>) and the tokenizer (\<open>tokens.go\<close>). The lemmas relate the tokenizer's phrase search
  to sublists, and pagination to a partition of the collection.
\<close>

subsection \<open>Errors\<close>

definition Invalid :: "string \<Rightarrow> go_error" where
  "Invalid msg = DomErr KindInvalid msg [] None"

definition NotFound :: "string \<Rightarrow> go_error" where
  "NotFound msg = DomErr KindNotFound msg [] None"

definition Conflict :: "string \<Rightarrow> go_error" where
  "Conflict msg = DomErr KindConflict msg [] None"

definition Unauthorized :: "string \<Rightarrow> go_error" where
  "Unauthorized msg = DomErr KindUnauthorized msg [] None"

definition Forbidden :: "string \<Rightarrow> go_error" where
  "Forbidden msg = DomErr KindForbidden msg [] None"

definition TooManyRequests :: "string \<Rightarrow> go_error" where
  "TooManyRequests msg = DomErr KindTooManyRequests msg [] None"

definition Invalidf :: "string \<Rightarrow> fmtarg list \<Rightarrow> go_error" where
  "Invalidf fmt a = DomErr KindInvalid fmt a None"

definition Wrap :: "go_error \<Rightarrow> kind \<Rightarrow> string \<Rightarrow> go_error" where
  "Wrap err k msg = DomErr k msg [] (Some err)"

lemmas error_defs = Invalid_def NotFound_def Conflict_def Unauthorized_def Forbidden_def
  TooManyRequests_def Invalidf_def Wrap_def

text \<open>\<open>errors.As\<close>: the first domain error in the tree, in pre-order.\<close>

fun errors_As :: "go_error \<Rightarrow> kind option" and errors_As_list :: "go_error list \<Rightarrow> kind option" where
  "errors_As (DomErr k msg a cause) = Some k"
| "errors_As (PlainErr msg a es) = errors_As_list es"
| "errors_As_list [] = None"
| "errors_As_list (e # es) = (case errors_As e of Some k \<Rightarrow> Some k | None \<Rightarrow> errors_As_list es)"

definition KindOf :: "go_error \<Rightarrow> kind" where
  "KindOf err = (case errors_As err of Some k \<Rightarrow> k | None \<Rightarrow> KindInternal)"

lemma KindOf_simps [simp]:
  "KindOf (Invalid m) = KindInvalid" "KindOf (NotFound m) = KindNotFound"
  "KindOf (Conflict m) = KindConflict" "KindOf (Unauthorized m) = KindUnauthorized"
  "KindOf (Forbidden m) = KindForbidden" "KindOf (TooManyRequests m) = KindTooManyRequests"
  "KindOf (Invalidf m a) = KindInvalid" "KindOf (Wrap e k m) = k"
  "KindOf (DomErr k m a c) = k"
  by (simp_all add: KindOf_def error_defs)

subsection \<open>Identifiers\<close>

type_synonym ID = gostr

definition hex_digit :: "int \<Rightarrow> rune" where
  "hex_digit d = (if d < 10 then 48 + d else 87 + d)"

definition hex_EncodeToString :: "int list \<Rightarrow> gostr" where
  "hex_EncodeToString bs = concat (map (\<lambda>b. [hex_digit (b div 16), hex_digit (b mod 16)]) bs)"

text \<open>The argument stands for the 16 bytes that \<open>rand.Read\<close> delivered.\<close>

definition NewID :: "int list \<Rightarrow> ID" where
  "NewID b = hex_EncodeToString b"

definition ID_IsZero :: "ID \<Rightarrow> bool" where
  "ID_IsZero i \<longleftrightarrow> strings_TrimSpace i = []"

definition IDFromString :: "gostr \<Rightarrow> ID res" where
  "IDFromString s = (if strings_TrimSpace s = []
     then Inl (PlainErr ''kernel: id cannot be empty'' [] []) else Inr s)"

lemma hex_digit_inj: "0 \<le> d \<Longrightarrow> d < 16 \<Longrightarrow> 0 \<le> e \<Longrightarrow> e < 16 \<Longrightarrow> hex_digit d = hex_digit e \<longleftrightarrow> d = e"
  by (auto simp: hex_digit_def split: if_splits)

lemma NewID_inj:
  assumes "NewID b = NewID c" and "\<forall>x \<in> set b \<union> set c. 0 \<le> x \<and> x < 256"
  shows "b = c"
  using assms
proof (induction b arbitrary: c)
  case Nil
  then show ?case by (cases c) (auto simp: NewID_def hex_EncodeToString_def)
next
  case (Cons x b)
  then obtain y c' where c: "c = y # c'" by (cases c) (auto simp: NewID_def hex_EncodeToString_def)
  have xy: "0 \<le> x div 16" "x div 16 < 16" "0 \<le> y div 16" "y div 16 < 16"
    using Cons.prems(2) c by auto
  from Cons.prems(1) c have "hex_digit (x div 16) = hex_digit (y div 16)"
    and "hex_digit (x mod 16) = hex_digit (y mod 16)" and rest: "NewID b = NewID c'"
    by (simp_all add: NewID_def hex_EncodeToString_def)
  then have "x div 16 = y div 16" "x mod 16 = y mod 16"
    using hex_digit_inj [OF xy] hex_digit_inj [of "x mod 16" "y mod 16"] by simp_all
  then have "x = y" by (metis mult_div_mod_eq)
  moreover have "b = c'" using Cons.IH [OF rest] Cons.prems(2) c by simp
  ultimately show ?case by (simp add: c)
qed

lemma NewID_not_zero:
  assumes "b \<noteq> []" and "\<forall>x \<in> set b. 0 \<le> x \<and> x < 256"
  shows "\<not> ID_IsZero (NewID b)"
proof (cases b)
  case (Cons x xs)
  then have "0 \<le> x div 16" "x div 16 < 16" using assms by auto
  then have "\<not> unicode_IsSpace (hex_digit (x div 16))"
    by (auto simp: hex_digit_def unicode_IsSpace_def)
  then show ?thesis
    using Cons by (simp add: ID_IsZero_def TrimSpace_Nil_iff NewID_def hex_EncodeToString_def)
qed (use assms in simp)

subsection \<open>Confidence\<close>

datatype confidence = ConfidenceUnknown | ConfidenceLow | ConfidenceMedium | ConfidenceHigh

fun confidence_iota :: "confidence \<Rightarrow> int" where
  "confidence_iota ConfidenceUnknown = 0"
| "confidence_iota ConfidenceLow = 1"
| "confidence_iota ConfidenceMedium = 2"
| "confidence_iota ConfidenceHigh = 3"

instantiation confidence :: linorder
begin

definition less_eq_confidence :: "confidence \<Rightarrow> confidence \<Rightarrow> bool" where
  "less_eq_confidence a b \<longleftrightarrow> confidence_iota a \<le> confidence_iota b"

definition less_confidence :: "confidence \<Rightarrow> confidence \<Rightarrow> bool" where
  "less_confidence a b \<longleftrightarrow> confidence_iota a < confidence_iota b"

instance
proof
  fix a b c :: confidence
  show "a \<le> b \<Longrightarrow> b \<le> a \<Longrightarrow> a = b" by (cases a; cases b) (simp_all add: less_eq_confidence_def)
qed (auto simp: less_eq_confidence_def less_confidence_def)

end

definition Confidence_Valid :: "confidence \<Rightarrow> bool" where
  "Confidence_Valid c \<longleftrightarrow> ConfidenceLow \<le> c \<and> c \<le> ConfidenceHigh"

fun Confidence_String :: "confidence \<Rightarrow> string" where
  "Confidence_String ConfidenceLow = ''low''"
| "Confidence_String ConfidenceMedium = ''medium''"
| "Confidence_String ConfidenceHigh = ''high''"
| "Confidence_String ConfidenceUnknown = ''unknown''"

lemma Confidence_Valid_iff [simp]: "Confidence_Valid c \<longleftrightarrow> c \<noteq> ConfidenceUnknown"
  by (cases c) (simp_all add: Confidence_Valid_def less_eq_confidence_def)

subsection \<open>Salary bands\<close>

record SalaryBand =
  Currency :: gostr
  Low :: f64
  High :: f64

definition SalaryBand_Validate :: "SalaryBand \<Rightarrow> unit res" where
  "SalaryBand_Validate b =
     (if flt (Low b) (Fin 0) \<or> flt (High b) (Fin 0)
      then Inl (Invalid ''salary band bounds must be non-negative'')
      else if \<not> feq (High b) (Fin 0) \<and> flt (High b) (Low b)
      then Inl (Invalid ''salary band high must be >= low'')
      else if (\<not> feq (Low b) (Fin 0) \<or> \<not> feq (High b) (Fin 0)) \<and> strings_TrimSpace (Currency b) = []
      then Inl (Invalid ''salary band currency is required when bounds are set'')
      else Inr ())"

definition SalaryBand_IsZero :: "SalaryBand \<Rightarrow> bool" where
  "SalaryBand_IsZero b \<longleftrightarrow> feq (Low b) (Fin 0) \<and> feq (High b) (Fin 0)"

definition zero_band :: SalaryBand where
  "zero_band = \<lparr>Currency = [], Low = Fin 0, High = Fin 0\<rparr>"

subsection \<open>Pagination\<close>

definition DefaultPageSize :: int where "DefaultPageSize = 20"
definition MaxPageSize :: int where "MaxPageSize = 100"

record Page =
  Number :: int
  Size :: int

definition NewPage :: "int \<Rightarrow> int \<Rightarrow> Page" where
  "NewPage number sz =
     \<lparr>Number = (if number < 1 then 1 else number),
      Size = (if sz < 1 then DefaultPageSize else if MaxPageSize < sz then MaxPageSize else sz)\<rparr>"

definition Offset :: "Page \<Rightarrow> int" where
  "Offset p = wrap64 (wrap64 (Number p - 1) * Size p)"

definition Limit :: "Page \<Rightarrow> int" where
  "Limit p = Size p"

definition TotalPages :: "int \<Rightarrow> int \<Rightarrow> int" where
  "TotalPages tot sz =
     (if sz \<le> 0 \<or> tot \<le> 0 then 0 else wrap64 (wrap64 (tot + sz) - 1) sdiv sz)"

text \<open>
  The slice every in-memory listing takes of its matches:
  \<open>start := min(page.Offset(), len(all)); end := min(start+page.Limit(), len(all)); all[start:end]\<close>.
\<close>

definition page_slice :: "'a list \<Rightarrow> Page \<Rightarrow> 'a list option" where
  "page_slice xs page =
     (let n = int (length xs); start = min (Offset page) n; stop = min (wrap64 (start + Limit page)) n
      in go_slice xs start stop)"

text \<open>A page the requests of the program can ask for: its offset is a non-negative \<open>int\<close>.\<close>

definition page_ok :: "Page \<Rightarrow> bool" where
  "page_ok p \<longleftrightarrow> 1 \<le> Number p \<and> 1 \<le> Size p \<and> Size p \<le> MaxPageSize \<and> Number p \<le> 2 ^ 31"

lemma NewPage_ok: "number \<le> 2 ^ 31 \<Longrightarrow> page_ok (NewPage number sz)"
  by (simp add: page_ok_def NewPage_def DefaultPageSize_def MaxPageSize_def)

lemma Offset_exact: "page_ok p \<Longrightarrow> Offset p = (Number p - 1) * Size p"
proof -
  assume ok: "page_ok p"
  then have "(Number p - 1) * Size p \<le> 2 ^ 31 * 100" "0 \<le> (Number p - 1) * Size p"
    using mult_mono [of "Number p - 1" "2 ^ 31" "Size p" 100]
    by (simp_all add: page_ok_def MaxPageSize_def)
  then have "int64 ((Number p - 1) * Size p)" by (simp add: int64_def)
  moreover have "int64 (Number p - 1)" using ok by (simp add: page_ok_def int64_def)
  ultimately show ?thesis by (simp add: Offset_def wrap64_id)
qed

lemma page_slice_eq:
  assumes "page_ok p" and "int (length xs) < 2 ^ 62"
  shows "page_slice xs p = Some (take (nat (Size p)) (drop (nat ((Number p - 1) * Size p)) xs))"
proof -
  let ?o = "(Number p - 1) * Size p" and ?n = "int (length xs)"
  have o: "0 \<le> ?o" and s: "1 \<le> Size p" "Size p \<le> 100"
    using assms(1) by (simp_all add: page_ok_def MaxPageSize_def)
  have min64: "int64 (min a n + k)" if "0 \<le> a" "0 \<le> n" "n < 2 ^ 62" "1 \<le> k" "k \<le> 100" for a n k
    using that by (simp add: int64_def min_def)
  have "int64 (min ?o ?n + Size p)" by (rule min64 [OF o _ assms(2) s]) simp
  then have w: "wrap64 (min ?o ?n + Size p) = min ?o ?n + Size p" by (rule wrap64_id)
  show ?thesis
  proof (cases "?o < ?n")
    case True
    have "take (nat (min (?o + Size p) ?n - ?o)) (drop (nat ?o) xs) = take (nat (Size p)) (drop (nat ?o) xs)"
    proof (cases "?o + Size p \<le> ?n")
      case False
      have "length (drop (nat ?o) xs) = nat (?n - ?o)" using o by (simp add: nat_diff_distrib')
      moreover have "nat (?n - ?o) \<le> nat (Size p)" using False by simp
      ultimately show ?thesis using False by simp
    qed simp
    then show ?thesis
      using True o s w
      by (simp add: page_slice_def Offset_exact [OF assms(1)] Limit_def go_slice_def Let_def)
  next
    case False
    then have "drop (nat ?o) xs = []" by simp
    with False o s w show ?thesis
      by (simp add: page_slice_def Offset_exact [OF assms(1)] Limit_def go_slice_def Let_def)
  qed
qed

lemma TotalPages_eq:
  assumes "0 < n" and "n < 2 ^ 62" and "1 \<le> sz" and "sz \<le> MaxPageSize"
  shows "TotalPages n sz = (n + sz - 1) div sz"
proof -
  have "int64 (n + sz)" and "int64 (n + sz - 1)"
    using assms by (simp_all add: int64_def MaxPageSize_def)
  then show ?thesis
    using assms by (simp add: TotalPages_def wrap64_id signed_divide_int_def)
qed

text \<open>The chunks of a list, and the pages as its chunks.\<close>

lemma take_drop_chunks:
  "0 < k \<Longrightarrow> concat (map (\<lambda>i. take k (drop (i * k) xs)) [0..<m]) = take (m * k) xs"
proof (induction m)
  case (Suc m)
  have "take (m * k) xs @ take k (drop (m * k) xs) = take (m * k + k) xs"
    by (simp add: take_add)
  with Suc show ?case by (simp add: add.commute)
qed simp

text \<open>
  Paging through a non-empty listing loses and repeats nothing: the pages 1 to \<open>TotalPages\<close>
  that \<open>NewPage\<close> builds, cut with the slice arithmetic of the in-memory repositories, are in order
  exactly the listing, for every page size the API accepts.
\<close>

theorem pages_cover:
  assumes "xs \<noteq> []" and len: "int (length xs) < 2 ^ 30" and "1 \<le> sz" and "sz \<le> MaxPageSize"
  shows "concat (map (\<lambda>n. the (page_slice xs (NewPage (int n) sz)))
           [1..<Suc (nat (TotalPages (int (length xs)) sz))]) = xs"
proof -
  obtain n where n: "n = int (length xs)" by simp
  have n0: "0 < n" using assms(1) by (simp add: n)
  have n30: "n < 2 ^ 30" using len by (simp only: n)
  have n62: "n < 2 ^ 62" using n30 by (rule less_trans) simp
  let ?k = "nat sz" and ?m = "nat (TotalPages n sz)"
  have T: "TotalPages n sz = (n + sz - 1) div sz" by (rule TotalPages_eq [OF n0 n62 assms(3,4)])
  have "(n + sz - 1) div sz \<le> n + sz - 1"
    using zdiv_mono2 [of "n + sz - 1" 1 sz] assms(3) n0 by simp
  then have m31: "TotalPages n sz \<le> 2 ^ 31"
    using T n30 assms(4) by (simp add: MaxPageSize_def)
  have page: "the (page_slice xs (NewPage (int (Suc i)) sz)) = take ?k (drop (i * ?k) xs)" if "i < ?m" for i
  proof -
    have "int (Suc i) \<le> TotalPages n sz" using that by linarith
    then have "int (Suc i) \<le> 2 ^ 31" using m31 by (rule order_trans)
    then have "page_ok (NewPage (int (Suc i)) sz)" by (rule NewPage_ok)
    from page_slice_eq [OF this n62 [unfolded n]] assms(3,4) show ?thesis
      by (simp add: NewPage_def nat_mult_distrib)
  qed
  have "concat (map (\<lambda>n. the (page_slice xs (NewPage (int n) sz))) [1..<Suc ?m]) =
      concat (map (\<lambda>i. the (page_slice xs (NewPage (int (Suc i)) sz))) [0..<?m])"
    by (simp only: One_nat_def map_Suc_upt [symmetric] map_map comp_def)
  also have "\<dots> = concat (map (\<lambda>i. take ?k (drop (i * ?k) xs)) [0..<?m])"
    by (intro arg_cong [where f = concat] map_cong refl page) simp
  also have "\<dots> = take (?m * ?k) xs" using assms(3) by (intro take_drop_chunks) simp
  also have "\<dots> = xs"
  proof -
    have "n \<le> (n + sz - 1) div sz * sz"
      using assms(3) by (smt (verit) minus_mod_eq_div_mult pos_mod_bound)
    also have "\<dots> = int (?m * ?k)"
      using T assms(3) n0 by (simp add: pos_imp_zdiv_nonneg_iff)
    finally have "length xs \<le> ?m * ?k" by (simp only: n of_nat_le_iff)
    then show ?thesis by simp
  qed
  finally show ?thesis by (simp only: n)
qed

lemma pages_cover_witness:
  "concat (map (\<lambda>n. the (page_slice ''abcde'' (NewPage (int n) 2)))
     [1..<Suc (nat (TotalPages (int (length ''abcde'')) 2))]) = ''abcde''"
  by (rule pages_cover) (simp_all add: MaxPageSize_def)

subsection \<open>Tokens\<close>

definition token_sep :: "rune \<Rightarrow> bool" where
  "token_sep r \<longleftrightarrow> r = 44 \<or> r = 47 \<or> r = 59 \<or> unicode_IsSpace r"

definition Tokens :: "gostr \<Rightarrow> gostr list" where
  "Tokens s = strings_FieldsFunc token_sep s"

text \<open>The inner loop of \<open>HasPhrase\<close>: every token of the phrase at its place from \<open>start\<close>.\<close>

fun phrase_at :: "gostr list \<Rightarrow> gostr list \<Rightarrow> nat \<Rightarrow> nat \<Rightarrow> bool" where
  "phrase_at haystack [] start j \<longleftrightarrow> True"
| "phrase_at haystack (p # ps) start j \<longleftrightarrow>
     haystack ! (start + j) = p \<and> phrase_at haystack ps start (Suc j)"

function phrase_from :: "gostr list \<Rightarrow> gostr list \<Rightarrow> nat \<Rightarrow> bool" where
  "phrase_from haystack phrase start \<longleftrightarrow>
     (if start + length phrase \<le> length haystack
      then phrase_at haystack phrase start 0 \<or> phrase_from haystack phrase (Suc start) else False)"
  by pat_completeness auto
termination
  by (relation "measure (\<lambda>(h, p, s). Suc (length h) - s)") auto

declare phrase_from.simps [simp del]

definition HasPhrase :: "gostr list \<Rightarrow> gostr list \<Rightarrow> bool" where
  "HasPhrase haystack phrase \<longleftrightarrow> (if phrase = [] then False else phrase_from haystack phrase 0)"

lemma phrase_at_iff:
  "start + j + length ps \<le> length h \<Longrightarrow>
     phrase_at h ps start j \<longleftrightarrow> take (length ps) (drop (start + j) h) = ps"
proof (induction h ps start j rule: phrase_at.induct)
  case (2 h p ps start j)
  then have "drop (start + j) h = h ! (start + j) # drop (Suc (start + j)) h"
    by (simp add: Cons_nth_drop_Suc)
  with 2 show ?case by auto
qed simp

lemma phrase_from_iff:
  "phrase_from h p s \<longleftrightarrow> (\<exists>i \<ge> s. i + length p \<le> length h \<and> take (length p) (drop i h) = p)"
proof (induction h p s rule: phrase_from.induct)
  case (1 h p s)
  show ?case
  proof (cases "s + length p \<le> length h")
    case True
    then have "phrase_from h p s \<longleftrightarrow> take (length p) (drop s h) = p \<or> phrase_from h p (Suc s)"
      by (simp add: phrase_from.simps [of h p s] phrase_at_iff)
    also have "\<dots> \<longleftrightarrow> (\<exists>i \<ge> s. i + length p \<le> length h \<and> take (length p) (drop i h) = p)"
      unfolding "1.IH" [OF True] using True Suc_le_eq le_eq_less_or_eq by metis
    finally show ?thesis .
  qed (auto simp: phrase_from.simps [of h p s])
qed

lemma HasPhrase_iff: "HasPhrase h p \<longleftrightarrow> p \<noteq> [] \<and> sublist p h"
proof -
  have "(\<exists>i. i + length p \<le> length h \<and> take (length p) (drop i h) = p) \<longleftrightarrow> sublist p h"
  proof
    assume "\<exists>i. i + length p \<le> length h \<and> take (length p) (drop i h) = p"
    then obtain i where "take (length p) (drop i h) = p" by blast
    then have "h = take i h @ p @ drop (length p) (drop i h)"
      by (metis append_take_drop_id)
    then show "sublist p h" by (metis sublist_def)
  next
    assume "sublist p h"
    then obtain a b where "h = a @ p @ b" by (auto simp: sublist_def)
    then show "\<exists>i. i + length p \<le> length h \<and> take (length p) (drop i h) = p"
      by (intro exI [of _ "length a"]) simp
  qed
  then show ?thesis by (simp add: HasPhrase_def phrase_from_iff)
qed

lemma token_sep_ToLower [simp]: "token_sep (unicode_ToLower r) = token_sep r"
  using unicode_ToLower_caseless [of 44 r] unicode_ToLower_caseless [of 47 r]
    unicode_ToLower_caseless [of 59 r]
  by (simp add: token_sep_def caseless_runes_def)

lemma Tokens_ToLower [go_str]: "Tokens (strings_ToLower s) = map strings_ToLower (Tokens s)"
proof -
  have "token_sep \<circ> unicode_ToLower = token_sep" by (simp add: fun_eq_iff)
  from FieldsFunc_map [OF this, of s] show ?thesis
    by (simp add: Tokens_def strings_ToLower_def [abs_def])
qed

lemma Tokens_Nil_iff: "Tokens s = [] \<longleftrightarrow> (\<forall>c \<in> set s. token_sep c)"
  by (simp add: Tokens_def FieldsFunc_Nil_iff)

lemma in_Tokens: "t \<in> set (Tokens s) \<Longrightarrow> t \<noteq> [] \<and> (\<forall>c \<in> set t. \<not> token_sep c)"
  by (auto simp: Tokens_def dest: FieldsFunc_tokens)

lemma Tokens_token: "t \<noteq> [] \<Longrightarrow> \<forall>c \<in> set t. \<not> token_sep c \<Longrightarrow> Tokens t = [t]"
  by (simp add: Tokens_def FieldsFunc_token)

lemma Tokens_append_sep: "token_sep c \<Longrightarrow> Tokens (xs @ c # ys) = Tokens xs @ Tokens ys"
  by (simp add: Tokens_def FieldsFunc_append_sep)

lemma Tokens_drop_spaces: "Tokens (dropWhile unicode_IsSpace s) = Tokens s"
  by (induction s) (auto simp: Tokens_def token_sep_def)

lemma Tokens_drop_spaces_right: "Tokens (rev (dropWhile unicode_IsSpace (rev s))) = Tokens s"
proof (induction s rule: rev_induct)
  case (snoc c s)
  show ?case
  proof (cases "unicode_IsSpace c")
    case True
    then have "token_sep c" by (simp add: token_sep_def)
    with snoc True Tokens_append_sep [of c s "[]"] show ?thesis by (simp add: Tokens_def)
  qed simp
qed simp

lemma Tokens_TrimSpace [go_str]: "Tokens (strings_TrimSpace s) = Tokens s"
  by (simp only: strings_TrimSpace_def Tokens_drop_spaces_right Tokens_drop_spaces)

end
