(* ===== verification/Go_Regexp.thy ===== *)
theory Go_Regexp
  imports Go_Prelude
begin

section \<open>Regular expressions\<close>

text \<open>
  The part of Go's \<open>regexp\<close> the program uses: classes, sequence, alternation, greedy repetition
  and the ASCII word boundary. \<open>ends r s i\<close> lists the ends of the matches of \<open>r\<close> in \<open>s\<close> that start
  at \<open>i\<close>, in order of preference (leftmost-first), so the head is the match the library reports.
\<close>

datatype regex = RCls "rune \<Rightarrow> bool" | RSeq regex regex | RAlt regex regex | ROpt regex
  | RStar regex | RWordB

definition word_rune :: "rune \<Rightarrow> bool" where
  "word_rune r \<longleftrightarrow> 48 \<le> r \<and> r \<le> 57 \<or> 65 \<le> r \<and> r \<le> 90 \<or> r = 95 \<or> 97 \<le> r \<and> r \<le> 122"

definition re_space :: "rune \<Rightarrow> bool" where
  "re_space r \<longleftrightarrow> r = 9 \<or> r = 10 \<or> r = 12 \<or> r = 13 \<or> r = 32"

definition word_boundary :: "gostr \<Rightarrow> nat \<Rightarrow> bool" where
  "word_boundary s i \<longleftrightarrow>
     (0 < i \<and> i \<le> length s \<and> word_rune (s ! (i - 1))) \<noteq> (i < length s \<and> word_rune (s ! i))"

fun star_ends :: "(nat \<Rightarrow> nat list) \<Rightarrow> nat \<Rightarrow> nat \<Rightarrow> nat list" where
  "star_ends f 0 i = [i]"
| "star_ends f (Suc n) i = concat (map (\<lambda>j. if i < j then star_ends f n j else []) (f i)) @ [i]"

fun ends :: "regex \<Rightarrow> gostr \<Rightarrow> nat \<Rightarrow> nat list" where
  "ends (RCls P) s i = (if i < length s \<and> P (s ! i) then [Suc i] else [])"
| "ends (RSeq a b) s i = concat (map (ends b s) (ends a s i))"
| "ends (RAlt a b) s i = ends a s i @ ends b s i"
| "ends (ROpt a) s i = ends a s i @ [i]"
| "ends (RStar a) s i = star_ends (ends a s) (length s - i) i"
| "ends RWordB s i = (if word_boundary s i then [i] else [])"

text \<open>Literals under \<open>(?i)\<close>, and the repetitions \<open>r+\<close>, \<open>r{0,n}\<close> and \<open>r{n,}\<close>.\<close>

definition RChar :: "rune \<Rightarrow> regex" where
  "RChar c = RCls (\<lambda>r. r = c)"

definition RFold :: "rune \<Rightarrow> regex" where
  "RFold c = RCls (\<lambda>r. simple_fold r = simple_fold c)"

fun RSeqs :: "regex list \<Rightarrow> regex" where
  "RSeqs [] = RStar (RCls (\<lambda>r. False))"
| "RSeqs [r] = r"
| "RSeqs (r # rs) = RSeq r (RSeqs rs)"

fun RAlts :: "regex list \<Rightarrow> regex" where
  "RAlts [] = RCls (\<lambda>r. False)"
| "RAlts [r] = r"
| "RAlts (r # rs) = RAlt r (RAlts rs)"

definition RLit :: "string \<Rightarrow> regex" where
  "RLit w = RSeqs (map RFold (lit w))"

definition RPlus :: "regex \<Rightarrow> regex" where
  "RPlus r = RSeq r (RStar r)"

fun RUpto :: "nat \<Rightarrow> regex \<Rightarrow> regex" where
  "RUpto 0 r = RStar (RCls (\<lambda>r. False))"
| "RUpto (Suc n) r = ROpt (RSeq r (RUpto n r))"

definition MatchString :: "regex \<Rightarrow> gostr \<Rightarrow> bool" where
  "MatchString r s \<longleftrightarrow> list_ex (\<lambda>i. ends r s i \<noteq> []) [0..<Suc (length s)]"

text \<open>\<open>ReplaceAllString\<close> from position \<open>i\<close>, for an expression that matches no empty text.\<close>

function replace_from :: "regex \<Rightarrow> gostr \<Rightarrow> gostr \<Rightarrow> nat \<Rightarrow> gostr" where
  "replace_from r repl s i =
     (if length s \<le> i then []
      else case ends r s i of [] \<Rightarrow> s ! i # replace_from r repl s (Suc i)
        | k # ks \<Rightarrow> if k \<le> i then s ! i # replace_from r repl s (Suc i)
                    else repl @ replace_from r repl s k)"
  by pat_completeness auto
termination
  by (relation "measure (\<lambda>(r, repl, s, i). length s - i)") auto

declare replace_from.simps [simp del]

definition ReplaceAllString :: "regex \<Rightarrow> gostr \<Rightarrow> gostr \<Rightarrow> gostr" where
  "ReplaceAllString r s repl = replace_from r repl s 0"

subsection \<open>Matches as factors of the string\<close>

definition factor :: "gostr \<Rightarrow> nat \<Rightarrow> gostr \<Rightarrow> nat \<Rightarrow> bool" where
  "factor s i x k \<longleftrightarrow> drop i s = x @ drop k s \<and> k = i + length x"

lemma factor_Nil [simp]: "factor s i [] k \<longleftrightarrow> k = i"
  by (auto simp: factor_def)

lemma factor_append: "factor s i (x @ y) k \<longleftrightarrow> (\<exists>j. factor s i x j \<and> factor s j y k)"
proof
  assume f: "factor s i (x @ y) k"
  then have "drop (length x) (drop i s) = y @ drop k s" by (simp add: factor_def del: drop_drop)
  then have "drop (i + length x) s = y @ drop k s" by (simp add: add.commute)
  with f show "\<exists>j. factor s i x j \<and> factor s j y k"
    by (intro exI [of _ "i + length x"]) (simp add: factor_def)
qed (auto simp: factor_def)

lemma factor_Cons: "factor s i (c # y) k \<longleftrightarrow> factor s i [c] (Suc i) \<and> factor s (Suc i) y k"
  using factor_append [of s i "[c]" y k] by (auto simp: factor_def)

lemma factor_single: "factor s i [c] k \<longleftrightarrow> k = Suc i \<and> i < length s \<and> s ! i = c"
  unfolding factor_def by (metis Cons_nth_drop_Suc append_Cons append_Nil drop_eq_Nil linorder_not_le
      list.discI list.inject list.size(3,4) add_Suc_right add_0_right One_nat_def)

lemma in_ends_Cls: "k \<in> set (ends (RCls P) s i) \<longleftrightarrow> (\<exists>c. P c \<and> factor s i [c] k)"
  by (auto simp: factor_single)

lemma in_ends_Seq: "k \<in> set (ends (RSeq a b) s i) \<longleftrightarrow> (\<exists>j. j \<in> set (ends a s i) \<and> k \<in> set (ends b s j))"
  by auto

lemma in_star_Cls:
  "length s - i \<le> n \<Longrightarrow> k \<in> set (star_ends (ends (RCls P) s) n i) \<longleftrightarrow>
     (\<exists>x. (\<forall>c \<in> set x. P c) \<and> factor s i x k)"
proof (induction n arbitrary: i)
  case 0
  then have "drop i s = []" by simp
  then have x: "factor s i x k \<Longrightarrow> x = []" for x by (simp add: factor_def)
  have "factor s i x k \<Longrightarrow> k = i" for x using x [of x] by simp
  then show ?case by (auto intro: exI [of _ "[]"])
next
  case (Suc n)
  have IH: "k \<in> set (star_ends (ends (RCls P) s) n (Suc i)) \<longleftrightarrow>
      (\<exists>x. (\<forall>c \<in> set x. P c) \<and> factor s (Suc i) x k)"
    using Suc.prems by (intro Suc.IH) simp
  show ?case
  proof
    assume "k \<in> set (star_ends (ends (RCls P) s) (Suc n) i)"
    then consider "k = i" | "i < length s" "P (s ! i)" "k \<in> set (star_ends (ends (RCls P) s) n (Suc i))"
      by (auto split: if_splits)
    then show "\<exists>x. (\<forall>c \<in> set x. P c) \<and> factor s i x k"
    proof cases
      case 2
      then obtain x where "\<forall>c \<in> set x. P c" "factor s (Suc i) x k" using IH by blast
      with 2 show ?thesis
        by (intro exI [of _ "s ! i # x"]) (simp add: factor_Cons [of s i "s ! i" x] factor_single)
    qed (auto intro: exI [of _ "[]"])
  next
    assume "\<exists>x. (\<forall>c \<in> set x. P c) \<and> factor s i x k"
    then obtain x where x: "\<forall>c \<in> set x. P c" "factor s i x k" by blast
    show "k \<in> set (star_ends (ends (RCls P) s) (Suc n) i)"
    proof (cases x)
      case (Cons c y)
      with x have "factor s i [c] (Suc i)" "factor s (Suc i) y k" "\<forall>c \<in> set y. P c" "P c"
        by (simp_all add: factor_Cons [of s i c y])
      with IH show ?thesis by (auto simp: factor_single)
    qed (use x in simp)
  qed
qed

lemma in_ends_Star_Cls:
  "k \<in> set (ends (RStar (RCls P)) s i) \<longleftrightarrow> (\<exists>x. (\<forall>c \<in> set x. P c) \<and> factor s i x k)"
  by (simp only: ends.simps in_star_Cls [OF order_refl])

lemma in_ends_Plus_Cls:
  "k \<in> set (ends (RPlus (RCls P)) s i) \<longleftrightarrow> (\<exists>x. x \<noteq> [] \<and> (\<forall>c \<in> set x. P c) \<and> factor s i x k)"
proof -
  have "k \<in> set (ends (RPlus (RCls P)) s i) \<longleftrightarrow>
      (\<exists>c y. P c \<and> (\<forall>c \<in> set y. P c) \<and> factor s i (c # y) k)"
    unfolding RPlus_def in_ends_Seq in_ends_Cls in_ends_Star_Cls factor_Cons [of s i _ _ k]
    by (auto simp: factor_single)
  also have "\<dots> \<longleftrightarrow> (\<exists>x. x \<noteq> [] \<and> (\<forall>c \<in> set x. P c) \<and> factor s i x k)"
    by (metis list.distinct(1) list.exhaust list.set_intros(1,2) set_ConsD)
  finally show ?thesis .
qed

definition fold_eq :: "gostr \<Rightarrow> gostr \<Rightarrow> bool" where
  "fold_eq x w \<longleftrightarrow> map simple_fold x = map simple_fold w"

lemma in_ends_folds:
  "w \<noteq> [] \<Longrightarrow> k \<in> set (ends (RSeqs (map RFold w)) s i) \<longleftrightarrow> (\<exists>x. fold_eq x w \<and> factor s i x k)"
proof (induction w arbitrary: i)
  case (Cons c w)
  show ?case
  proof (cases w)
    case Nil
    have "k \<in> set (ends (RFold c) s i) \<longleftrightarrow> (\<exists>d. simple_fold d = simple_fold c \<and> factor s i [d] k)"
      unfolding RFold_def in_ends_Cls ..
    also have "\<dots> \<longleftrightarrow> (\<exists>x. fold_eq x [c] \<and> factor s i x k)"
      by (simp add: fold_eq_def map_eq_Cons_conv) blast
    finally show ?thesis using Nil by simp
  next
    case (Cons d v)
    have IH: "k \<in> set (ends (RSeqs (map RFold w)) s j) \<longleftrightarrow> (\<exists>x. fold_eq x w \<and> factor s j x k)" for j
      using Cons Cons.IH by (simp only: list.distinct simp_thms)
    have fold: "j \<in> set (ends (RFold c) s i) \<longleftrightarrow> (\<exists>e. simple_fold e = simple_fold c \<and> factor s i [e] j)" for j
      unfolding RFold_def in_ends_Cls ..
    have "RSeqs (map RFold (c # w)) = RSeq (RFold c) (RSeqs (map RFold w))" using Cons by simp
    then have "k \<in> set (ends (RSeqs (map RFold (c # w))) s i) \<longleftrightarrow>
        (\<exists>j. (\<exists>e. simple_fold e = simple_fold c \<and> factor s i [e] j) \<and> (\<exists>x. fold_eq x w \<and> factor s j x k))"
      unfolding \<open>RSeqs (map RFold (c # w)) = _\<close> in_ends_Seq fold IH
      by (simp only:)
    also have "\<dots> \<longleftrightarrow> (\<exists>e x. simple_fold e = simple_fold c \<and> fold_eq x w \<and> factor s i (e # x) k)"
      unfolding factor_Cons [of s i _ _ k] by (auto simp: factor_single)
    also have "\<dots> \<longleftrightarrow> (\<exists>x. fold_eq x (c # w) \<and> factor s i x k)"
      unfolding fold_eq_def list.map(2) map_eq_Cons_conv by blast
    finally show ?thesis .
  qed
qed simp

lemma in_ends_Lit: "w \<noteq> [] \<Longrightarrow> k \<in> set (ends (RLit w) s i) \<longleftrightarrow> (\<exists>x. fold_eq x (lit w) \<and> factor s i x k)"
  unfolding RLit_def by (rule in_ends_folds) (simp add: lit_def)

lemma word_boundary_factor:
  assumes "factor s i (x @ [c]) k" and "word_rune c"
  shows "word_boundary s k \<longleftrightarrow> (case drop k s of [] \<Rightarrow> True | d # ds \<Rightarrow> \<not> word_rune d)"
proof -
  obtain j where j: "k = Suc j" "j < length s" "s ! j = c"
    using assms(1) by (auto simp: factor_append factor_single)
  show ?thesis
  proof (cases "k < length s")
    case True
    then have "drop k s = s ! k # drop (Suc k) s" by (simp add: Cons_nth_drop_Suc)
    with True j assms(2) show ?thesis by (simp add: word_boundary_def)
  next
    case False
    with j assms(2) show ?thesis by (simp add: word_boundary_def)
  qed
qed

lemma MatchString_iff: "MatchString r s \<longleftrightarrow> (\<exists>i \<le> length s. ends r s i \<noteq> [])"
  by (auto simp: MatchString_def list_ex_iff less_Suc_eq_le simp del: upt_Suc)

end
