(* ===== verification/Role.thy ===== *)
theory Role
  imports Kernel
begin

section \<open>Roles and rubrics\<close>

text \<open>
  \<open>internal/domain/role\<close>: seniority levels, the role specification, the weighted rubric and the
  role aggregate with its life cycle. The lemmas give the invariant of the roles the program
  builds and that every operation keeps it.
\<close>

subsection \<open>Seniority\<close>

datatype seniority = SeniorityUnspecified | SeniorityJunior | SeniorityMid | SenioritySenior
  | SeniorityLead

fun seniority_iota :: "seniority \<Rightarrow> int" where
  "seniority_iota SeniorityUnspecified = 0"
| "seniority_iota SeniorityJunior = 1"
| "seniority_iota SeniorityMid = 2"
| "seniority_iota SenioritySenior = 3"
| "seniority_iota SeniorityLead = 4"

instantiation seniority :: linorder
begin

definition less_eq_seniority :: "seniority \<Rightarrow> seniority \<Rightarrow> bool" where
  "less_eq_seniority a b \<longleftrightarrow> seniority_iota a \<le> seniority_iota b"

definition less_seniority :: "seniority \<Rightarrow> seniority \<Rightarrow> bool" where
  "less_seniority a b \<longleftrightarrow> seniority_iota a < seniority_iota b"

instance
proof
  fix a b c :: seniority
  show "a \<le> b \<Longrightarrow> b \<le> a \<Longrightarrow> a = b" by (cases a; cases b) (simp_all add: less_eq_seniority_def)
qed (auto simp: less_eq_seniority_def less_seniority_def)

end

definition Seniority_Valid :: "seniority \<Rightarrow> bool" where
  "Seniority_Valid s \<longleftrightarrow> SeniorityJunior \<le> s \<and> s \<le> SeniorityLead"

fun Seniority_String :: "seniority \<Rightarrow> gostr" where
  "Seniority_String SeniorityJunior = lit ''junior''"
| "Seniority_String SeniorityMid = lit ''mid''"
| "Seniority_String SenioritySenior = lit ''senior''"
| "Seniority_String SeniorityLead = lit ''lead''"
| "Seniority_String SeniorityUnspecified = lit ''unspecified''"

definition ParseSeniority :: "gostr \<Rightarrow> seniority res" where
  "ParseSeniority s =
     (let t = strings_ToLower (strings_TrimSpace s)
      in if t = lit ''junior'' then Inr SeniorityJunior
         else if t = lit ''mid'' then Inr SeniorityMid
         else if t = lit ''senior'' then Inr SenioritySenior
         else if t = lit ''lead'' then Inr SeniorityLead
         else Inl (Invalidf ''role: unknown seniority %q'' [AStr s]))"

lemma Seniority_Valid_iff [simp]: "Seniority_Valid s \<longleftrightarrow> s \<noteq> SeniorityUnspecified"
  by (cases s) (simp_all add: Seniority_Valid_def less_eq_seniority_def)

lemma ParseSeniority_String: "Seniority_Valid s \<Longrightarrow> ParseSeniority (Seniority_String s) = Inr s"
  by (cases s) (simp; code_simp)+

lemma ParseSeniority_Valid: "ParseSeniority s = Inr v \<Longrightarrow> Seniority_Valid v"
  by (auto simp: ParseSeniority_def Let_def split: if_splits)

subsection \<open>Role specifications\<close>

record RoleSpec =
  Spec_Title :: gostr
  Spec_Location :: gostr
  Spec_Seniority :: seniority
  Spec_Availability :: gostr
  Spec_Responsibilities :: "gostr list"
  Spec_MustHaves :: "gostr list"
  Spec_NiceToHaves :: "gostr list"
  Spec_SalaryBand :: SalaryBand

definition RoleSpec_Validate :: "RoleSpec \<Rightarrow> unit res" where
  "RoleSpec_Validate s =
     (if strings_TrimSpace (Spec_Title s) = [] then Inl (Invalid ''role: title is required'')
      else if \<not> Seniority_Valid (Spec_Seniority s) then Inl (Invalid ''role: a valid seniority is required'')
      else SalaryBand_Validate (Spec_SalaryBand s))"

definition RoleSpec_EmbeddingText :: "RoleSpec \<Rightarrow> gostr" where
  "RoleSpec_EmbeddingText s =
     strings_Join ([Spec_Title s, Spec_Location s] @ Spec_Responsibilities s @ Spec_MustHaves s) (lit '' '')"

subsection \<open>Rubrics\<close>

definition weightEpsilon :: rat where "weightEpsilon = 1 / 100"

record Competency =
  Comp_Name :: gostr
  Comp_Weight :: f64
  Comp_MustHave :: bool

definition Competency_Validate :: "Competency \<Rightarrow> unit res" where
  "Competency_Validate c =
     (if strings_TrimSpace (Comp_Name c) = [] then Inl (Invalid ''role: competency name is required'')
      else if flt (Comp_Weight c) (Fin 0) \<or> flt (Fin 1) (Comp_Weight c)
        then Inl (Invalidf ''role: competency %q weight must be in [0,1]'' [AStr (Comp_Name c)])
      else Inr ())"

record Rubric =
  Competencies :: "Competency list"

definition TotalWeight :: "Rubric \<Rightarrow> f64" where
  "TotalWeight r = fold (\<lambda>c sum. fadd sum (Comp_Weight c)) (Competencies r) (Fin 0)"

fun validate_competencies :: "Competency list \<Rightarrow> unit res" where
  "validate_competencies [] = Inr ()"
| "validate_competencies (c # cs) =
     (case Competency_Validate c of Inl e \<Rightarrow> Inl e | Inr u \<Rightarrow> validate_competencies cs)"

text \<open>The bounds \<open>1-weightEpsilon\<close> and \<open>1+weightEpsilon\<close> are constants, exact until converted.\<close>

definition Rubric_Validate :: "Rubric \<Rightarrow> unit res" where
  "Rubric_Validate r =
     (if Competencies r = [] then Inl (Invalid ''role: rubric must have at least one competency'')
      else case validate_competencies (Competencies r) of Inl e \<Rightarrow> Inl e
        | Inr u \<Rightarrow> let sum = TotalWeight r
            in if flt sum (f64_of (1 - weightEpsilon)) \<or> flt (f64_of (1 + weightEpsilon)) sum
               then Inl (Invalidf ''role: rubric weights must sum to 1.0 (got %.4f)'' [AFloat sum])
               else Inr ())"

definition Rubric_Normalize :: "Rubric \<Rightarrow> Rubric" where
  "Rubric_Normalize r =
     (let sum = TotalWeight r
      in if feq sum (Fin 0) then r
         else \<lparr>Competencies = map (\<lambda>c. c\<lparr>Comp_Weight := fdiv (Comp_Weight c) sum\<rparr>) (Competencies r)\<rparr>)"

subsection \<open>The role aggregate\<close>

datatype role_status = RoleStatusUnspecified | RoleDraft | RoleOpen | RoleClosed

fun role_status_iota :: "role_status \<Rightarrow> int" where
  "role_status_iota RoleStatusUnspecified = 0"
| "role_status_iota RoleDraft = 1"
| "role_status_iota RoleOpen = 2"
| "role_status_iota RoleClosed = 3"

definition RoleStatus_Valid :: "role_status \<Rightarrow> bool" where
  "RoleStatus_Valid s \<longleftrightarrow> role_status_iota RoleDraft \<le> role_status_iota s \<and>
     role_status_iota s \<le> role_status_iota RoleClosed"

record Role =
  Role_ID :: ID
  Role_EmployerID :: ID
  Role_Title :: gostr
  Role_Status :: role_status
  Role_Spec :: RoleSpec
  Role_Rubric :: Rubric
  Role_Embedding :: "rat list"
  Role_CreatedAt :: time

definition NewRole :: "ID \<Rightarrow> ID \<Rightarrow> RoleSpec \<Rightarrow> Rubric \<Rightarrow> time \<Rightarrow> Role res" where
  "NewRole newid employerID spec rubric createdAt =
     (if ID_IsZero employerID then Inl (Invalid ''role: employer id is required'')
      else case RoleSpec_Validate spec of Inl e \<Rightarrow> Inl e
        | Inr u \<Rightarrow> (case Rubric_Validate rubric of Inl e \<Rightarrow> Inl e
            | Inr u \<Rightarrow> Inr \<lparr>Role_ID = newid, Role_EmployerID = employerID, Role_Title = Spec_Title spec,
                Role_Status = RoleDraft, Role_Spec = spec, Role_Rubric = rubric, Role_Embedding = [],
                Role_CreatedAt = createdAt\<rparr>))"

definition Role_Open :: "Role \<Rightarrow> Role res" where
  "Role_Open r =
     (if Role_Status r \<noteq> RoleDraft \<and> Role_Status r \<noteq> RoleClosed
      then Inl (Invalidf ''role: cannot open a role in status %d'' [AInt (role_status_iota (Role_Status r))])
      else Inr (r\<lparr>Role_Status := RoleOpen\<rparr>))"

definition Role_Close :: "Role \<Rightarrow> Role" where
  "Role_Close r = r\<lparr>Role_Status := RoleClosed\<rparr>"

definition Role_Revise :: "Role \<Rightarrow> RoleSpec \<Rightarrow> Rubric \<Rightarrow> Role res" where
  "Role_Revise r spec rubric =
     (case RoleSpec_Validate spec of Inl e \<Rightarrow> Inl e
      | Inr u \<Rightarrow> (case Rubric_Validate rubric of Inl e \<Rightarrow> Inl e
          | Inr u \<Rightarrow> Inr (r\<lparr>Role_Spec := spec, Role_Rubric := rubric, Role_Title := Spec_Title spec\<rparr>)))"

definition Role_EmbeddingText :: "Role \<Rightarrow> gostr" where
  "Role_EmbeddingText r = RoleSpec_EmbeddingText (Role_Spec r)"

text \<open>The invariant of the aggregate: an owner, a valid specification and rubric, the title in step.\<close>

definition role_inv :: "Role \<Rightarrow> bool" where
  "role_inv r \<longleftrightarrow> \<not> ID_IsZero (Role_EmployerID r) \<and> RoleSpec_Validate (Role_Spec r) = Inr () \<and>
     Rubric_Validate (Role_Rubric r) = Inr () \<and> Role_Title r = Spec_Title (Role_Spec r) \<and>
     RoleStatus_Valid (Role_Status r)"

lemma RoleStatus_Valid_iff [simp]: "RoleStatus_Valid s \<longleftrightarrow> s \<noteq> RoleStatusUnspecified"
  by (cases s) (simp_all add: RoleStatus_Valid_def)

lemma NewRole_inv: "NewRole i e spec rub t = Inr r \<Longrightarrow> role_inv r \<and> Role_Status r = RoleDraft"
  by (auto simp: NewRole_def role_inv_def split: if_splits sum.splits)

lemma Role_Open_inv: "role_inv r \<Longrightarrow> Role_Open r = Inr r' \<Longrightarrow> role_inv r'"
  by (auto simp: Role_Open_def role_inv_def split: if_splits)

lemma Role_Close_inv: "role_inv r \<Longrightarrow> role_inv (Role_Close r)"
  by (simp add: Role_Close_def role_inv_def)

lemma Role_Revise_inv: "role_inv r \<Longrightarrow> Role_Revise r spec rub = Inr r' \<Longrightarrow>
    role_inv r' \<and> Role_ID r' = Role_ID r \<and> Role_EmployerID r' = Role_EmployerID r \<and> Role_Status r' = Role_Status r"
  by (auto simp: Role_Revise_def role_inv_def split: sum.splits)

lemma Role_Open_iff: "role_inv r \<Longrightarrow> (\<exists>r'. Role_Open r = Inr r') \<longleftrightarrow> Role_Status r \<noteq> RoleOpen"
  by (cases "Role_Status r") (simp_all add: Role_Open_def role_inv_def)

lemma validate_competencies_iff:
  "validate_competencies cs = Inr () \<longleftrightarrow> (\<forall>c \<in> set cs. Competency_Validate c = Inr ())"
  by (induction cs) (auto split: sum.splits)

lemma spec_errors_invalid:
  "SalaryBand_Validate b = Inl e \<Longrightarrow> KindOf e = KindInvalid"
  "RoleSpec_Validate s = Inl e \<Longrightarrow> KindOf e = KindInvalid"
  by (auto simp: RoleSpec_Validate_def SalaryBand_Validate_def split: if_splits)

lemma Competency_error: "Competency_Validate c = Inl e \<Longrightarrow> KindOf e = KindInvalid"
  by (auto simp: Competency_Validate_def split: if_splits)

lemma Rubric_error: "Rubric_Validate r = Inl e \<Longrightarrow> KindOf e = KindInvalid"
proof -
  have "validate_competencies cs = Inl e \<Longrightarrow> KindOf e = KindInvalid" for cs
    by (induction cs) (auto split: sum.splits dest: Competency_error)
  then show "Rubric_Validate r = Inl e \<Longrightarrow> KindOf e = KindInvalid"
    by (auto simp: Rubric_Validate_def Let_def split: if_splits sum.splits)
qed

end
