(* ===== verification/Salary.thy ===== *)
theory Salary
  imports Role
begin

section \<open>Market salaries\<close>

text \<open>
  \<open>internal/domain/salary/market.go\<close>: the salary table used when a role states no band. The table
  has three family factors and five levels, so its bands are evaluated one by one.
\<close>

definition salary_currency :: gostr where "salary_currency = lit ''GHS''"

definition roundTo :: rat where "roundTo = 500"

fun baseBand :: "seniority \<Rightarrow> f64 \<times> f64" where
  "baseBand SeniorityJunior = (Fin 4000, Fin 8000)"
| "baseBand SeniorityMid = (Fin 8000, Fin 15000)"
| "baseBand SenioritySenior = (Fin 13000, Fin 22000)"
| "baseBand SeniorityLead = (Fin 20000, Fin 34000)"
| "baseBand SeniorityUnspecified = (Fin 8000, Fin 15000)"

definition containsAny :: "gostr \<Rightarrow> string list \<Rightarrow> bool" where
  "containsAny haystack needles \<longleftrightarrow> list_ex (\<lambda>n. strings_Contains haystack (lit n)) needles"

definition familyFactor :: "gostr \<Rightarrow> f64" where
  "familyFactor title =
     (let t = strings_ToLower title
      in if containsAny t [''data'', ''machine learning'', ''ml engineer'', ''scientist'', ''analytics''] then f64_of (115 / 100)
         else if containsAny t [''devops'', ''sre'', ''platform'', ''infrastructure'', ''reliability'', ''cloud''] then f64_of (115 / 100)
         else if containsAny t [''design'', ''ux'', ''ui/ux''] then f64_of (85 / 100)
         else if containsAny t [''qa'', ''quality assurance'', ''sdet'', ''tester''] then f64_of (85 / 100)
         else Fin 1)"

definition salary_round :: "f64 \<Rightarrow> f64" where
  "salary_round x = fmul (fround (fdiv x (Fin roundTo))) (Fin roundTo)"

definition salary_Lookup :: "gostr \<Rightarrow> seniority \<Rightarrow> SalaryBand" where
  "salary_Lookup title s =
     (let (low, high) = baseBand s; factor = familyFactor title
      in \<lparr>Currency = salary_currency, Low = salary_round (fmul low factor), High = salary_round (fmul high factor)\<rparr>)"

lemma familyFactor_cases: "familyFactor t \<in> {f64_of (115 / 100), f64_of (85 / 100), Fin 1}"
  by (simp add: familyFactor_def Let_def)

definition band_ok :: "SalaryBand \<Rightarrow> bool" where
  "band_ok b \<longleftrightarrow> SalaryBand_Validate b = Inr () \<and> \<not> SalaryBand_IsZero b \<and> flt (Low b) (High b) \<and>
     fle (Fin 3500) (Low b) \<and> fle (High b) (Fin 39000)"

definition market_band :: "f64 \<Rightarrow> seniority \<Rightarrow> SalaryBand" where
  "market_band factor s = \<lparr>Currency = salary_currency,
     Low = salary_round (fmul (fst (baseBand s)) factor), High = salary_round (fmul (snd (baseBand s)) factor)\<rparr>"

lemma salary_Lookup_market: "salary_Lookup t s = market_band (familyFactor t) s"
  by (simp add: salary_Lookup_def market_band_def split_beta Let_def)

lemma market_table:
  "salary_round (fmul (Fin 4000) (f64_of (115 / 100))) = Fin 4500"
  "salary_round (fmul (Fin 8000) (f64_of (115 / 100))) = Fin 9000"
  "salary_round (fmul (Fin 13000) (f64_of (115 / 100))) = Fin 15000"
  "salary_round (fmul (Fin 15000) (f64_of (115 / 100))) = Fin 17500"
  "salary_round (fmul (Fin 20000) (f64_of (115 / 100))) = Fin 23000"
  "salary_round (fmul (Fin 22000) (f64_of (115 / 100))) = Fin 25500"
  "salary_round (fmul (Fin 34000) (f64_of (115 / 100))) = Fin 39000"
  "salary_round (fmul (Fin 4000) (f64_of (85 / 100))) = Fin 3500"
  "salary_round (fmul (Fin 8000) (f64_of (85 / 100))) = Fin 7000"
  "salary_round (fmul (Fin 13000) (f64_of (85 / 100))) = Fin 11000"
  "salary_round (fmul (Fin 15000) (f64_of (85 / 100))) = Fin 13000"
  "salary_round (fmul (Fin 20000) (f64_of (85 / 100))) = Fin 17000"
  "salary_round (fmul (Fin 22000) (f64_of (85 / 100))) = Fin 18500"
  "salary_round (fmul (Fin 34000) (f64_of (85 / 100))) = Fin 29000"
  "salary_round (fmul (Fin 4000) (Fin 1)) = Fin 4000"
  "salary_round (fmul (Fin 8000) (Fin 1)) = Fin 8000"
  "salary_round (fmul (Fin 13000) (Fin 1)) = Fin 13000"
  "salary_round (fmul (Fin 15000) (Fin 1)) = Fin 15000"
  "salary_round (fmul (Fin 20000) (Fin 1)) = Fin 20000"
  "salary_round (fmul (Fin 22000) (Fin 1)) = Fin 22000"
  "salary_round (fmul (Fin 34000) (Fin 1)) = Fin 34000"
  by code_simp+

lemma market_bands_ok:
  "f = f64_of (115 / 100) \<or> f = f64_of (85 / 100) \<or> f = Fin 1 \<Longrightarrow> band_ok (market_band f s)"
proof -
  have GHS: "strings_TrimSpace salary_currency \<noteq> []" by code_simp
  show "f = f64_of (115 / 100) \<or> f = f64_of (85 / 100) \<or> f = Fin 1 \<Longrightarrow> band_ok (market_band f s)"
    unfolding band_ok_def market_band_def SalaryBand_Validate_def SalaryBand_IsZero_def
    by (elim disjE; cases s; simp only: baseBand.simps fst_conv snd_conv SalaryBand.simps market_table)
      (simp_all add: GHS)
qed

text \<open>
  The market table never fails: for every title and every seniority, unknown ones included,
  the band is valid, not the zero band, and lies between 3,500 and 39,000 with its low bound
  strictly below its high bound, after the floating-point scaling and rounding.
\<close>

theorem salary_Lookup_usable: "band_ok (salary_Lookup title s)"
  unfolding salary_Lookup_market
  by (rule market_bands_ok) (use familyFactor_cases [of title] in \<open>unfold insert_iff empty_iff, blast\<close>)

end
