(* ===== verification/Go_JSON.thy ===== *)
theory Go_JSON
  imports Go_Prelude
begin

section \<open>JSON\<close>

text \<open>
  What \<open>encoding/json\<close> writes for the structs of the program: objects of strings, booleans,
  integers and arrays, with the escapes of Go's default (HTML-safe) encoder.
\<close>

datatype json = JStr gostr | JBool bool | JInt int | JNull | JArr "json list" | JObj "(string \<times> json) list"

definition json_hex :: "int \<Rightarrow> rune" where
  "json_hex d = (if d < 10 then 48 + d else 87 + d)"

definition json_u :: "rune \<Rightarrow> gostr" where
  "json_u r = [92, 117, json_hex (r div 4096 mod 16), json_hex (r div 256 mod 16),
     json_hex (r div 16 mod 16), json_hex (r mod 16)]"

definition json_escape :: "rune \<Rightarrow> gostr" where
  "json_escape r =
     (if r = 34 \<or> r = 92 then [92, r]
      else if r = 8 then [92, 98] else if r = 12 then [92, 102] else if r = 10 then [92, 110]
      else if r = 13 then [92, 114] else if r = 9 then [92, 116]
      else if r < 32 \<or> r = 60 \<or> r = 62 \<or> r = 38 \<or> r = 8232 \<or> r = 8233 then json_u r
      else [r])"

definition json_string :: "gostr \<Rightarrow> gostr" where
  "json_string s = [34] @ concat (map json_escape s) @ [34]"

function dec_digits :: "int \<Rightarrow> gostr" where
  "dec_digits n = (if n < 10 then [48 + n] else dec_digits (n div 10) @ [48 + n mod 10])"
  by pat_completeness auto
termination
  by (relation "measure nat") auto

declare dec_digits.simps [simp del]

definition dec_int :: "int \<Rightarrow> gostr" where
  "dec_int n = (if n < 0 then 45 # dec_digits (- n) else dec_digits n)"

fun json_Marshal :: "json \<Rightarrow> gostr" where
  "json_Marshal (JStr s) = json_string s"
| "json_Marshal (JBool b) = (if b then lit ''true'' else lit ''false'')"
| "json_Marshal (JInt n) = dec_int n"
| "json_Marshal JNull = lit ''null''"
| "json_Marshal (JArr xs) = [91] @ strings_Join (map json_Marshal xs) [44] @ [93]"
| "json_Marshal (JObj fs) =
     [123] @ strings_Join (map (\<lambda>(k, v). json_string (lit k) @ [58] @ json_Marshal v) fs) [44] @ [125]"

end
