(* ===== verification/Matching.thy ===== *)
theory Matching
  imports Guard Go_JSON Kernel
begin

section \<open>Matching\<close>

text \<open>
  \<open>internal/domain/matching\<close>: the bias gate (\<open>bias.go\<close>), the hard filters (\<open>filter.go\<close>), the
  deterministic two-way fit (\<open>fit.go\<close>), matches (\<open>matching.go\<close>) and human rejections
  (\<open>rejection.go\<close>). The lemmas show that filters exclude only on positive evidence, that a fit
  score stays in the unit interval under floating-point rounding, and when the must-have gates
  open.
\<close>

subsection \<open>The bias gate\<close>

definition protectedAttributes :: "string list" where
  "protectedAttributes =
     [''gender'', ''age'', ''ethnicity'', ''religion'', ''nationality'', ''marital_status'', ''disability'']"

definition ProtectedAttributes :: "string list" where
  "ProtectedAttributes = sort protectedAttributes"

definition is_protected :: "gostr \<Rightarrow> bool" where
  "is_protected key \<longleftrightarrow> strings_ToLower (strings_TrimSpace key) \<in> set (map lit protectedAttributes)"

fun EnsureBiasSafe :: "gostr list \<Rightarrow> unit res" where
  "EnsureBiasSafe [] = Inr ()"
| "EnsureBiasSafe (key # keys) =
     (if is_protected key
      then Inl (Invalidf ''matching: signal key %q is a protected attribute and must not be used for ranking'' [AStr key])
      else EnsureBiasSafe keys)"

lemma EnsureBiasSafe_iff: "EnsureBiasSafe ks = Inr () \<longleftrightarrow> (\<forall>k \<in> set ks. \<not> is_protected k)"
  by (induction ks) auto

lemma EnsureBiasSafe_error: "EnsureBiasSafe ks = Inl e \<Longrightarrow> KindOf e = KindInvalid"
  by (induction ks) (auto split: if_splits)

subsection \<open>Matches\<close>

record MatchBreakdownItem =
  BD_Competency :: gostr
  BD_Score :: f64
  BD_Evidence :: gostr

definition MatchBreakdownItem_Validate :: "MatchBreakdownItem \<Rightarrow> unit res" where
  "MatchBreakdownItem_Validate i =
     (if strings_TrimSpace (BD_Competency i) = [] then Inl (Invalid ''matching: breakdown competency must not be empty'')
      else if flt (BD_Score i) (Fin 0) \<or> flt (Fin 5) (BD_Score i)
        then Inl (Invalidf ''matching: breakdown score %.2f out of range [0,5]'' [AFloat (BD_Score i)])
      else Inr ())"

record Match =
  Match_ID :: ID
  Match_RoleID :: ID
  Match_CandidateID :: ID
  OverallScore :: f64
  Match_Confidence :: confidence
  Breakdown :: "MatchBreakdownItem list"
  Rationale :: gostr
  WatchOuts :: "gostr list"
  ThinEvidence :: bool
  Match_CreatedAt :: time

fun validate_breakdown :: "MatchBreakdownItem list \<Rightarrow> unit res" where
  "validate_breakdown [] = Inr ()"
| "validate_breakdown (i # is) =
     (case MatchBreakdownItem_Validate i of Inl e \<Rightarrow> Inl e | Inr u \<Rightarrow> validate_breakdown is)"

definition NewMatch :: "ID \<Rightarrow> ID \<Rightarrow> ID \<Rightarrow> f64 \<Rightarrow> confidence \<Rightarrow> MatchBreakdownItem list \<Rightarrow> gostr \<Rightarrow>
    gostr list \<Rightarrow> bool \<Rightarrow> Match res" where
  "NewMatch newid roleID candidateID overall conf breakdown rationale watchOuts thinEvidence =
     (if ID_IsZero roleID then Inl (Invalid ''matching: roleID must not be zero'')
      else if ID_IsZero candidateID then Inl (Invalid ''matching: candidateID must not be zero'')
      else if flt overall (Fin 0) \<or> flt (Fin 1) overall
        then Inl (Invalidf ''matching: overall score %.4f out of range [0,1]'' [AFloat overall])
      else if \<not> Confidence_Valid conf
        then Inl (Invalidf ''matching: confidence %q is not valid'' [AStr (lit (Confidence_String conf))])
      else case validate_breakdown breakdown of Inl e \<Rightarrow> Inl e
        | Inr u \<Rightarrow> Inr \<lparr>Match_ID = newid, Match_RoleID = roleID, Match_CandidateID = candidateID,
            OverallScore = overall, Match_Confidence = conf, Breakdown = breakdown, Rationale = rationale,
            WatchOuts = watchOuts, ThinEvidence = thinEvidence, Match_CreatedAt = 0\<rparr>)"

definition match_ok :: "Match \<Rightarrow> bool" where
  "match_ok m \<longleftrightarrow> \<not> ID_IsZero (Match_RoleID m) \<and> \<not> ID_IsZero (Match_CandidateID m) \<and>
     \<not> flt (OverallScore m) (Fin 0) \<and> \<not> flt (Fin 1) (OverallScore m) \<and> Confidence_Valid (Match_Confidence m) \<and>
     (\<forall>i \<in> set (Breakdown m). MatchBreakdownItem_Validate i = Inr ())"

lemma validate_breakdown_iff:
  "validate_breakdown is = Inr () \<longleftrightarrow> (\<forall>i \<in> set is. MatchBreakdownItem_Validate i = Inr ())"
  by (induction "is") (auto split: sum.splits)

lemma NewMatch_ok: "NewMatch i r c ov cf bd ra wo th = Inr m \<Longrightarrow> match_ok m \<and> Match_RoleID m = r \<and>
    Match_CandidateID m = c \<and> Match_ID m = i \<and> OverallScore m = ov"
  by (auto simp: NewMatch_def match_ok_def validate_breakdown_iff [symmetric] split: if_splits sum.splits)

subsection \<open>Tokens of a text\<close>

definition splitTokens :: "gostr \<Rightarrow> gostr list" where
  "splitTokens s = Tokens s"

definition hasToken :: "gostr \<Rightarrow> gostr \<Rightarrow> bool" where
  "hasToken text key \<longleftrightarrow> key \<in> set (splitTokens text)"

definition tokenSet :: "gostr \<Rightarrow> gostr set" where
  "tokenSet s = set (splitTokens (strings_ToLower s))"

subsection \<open>Hard filters\<close>

definition GateLocation :: string where "GateLocation = ''location''"
definition GateSalaryFloor :: string where "GateSalaryFloor = ''salary_floor''"
definition GateMustHave :: string where "GateMustHave = ''must_have_competency''"

definition MinMustHaveScore :: f64 where "MinMustHaveScore = Fin 2"

record Exclusion =
  Ex_CandidateID :: ID
  Ex_Gate :: string
  Ex_Reason :: "string \<times> fmtarg list"

record Requirements =
  Req_Location :: gostr
  RemoteAllowed :: bool
  SalaryCeiling :: f64
  Req_SalaryCurrency :: gostr
  MustHaves :: "gostr list"

definition ViolatesDealBreaker :: "gostr list \<Rightarrow> gostr \<Rightarrow> bool" where
  "ViolatesDealBreaker dealBreakers roleText =
     (let haystack = Tokens (strings_ToLower roleText)
      in list_ex (\<lambda>db. HasPhrase haystack (Tokens (strings_ToLower (strings_TrimSpace db)))) dealBreakers)"

definition replace_dash :: "gostr \<Rightarrow> gostr" where
  "replace_dash s = map (\<lambda>r. if r = 45 then 32 else r) s"

definition NewRequirements :: "gostr \<Rightarrow> f64 \<Rightarrow> gostr \<Rightarrow> gostr list \<Rightarrow> Requirements" where
  "NewRequirements location salaryCeiling salaryCurrency mustHaves =
     \<lparr>Req_Location = location,
      RemoteAllowed = hasToken (replace_dash (strings_ToLower location)) (lit ''remote''),
      SalaryCeiling = salaryCeiling, Req_SalaryCurrency = salaryCurrency, MustHaves = mustHaves\<rparr>"

definition salaryFloorExceedsBand :: "Requirements \<Rightarrow> f64 \<Rightarrow> gostr \<Rightarrow> bool" where
  "salaryFloorExceedsBand r salaryFloor salaryCurrency =
     (if fle (SalaryCeiling r) (Fin 0) \<or> fle salaryFloor (Fin 0) then False
      else let roleCur = strings_TrimSpace (Req_SalaryCurrency r); candCur = strings_TrimSpace salaryCurrency
        in if roleCur = [] \<or> candCur = [] \<or> \<not> strings_EqualFold roleCur candCur then False
           else flt (SalaryCeiling r) salaryFloor)"

definition locationMismatch :: "Requirements \<Rightarrow> gostr \<Rightarrow> bool" where
  "locationMismatch r location =
     (if RemoteAllowed r then False
      else let want = tokenSet (Req_Location r); got = tokenSet location
        in if want = {} \<or> got = {} then False
           else if \<exists>w \<in> want. w \<in> got then False else True)"

definition ScreenLogistics :: "Requirements \<Rightarrow> ID \<Rightarrow> gostr \<Rightarrow> f64 \<Rightarrow> gostr \<Rightarrow> Exclusion list" where
  "ScreenLogistics r candidateID location salaryFloor salaryCurrency =
     (if locationMismatch r location
      then [\<lparr>Ex_CandidateID = candidateID, Ex_Gate = GateLocation,
             Ex_Reason = (''role location %q is incompatible with candidate location %q'',
               [AStr (Req_Location r), AStr location])\<rparr>] else []) @
     (if salaryFloorExceedsBand r salaryFloor salaryCurrency
      then [\<lparr>Ex_CandidateID = candidateID, Ex_Gate = GateSalaryFloor,
             Ex_Reason = (''candidate salary floor %.0f %s exceeds role ceiling %.0f %s'',
               [AFloat salaryFloor, AStr salaryCurrency, AFloat (SalaryCeiling r), AStr (Req_SalaryCurrency r)])\<rparr>]
      else [])"

fun scoreForCompetency :: "MatchBreakdownItem list \<Rightarrow> gostr \<Rightarrow> f64 \<times> bool" where
  "scoreForCompetency [] key = (Fin 0, False)"
| "scoreForCompetency (b # bs) key =
     (let comp = strings_ToLower (strings_TrimSpace (BD_Competency b))
      in if comp = key \<or> hasToken comp key then (BD_Score b, True) else scoreForCompetency bs key)"

text \<open>The loop of \<open>ScreenMatch\<close>, with the set \<open>seen\<close> and the exclusions found so far.\<close>

fun screen_must_haves :: "Match \<Rightarrow> gostr list \<Rightarrow> gostr set \<Rightarrow> Exclusion list \<Rightarrow> Exclusion list" where
  "screen_must_haves m [] seen ex = ex"
| "screen_must_haves m (name # names) seen ex =
     (let key = strings_ToLower (strings_TrimSpace name)
      in if key = [] then screen_must_haves m names seen ex
         else if key \<in> seen then screen_must_haves m names seen ex
         else let seen = insert key seen; (score, found) = scoreForCompetency (Breakdown m) key
           in screen_must_haves m names seen
             (if found \<and> flt score MinMustHaveScore
              then ex @ [\<lparr>Ex_CandidateID = Match_CandidateID m, Ex_Gate = GateMustHave,
                Ex_Reason = (''must-have competency %q scored %.1f/5, below the %.1f minimum'',
                  [AStr name, AFloat score, AFloat MinMustHaveScore])\<rparr>]
              else ex))"

definition ScreenMatch :: "Requirements \<Rightarrow> Match option \<Rightarrow> Exclusion list" where
  "ScreenMatch r mo = (case mo of None \<Rightarrow> [] | Some m \<Rightarrow> screen_must_haves m (MustHaves r) {} [])"

subsection \<open>Two-way fit\<close>

definition maxCompetencyLevel :: f64 where "maxCompetencyLevel = Fin 5"

record RubricSignal =
  RS_Name :: gostr
  RS_Weight :: f64
  RS_MustHave :: bool

record CandidateSignal =
  CS_Name :: gostr
  CS_Level :: f64

record Fit =
  Fit_Score :: f64
  MustHavesMet :: bool
  Covered :: "gostr list"
  Missing :: "gostr list"

fun candidateLevel :: "CandidateSignal list \<Rightarrow> gostr \<Rightarrow> f64 \<times> bool" where
  "candidateLevel [] key = (Fin 0, False)"
| "candidateLevel (c # cs) key =
     (let name = strings_ToLower (strings_TrimSpace (CS_Name c))
      in if name = key \<or> hasToken name key then (CS_Level c, True) else candidateLevel cs key)"

definition clampUnit :: "f64 \<Rightarrow> f64" where
  "clampUnit v = (if flt v (Fin 0) then Fin 0 else if flt (Fin 1) v then Fin 1 else v)"

text \<open>One iteration over the rubric, on the fit so far and the total weight so far.\<close>

definition fit_step :: "CandidateSignal list \<Rightarrow> RubricSignal \<Rightarrow> Fit \<times> f64 \<Rightarrow> Fit \<times> f64" where
  "fit_step candidate rs acc =
     (let (fit, totalWeight) = acc; key = strings_ToLower (strings_TrimSpace (RS_Name rs))
      in if key = [] then (fit, totalWeight)
         else let totalWeight = fadd totalWeight (RS_Weight rs);
                (level, found) = candidateLevel candidate key;
                fit = (if found
                  then fit\<lparr>Fit_Score := fadd (Fit_Score fit) (fmul (RS_Weight rs) (clampUnit (fdiv level maxCompetencyLevel))),
                           Covered := Covered fit @ [RS_Name rs]\<rparr>
                  else fit);
                fit = (if RS_MustHave rs \<and> (\<not> found \<or> flt level MinMustHaveScore)
                  then fit\<lparr>MustHavesMet := False, Missing := Missing fit @ [RS_Name rs]\<rparr>
                  else fit)
           in (fit, totalWeight))"

definition empty_fit :: Fit where
  "empty_fit = \<lparr>Fit_Score = Fin 0, MustHavesMet = True, Covered = [], Missing = []\<rparr>"

definition ComputeFit :: "RubricSignal list \<Rightarrow> CandidateSignal list \<Rightarrow> Fit" where
  "ComputeFit rubric candidate =
     (let (fit, totalWeight) = fold (fit_step candidate) rubric (empty_fit, Fin 0)
      in if flt (Fin 0) totalWeight then fit\<lparr>Fit_Score := fdiv (Fit_Score fit) totalWeight\<rparr> else fit)"

definition CoversMustHaves :: "RubricSignal list \<Rightarrow> CandidateSignal list \<Rightarrow> bool" where
  "CoversMustHaves rubric candidate \<longleftrightarrow> MustHavesMet (ComputeFit rubric candidate)"

subsection \<open>Rejections\<close>

definition MaxReasonLen :: int where "MaxReasonLen = 2000"

record Rejection =
  Rej_RoleID :: ID
  Rej_CandidateID :: ID
  Rej_Reason :: gostr

definition NewRejection :: "ID \<Rightarrow> ID \<Rightarrow> gostr \<Rightarrow> bool \<Rightarrow> Rejection res" where
  "NewRejection roleID candidateID reason humanApproved =
     (if \<not> humanApproved
      then Inl (Invalid ''rejection: a human must approve every decline; the system never auto-rejects'')
      else if ID_IsZero roleID \<or> ID_IsZero candidateID
        then Inl (Invalid ''rejection: role and candidate are required'')
      else let reason = strings_TrimSpace (Sanitize reason)
        in if reason = [] then Inl (Invalid ''rejection: a reason is required (a decline must be explainable)'')
           else if MaxReasonLen < rune_count reason
             then Inl (Invalidf ''rejection: reason exceeds %d characters'' [AInt MaxReasonLen])
           else Inr \<lparr>Rej_RoleID = roleID, Rej_CandidateID = candidateID, Rej_Reason = reason\<rparr>)"

definition Rejection_SnapshotJSON :: "Rejection \<Rightarrow> gostr" where
  "Rejection_SnapshotJSON r = json_Marshal (JObj
     [(''role_id'', JStr (Rej_RoleID r)), (''candidate_id'', JStr (Rej_CandidateID r)),
      (''reason'', JStr (Rej_Reason r)), (''human_approved'', JBool True)])"

lemma NewRejection_ok: "NewRejection r c s h = Inr j \<Longrightarrow> h \<and> \<not> ID_IsZero r \<and> \<not> ID_IsZero c \<and>
    Rej_RoleID j = r \<and> Rej_CandidateID j = c \<and> Rej_Reason j \<noteq> [] \<and> trimmed (Rej_Reason j) \<and>
    rune_count (Rej_Reason j) \<le> MaxReasonLen"
  by (auto simp: NewRejection_def Let_def split: if_splits)

lemma NewRejection_error: "NewRejection r c s h = Inl e \<Longrightarrow> KindOf e = KindInvalid"
  by (auto simp: NewRejection_def Let_def split: if_splits)

subsection \<open>What the filters exclude\<close>

definition addresses :: "gostr \<Rightarrow> gostr \<Rightarrow> bool" where
  "addresses name key \<longleftrightarrow> (let n = strings_ToLower (strings_TrimSpace name) in n = key \<or> hasToken n key)"

definition must_have_key :: "gostr \<Rightarrow> gostr" where
  "must_have_key name = strings_ToLower (strings_TrimSpace name)"

text \<open>
  A competency is scored by the first entry that addresses it; a later entry for the same competency does not
  count.
\<close>

definition scored_by :: "MatchBreakdownItem list \<Rightarrow> gostr \<Rightarrow> MatchBreakdownItem \<Rightarrow> bool" where
  "scored_by bs key b \<longleftrightarrow> (\<exists>before later. bs = before @ b # later \<and> addresses (BD_Competency b) key \<and>
     (\<forall>x \<in> set before. \<not> addresses (BD_Competency x) key))"

definition underscored :: "Match \<Rightarrow> gostr \<Rightarrow> bool" where
  "underscored m key \<longleftrightarrow> (\<exists>b. scored_by (Breakdown m) key b \<and> flt (BD_Score b) MinMustHaveScore)"

lemma scored_by_Nil [simp]: "\<not> scored_by [] key b"
  by (simp add: scored_by_def)

lemma scored_by_Cons [simp]:
  "scored_by (x # bs) key b \<longleftrightarrow> (if addresses (BD_Competency x) key then b = x else scored_by bs key b)"
proof (cases "addresses (BD_Competency x) key")
  case True
  show ?thesis
  proof
    assume "scored_by (x # bs) key b"
    then obtain before later where e: "x # bs = before @ b # later" "\<forall>x \<in> set before. \<not> addresses (BD_Competency x) key"
      unfolding scored_by_def by blast
    with True have "before = []" by (cases before) auto
    with e True show "if addresses (BD_Competency x) key then b = x else scored_by bs key b" by simp
  next
    assume "if addresses (BD_Competency x) key then b = x else scored_by bs key b"
    with True show "scored_by (x # bs) key b" unfolding scored_by_def by (intro exI [of _ "[]"] exI [of _ bs]) simp
  qed
next
  case False
  show ?thesis
  proof
    assume "scored_by (x # bs) key b"
    then obtain before later where e: "x # bs = before @ b # later" "addresses (BD_Competency b) key"
        "\<forall>x \<in> set before. \<not> addresses (BD_Competency x) key"
      unfolding scored_by_def by blast
    with False obtain before' where "before = x # before'" by (cases before) auto
    with e False show "if addresses (BD_Competency x) key then b = x else scored_by bs key b"
      unfolding scored_by_def by auto
  next
    assume "if addresses (BD_Competency x) key then b = x else scored_by bs key b"
    with False obtain before later where "bs = before @ b # later" "addresses (BD_Competency b) key"
        "\<forall>x \<in> set before. \<not> addresses (BD_Competency x) key"
      unfolding scored_by_def by auto
    with False show "scored_by (x # bs) key b" unfolding scored_by_def by (intro exI [of _ "x # before"] exI [of _ later]) simp
  qed
qed

lemma scoreForCompetency_scored:
  "snd (scoreForCompetency bs key) \<longleftrightarrow> (\<exists>b. scored_by bs key b)"
  "scored_by bs key b \<Longrightarrow> fst (scoreForCompetency bs key) = BD_Score b"
  by (induction bs) (auto simp: addresses_def Let_def split: if_splits)

lemma underscored_iff:
  "underscored m key \<longleftrightarrow> snd (scoreForCompetency (Breakdown m) key) \<and>
     flt (fst (scoreForCompetency (Breakdown m) key)) MinMustHaveScore"
  unfolding underscored_def scoreForCompetency_scored(1) using scoreForCompetency_scored(2) by metis

definition must_have_exclusion :: "Match \<Rightarrow> gostr \<Rightarrow> Exclusion" where
  "must_have_exclusion m name = \<lparr>Ex_CandidateID = Match_CandidateID m, Ex_Gate = GateMustHave,
     Ex_Reason = (''must-have competency %q scored %.1f/5, below the %.1f minimum'',
       [AStr name, AFloat (fst (scoreForCompetency (Breakdown m) (must_have_key name))), AFloat MinMustHaveScore])\<rparr>"

lemma screen_must_haves_Cons:
  "screen_must_haves m (name # names) seen ex =
     (if must_have_key name = [] \<or> must_have_key name \<in> seen then screen_must_haves m names seen ex
      else screen_must_haves m names (insert (must_have_key name) seen)
        (if underscored m (must_have_key name) then ex @ [must_have_exclusion m name] else ex))"
  by (auto simp: Let_def must_have_key_def underscored_iff must_have_exclusion_def split_beta
      simp del: ToLower_Nil_iff)

lemma screen_must_haves_Nil:
  "screen_must_haves m names seen ex = [] \<longleftrightarrow> ex = [] \<and>
     (\<forall>n \<in> set names. must_have_key n = [] \<or> must_have_key n \<in> seen \<or> \<not> underscored m (must_have_key n))"
  by (induction names arbitrary: seen ex)
    (simp, auto simp: screen_must_haves_Cons simp del: screen_must_haves.simps(2))

lemma screen_must_haves_sound:
  "e \<in> set (screen_must_haves m names seen ex) \<Longrightarrow> e \<in> set ex \<or>
     Ex_CandidateID e = Match_CandidateID m \<and> Ex_Gate e = GateMustHave \<and>
     (\<exists>n \<in> set names. must_have_key n \<noteq> [] \<and> underscored m (must_have_key n))"
proof (induction names arbitrary: seen ex)
  case (Cons name names)
  from Cons.prems Cons.IH show ?case
    unfolding screen_must_haves_Cons
    by (auto simp: must_have_exclusion_def split: if_splits) (fastforce simp: must_have_exclusion_def)+
qed simp

text \<open>
  C5: The post-scoring gate rejects only on a score that is present and too low. A match is excluded exactly
  when for some must-have of the role, blank names aside, the first breakdown entry of the match that addresses it
  scores below the minimum of two; a later entry for the same must-have does not count, and a must-have that no
  entry addresses never excludes. Every exclusion names the match's candidate and this gate.
\<close>

theorem must_have_screen:
  "(ScreenMatch r (Some m) \<noteq> [] \<longleftrightarrow> (\<exists>n \<in> set (MustHaves r). must_have_key n \<noteq> [] \<and>
      (\<exists>before b later. Breakdown m = before @ b # later \<and> addresses (BD_Competency b) (must_have_key n) \<and>
         (\<forall>x \<in> set before. \<not> addresses (BD_Competency x) (must_have_key n)) \<and> flt (BD_Score b) MinMustHaveScore))) \<and>
   (\<forall>e \<in> set (ScreenMatch r (Some m)). Ex_CandidateID e = Match_CandidateID m \<and> Ex_Gate e = GateMustHave)"
proof -
  have "(\<exists>before b later. Breakdown m = before @ b # later \<and> addresses (BD_Competency b) key \<and>
      (\<forall>x \<in> set before. \<not> addresses (BD_Competency x) key) \<and> flt (BD_Score b) MinMustHaveScore) \<longleftrightarrow> underscored m key" for key
    unfolding underscored_def scored_by_def by blast
  then show ?thesis using screen_must_haves_sound [of _ m "MustHaves r" "{}" "[]"]
    by (auto simp: ScreenMatch_def screen_must_haves_Nil)
qed

lemma must_have_screen_witness:
  "ScreenMatch (NewRequirements (lit ''Accra'') (Fin 0) [] [lit '' SQL ''])
     (Some \<lparr>Match_ID = [], Match_RoleID = [], Match_CandidateID = [], OverallScore = Fin 0,
        Match_Confidence = ConfidenceLow,
        Breakdown = [\<lparr>BD_Competency = lit ''SQL / Databases'', BD_Score = Fin 1, BD_Evidence = []\<rparr>],
        Rationale = [], WatchOuts = [], ThinEvidence = False, Match_CreatedAt = 0\<rparr>) \<noteq> []" (is "ScreenMatch ?r (Some ?m) \<noteq> []")
proof -
  have "must_have_key (lit '' SQL '') \<noteq> []" "addresses (lit ''SQL / Databases'') (must_have_key (lit '' SQL ''))"
    "flt (Fin 1) MinMustHaveScore"
    by code_simp+
  then show ?thesis using must_have_screen [of ?r ?m] unfolding NewRequirements_def by force
qed

lemma ViolatesDealBreaker_iff:
  "ViolatesDealBreaker dbs text \<longleftrightarrow> (\<exists>db \<in> set dbs. Tokens db \<noteq> [] \<and>
     sublist (map strings_ToLower (Tokens db)) (map strings_ToLower (Tokens text)))"
  by (simp add: ViolatesDealBreaker_def list_ex_iff HasPhrase_iff go_str)

lemma locationMismatch_iff:
  "locationMismatch r loc \<longleftrightarrow> \<not> RemoteAllowed r \<and> tokenSet (Req_Location r) \<noteq> {} \<and> tokenSet loc \<noteq> {} \<and>
     tokenSet (Req_Location r) \<inter> tokenSet loc = {}"
  by (auto simp: locationMismatch_def Let_def)

lemma salaryFloorExceedsBand_iff:
  "salaryFloorExceedsBand r flr cur \<longleftrightarrow> \<not> fle (SalaryCeiling r) (Fin 0) \<and> \<not> fle flr (Fin 0) \<and>
     strings_TrimSpace (Req_SalaryCurrency r) \<noteq> [] \<and>
     strings_EqualFold (strings_TrimSpace (Req_SalaryCurrency r)) (strings_TrimSpace cur) \<and>
     flt (SalaryCeiling r) flr"
  by (auto simp: salaryFloorExceedsBand_def Let_def strings_EqualFold_def)

subsection \<open>The fit of a profile\<close>

definition weight_ok :: "RubricSignal \<Rightarrow> bool" where
  "weight_ok rs \<longleftrightarrow> is_f64 (RS_Weight rs) \<and> (\<exists>w. RS_Weight rs = Fin w \<and> 0 \<le> w \<and> w \<le> 1)"

lemma f64_of_not_NaN [simp]: "f64_of q \<noteq> NaN"
  by (simp add: f64_of_def Let_def)

lemma clampUnit_level:
  assumes "l \<noteq> NaN"
  shows "\<exists>c. clampUnit (fdiv l maxCompetencyLevel) = Fin c \<and> 0 \<le> c \<and> c \<le> 1"
proof (cases l)
  case (Fin a)
  show ?thesis
    by (cases "f64_of (a / 5)") (auto simp: Fin clampUnit_def maxCompetencyLevel_def)
qed (use assms in \<open>simp_all add: clampUnit_def maxCompetencyLevel_def finf_def\<close>)

lemma candidateLevel_cases:
  "candidateLevel cs key = (l, True) \<Longrightarrow> \<exists>c \<in> set cs. addresses (CS_Name c) key \<and> CS_Level c = l"
  by (induction cs) (auto simp: addresses_def Let_def split: if_splits)

lemma candidateLevel_append:
  "snd (candidateLevel cs key) \<Longrightarrow> candidateLevel (cs @ ds) key = candidateLevel cs key"
  by (induction cs) (auto simp: Let_def)

text \<open>Score and total weight stay finite and the score never passes the weight.\<close>

definition fit_bounds :: "nat \<Rightarrow> Fit \<times> f64 \<Rightarrow> bool" where
  "fit_bounds n acc \<longleftrightarrow> (\<exists>s t. Fit_Score (fst acc) = Fin s \<and> snd acc = Fin t \<and> fl s = s \<and> 0 \<le> s \<and> s \<le> t \<and>
     t \<le> of_nat n)"

lemma fl_nonneg: "0 \<le> q \<Longrightarrow> 0 \<le> fl q"
  using fl_mono [of 0 q] fl_int [of 0] by simp

lemma fit_bounds_mono: "fit_bounds n acc \<Longrightarrow> fit_bounds (Suc n) acc"
  unfolding fit_bounds_def by fastforce

lemma fit_step_bounds:
  assumes acc: "fit_bounds n acc" and rs: "weight_ok rs" and n: "int n < 2 ^ 53"
    and cs: "\<forall>c \<in> set cs. CS_Level c \<noteq> NaN"
  shows "fit_bounds (Suc n) (fit_step cs rs acc)"
proof -
  obtain fit tw where acc': "acc = (fit, tw)" by (cases acc)
  obtain s t where st: "Fit_Score fit = Fin s" "tw = Fin t" "fl s = s" "0 \<le> s" "s \<le> t" "t \<le> of_nat n"
    using acc acc' unfolding fit_bounds_def by auto
  obtain w where w: "RS_Weight rs = Fin w" "0 \<le> w" "w \<le> 1" "fl w = w"
    using rs unfolding weight_ok_def by auto
  have sum: "f64_of q = Fin (fl q) \<and> 0 \<le> fl q \<and> fl q \<le> of_nat (Suc n)" if "0 \<le> q" "q \<le> t + w" for q
  proof -
    have q: "of_int 0 \<le> q" "q \<le> of_int (int (Suc n))" "\<bar>0::int\<bar> \<le> 2 ^ 53" "\<bar>int (Suc n)\<bar> \<le> 2 ^ 53"
      using that st(6) w(3) n by simp_all
    show ?thesis using f64_of_between [OF q] fl_bounds_int [OF q] by simp
  qed
  have tw': "fadd tw (RS_Weight rs) = Fin (fl (t + w))" "fl (t + w) \<le> of_nat (Suc n)" "0 \<le> fl (t + w)"
    using sum [of "t + w"] st w by simp_all
  show ?thesis
  proof (cases "strings_ToLower (strings_TrimSpace (RS_Name rs)) = []")
    case True
    then show ?thesis using fit_bounds_mono [OF acc] acc' by (simp add: fit_step_def)
  next
    case False
    let ?key = "strings_ToLower (strings_TrimSpace (RS_Name rs))"
    obtain l f where lf: "candidateLevel cs ?key = (l, f)" by (cases "candidateLevel cs ?key")
    let ?s' = "if f then fadd (Fin s) (fmul (Fin w) (clampUnit (fdiv l maxCompetencyLevel))) else Fin s"
    have res: "Fit_Score (fst (fit_step cs rs acc)) = ?s'" "snd (fit_step cs rs acc) = Fin (fl (t + w))"
      using False lf acc' st w tw'(1) by (simp_all add: fit_step_def Let_def)
    show ?thesis
    proof (cases f)
      case True
      then have "l \<noteq> NaN" using candidateLevel_cases [of cs ?key l] lf cs by auto
      then obtain c where c: "clampUnit (fdiv l maxCompetencyLevel) = Fin c" "0 \<le> c" "c \<le> 1"
        using clampUnit_level by blast
      have wc: "0 \<le> w * c" "w * c \<le> w" using w c by (simp_all add: mult_left_le)
      then have p: "0 \<le> fl (w * c)" "fl (w * c) \<le> w"
        using fl_nonneg fl_mono [OF wc(2)] w(4) by simp_all
      have "fmul (Fin w) (Fin c) = Fin (fl (w * c))" using sum [of "w * c"] wc st by simp
      then have "?s' = Fin (fl (s + fl (w * c)))"
        using True c sum [of "s + fl (w * c)"] p st by simp
      moreover have "fl (s + fl (w * c)) \<le> fl (t + w)" using p st by (intro fl_mono) simp
      moreover have "0 \<le> fl (s + fl (w * c))" using p st by (intro fl_nonneg) simp
      ultimately show ?thesis unfolding fit_bounds_def res using tw' fl_idem by blast
    next
      case False
      have "s \<le> fl (t + w)" using fl_mono [of s "t + w"] st w by simp
      then show ?thesis unfolding fit_bounds_def res using False st tw' by auto
    qed
  qed
qed

lemma fold_fit_bounds:
  assumes "\<forall>rs \<in> set rubric. weight_ok rs" and "\<forall>c \<in> set cs. CS_Level c \<noteq> NaN"
    and "fit_bounds n acc" and "int n + int (length rubric) < 2 ^ 53"
  shows "fit_bounds (n + length rubric) (fold (fit_step cs) rubric acc)"
  using assms
proof (induction rubric arbitrary: n acc)
  case (Cons rs rubric)
  then have "fit_bounds (Suc n) (fit_step cs rs acc)" by (intro fit_step_bounds) auto
  with Cons.IH [of "Suc n"] Cons.prems show ?case by simp
qed simp

text \<open>
  The two-way fit score is a number in the unit interval, in floating-point arithmetic: for
  weights that are doubles in [0,1] and levels that are not NaN (out-of-range and infinite levels
  included), neither the weighted sum nor the final division rounds past 1 or below 0, whatever
  the number of signals.
\<close>

lemma fit_score_unit:
  assumes "\<forall>rs \<in> set rubric. weight_ok rs" and "\<forall>c \<in> set candidate. CS_Level c \<noteq> NaN"
    and "int (length rubric) < 2 ^ 53"
  shows "\<exists>x. Fit_Score (ComputeFit rubric candidate) = Fin x \<and> 0 \<le> x \<and> x \<le> 1"
proof -
  obtain fit tw where acc: "fold (fit_step candidate) rubric (empty_fit, Fin 0) = (fit, tw)"
    by (cases "fold (fit_step candidate) rubric (empty_fit, Fin 0)")
  have "fit_bounds 0 (empty_fit, Fin 0)" by (simp add: fit_bounds_def empty_fit_def fl_def)
  from fold_fit_bounds [OF assms(1,2) this] assms(3) acc obtain s t where
    st: "Fit_Score fit = Fin s" "tw = Fin t" "0 \<le> s" "s \<le> t"
    by (auto simp: fit_bounds_def)
  show ?thesis
  proof (cases "0 < t")
    case True
    then have q: "of_int 0 \<le> s / t" "s / t \<le> of_int 1" "\<bar>0::int\<bar> \<le> 2 ^ 53" "\<bar>1::int\<bar> \<le> 2 ^ 53"
      using st by simp_all
    then show ?thesis
      using True st f64_of_between [OF q] fl_bounds_int [OF q] by (simp add: ComputeFit_def acc)
  next
    case False
    then show ?thesis using st by (simp add: ComputeFit_def acc)
  qed
qed

lemma fit_score_unit_witness:
  "\<exists>x. Fit_Score (ComputeFit [\<lparr>RS_Name = lit ''Go'', RS_Weight = f64_of (7 / 10), RS_MustHave = True\<rparr>]
      [\<lparr>CS_Name = lit ''Go'', CS_Level = PInf\<rparr>]) = Fin x \<and> 0 \<le> x \<and> x \<le> 1"
proof (rule fit_score_unit)
  have "f64_of (7 / 10) = Fin (fl (7 / 10))" "0 \<le> fl (7 / 10)" "fl (7 / 10) \<le> 1"
    using f64_of_between [of 0 "7 / 10" 1] fl_bounds_int [of 0 "7 / 10" 1] by simp_all
  then show "\<forall>rs \<in> set [\<lparr>RS_Name = lit ''Go'', RS_Weight = f64_of (7 / 10), RS_MustHave = True\<rparr>]. weight_ok rs"
    using is_f64_of [of "7 / 10"] by (simp add: weight_ok_def del: is_f64_of is_f64.simps)
qed simp_all

definition signal_key :: "RubricSignal \<Rightarrow> gostr" where
  "signal_key rs = strings_ToLower (strings_TrimSpace (RS_Name rs))"

text \<open>A must-have the profile does not evidence at the minimum level.\<close>

definition gap :: "CandidateSignal list \<Rightarrow> RubricSignal \<Rightarrow> bool" where
  "gap candidate rs \<longleftrightarrow> signal_key rs \<noteq> [] \<and> RS_MustHave rs \<and>
     (let (level, found) = candidateLevel candidate (signal_key rs) in \<not> found \<or> flt level MinMustHaveScore)"

lemma fit_step_must_haves:
  "MustHavesMet (fst (fit_step cs rs acc)) \<longleftrightarrow> MustHavesMet (fst acc) \<and> \<not> gap cs rs"
  "Missing (fst (fit_step cs rs acc)) = Missing (fst acc) @ (if gap cs rs then [RS_Name rs] else [])"
  by (auto simp: fit_step_def gap_def signal_key_def Let_def split_beta)

lemma fold_fit_must_haves:
  "MustHavesMet (fst (fold (fit_step cs) rubric acc)) \<longleftrightarrow> MustHavesMet (fst acc) \<and> (\<forall>rs \<in> set rubric. \<not> gap cs rs)"
  "Missing (fst (fold (fit_step cs) rubric acc)) = Missing (fst acc) @ map RS_Name (filter (gap cs) rubric)"
  by (induction rubric arbitrary: acc) (auto simp: fit_step_must_haves)

lemma ComputeFit_must_haves:
  "MustHavesMet (ComputeFit rubric cs) \<longleftrightarrow> (\<forall>rs \<in> set rubric. \<not> gap cs rs)"
  "Missing (ComputeFit rubric cs) = map RS_Name (filter (gap cs) rubric)"
  using fold_fit_must_haves [of cs rubric "(empty_fit, Fin 0)"]
  by (auto simp: ComputeFit_def split_beta Let_def empty_fit_def)

lemma gap_append: "gap (cs @ ds) rs \<Longrightarrow> gap cs rs"
  using candidateLevel_append [of cs "signal_key rs" ds] by (auto simp: gap_def split_beta)



end
