(* ===== verification/Interview.thy ===== *)
theory Interview
  imports Kernel
begin

section \<open>Interviews\<close>

text \<open>
  \<open>internal/domain/interview\<close>: modes, verdicts and the state machine (\<open>enums.go\<close>), the caps
  (\<open>config.go\<close>), turns and report cards (\<open>valueobjects.go\<close>), the interview aggregate
  (\<open>interview.go\<close>) and the vagueness heuristic (\<open>honesty.go\<close>). An interview is changed by its
  methods only; \<open>interview_step\<close> is their union, and the invariant is proved for every interview
  they can reach.
\<close>

subsection \<open>Enumerations\<close>

datatype interview_mode = ModeUnspecified | ModeText | ModeVoice

definition InterviewMode_Valid :: "interview_mode \<Rightarrow> bool" where
  "InterviewMode_Valid m \<longleftrightarrow> m = ModeText \<or> m = ModeVoice"

fun InterviewMode_String :: "interview_mode \<Rightarrow> gostr" where
  "InterviewMode_String ModeText = lit ''text''"
| "InterviewMode_String ModeVoice = lit ''voice''"
| "InterviewMode_String ModeUnspecified = lit ''unspecified''"

datatype verdict = VerdictUnspecified | VerdictAdvance | VerdictHold | VerdictDecline

fun verdict_iota :: "verdict \<Rightarrow> int" where
  "verdict_iota VerdictUnspecified = 0"
| "verdict_iota VerdictAdvance = 1"
| "verdict_iota VerdictHold = 2"
| "verdict_iota VerdictDecline = 3"

definition Verdict_Valid :: "verdict \<Rightarrow> bool" where
  "Verdict_Valid v \<longleftrightarrow> verdict_iota VerdictAdvance \<le> verdict_iota v \<and> verdict_iota v \<le> verdict_iota VerdictDecline"

fun Verdict_String :: "verdict \<Rightarrow> gostr" where
  "Verdict_String VerdictAdvance = lit ''advance''"
| "Verdict_String VerdictHold = lit ''hold''"
| "Verdict_String VerdictDecline = lit ''decline''"
| "Verdict_String VerdictUnspecified = lit ''unspecified''"

datatype istate = StateUnspecified | StateOpen | StateAsking | StateScoring | StateClosed

fun CanTransition :: "istate \<Rightarrow> istate \<Rightarrow> bool" where
  "CanTransition StateOpen t \<longleftrightarrow> t = StateAsking"
| "CanTransition StateAsking t \<longleftrightarrow> t = StateAsking \<or> t = StateScoring"
| "CanTransition StateScoring t \<longleftrightarrow> t = StateClosed"
| "CanTransition StateClosed t \<longleftrightarrow> False"
| "CanTransition StateUnspecified t \<longleftrightarrow> False"

fun State_String :: "istate \<Rightarrow> gostr" where
  "State_String StateOpen = lit ''open''"
| "State_String StateAsking = lit ''asking''"
| "State_String StateScoring = lit ''scoring''"
| "State_String StateClosed = lit ''closed''"
| "State_String StateUnspecified = lit ''unspecified''"

subsection \<open>Caps\<close>

record Config =
  MaxQuestions :: int
  MaxDuration :: duration

definition defaultMaxQuestions :: int where "defaultMaxQuestions = 4"
definition defaultMaxDuration :: duration where "defaultMaxDuration = 10 * minute"

definition DefaultConfig :: Config where
  "DefaultConfig = \<lparr>MaxQuestions = defaultMaxQuestions, MaxDuration = defaultMaxDuration\<rparr>"

definition WithDefaults :: "Config \<Rightarrow> Config" where
  "WithDefaults c =
     (let c = (if MaxQuestions c \<le> 0 then c\<lparr>MaxQuestions := defaultMaxQuestions\<rparr> else c)
      in if MaxDuration c \<le> 0 then c\<lparr>MaxDuration := defaultMaxDuration\<rparr> else c)"

lemma WithDefaults_pos: "0 < MaxQuestions (WithDefaults c)" "0 < MaxDuration (WithDefaults c)"
  by (simp_all add: WithDefaults_def Let_def defaultMaxQuestions_def defaultMaxDuration_def time_units)

subsection \<open>Turns and report cards\<close>

record InterviewTurn =
  Turn_ID :: ID
  Turn_Ordinal :: int
  Question :: gostr
  Answer_Text :: gostr
  Turn_CompetencyTag :: gostr

definition InterviewTurn_Validate :: "InterviewTurn \<Rightarrow> unit res" where
  "InterviewTurn_Validate t =
     (if Turn_Ordinal t < 1 then Inl (Invalid ''interview: turn ordinal must be >= 1'')
      else if strings_TrimSpace (Question t) = [] then Inl (Invalid ''interview: turn question is required'')
      else Inr ())"

record CompetencyScore =
  Sc_Competency :: gostr
  Sc_Score :: f64
  Sc_Evidence :: gostr

definition CompetencyScore_Validate :: "CompetencyScore \<Rightarrow> unit res" where
  "CompetencyScore_Validate c =
     (if strings_TrimSpace (Sc_Competency c) = [] then Inl (Invalid ''interview: competency is required'')
      else if flt (Sc_Score c) (Fin 0) \<or> flt (Fin 5) (Sc_Score c)
        then Inl (Invalidf ''interview: score for %q must be in [0,5]'' [AStr (Sc_Competency c)])
      else if strings_TrimSpace (Sc_Evidence c) = [] then Inl (Invalid ''interview: every score must cite evidence'')
      else Inr ())"

record ReportCard =
  RC_InterviewID :: ID
  RC_RoleID :: ID
  RC_CandidateID :: ID
  Verdict :: verdict
  RC_Confidence :: confidence
  Scores :: "CompetencyScore list"
  RecommendedNextStep :: gostr

fun validate_scores :: "CompetencyScore list \<Rightarrow> unit res" where
  "validate_scores [] = Inr ()"
| "validate_scores (s # ss) =
     (case CompetencyScore_Validate s of Inl e \<Rightarrow> Inl e | Inr u \<Rightarrow> validate_scores ss)"

definition ReportCard_Validate :: "ReportCard \<Rightarrow> unit res" where
  "ReportCard_Validate r =
     (if \<not> Verdict_Valid (Verdict r) then Inl (Invalid ''interview: a valid verdict is required'')
      else if \<not> Confidence_Valid (RC_Confidence r) then Inl (Invalid ''interview: a valid confidence is required'')
      else if Scores r = [] then Inl (Invalid ''interview: report card needs at least one score'')
      else validate_scores (Scores r))"

lemma validate_scores_iff:
  "validate_scores ss = Inr () \<longleftrightarrow> (\<forall>s \<in> set ss. CompetencyScore_Validate s = Inr ())"
  by (induction ss) (auto split: sum.splits)

lemma ReportCard_Validate_iff: "ReportCard_Validate r = Inr () \<longleftrightarrow> Verdict_Valid (Verdict r) \<and>
    Confidence_Valid (RC_Confidence r) \<and> Scores r \<noteq> [] \<and> (\<forall>s \<in> set (Scores r). CompetencyScore_Validate s = Inr ())"
  by (auto simp: ReportCard_Validate_def validate_scores_iff)

subsection \<open>The interview\<close>

definition MaxAnswerLen :: int where "MaxAnswerLen = 8000"

record PendingQuestion =
  PQ_Ordinal :: int
  PQ_Text :: gostr
  PQ_CompetencyTag :: gostr

record Interview =
  Iv_ID :: ID
  Iv_RoleID :: ID
  Iv_CandidateID :: ID
  Mode :: interview_mode
  State :: istate
  Turns :: "InterviewTurn list"
  Pending :: "PendingQuestion option"
  Report :: "ReportCard option"
  StartedAt :: time

definition NewInterview :: "ID \<Rightarrow> ID \<Rightarrow> ID \<Rightarrow> interview_mode \<Rightarrow> Interview res" where
  "NewInterview newid roleID candidateID mode =
     (if ID_IsZero roleID then Inl (Invalid ''interview: role id is required'')
      else if ID_IsZero candidateID then Inl (Invalid ''interview: candidate id is required'')
      else if \<not> InterviewMode_Valid mode then Inl (Invalid ''interview: a valid mode is required'')
      else Inr \<lparr>Iv_ID = newid, Iv_RoleID = roleID, Iv_CandidateID = candidateID, Mode = mode,
                State = StateOpen, Turns = [], Pending = None, Report = None, StartedAt = 0\<rparr>)"

definition Transition :: "Interview \<Rightarrow> istate \<Rightarrow> Interview res" where
  "Transition i t =
     (if \<not> CanTransition (State i) t
      then Inl (Invalidf ''interview: illegal transition %s -> %s'' [AStr (State_String (State i)), AStr (State_String t)])
      else Inr (i\<lparr>State := t\<rparr>))"

definition AddTurn :: "Interview \<Rightarrow> InterviewTurn \<Rightarrow> Interview res" where
  "AddTurn i t =
     (if State i \<noteq> StateAsking then Inl (Invalid ''interview: can only add turns while asking'')
      else case InterviewTurn_Validate t of Inl e \<Rightarrow> Inl e
        | Inr u \<Rightarrow> Inr (i\<lparr>Turns := Turns i @ [t]\<rparr>))"

definition Ask :: "Interview \<Rightarrow> gostr \<Rightarrow> gostr \<Rightarrow> Interview res" where
  "Ask i text competencyTag =
     (if State i \<noteq> StateAsking then Inl (Invalid ''interview: can only ask a question while asking'')
      else if Pending i \<noteq> None then Inl (Invalid ''interview: a question is already awaiting an answer'')
      else if strings_TrimSpace text = [] then Inl (Invalid ''interview: question text is required'')
      else Inr (i\<lparr>Pending := Some \<lparr>PQ_Ordinal = int (length (Turns i)) + 1, PQ_Text = text,
                    PQ_CompetencyTag = competencyTag\<rparr>\<rparr>))"

definition Answer :: "ID \<Rightarrow> Interview \<Rightarrow> gostr \<Rightarrow> Interview res" where
  "Answer newid i answer =
     (case Pending i of None \<Rightarrow> Inl (Invalid ''interview: no question is awaiting an answer'')
      | Some q \<Rightarrow>
          if MaxAnswerLen < rune_count answer
          then Inl (Invalidf ''interview: answer exceeds %d characters'' [AInt MaxAnswerLen])
          else case AddTurn i \<lparr>Turn_ID = newid, Turn_Ordinal = PQ_Ordinal q, Question = PQ_Text q,
                 Answer_Text = answer, Turn_CompetencyTag = PQ_CompetencyTag q\<rparr> of
              Inl e \<Rightarrow> Inl e
            | Inr i' \<Rightarrow> Inr (i'\<lparr>Pending := None\<rparr>))"

definition Complete :: "Interview \<Rightarrow> ReportCard \<Rightarrow> Interview res" where
  "Complete i rc =
     (if State i \<noteq> StateScoring then Inl (Invalid ''interview: can only complete from the scoring state'')
      else case ReportCard_Validate rc of Inl e \<Rightarrow> Inl e
        | Inr u \<Rightarrow> Inr (i\<lparr>Report := Some rc, State := StateClosed\<rparr>))"

subsection \<open>Reachable interviews\<close>

text \<open>
  The steps by which the application drives an interview, and with \<open>AddTurn\<close>, which it reaches through \<open>Answer\<close>
  only, all the exported methods.
\<close>

inductive driven_step :: "Interview \<Rightarrow> Interview \<Rightarrow> bool" where
  step_transition: "Transition i t = Inr i' \<Longrightarrow> driven_step i i'"
| step_ask: "Ask i text tag = Inr i' \<Longrightarrow> driven_step i i'"
| step_answer: "Answer newid i answer = Inr i' \<Longrightarrow> driven_step i i'"
| step_complete: "Complete i rc = Inr i' \<Longrightarrow> driven_step i i'"

inductive interview_step :: "Interview \<Rightarrow> Interview \<Rightarrow> bool" where
  step_driven: "driven_step i i' \<Longrightarrow> interview_step i i'"
| step_addTurn: "AddTurn i t = Inr i' \<Longrightarrow> interview_step i i'"

inductive driven_interview :: "Interview \<Rightarrow> bool" where
  driven_new: "NewInterview newid r c m = Inr i \<Longrightarrow> driven_interview i"
| driven_more: "driven_interview i \<Longrightarrow> driven_step i i' \<Longrightarrow> driven_interview i'"

inductive reachable_interview :: "Interview \<Rightarrow> bool" where
  reach_new: "NewInterview newid r c m = Inr i \<Longrightarrow> reachable_interview i"
| reach_step: "reachable_interview i \<Longrightarrow> interview_step i i' \<Longrightarrow> reachable_interview i'"

definition turns_ok :: "InterviewTurn list \<Rightarrow> bool" where
  "turns_ok ts \<longleftrightarrow> map Turn_Ordinal ts = map int [1..<Suc (length ts)] \<and>
     (\<forall>t \<in> set ts. strings_TrimSpace (Question t) \<noteq> [] \<and> rune_count (Answer_Text t) \<le> MaxAnswerLen)"

definition interview_inv :: "Interview \<Rightarrow> bool" where
  "interview_inv i \<longleftrightarrow> \<not> ID_IsZero (Iv_RoleID i) \<and> \<not> ID_IsZero (Iv_CandidateID i) \<and>
     InterviewMode_Valid (Mode i) \<and> State i \<noteq> StateUnspecified \<and> turns_ok (Turns i) \<and>
     (\<forall>q. Pending i = Some q \<longrightarrow> PQ_Ordinal q = int (length (Turns i)) + 1 \<and> strings_TrimSpace (PQ_Text q) \<noteq> []) \<and>
     (State i = StateOpen \<longrightarrow> Turns i = [] \<and> Pending i = None) \<and>
     (\<forall>rc. Report i = Some rc \<longrightarrow> State i = StateClosed \<and> ReportCard_Validate rc = Inr ())"

text \<open>What holds although \<open>AddTurn\<close> takes any ordinal from one and any answer.\<close>

definition interview_sound :: "Interview \<Rightarrow> bool" where
  "interview_sound i \<longleftrightarrow> \<not> ID_IsZero (Iv_RoleID i) \<and> \<not> ID_IsZero (Iv_CandidateID i) \<and>
     InterviewMode_Valid (Mode i) \<and> State i \<noteq> StateUnspecified \<and> (\<forall>t \<in> set (Turns i). InterviewTurn_Validate t = Inr ()) \<and>
     (\<forall>q. Pending i = Some q \<longrightarrow> strings_TrimSpace (PQ_Text q) \<noteq> []) \<and>
     (State i = StateOpen \<longrightarrow> Turns i = [] \<and> Pending i = None) \<and>
     (\<forall>rc. Report i = Some rc \<longrightarrow> State i = StateClosed \<and> ReportCard_Validate rc = Inr ())"

lemmas interview_ops = Transition_def Ask_def Answer_def AddTurn_def Complete_def

lemma turns_ok_snoc: "turns_ok ts \<Longrightarrow> Turn_Ordinal t = int (length ts) + 1 \<Longrightarrow>
    strings_TrimSpace (Question t) \<noteq> [] \<Longrightarrow> rune_count (Answer_Text t) \<le> MaxAnswerLen \<Longrightarrow> turns_ok (ts @ [t])"
  by (auto simp: turns_ok_def)

lemma Transition_inv: "interview_inv i \<Longrightarrow> Transition i t = Inr i' \<Longrightarrow> interview_inv i'"
  by (cases "State i") (auto simp: Transition_def interview_inv_def split: if_splits)

lemma Ask_inv: "interview_inv i \<Longrightarrow> Ask i text tag = Inr i' \<Longrightarrow> interview_inv i'"
  by (auto simp: Ask_def interview_inv_def split: if_splits)

lemma Answer_inv: "interview_inv i \<Longrightarrow> Answer newid i a = Inr i' \<Longrightarrow> interview_inv i'"
  by (auto simp: Answer_def AddTurn_def interview_inv_def InterviewTurn_Validate_def
      intro!: turns_ok_snoc split: option.splits if_splits sum.splits)

lemma Complete_inv: "interview_inv i \<Longrightarrow> Complete i rc = Inr i' \<Longrightarrow> interview_inv i'"
  by (auto simp: Complete_def interview_inv_def split: if_splits sum.splits)

lemma NewInterview_inv: "NewInterview n r c m = Inr i \<Longrightarrow> interview_inv i"
  by (auto simp: NewInterview_def interview_inv_def turns_ok_def split: if_splits)

lemma driven_step_inv: "driven_step i i' \<Longrightarrow> interview_inv i \<Longrightarrow> interview_inv i'"
  by (induction rule: driven_step.induct)
    (blast dest: Transition_inv Ask_inv Answer_inv Complete_inv)+

lemma driven_interview_inv: "driven_interview i \<Longrightarrow> interview_inv i"
  by (induction rule: driven_interview.induct) (blast dest: NewInterview_inv driven_step_inv)+

lemma AddTurn_sound: "interview_sound i \<Longrightarrow> AddTurn i t = Inr i' \<Longrightarrow> interview_sound i'"
  by (auto simp: AddTurn_def interview_sound_def split: if_splits sum.splits)

lemma Transition_sound: "interview_sound i \<Longrightarrow> Transition i t = Inr i' \<Longrightarrow> interview_sound i'"
  by (cases "State i") (auto simp: Transition_def interview_sound_def split: if_splits)

lemma Ask_sound: "interview_sound i \<Longrightarrow> Ask i text tag = Inr i' \<Longrightarrow> interview_sound i'"
  by (auto simp: Ask_def interview_sound_def split: if_splits)

lemma Answer_sound: "interview_sound i \<Longrightarrow> Answer newid i a = Inr i' \<Longrightarrow> interview_sound i'"
  by (auto simp: Answer_def AddTurn_def interview_sound_def split: option.splits if_splits sum.splits)

lemma Complete_sound: "interview_sound i \<Longrightarrow> Complete i rc = Inr i' \<Longrightarrow> interview_sound i'"
  by (auto simp: Complete_def interview_sound_def split: if_splits sum.splits)

lemma interview_step_sound: "interview_step i i' \<Longrightarrow> interview_sound i \<Longrightarrow> interview_sound i'"
  by (auto elim!: interview_step.cases driven_step.cases
      dest: AddTurn_sound Transition_sound Ask_sound Answer_sound Complete_sound)

lemma NewInterview_sound: "NewInterview n r c m = Inr i \<Longrightarrow> interview_sound i"
  by (auto simp: NewInterview_def interview_sound_def split: if_splits)

lemma interview_step_mono:
  "interview_step i i' \<Longrightarrow> prefix (Turns i) (Turns i') \<and> Iv_ID i' = Iv_ID i \<and> Iv_RoleID i' = Iv_RoleID i \<and>
     Iv_CandidateID i' = Iv_CandidateID i"
  by (auto elim!: interview_step.cases driven_step.cases simp: interview_ops split: if_splits option.splits sum.splits)

lemma interview_step_closed: "interview_step i i' \<Longrightarrow> State i \<noteq> StateClosed"
  by (auto elim!: interview_step.cases driven_step.cases simp: interview_ops split: if_splits option.splits sum.splits)

text \<open>A turn added past \<open>Answer\<close> may leave the numbering.\<close>

lemma AddTurn_any_number:
  "AddTurn \<lparr>Iv_ID = [97], Iv_RoleID = [98], Iv_CandidateID = [99], Mode = ModeText, State = StateAsking, Turns = [],
      Pending = None, Report = None, StartedAt = 0\<rparr>
     \<lparr>Turn_ID = [100], Turn_Ordinal = 7, Question = lit ''Why?'', Answer_Text = [], Turn_CompetencyTag = []\<rparr> =
   Inr \<lparr>Iv_ID = [97], Iv_RoleID = [98], Iv_CandidateID = [99], Mode = ModeText, State = StateAsking,
      Turns = [\<lparr>Turn_ID = [100], Turn_Ordinal = 7, Question = lit ''Why?'', Answer_Text = [], Turn_CompetencyTag = []\<rparr>],
      Pending = None, Report = None, StartedAt = 0\<rparr>"
  by code_simp

text \<open>
  C18: The interview machine. Every interview that the steps of the application produce (\<open>Transition\<close>, \<open>Ask\<close>,
  \<open>Answer\<close>, \<open>Complete\<close>) is well formed: turns are numbered 1, 2, 3 and so on with a question and an answer within
  the length cap, and an outstanding question carries the next number. With \<open>AddTurn\<close>, which takes any number and
  any answer, the rest still holds: every turn passes validation, nothing is asked or recorded before the interview
  starts, a report exists only on a closed interview and is valid; and a closed interview admits no step at all.
\<close>

theorem interview_reachable_inv:
  "(driven_interview i \<longrightarrow> interview_inv i) \<and>
   (reachable_interview i \<longrightarrow> interview_sound i \<and> \<not> (State i = StateClosed \<and> (\<exists>i'. interview_step i i')))"
proof (intro conjI impI)
  show "interview_inv i" if "driven_interview i" using that by (rule driven_interview_inv)
  show "interview_sound i" if "reachable_interview i"
    using that by induction (blast intro: NewInterview_sound interview_step_sound)+
  show "\<not> (State i = StateClosed \<and> (\<exists>i'. interview_step i i'))" by (blast dest: interview_step_closed)
qed

lemma reachable_example:
  assumes "NewInterview [97] [98] [99] ModeText = Inr i0" and "Transition i0 StateAsking = Inr i1"
    and "Ask i1 (lit ''Why?'') [] = Inr i2" and "Answer [100] i2 (lit ''Because'') = Inr i3"
  shows "driven_interview i3 \<and> reachable_interview i3"
proof -
  have "driven_step i0 i1" "driven_step i1 i2" "driven_step i2 i3" using assms by (blast intro: driven_step.intros)+
  then show ?thesis using driven_new [OF assms(1)] reach_new [OF assms(1)]
    by (blast intro: driven_more reach_step step_driven)
qed

lemma interview_reachable_inv_witness:
  "\<exists>i. length (Turns i) = 1 \<and> interview_inv i \<and> interview_sound i"
proof -
  let ?i3 = "\<lparr>Iv_ID = [97], Iv_RoleID = [98], Iv_CandidateID = [99], Mode = ModeText, State = StateAsking,
    Turns = [\<lparr>Turn_ID = [100], Turn_Ordinal = 1, Question = lit ''Why?'', Answer_Text = lit ''Because'',
      Turn_CompetencyTag = []\<rparr>], Pending = None, Report = None, StartedAt = 0\<rparr>"
  have "driven_interview ?i3 \<and> reachable_interview ?i3"
    by (rule reachable_example [of "projr (NewInterview [97] [98] [99] ModeText)"
        "projr (Transition (projr (NewInterview [97] [98] [99] ModeText)) StateAsking)"
        "projr (Ask (projr (Transition (projr (NewInterview [97] [98] [99] ModeText)) StateAsking)) (lit ''Why?'') [])"]) code_simp+
  then have "interview_inv ?i3 \<and> interview_sound ?i3" using interview_reachable_inv [of ?i3] by blast
  then show ?thesis by (intro exI [of _ ?i3]) simp
qed

subsection \<open>Vague answers\<close>

definition concreteTokenFloor :: int where "concreteTokenFloor = 12"

definition ownership_phrases :: "string list" where
  "ownership_phrases =
     [''i led'', ''i built'', ''i designed'', ''i shipped'', ''i implemented'', ''i developed'',
      ''i wrote'', ''i created'', ''i migrated'', ''i architected'', ''i owned'', ''i reduced'',
      ''i increased'', ''i improved'', ''i delivered'', ''i debugged'', ''i refactored'',
      ''my role was'', ''i was responsible'', ''i personally'', ''i decided'']"

definition hedge_markers :: "string list" where
  "hedge_markers =
     [''basically'', ''generally'', ''various'', ''stuff'', ''kind of'', ''sort of'',
      ''a lot of'', ''you know'', ''i guess'', ''probably'', ''somewhat'', ''more or less'',
      ''and things'', ''or whatever'', ''et cetera'', ''lots of things'', ''all sorts'']"

definition hasConcreteSignal :: "gostr \<Rightarrow> bool" where
  "hasConcreteSignal lower =
     (if list_ex unicode_IsDigit lower then True
      else list_ex (\<lambda>phrase. strings_Contains lower (lit phrase)) ownership_phrases)"

definition hedgeCount :: "gostr \<Rightarrow> int" where
  "hedgeCount lower = int (length (filter (\<lambda>m. strings_Contains lower (lit m)) hedge_markers))"

definition VagueAnswer :: "gostr \<Rightarrow> bool" where
  "VagueAnswer answer =
     (let lower = strings_ToLower answer; tokens = Tokens lower
      in if hasConcreteSignal lower then False
         else int (length tokens) < concreteTokenFloor \<or> 1 \<le> hedgeCount lower)"

lemma VagueAnswer_iff:
  "VagueAnswer a \<longleftrightarrow> \<not> (\<exists>c \<in> set (strings_ToLower a). unicode_IsDigit c) \<and>
     (\<forall>p \<in> set ownership_phrases. \<not> sublist (lit p) (strings_ToLower a)) \<and>
     (length (Tokens a) < 12 \<or> (\<exists>m \<in> set hedge_markers. sublist (lit m) (strings_ToLower a)))"
proof -
  have "1 \<le> hedgeCount l \<longleftrightarrow> (\<exists>m \<in> set hedge_markers. sublist (lit m) l)" for l
  proof -
    have "1 \<le> hedgeCount l \<longleftrightarrow> filter (\<lambda>m. strings_Contains l (lit m)) hedge_markers \<noteq> []"
      unfolding hedgeCount_def by (simp add: Suc_le_eq)
    then show ?thesis unfolding filter_empty_conv strings_Contains_iff by blast
  qed
  then show ?thesis
    by (auto simp: VagueAnswer_def Let_def hasConcreteSignal_def list_ex_iff strings_Contains_iff
        Tokens_ToLower concreteTokenFloor_def)
qed

end
