(* ===== verification/CandidateAgent.thy ===== *)
theory CandidateAgent
  imports Kernel
begin

section \<open>Applications of the candidate agent\<close>

text \<open>
  \<open>internal/domain/candidateagent\<close>: sources and statuses (\<open>enums.go\<close>), the application aggregate
  (\<open>application.go\<close>), the grounding check (\<open>grounding.go\<close>) and the wake-up view
  (\<open>wakeupview.go\<close>). The lemmas characterise the grounding check by contiguous runs of tokens and
  give the life cycle of an application.
\<close>

datatype app_source = SourceUnknown | SourceManual | SourceAgent

fun ApplicationSource_Valid :: "app_source \<Rightarrow> bool" where
  "ApplicationSource_Valid SourceManual \<longleftrightarrow> True"
| "ApplicationSource_Valid SourceAgent \<longleftrightarrow> True"
| "ApplicationSource_Valid SourceUnknown \<longleftrightarrow> False"

fun ApplicationSource_String :: "app_source \<Rightarrow> gostr" where
  "ApplicationSource_String SourceManual = lit ''manual''"
| "ApplicationSource_String SourceAgent = lit ''agent''"
| "ApplicationSource_String SourceUnknown = lit ''unknown''"

datatype app_status = StatusUnknown | StatusDrafted | StatusSubmitted | StatusScreening | StatusScreened

fun ApplicationStatus_Valid :: "app_status \<Rightarrow> bool" where
  "ApplicationStatus_Valid StatusUnknown \<longleftrightarrow> False"
| "ApplicationStatus_Valid StatusDrafted \<longleftrightarrow> True"
| "ApplicationStatus_Valid StatusSubmitted \<longleftrightarrow> True"
| "ApplicationStatus_Valid StatusScreening \<longleftrightarrow> True"
| "ApplicationStatus_Valid StatusScreened \<longleftrightarrow> True"

fun ApplicationStatus_String :: "app_status \<Rightarrow> gostr" where
  "ApplicationStatus_String StatusDrafted = lit ''drafted''"
| "ApplicationStatus_String StatusSubmitted = lit ''submitted''"
| "ApplicationStatus_String StatusScreening = lit ''screening''"
| "ApplicationStatus_String StatusScreened = lit ''screened''"
| "ApplicationStatus_String StatusUnknown = lit ''unknown''"

subsection \<open>Applications\<close>

definition EnsureFromProfile :: "ID \<Rightarrow> unit res" where
  "EnsureFromProfile profileID =
     (if ID_IsZero profileID then Inl (Invalid ''agent application must reference a verified profile'') else Inr ())"

record Application =
  App_ID :: ID
  App_RoleID :: ID
  App_CandidateID :: ID
  App_ProfileID :: ID
  App_Source :: app_source
  TailoredSummary :: gostr
  App_Status :: app_status

definition NewAgentApplication :: "ID \<Rightarrow> ID \<Rightarrow> ID \<Rightarrow> ID \<Rightarrow> gostr \<Rightarrow> Application res" where
  "NewAgentApplication newid roleID candidateID profileID tailoredSummary =
     (if ID_IsZero roleID then Inl (Invalid ''role id is required'')
      else if ID_IsZero candidateID then Inl (Invalid ''candidate id is required'')
      else case EnsureFromProfile profileID of Inl e \<Rightarrow> Inl e
        | Inr u \<Rightarrow>
            if strings_TrimSpace tailoredSummary = [] then Inl (Invalid ''tailored summary is required'')
            else Inr \<lparr>App_ID = newid, App_RoleID = roleID, App_CandidateID = candidateID,
              App_ProfileID = profileID, App_Source = SourceAgent, TailoredSummary = tailoredSummary,
              App_Status = StatusDrafted\<rparr>)"

definition NewManualApplication :: "ID \<Rightarrow> ID \<Rightarrow> ID \<Rightarrow> gostr \<Rightarrow> Application res" where
  "NewManualApplication newid roleID candidateID tailoredSummary =
     (if ID_IsZero roleID then Inl (Invalid ''role id is required'')
      else if ID_IsZero candidateID then Inl (Invalid ''candidate id is required'')
      else if strings_TrimSpace tailoredSummary = [] then Inl (Invalid ''tailored summary is required'')
      else Inr \<lparr>App_ID = newid, App_RoleID = roleID, App_CandidateID = candidateID,
        App_ProfileID = [], App_Source = SourceManual, TailoredSummary = tailoredSummary,
        App_Status = StatusDrafted\<rparr>)"

definition Submit :: "Application \<Rightarrow> Application res" where
  "Submit a =
     (if App_Status a \<noteq> StatusDrafted
      then Inl (Invalidf ''cannot submit application in status %q'' [AStr (ApplicationStatus_String (App_Status a))])
      else Inr (a\<lparr>App_Status := StatusSubmitted\<rparr>))"

definition MarkScreening :: "Application \<Rightarrow> Application res" where
  "MarkScreening a =
     (if App_Status a \<noteq> StatusSubmitted
      then Inl (Invalidf ''cannot start screening application in status %q'' [AStr (ApplicationStatus_String (App_Status a))])
      else Inr (a\<lparr>App_Status := StatusScreening\<rparr>))"

definition App_MarkScreened :: "Application \<Rightarrow> Application res" where
  "App_MarkScreened a =
     (if App_Status a \<noteq> StatusScreening
      then Inl (Invalidf ''cannot complete screening application in status %q'' [AStr (ApplicationStatus_String (App_Status a))])
      else Inr (a\<lparr>App_Status := StatusScreened\<rparr>))"

inductive application_step :: "Application \<Rightarrow> Application \<Rightarrow> bool" where
  step_submit: "Submit a = Inr a' \<Longrightarrow> application_step a a'"
| step_screening: "MarkScreening a = Inr a' \<Longrightarrow> application_step a a'"
| step_screened: "App_MarkScreened a = Inr a' \<Longrightarrow> application_step a a'"

lemmas application_ops = Submit_def MarkScreening_def App_MarkScreened_def

fun status_rank :: "app_status \<Rightarrow> nat" where
  "status_rank StatusUnknown = 0"
| "status_rank StatusDrafted = 1"
| "status_rank StatusSubmitted = 2"
| "status_rank StatusScreening = 3"
| "status_rank StatusScreened = 4"

lemma application_step_rank:
  "application_step a a' \<Longrightarrow> status_rank (App_Status a') = Suc (status_rank (App_Status a)) \<and>
     1 \<le> status_rank (App_Status a) \<and> a' = a\<lparr>App_Status := App_Status a'\<rparr>"
  by (induction rule: application_step.induct) (auto simp: application_ops split: if_splits)

text \<open>The invariant of the applications the constructors build: an agent's one names a profile.\<close>

definition application_inv :: "Application \<Rightarrow> bool" where
  "application_inv a \<longleftrightarrow> \<not> ID_IsZero (App_RoleID a) \<and> \<not> ID_IsZero (App_CandidateID a) \<and>
     ApplicationSource_Valid (App_Source a) \<and> ApplicationStatus_Valid (App_Status a) \<and>
     (App_Source a = SourceAgent \<longrightarrow> \<not> ID_IsZero (App_ProfileID a)) \<and>
     strings_TrimSpace (TailoredSummary a) \<noteq> []"

lemma NewAgentApplication_inv: "NewAgentApplication i r c p s = Inr a \<Longrightarrow> application_inv a \<and>
    App_Source a = SourceAgent \<and> App_Status a = StatusDrafted \<and> App_RoleID a = r \<and> App_CandidateID a = c \<and>
    App_ProfileID a = p \<and> App_ID a = i"
  by (auto simp: NewAgentApplication_def application_inv_def EnsureFromProfile_def split: if_splits)

lemma NewManualApplication_inv: "NewManualApplication i r c s = Inr a \<Longrightarrow> application_inv a"
  by (auto simp: NewManualApplication_def application_inv_def split: if_splits)

lemma application_step_inv: "application_step a a' \<Longrightarrow> application_inv a \<Longrightarrow> application_inv a'"
  by (induction rule: application_step.induct) (auto simp: application_ops application_inv_def split: if_splits)

subsection \<open>Grounding\<close>

record GroundingResult =
  Grounded :: bool
  Fabricated :: "gostr list"

definition skillCanon :: "(gostr \<times> gostr) list" where
  "skillCanon = map (\<lambda>(k, v). (lit k, lit v))
     [(''k8s'', ''kubernetes''), (''golang'', ''go''), (''postgres'', ''postgresql''), (''psql'', ''postgresql''),
      (''js'', ''javascript''), (''ts'', ''typescript''), (''py'', ''python''), (''nodejs'', ''node.js''),
      (''reactjs'', ''react'')]"

definition canon :: "gostr \<Rightarrow> gostr" where
  "canon token = (case map_of skillCanon token of Some c \<Rightarrow> c | None \<Rightarrow> token)"

definition canonTokens :: "gostr list \<Rightarrow> gostr list" where
  "canonTokens tokens = map canon tokens"

definition tokenize :: "gostr \<Rightarrow> gostr list" where
  "tokenize s = Tokens (strings_ToLower s)"

fun mentions_at :: "gostr list \<Rightarrow> gostr list \<Rightarrow> nat \<Rightarrow> nat \<Rightarrow> bool" where
  "mentions_at have_tokens [] start j \<longleftrightarrow> True"
| "mentions_at have_tokens (w # ws) start j \<longleftrightarrow>
     (if have_tokens ! (start + j) \<noteq> w then False else mentions_at have_tokens ws start (Suc j))"

function mentions_from :: "gostr list \<Rightarrow> gostr list \<Rightarrow> nat \<Rightarrow> bool" where
  "mentions_from have_tokens want start \<longleftrightarrow>
     (if start + length want \<le> length have_tokens
      then if mentions_at have_tokens want start 0 then True else mentions_from have_tokens want (Suc start)
      else False)"
  by pat_completeness auto
termination
  by (relation "measure (\<lambda>(h, w, s). Suc (length h) - s)") auto

declare mentions_from.simps [simp del]

definition mentions :: "gostr list \<Rightarrow> gostr list \<Rightarrow> bool" where
  "mentions have_tokens want = (if want = [] then False else mentions_from have_tokens want 0)"

definition coversCompetency :: "gostr list \<Rightarrow> gostr \<Rightarrow> bool" where
  "coversCompetency profileCompetencies key =
     (let want = canon key
      in list_ex (\<lambda>pc. canon (strings_ToLower (strings_TrimSpace pc)) = want \<or>
           want \<in> set (canonTokens (tokenize pc))) profileCompetencies)"

definition fabricates :: "gostr list \<Rightarrow> gostr list \<Rightarrow> gostr \<Rightarrow> bool" where
  "fabricates summaryTokens profileCompetencies rc =
     (let key = strings_ToLower (strings_TrimSpace rc)
      in if key = [] \<or> coversCompetency profileCompetencies key then False
         else mentions summaryTokens (canonTokens (tokenize rc)))"

definition CheckGrounding :: "gostr \<Rightarrow> gostr list \<Rightarrow> gostr list \<Rightarrow> GroundingResult" where
  "CheckGrounding summary profileCompetencies roleCompetencies =
     (let summaryTokens = canonTokens (tokenize summary);
          fabricated = filter (fabricates summaryTokens profileCompetencies) roleCompetencies
      in \<lparr>Grounded = (length fabricated = 0), Fabricated = fabricated\<rparr>)"

text \<open>The phrase search written out in this package is the kernel's \<open>HasPhrase\<close>.\<close>

lemma mentions_at_phrase: "mentions_at h w s j = phrase_at h w s j"
  by (induction h w s j rule: mentions_at.induct) auto

lemma mentions_from_phrase: "mentions_from h w s = phrase_from h w s"
  by (induction h w s rule: mentions_from.induct)
    (subst mentions_from.simps, subst phrase_from.simps, simp add: mentions_at_phrase)

lemma mentions_HasPhrase: "mentions h w = HasPhrase h w"
  by (simp add: mentions_def HasPhrase_def mentions_from_phrase)

lemma skillCanon_values: "list_all (\<lambda>v. map_of skillCanon v = None) (map snd skillCanon)"
  by code_simp

lemma canon_idem [simp]: "canon (canon t) = canon t"
proof (cases "map_of skillCanon t")
  case (Some c)
  then have "c \<in> set (map snd skillCanon)" by (force dest: map_of_SomeD)
  then have "map_of skillCanon c = None" using skillCanon_values by (simp only: list_all_iff)
  with Some show ?thesis by (simp add: canon_def)
qed (simp add: canon_def)

definition skill_tokens :: "gostr \<Rightarrow> gostr list" where
  "skill_tokens s = map (canon \<circ> strings_ToLower) (Tokens s)"

definition covered_by :: "gostr list \<Rightarrow> gostr \<Rightarrow> bool" where
  "covered_by profile rc \<longleftrightarrow> (\<exists>pc \<in> set profile.
     canon (strings_ToLower (strings_TrimSpace pc)) = canon (strings_ToLower (strings_TrimSpace rc)) \<or>
     canon (strings_ToLower (strings_TrimSpace rc)) \<in> set (skill_tokens pc))"

lemma canonTokens_tokenize: "canonTokens (tokenize s) = skill_tokens s"
  by (simp add: canonTokens_def tokenize_def skill_tokens_def go_str)

lemma Fabricated_iff:
  "rc \<in> set (Fabricated (CheckGrounding summary profile roles)) \<longleftrightarrow> rc \<in> set roles \<and> strings_TrimSpace rc \<noteq> [] \<and>
     \<not> covered_by profile rc \<and> skill_tokens rc \<noteq> [] \<and> sublist (skill_tokens rc) (skill_tokens summary)"
  by (auto simp: CheckGrounding_def Let_def fabricates_def coversCompetency_def covered_by_def list_ex_iff
      canonTokens_tokenize mentions_HasPhrase HasPhrase_iff)

lemma covered_by_mono: "covered_by profile rc \<Longrightarrow> set profile \<subseteq> set profile' \<Longrightarrow> covered_by profile' rc"
  unfolding covered_by_def by blast

lemma covered_by_self: "rc \<in> set profile \<Longrightarrow> covered_by profile rc"
  unfolding covered_by_def by blast

text \<open>
  The no-fabrication check. A summary passes exactly when every role competency whose
  canonical tokens occur in it as one contiguous run is covered by the profile, by its whole name
  or by a token of a profile competency, up to case and the known aliases. So a summary that
  passes keeps passing when evidence is added to the profile, and a profile that lists the role's
  competencies grounds every summary.
\<close>

lemma grounding_sound:
  "(Grounded (CheckGrounding summary profile roles) \<longleftrightarrow>
     (\<forall>rc \<in> set roles. skill_tokens rc \<noteq> [] \<and> sublist (skill_tokens rc) (skill_tokens summary) \<longrightarrow> covered_by profile rc)) \<and>
   (Grounded (CheckGrounding summary profile roles) \<longrightarrow> Grounded (CheckGrounding summary (profile @ evidence) roles)) \<and>
   (set roles \<subseteq> set profile \<longrightarrow> Grounded (CheckGrounding summary profile roles))"
proof -
  have blank: "strings_TrimSpace rc = [] \<Longrightarrow> skill_tokens rc = []" for rc
    by (simp add: TrimSpace_Nil_iff skill_tokens_def Tokens_Nil_iff token_sep_def)
  have iff: "Grounded (CheckGrounding summary p roles) \<longleftrightarrow>
      (\<forall>rc \<in> set roles. skill_tokens rc \<noteq> [] \<and> sublist (skill_tokens rc) (skill_tokens summary) \<longrightarrow> covered_by p rc)" for p
  proof -
    have g: "Grounded (CheckGrounding summary p roles) \<longleftrightarrow>
        (\<forall>rc. rc \<notin> set (Fabricated (CheckGrounding summary p roles)))"
      by (auto simp: CheckGrounding_def Let_def filter_empty_conv)
    show ?thesis unfolding g Fabricated_iff using blank by blast
  qed
  show ?thesis unfolding iff using covered_by_mono [of profile _ "profile @ evidence"] covered_by_self by auto
qed

lemma grounding_sound_witness:
  "Grounded (CheckGrounding (lit ''I run k8s daily'') ([lit ''Kubernetes''] @ [lit ''Go'']) [lit ''Kubernetes''])"
proof -
  have "Grounded (CheckGrounding (lit ''I run k8s daily'') [lit ''Kubernetes''] [lit ''Kubernetes''])"
    by code_simp
  then show ?thesis using grounding_sound by blast
qed

subsection \<open>The wake-up view\<close>

record WakeUpView =
  NewMatches :: int
  ApplicationsSubmitted :: int
  ScreeningsCompleted :: int
  EmployersInterested :: int
  Highlights :: "gostr list"

definition WakeUpView_Validate :: "WakeUpView \<Rightarrow> unit res" where
  "WakeUpView_Validate v =
     (if NewMatches v < 0 then Inl (Invalid ''new matches must be non-negative'')
      else if ApplicationsSubmitted v < 0 then Inl (Invalid ''applications submitted must be non-negative'')
      else if ScreeningsCompleted v < 0 then Inl (Invalid ''screenings completed must be non-negative'')
      else if EmployersInterested v < 0 then Inl (Invalid ''employers interested must be non-negative'')
      else Inr ())"

lemma WakeUpView_Validate_iff: "WakeUpView_Validate v = Inr () \<longleftrightarrow>
    0 \<le> NewMatches v \<and> 0 \<le> ApplicationsSubmitted v \<and> 0 \<le> ScreeningsCompleted v \<and> 0 \<le> EmployersInterested v"
  by (auto simp: WakeUpView_Validate_def)

end
