(* ===== verification/Contest_Audit.thy ===== *)
theory Contest_Audit
  imports Kernel
begin

section \<open>Contests and the audit trail\<close>

text \<open>
  \<open>internal/domain/contest/contest.go\<close>: a candidate's dispute of an assessment and its resolution;
  \<open>internal/domain/audit/audit.go\<close>: the entries of the append-only trail and the report filter.
\<close>

subsection \<open>Contests\<close>

datatype subject = SubjectUnspecified | SubjectMatch | SubjectReportCard

definition Subject_Valid :: "subject \<Rightarrow> bool" where
  "Subject_Valid s \<longleftrightarrow> s = SubjectMatch \<or> s = SubjectReportCard"

fun Subject_String :: "subject \<Rightarrow> gostr" where
  "Subject_String SubjectMatch = lit ''match''"
| "Subject_String SubjectReportCard = lit ''report_card''"
| "Subject_String SubjectUnspecified = lit ''unspecified''"

definition ParseSubject :: "gostr \<Rightarrow> subject res" where
  "ParseSubject raw =
     (let t = strings_ToLower (strings_TrimSpace raw)
      in if t = lit ''match'' then Inr SubjectMatch
         else if t = lit ''report_card'' then Inr SubjectReportCard
         else Inl (Invalidf ''contest: unknown subject %q'' [AStr raw]))"

datatype contest_status = StatusOpen | StatusUpheld | StatusDismissed

fun ContestStatus_String :: "contest_status \<Rightarrow> gostr" where
  "ContestStatus_String StatusUpheld = lit ''upheld''"
| "ContestStatus_String StatusDismissed = lit ''dismissed''"
| "ContestStatus_String StatusOpen = lit ''open''"

definition Contest_MaxReasonLen :: int where "Contest_MaxReasonLen = 2000"

record Contest =
  Con_ID :: ID
  Con_CandidateID :: ID
  Con_Subject :: subject
  Con_SubjectID :: ID
  Con_Reason :: gostr
  Con_Status :: contest_status
  Resolution :: gostr
  Con_CreatedAt :: time
  ResolvedAt :: time

definition NewContest :: "ID \<Rightarrow> ID \<Rightarrow> ID \<Rightarrow> subject \<Rightarrow> gostr \<Rightarrow> time \<Rightarrow> Contest res" where
  "NewContest newid candidateID subjectID sub reason now =
     (if ID_IsZero candidateID then Inl (Invalid ''contest: candidate id is required'')
      else if ID_IsZero subjectID then Inl (Invalid ''contest: subject id is required'')
      else if \<not> Subject_Valid sub then Inl (Invalid ''contest: a valid subject is required'')
      else let trimmed_reason = strings_TrimSpace reason
        in if trimmed_reason = [] then Inl (Invalid ''contest: a reason is required'')
           else if Contest_MaxReasonLen < rune_count trimmed_reason
             then Inl (Invalidf ''contest: reason exceeds %d characters'' [AInt Contest_MaxReasonLen])
           else Inr \<lparr>Con_ID = newid, Con_CandidateID = candidateID, Con_Subject = sub,
                     Con_SubjectID = subjectID, Con_Reason = trimmed_reason, Con_Status = StatusOpen,
                     Resolution = [], Con_CreatedAt = now, ResolvedAt = 0\<rparr>)"

definition Contest_Resolve :: "Contest \<Rightarrow> bool \<Rightarrow> gostr \<Rightarrow> time \<Rightarrow> Contest res" where
  "Contest_Resolve c upheld note_text now =
     (if Con_Status c \<noteq> StatusOpen
      then Inl (Invalidf ''contest: already resolved (%s)'' [AStr (ContestStatus_String (Con_Status c))])
      else Inr (c\<lparr>Con_Status := (if upheld then StatusUpheld else StatusDismissed),
                  Resolution := strings_TrimSpace note_text, ResolvedAt := now\<rparr>))"

definition contest_inv :: "Contest \<Rightarrow> bool" where
  "contest_inv c \<longleftrightarrow> \<not> ID_IsZero (Con_CandidateID c) \<and> \<not> ID_IsZero (Con_SubjectID c) \<and>
     Subject_Valid (Con_Subject c) \<and> Con_Reason c \<noteq> [] \<and> trimmed (Con_Reason c) \<and>
     rune_count (Con_Reason c) \<le> Contest_MaxReasonLen \<and>
     (Con_Status c = StatusOpen \<longrightarrow> Resolution c = [] \<and> ResolvedAt c = 0)"

lemma ParseSubject_String: "Subject_Valid s \<Longrightarrow> ParseSubject (Subject_String s) = Inr s"
  by (cases s) (simp_all add: Subject_Valid_def, code_simp+)

lemma NewContest_inv: "NewContest i c s sub r now = Inr x \<Longrightarrow> contest_inv x \<and> Con_Status x = StatusOpen \<and>
    Con_CandidateID x = c \<and> Con_SubjectID x = s \<and> Con_ID x = i"
  by (auto simp: NewContest_def contest_inv_def Let_def split: if_splits)

lemma Contest_Resolve_inv: "contest_inv c \<Longrightarrow> Contest_Resolve c u n now = Inr c' \<Longrightarrow> contest_inv c'"
  by (auto simp: Contest_Resolve_def contest_inv_def split: if_splits)

lemma Contest_Resolve_once:
  "Contest_Resolve c u n now = Inr c' \<Longrightarrow> Con_Status c = StatusOpen \<and> Con_Status c' \<noteq> StatusOpen \<and>
     (\<exists>e. Contest_Resolve c' u' n' now' = Inl e \<and> KindOf e = KindInvalid)"
  by (auto simp: Contest_Resolve_def split: if_splits)

subsection \<open>Audit entries\<close>

definition ActionApproveRejection :: gostr where "ActionApproveRejection = lit ''approve_rejection''"
definition ActionOverrideScore :: gostr where "ActionOverrideScore = lit ''override_score''"
definition ActionAgentSubmit :: gostr where "ActionAgentSubmit = lit ''agent_submit''"
definition ActionContestRaised :: gostr where "ActionContestRaised = lit ''contest_raised''"
definition ActionContestResolved :: gostr where "ActionContestResolved = lit ''contest_resolved''"

record AuditEntry =
  Aud_ID :: ID
  ActorUserID :: ID
  Aud_Action :: gostr
  Entity :: gostr
  EntityID :: ID
  OwnerID :: ID
  BeforeJSON :: gostr
  AfterJSON :: gostr
  Timestamp :: time

definition NewAuditEntry :: "ID \<Rightarrow> ID \<Rightarrow> gostr \<Rightarrow> gostr \<Rightarrow> ID \<Rightarrow> gostr \<Rightarrow> gostr \<Rightarrow> time \<Rightarrow> AuditEntry res" where
  "NewAuditEntry newid actorUserID action entity entityID beforeJSON afterJSON ts =
     (if ID_IsZero actorUserID then Inl (Invalid ''audit: actorUserID is required'')
      else if strings_TrimSpace action = [] then Inl (Invalid ''audit: action is required'')
      else if strings_TrimSpace entity = [] then Inl (Invalid ''audit: entity is required'')
      else Inr \<lparr>Aud_ID = newid, ActorUserID = actorUserID, Aud_Action = action, Entity = entity,
                EntityID = entityID, OwnerID = [], BeforeJSON = beforeJSON, AfterJSON = afterJSON,
                Timestamp = ts\<rparr>)"

record ReportFilter =
  Filter_Start :: time
  Filter_End :: time
  Filter_Actions :: "gostr list"
  Filter_Entities :: "gostr list"

lemma NewAuditEntry_simps:
  "NewAuditEntry i a act ent eid b af ts = Inr x \<Longrightarrow> \<not> ID_IsZero a \<and> ActorUserID x = a \<and> Aud_Action x = act \<and>
     Entity x = ent \<and> EntityID x = eid \<and> Timestamp x = ts \<and> AfterJSON x = af \<and> BeforeJSON x = b \<and> OwnerID x = []"
  by (auto simp: NewAuditEntry_def split: if_splits)

end
