(* ===== verification/Repository.thy ===== *)
theory Repository
  imports Kernel
begin

section \<open>The contract of a repository\<close>

text \<open>
  What the application services rely on when they talk to a repository port
  (\<open>internal/domain/*/repository.go\<close>, \<open>ports.go\<close>): a store of aggregates by identifier, whose
  reads change nothing and whose writes are seen by later reads. \<open>keeps\<close> is what a store asks of
  an aggregate handed to \<open>Update\<close>, \<open>fresh\<close> what it asks of one handed to \<open>Create\<close>. Each in-memory
  store interprets the locale in the theory that defines it.
\<close>

definition not_found :: "('w, 'a) io \<Rightarrow> 'w \<Rightarrow> bool" where
  "not_found m w \<longleftrightarrow> (\<exists>e. m w = (Inl e, w) \<and> KindOf e = KindNotFound)"

locale repository =
  fixes valid :: "'w \<Rightarrow> bool"
    and lookup :: "'w \<Rightarrow> ID \<Rightarrow> 'v option"
    and key :: "'v \<Rightarrow> ID"
    and fresh :: "'w \<Rightarrow> 'v \<Rightarrow> bool"
    and keeps :: "'w \<Rightarrow> 'v \<Rightarrow> bool"
    and create :: "'v \<Rightarrow> ('w, unit) io"
    and byID :: "ID \<Rightarrow> ('w, 'v) io"
    and update :: "'v \<Rightarrow> ('w, unit) io"
  assumes byID_Some: "valid w \<Longrightarrow> lookup w i = Some v \<Longrightarrow> byID i w = (Inr v, w)"
    and byID_None: "valid w \<Longrightarrow> lookup w i = None \<Longrightarrow> not_found (byID i) w"
    and create_fresh: "valid w \<Longrightarrow> lookup w (key v) = None \<Longrightarrow> fresh w v \<Longrightarrow>
      \<exists>w'. create v w = (Inr (), w') \<and> valid w' \<and> lookup w' = (lookup w)(key v \<mapsto> v)"
    and update_present: "valid w \<Longrightarrow> lookup w (key v) \<noteq> None \<Longrightarrow> keeps w v \<Longrightarrow>
      \<exists>w'. update v w = (Inr (), w') \<and> valid w' \<and> lookup w' = (lookup w)(key v \<mapsto> v)"
    and update_absent: "valid w \<Longrightarrow> lookup w (key v) = None \<Longrightarrow> not_found (update v) w"
begin

lemma read_after_create:
  assumes "valid w" and "lookup w (key v) = None" and "fresh w v"
  shows "\<exists>w'. create v w = (Inr (), w') \<and> byID (key v) w' = (Inr v, w')"
  using create_fresh [OF assms] byID_Some [of _ "key v" v] by auto

lemma read_after_update:
  assumes "valid w" and "update v w = (Inr (), w')" and "keeps w v"
  shows "byID (key v) w' = (Inr v, w')" and "valid w'" and "lookup w' = (lookup w)(key v \<mapsto> v)"
    and "lookup w (key v) \<noteq> None"
proof -
  show p: "lookup w (key v) \<noteq> None"
    using update_absent [OF assms(1), of v] assms(2) by (auto simp: not_found_def)
  from update_present [OF assms(1) p assms(3)] assms(2)
  show "valid w'" "lookup w' = (lookup w)(key v \<mapsto> v)" by simp_all
  then show "byID (key v) w' = (Inr v, w')" using byID_Some by simp
qed

lemma byID_pure: "valid w \<Longrightarrow> snd (byID i w) = w"
proof (cases "lookup w i")
  case None
  assume "valid w"
  from byID_None [OF this None] show ?thesis by (auto simp: not_found_def)
next
  case (Some v)
  assume "valid w"
  from byID_Some [OF this Some] show ?thesis by simp
qed

lemma byID_Inr_iff: "valid w \<Longrightarrow> byID i w = (Inr v, w') \<longleftrightarrow> lookup w i = Some v \<and> w' = w"
proof (cases "lookup w i")
  case None
  assume "valid w"
  from byID_None [OF this None] None show ?thesis by (auto simp: not_found_def)
next
  case (Some v)
  assume "valid w"
  from byID_Some [OF this Some] Some show ?thesis by auto
qed

lemma byID_missing: "valid w \<Longrightarrow> lookup w i = None \<Longrightarrow> \<exists>e. byID i w = (Inl e, w) \<and> KindOf e = KindNotFound"
  using byID_None unfolding not_found_def .

end

end
