(* ===== verification/Go_Sort.thy ===== *)
theory Go_Sort
  imports Go_Prelude
begin

section \<open>Sorting\<close>

text \<open>
  \<open>sort.SliceStable\<close> as a stable insertion sort by a comparison function, and the contract it
  keeps for every comparison that is a strict weak order on the elements sorted. \<open>sort.Slice\<close>
  promises the same without stability; the listings that use it take the sort as a parameter
  that keeps the contract \<open>sorts\<close>.
\<close>

fun stable_insert :: "('a \<Rightarrow> 'a \<Rightarrow> bool) \<Rightarrow> 'a \<Rightarrow> 'a list \<Rightarrow> 'a list" where
  "stable_insert lt x [] = [x]"
| "stable_insert lt x (y # ys) = (if lt y x then y # stable_insert lt x ys else x # y # ys)"

fun stable_sort :: "('a \<Rightarrow> 'a \<Rightarrow> bool) \<Rightarrow> 'a list \<Rightarrow> 'a list" where
  "stable_sort lt [] = []"
| "stable_sort lt (x # xs) = stable_insert lt x (stable_sort lt xs)"

lemma mset_stable_insert [simp]: "mset (stable_insert lt x ys) = add_mset x (mset ys)"
  by (induction ys) simp_all

lemma mset_stable_sort [simp]: "mset (stable_sort lt xs) = mset xs"
  by (induction xs) simp_all

lemma set_stable_sort [simp]: "set (stable_sort lt xs) = set xs"
  by (rule mset_eq_setD) simp

lemma length_stable_sort [simp]: "length (stable_sort lt xs) = length xs"
  by (rule mset_eq_length) simp

lemma distinct_stable_sort [simp]: "distinct (stable_sort lt xs) = distinct xs"
  using mset_eq_imp_distinct_iff mset_stable_sort by blast

lemma stable_insert_map:
  "stable_insert lt (f x) (map f ys) = map f (stable_insert (\<lambda>a b. lt (f a) (f b)) x ys)"
  by (induction ys) simp_all

text \<open>What a sort promises: the same elements, none after a smaller one.\<close>

definition in_order :: "('a \<Rightarrow> 'a \<Rightarrow> bool) \<Rightarrow> 'a list \<Rightarrow> bool" where
  "in_order lt xs \<longleftrightarrow> sorted_wrt (\<lambda>a b. \<not> lt b a) xs"

lemma in_order_nth: "in_order lt xs \<Longrightarrow> i < j \<Longrightarrow> j < length xs \<Longrightarrow> \<not> lt (xs ! j) (xs ! i)"
  by (simp add: in_order_def sorted_wrt_iff_nth_less)

definition sorts :: "(('a \<Rightarrow> 'a \<Rightarrow> bool) \<Rightarrow> 'a list \<Rightarrow> 'a list) \<Rightarrow> ('a \<Rightarrow> 'a \<Rightarrow> bool) \<Rightarrow> 'a set \<Rightarrow> bool" where
  "sorts srt lt A \<longleftrightarrow>
     (\<forall>xs. set xs \<subseteq> A \<longrightarrow> mset (srt lt xs) = mset xs \<and> in_order lt (srt lt xs))"

text \<open>A comparison that is a strict weak order on the carrier.\<close>

locale weak_order =
  fixes lt :: "'a \<Rightarrow> 'a \<Rightarrow> bool" and A :: "'a set"
  assumes asym: "a \<in> A \<Longrightarrow> b \<in> A \<Longrightarrow> lt a b \<Longrightarrow> \<not> lt b a"
    and negtrans: "a \<in> A \<Longrightarrow> b \<in> A \<Longrightarrow> c \<in> A \<Longrightarrow> \<not> lt a b \<Longrightarrow> \<not> lt b c \<Longrightarrow> \<not> lt a c"
begin

lemma insert_in_order:
  assumes "in_order lt ys" and "x \<in> A" and "set ys \<subseteq> A"
  shows "in_order lt (stable_insert lt x ys)"
  using assms
proof (induction ys)
  case Nil
  then show ?case by (simp add: in_order_def)
next
  case (Cons y ys)
  have set_ins: "set (stable_insert lt x ys) = insert x (set ys)"
    using mset_stable_insert [of lt x ys] by (metis set_mset_add_mset_insert set_mset_mset)
  show ?case
  proof (cases "lt y x")
    case True
    with Cons asym [of y x] show ?thesis by (auto simp: in_order_def set_ins)
  next
    case False
    with Cons negtrans [of _ y x] show ?thesis by (auto simp: in_order_def)
  qed
qed

lemma sort_in_order: "set xs \<subseteq> A \<Longrightarrow> in_order lt (stable_sort lt xs)"
  by (induction xs) (simp_all add: insert_in_order in_order_def [of lt "[]"])

lemma stable_sort_sorts: "sorts stable_sort lt A"
  by (simp add: sorts_def sort_in_order)

lemma negtrans3: "a \<in> A \<Longrightarrow> b \<in> A \<Longrightarrow> c \<in> A \<Longrightarrow> lt a c \<Longrightarrow> lt a b \<or> lt b c"
  using negtrans by blast

text \<open>Stability: elements the comparison does not separate keep their order.\<close>

lemma insert_stable:
  assumes "x \<in> A" and "set ys \<subseteq> A" and "z \<in> A"
  shows "filter (\<lambda>y. \<not> lt z y \<and> \<not> lt y z) (stable_insert lt x ys) =
     filter (\<lambda>y. \<not> lt z y \<and> \<not> lt y z) (x # ys)"
  using assms
proof (induction ys)
  case (Cons y ys)
  show ?case
  proof (cases "lt y x")
    case True
    then have "\<not> ((\<not> lt z y \<and> \<not> lt y z) \<and> (\<not> lt z x \<and> \<not> lt x z))"
      using negtrans [of y z x] Cons.prems by auto
    with Cons True show ?thesis by auto
  qed simp
qed simp

lemma sort_stable:
  "set xs \<subseteq> A \<Longrightarrow> z \<in> A \<Longrightarrow>
     filter (\<lambda>y. \<not> lt z y \<and> \<not> lt y z) (stable_sort lt xs) =
     filter (\<lambda>y. \<not> lt z y \<and> \<not> lt y z) xs"
  by (induction xs) (simp_all add: insert_stable)

end

text \<open>Comparing by a key in a linear order, in either direction.\<close>

lemma weak_order_key: "weak_order (\<lambda>a b. (f a :: 'k :: linorder) < f b) UNIV"
  by unfold_locales auto

lemma weak_order_key_desc: "weak_order (\<lambda>a b. (f b :: 'k :: linorder) < f a) UNIV"
  by unfold_locales auto

lemma weak_order_subset: "weak_order lt B \<Longrightarrow> A \<subseteq> B \<Longrightarrow> weak_order lt A"
  unfolding weak_order_def by blast

end
