(* ===== verification/Identity.thy ===== *)
theory Identity
  imports Kernel Go_Regexp "HOL-Library.List_Lexorder" "HOL-Library.Char_ord"
begin

section \<open>Accounts and permissions\<close>

text \<open>
  \<open>internal/domain/identity\<close>: account roles (\<open>roles.go\<close>), email addresses (\<open>email.go\<close>), the
  password policy and users (\<open>user.go\<close>); \<open>internal/domain/authz/authz.go\<close>: the permission
  matrix. The lemmas characterise the addresses accepted, the users that can be built and the
  matrix.
\<close>

subsection \<open>Roles\<close>

datatype role = RoleUnspecified | RoleEmployer | RoleRecruiter | RoleCandidate | RoleAdmin

fun role_iota :: "role \<Rightarrow> int" where
  "role_iota RoleUnspecified = 0"
| "role_iota RoleEmployer = 1"
| "role_iota RoleRecruiter = 2"
| "role_iota RoleCandidate = 3"
| "role_iota RoleAdmin = 4"

instantiation role :: linorder
begin

definition less_eq_role :: "role \<Rightarrow> role \<Rightarrow> bool" where
  "less_eq_role a b \<longleftrightarrow> role_iota a \<le> role_iota b"

definition less_role :: "role \<Rightarrow> role \<Rightarrow> bool" where
  "less_role a b \<longleftrightarrow> role_iota a < role_iota b"

instance
proof
  fix a b c :: role
  show "a \<le> b \<Longrightarrow> b \<le> a \<Longrightarrow> a = b" by (cases a; cases b) (simp_all add: less_eq_role_def)
qed (auto simp: less_eq_role_def less_role_def)

end

definition Role_Valid :: "role \<Rightarrow> bool" where
  "Role_Valid r \<longleftrightarrow> RoleEmployer \<le> r \<and> r \<le> RoleAdmin"

definition Role_Registerable :: "role \<Rightarrow> bool" where
  "Role_Registerable r \<longleftrightarrow> r = RoleEmployer \<or> r = RoleRecruiter \<or> r = RoleCandidate"

fun Role_String :: "role \<Rightarrow> gostr" where
  "Role_String RoleEmployer = lit ''employer''"
| "Role_String RoleRecruiter = lit ''recruiter''"
| "Role_String RoleCandidate = lit ''candidate''"
| "Role_String RoleAdmin = lit ''admin''"
| "Role_String RoleUnspecified = lit ''unspecified''"

definition ParseRole :: "gostr \<Rightarrow> role res" where
  "ParseRole s =
     (let t = strings_ToLower (strings_TrimSpace s)
      in if t = lit ''employer'' then Inr RoleEmployer
         else if t = lit ''recruiter'' then Inr RoleRecruiter
         else if t = lit ''candidate'' then Inr RoleCandidate
         else if t = lit ''admin'' then Inr RoleAdmin
         else Inl (Invalidf ''identity: unknown role %q'' [AStr s]))"

lemma Role_Valid_iff [simp]: "Role_Valid r \<longleftrightarrow> r \<noteq> RoleUnspecified"
  by (cases r) (simp_all add: Role_Valid_def less_eq_role_def)

lemma Role_Registerable_Valid: "Role_Registerable r \<longleftrightarrow> Role_Valid r \<and> r \<noteq> RoleAdmin"
  by (cases r) (simp_all add: Role_Registerable_def)

lemma ParseRole_String: "Role_Valid r \<Longrightarrow> ParseRole (Role_String r) = Inr r"
  by (cases r) (simp; code_simp)+

lemma ParseRole_valid: "ParseRole s = Inr r \<Longrightarrow> Role_Valid r"
  by (auto simp: ParseRole_def Let_def split: if_splits)

subsection \<open>Email addresses\<close>

type_synonym Email = gostr

text \<open>The regular expression \<open>^[^@\s]+@[^@\s]+\.[^@\s]+$\<close>; \<open>\s\<close> is ASCII white space.\<close>

definition email_class :: "gostr \<Rightarrow> bool" where
  "email_class s \<longleftrightarrow> s \<noteq> [] \<and> list_all (\<lambda>r. r \<noteq> 64 \<and> \<not> re_space r) s"

definition emailRe :: "gostr \<Rightarrow> bool" where
  "emailRe s \<longleftrightarrow> (\<exists>i \<in> set [0..<length s]. \<exists>j \<in> set [Suc i..<length s].
     email_class (take i s) \<and> s ! i = 64 \<and>
     email_class (take (j - Suc i) (drop (Suc i) s)) \<and> s ! j = 46 \<and> email_class (drop (Suc j) s))"

definition NewEmail :: "gostr \<Rightarrow> Email res" where
  "NewEmail raw =
     (let e = strings_ToLower (strings_TrimSpace raw)
      in if \<not> emailRe e then Inl (Invalidf ''identity: invalid email %q'' [AStr raw]) else Inr e)"

lemma emailRe_iff:
  "emailRe s \<longleftrightarrow> (\<exists>a b c. s = a @ 64 # b @ 46 # c \<and> email_class a \<and> email_class b \<and> email_class c)"
proof
  assume "emailRe s"
  then obtain i j where ij: "i < j" "j < length s" and m: "email_class (take i s)" "s ! i = 64"
      "email_class (take (j - Suc i) (drop (Suc i) s))" "s ! j = 46" "email_class (drop (Suc j) s)"
    unfolding emailRe_def atLeastLessThan_upt [symmetric] atLeastLessThan_iff Suc_le_eq Bex_def
    by blast
  have j: "drop (Suc i) s = take (j - Suc i) (drop (Suc i) s) @ s ! j # drop (Suc j) s"
    using ij append_take_drop_id [of "j - Suc i" "drop (Suc i) s"] by (simp add: Cons_nth_drop_Suc)
  have "s = take i s @ s ! i # drop (Suc i) s"
    using ij by (simp add: id_take_nth_drop)
  with j m show "\<exists>a b c. s = a @ 64 # b @ 46 # c \<and> email_class a \<and> email_class b \<and> email_class c"
    by metis
next
  assume "\<exists>a b c. s = a @ 64 # b @ 46 # c \<and> email_class a \<and> email_class b \<and> email_class c"
  then obtain a b c where s: "s = a @ 64 # b @ 46 # c"
    and m: "email_class a" "email_class b" "email_class c" by blast
  let ?i = "length a" and ?j = "Suc (length a + length b)"
  have "take ?i s = a" "s ! ?i = 64" "take (?j - Suc ?i) (drop (Suc ?i) s) = b" "s ! ?j = 46"
      "drop (Suc ?j) s = c" "?i < length s" "?j < length s"
    by (simp_all add: s nth_append)
  with m show "emailRe s" unfolding emailRe_def
    by (intro bexI [of _ ?i] bexI [of _ ?j]) auto
qed

lemma NewEmail_shape:
  assumes "NewEmail raw = Inr e"
  shows "e = strings_ToLower (strings_TrimSpace raw)"
    and "\<exists>a b c. e = a @ 64 # b @ 46 # c \<and> email_class a \<and> email_class b \<and> email_class c"
  using assms by (auto simp: NewEmail_def Let_def emailRe_iff split: if_splits)

lemma NewEmail_nonempty: "NewEmail raw = Inr e \<Longrightarrow> e \<noteq> []"
  by (auto dest: NewEmail_shape(2))

lemma NewEmail_case: "strings_ToLower (strings_TrimSpace r) = strings_ToLower (strings_TrimSpace s) \<Longrightarrow>
    NewEmail r = Inr e \<Longrightarrow> NewEmail s = Inr e"
  by (simp add: NewEmail_def Let_def split: if_splits)

subsection \<open>Users\<close>

datatype account_status = StatusUnspecified | StatusActive | StatusLocked

definition AccountStatus_Valid :: "account_status \<Rightarrow> bool" where
  "AccountStatus_Valid s \<longleftrightarrow> s = StatusActive \<or> s = StatusLocked"

fun AccountStatus_String :: "account_status \<Rightarrow> gostr" where
  "AccountStatus_String StatusActive = lit ''active''"
| "AccountStatus_String StatusLocked = lit ''locked''"
| "AccountStatus_String StatusUnspecified = lit ''unspecified''"

definition DefaultPasswordMinLength :: int where "DefaultPasswordMinLength = 12"
definition DefaultPasswordMaxLength :: int where "DefaultPasswordMaxLength = 128"
definition MaxNameLen :: int where "MaxNameLen = 200"

record PasswordPolicy =
  MinLength :: int
  MaxLength :: int

definition DefaultPasswordPolicy :: PasswordPolicy where
  "DefaultPasswordPolicy = \<lparr>MinLength = DefaultPasswordMinLength, MaxLength = DefaultPasswordMaxLength\<rparr>"

definition MaxAllowedLength :: "PasswordPolicy \<Rightarrow> int" where
  "MaxAllowedLength p = (if MaxLength p \<le> 0 then DefaultPasswordMaxLength else MaxLength p)"

definition PasswordPolicy_Validate :: "PasswordPolicy \<Rightarrow> gostr \<Rightarrow> unit res" where
  "PasswordPolicy_Validate p plain =
     (let minLen = (if MinLength p \<le> 0 then DefaultPasswordMinLength else MinLength p);
          maxLen = (if MaxLength p \<le> 0 then DefaultPasswordMaxLength else MaxLength p)
      in if strings_TrimSpace plain = [] then Inl (Invalid ''identity: password must not be blank'')
         else if byte_len plain < minLen
           then Inl (Invalidf ''identity: password must be at least %d characters'' [AInt minLen])
         else if maxLen < byte_len plain
           then Inl (Invalidf ''identity: password must be at most %d characters'' [AInt maxLen])
         else Inr ())"

record User =
  User_ID :: ID
  User_Email :: Email
  User_Role :: role
  User_Name :: gostr
  User_PasswordHash :: gostr
  User_Status :: account_status
  User_CreatedAt :: time

text \<open>The first argument is the identifier \<open>kernel.NewID\<close> delivers.\<close>

definition NewUser :: "ID \<Rightarrow> Email \<Rightarrow> role \<Rightarrow> gostr \<Rightarrow> gostr \<Rightarrow> time \<Rightarrow> User res" where
  "NewUser newid email r name passwordHash createdAt =
     (if email = [] then Inl (Invalid ''identity: email is required'')
      else if \<not> Role_Valid r then Inl (Invalid ''identity: a valid role is required'')
      else if strings_TrimSpace name = [] then Inl (Invalid ''identity: name is required'')
      else if MaxNameLen < rune_count name
        then Inl (Invalidf ''identity: name exceeds %d characters'' [AInt MaxNameLen])
      else if strings_TrimSpace passwordHash = [] then Inl (Invalid ''identity: password hash is required'')
      else Inr \<lparr>User_ID = newid, User_Email = email, User_Role = r, User_Name = name,
                User_PasswordHash = passwordHash, User_Status = StatusActive, User_CreatedAt = createdAt\<rparr>)"

definition User_Lock :: "User \<Rightarrow> User" where
  "User_Lock u = u\<lparr>User_Status := StatusLocked\<rparr>"

definition User_IsActive :: "User \<Rightarrow> bool" where
  "User_IsActive u \<longleftrightarrow> User_Status u = StatusActive"

lemma Password_ok_iff:
  "PasswordPolicy_Validate DefaultPasswordPolicy plain = Inr () \<longleftrightarrow>
     (\<exists>c \<in> set plain. \<not> unicode_IsSpace c) \<and> 12 \<le> byte_len plain \<and> byte_len plain \<le> 128"
  by (auto simp: PasswordPolicy_Validate_def DefaultPasswordPolicy_def Let_def TrimSpace_Nil_iff
      DefaultPasswordMinLength_def DefaultPasswordMaxLength_def)

text \<open>The invariant of the accounts the program builds.\<close>

definition user_ok :: "User \<Rightarrow> bool" where
  "user_ok u \<longleftrightarrow> User_Email u \<noteq> [] \<and> Role_Valid (User_Role u) \<and> strings_TrimSpace (User_Name u) \<noteq> [] \<and>
     rune_count (User_Name u) \<le> MaxNameLen \<and> strings_TrimSpace (User_PasswordHash u) \<noteq> []"

lemma NewUser_ok: "NewUser i e r n h t = Inr u \<Longrightarrow> user_ok u \<and> User_IsActive u \<and>
    User_ID u = i \<and> User_Email u = e \<and> User_Role u = r \<and> User_PasswordHash u = h"
  by (auto simp: NewUser_def user_ok_def User_IsActive_def split: if_splits)

lemma NewUser_error: "NewUser i e r n h t = Inl err \<Longrightarrow> KindOf err = KindInvalid"
  by (auto simp: NewUser_def split: if_splits)

lemma Lock_ok: "user_ok u \<Longrightarrow> user_ok (User_Lock u) \<and> \<not> User_IsActive (User_Lock u)"
  by (simp add: user_ok_def User_Lock_def User_IsActive_def)

subsection \<open>Permissions\<close>

type_synonym Permission = string

definition PermManageRoles :: Permission where "PermManageRoles = ''roles:manage''"
definition PermViewShortlist :: Permission where "PermViewShortlist = ''shortlist:view''"
definition PermRecordDecision :: Permission where "PermRecordDecision = ''decision:record''"
definition PermResolveContest :: Permission where "PermResolveContest = ''contest:resolve''"
definition PermViewDashboard :: Permission where "PermViewDashboard = ''dashboard:view''"
definition PermReadAuditLog :: Permission where "PermReadAuditLog = ''audit:read''"
definition PermScreenSelf :: Permission where "PermScreenSelf = ''interview:screen''"
definition PermViewReportCard :: Permission where "PermViewReportCard = ''interview:report:view''"
definition PermRunAgent :: Permission where "PermRunAgent = ''agent:run''"
definition PermViewProfile :: Permission where "PermViewProfile = ''profile:view''"
definition PermManageProfile :: Permission where "PermManageProfile = ''profile:manage''"
definition PermManagePrivacy :: Permission where "PermManagePrivacy = ''privacy:manage''"
definition PermRaiseContest :: Permission where "PermRaiseContest = ''contest:raise''"
definition PermManageUsers :: Permission where "PermManageUsers = ''users:manage''"

lemmas perm_defs = PermManageRoles_def PermViewShortlist_def PermRecordDecision_def
  PermResolveContest_def PermViewDashboard_def PermReadAuditLog_def PermScreenSelf_def
  PermViewReportCard_def PermRunAgent_def PermViewProfile_def PermManageProfile_def
  PermManagePrivacy_def PermRaiseContest_def PermManageUsers_def

text \<open>A role without an entry maps to no permission, as the map's zero value does.\<close>

definition authz_matrix :: "(role \<times> Permission list) list" where
  "authz_matrix =
     [(RoleEmployer,
        [PermManageRoles, PermViewShortlist, PermRecordDecision, PermResolveContest,
         PermViewDashboard, PermReadAuditLog, PermViewReportCard, PermViewProfile]),
      (RoleRecruiter,
        [PermManageRoles, PermViewShortlist, PermRecordDecision, PermResolveContest,
         PermViewDashboard, PermReadAuditLog, PermViewReportCard, PermViewProfile]),
      (RoleCandidate,
        [PermScreenSelf, PermViewReportCard, PermRunAgent, PermViewProfile, PermManageProfile,
         PermManagePrivacy, PermRaiseContest]),
      (RoleAdmin,
        [PermManageRoles, PermViewShortlist, PermRecordDecision, PermResolveContest,
         PermViewDashboard, PermReadAuditLog, PermViewReportCard, PermViewProfile,
         PermManageUsers])]"

definition matrix_at :: "role \<Rightarrow> Permission list" where
  "matrix_at r = (case map_of authz_matrix r of None \<Rightarrow> [] | Some ps \<Rightarrow> ps)"

definition Can :: "role \<Rightarrow> Permission \<Rightarrow> bool" where
  "Can r p \<longleftrightarrow> p \<in> set (matrix_at r)"

definition PermissionsFor :: "role \<Rightarrow> Permission list" where
  "PermissionsFor r = sort (matrix_at r)"

definition Roles :: "role list" where
  "Roles = sort (map fst authz_matrix)"

definition reviewer_perms :: "Permission set" where
  "reviewer_perms = {PermManageRoles, PermViewShortlist, PermRecordDecision, PermResolveContest,
     PermViewDashboard, PermReadAuditLog}"

definition candidate_perms :: "Permission set" where
  "candidate_perms = {PermScreenSelf, PermRunAgent, PermManageProfile, PermManagePrivacy, PermRaiseContest}"

lemma Can_simps:
  "Can RoleUnspecified p \<longleftrightarrow> False"
  "Can RoleEmployer p \<longleftrightarrow> p \<in> reviewer_perms \<or> p = PermViewReportCard \<or> p = PermViewProfile"
  "Can RoleRecruiter p \<longleftrightarrow> p \<in> reviewer_perms \<or> p = PermViewReportCard \<or> p = PermViewProfile"
  "Can RoleCandidate p \<longleftrightarrow> p \<in> candidate_perms \<or> p = PermViewReportCard \<or> p = PermViewProfile"
  "Can RoleAdmin p \<longleftrightarrow> p \<in> reviewer_perms \<or> p = PermViewReportCard \<or> p = PermViewProfile \<or> p = PermManageUsers"
  by (auto simp: Can_def matrix_at_def authz_matrix_def reviewer_perms_def candidate_perms_def)

text \<open>
  Duties are separated: no role holds both a reviewer capability and a candidate capability,
  user administration belongs to the operator alone, an unspecified role holds nothing, and no
  role that can register itself can administer users.
\<close>

lemma duties_separated:
  "(\<forall>r. \<not> ((\<exists>p \<in> reviewer_perms. Can r p) \<and> (\<exists>p \<in> candidate_perms. Can r p))) \<and>
   (\<forall>r. Can r PermManageUsers \<longleftrightarrow> r = RoleAdmin) \<and>
   (\<forall>p. \<not> Can RoleUnspecified p) \<and>
   (\<forall>r. \<not> (Role_Registerable r \<and> Can r PermManageUsers))"
proof (intro conjI allI)
  have disj: "reviewer_perms \<inter> candidate_perms = {}" "PermViewReportCard \<notin> candidate_perms"
      "PermViewProfile \<notin> candidate_perms" "PermManageUsers \<notin> candidate_perms"
      "PermViewReportCard \<notin> reviewer_perms" "PermViewProfile \<notin> reviewer_perms"
    by (auto simp: reviewer_perms_def candidate_perms_def perm_defs)
  show "\<not> ((\<exists>p \<in> reviewer_perms. Can r p) \<and> (\<exists>p \<in> candidate_perms. Can r p))" for r
    using disj by (cases r) (auto simp: Can_simps)
  show users: "Can r PermManageUsers \<longleftrightarrow> r = RoleAdmin" for r
    by (cases r) (simp_all add: Can_simps reviewer_perms_def candidate_perms_def perm_defs)
  show "\<not> Can RoleUnspecified p" for p by (simp add: Can_simps)
  show "\<not> (Role_Registerable r \<and> Can r PermManageUsers)" for r
    by (auto simp: users Role_Registerable_def)
qed

lemma duties_separated_witness:
  "\<not> ((\<exists>p \<in> reviewer_perms. Can RoleAdmin p) \<and> (\<exists>p \<in> candidate_perms. Can RoleAdmin p))"
  using duties_separated by blast

lemma Can_PermissionsFor: "p \<in> set (PermissionsFor r) \<longleftrightarrow> Can r p"
  by (simp add: PermissionsFor_def Can_def)

lemma set_Roles: "set Roles = {r. Role_Valid r}"
proof -
  have "r \<in> set Roles \<longleftrightarrow> Role_Valid r" for r
    by (cases r) (simp_all add: Roles_def authz_matrix_def)
  then show ?thesis by blast
qed

end
