(* ===== verification/Talent.thy ===== *)
theory Talent
  imports Kernel
begin

section \<open>Candidates and talent profiles\<close>

text \<open>
  \<open>internal/domain/talent/talent.go\<close>: candidates with their intake preferences and the talent
  passport. The lemmas give the invariant of a passport and the operations that keep it.
\<close>

datatype passport_status = PassportUnset | PassportCVOnly | PassportScreened | PassportVerified

fun passport_iota :: "passport_status \<Rightarrow> int" where
  "passport_iota PassportUnset = 0"
| "passport_iota PassportCVOnly = 1"
| "passport_iota PassportScreened = 2"
| "passport_iota PassportVerified = 3"

definition PassportStatus_Valid :: "passport_status \<Rightarrow> bool" where
  "PassportStatus_Valid s \<longleftrightarrow> passport_iota PassportCVOnly \<le> passport_iota s \<and>
     passport_iota s \<le> passport_iota PassportVerified"

fun PassportStatus_String :: "passport_status \<Rightarrow> gostr" where
  "PassportStatus_String PassportCVOnly = lit ''cv_only''"
| "PassportStatus_String PassportScreened = lit ''screened''"
| "PassportStatus_String PassportVerified = lit ''verified''"
| "PassportStatus_String PassportUnset = lit ''unset''"

record ProfileCompetency =
  PC_Name :: gostr
  PC_Level :: f64
  PC_EvidenceQuote :: gostr
  PC_SourceSpan :: gostr

definition ProfileCompetency_Validate :: "ProfileCompetency \<Rightarrow> unit res" where
  "ProfileCompetency_Validate c =
     (if strings_TrimSpace (PC_Name c) = [] then Inl (Invalid ''competency name is required'')
      else if flt (PC_Level c) (Fin 0) \<or> flt (Fin 5) (PC_Level c)
        then Inl (Invalidf ''competency level must be in [0,5], got %v'' [AFloat (PC_Level c)])
      else Inr ())"

record CandidateIntake =
  TargetTitles :: "gostr list"
  Intake_Location :: gostr
  SalaryFloor :: f64
  SalaryCurrency :: gostr
  DealBreakers :: "gostr list"

definition CandidateIntake_Validate :: "CandidateIntake \<Rightarrow> unit res" where
  "CandidateIntake_Validate i =
     (if flt (SalaryFloor i) (Fin 0) then Inl (Invalid ''salary floor must be non-negative'') else Inr ())"

record Candidate =
  Cand_ID :: ID
  Cand_UserID :: ID
  Cand_Location :: gostr
  Cand_Intake :: CandidateIntake

definition NewCandidate :: "ID \<Rightarrow> ID \<Rightarrow> gostr \<Rightarrow> CandidateIntake \<Rightarrow> Candidate res" where
  "NewCandidate newid userID location intake =
     (if ID_IsZero userID then Inl (Invalid ''candidate user id is required'')
      else case CandidateIntake_Validate intake of Inl e \<Rightarrow> Inl e
        | Inr u \<Rightarrow> Inr \<lparr>Cand_ID = newid, Cand_UserID = userID, Cand_Location = location, Cand_Intake = intake\<rparr>)"

record TalentProfile =
  TP_ID :: ID
  TP_CandidateID :: ID
  TP_Summary :: gostr
  TP_Competencies :: "ProfileCompetency list"
  TP_Embedding :: "rat list"
  TP_PassportStatus :: passport_status

fun validate_profile_competencies :: "ProfileCompetency list \<Rightarrow> unit res" where
  "validate_profile_competencies [] = Inr ()"
| "validate_profile_competencies (c # cs) =
     (case ProfileCompetency_Validate c of Inl e \<Rightarrow> Inl e | Inr u \<Rightarrow> validate_profile_competencies cs)"

definition NewTalentProfile :: "ID \<Rightarrow> ID \<Rightarrow> gostr \<Rightarrow> ProfileCompetency list \<Rightarrow> TalentProfile res" where
  "NewTalentProfile newid candidateID summary comps =
     (if ID_IsZero candidateID then Inl (Invalid ''talent profile candidate id is required'')
      else case validate_profile_competencies comps of Inl e \<Rightarrow> Inl e
        | Inr u \<Rightarrow> Inr \<lparr>TP_ID = newid, TP_CandidateID = candidateID, TP_Summary = summary,
            TP_Competencies = comps, TP_Embedding = [], TP_PassportStatus = PassportCVOnly\<rparr>)"

definition MarkScreened :: "TalentProfile \<Rightarrow> TalentProfile" where
  "MarkScreened p = p\<lparr>TP_PassportStatus := PassportScreened\<rparr>"

definition MarkVerified :: "TalentProfile \<Rightarrow> TalentProfile" where
  "MarkVerified p = p\<lparr>TP_PassportStatus := PassportVerified\<rparr>"

definition AddCompetency :: "TalentProfile \<Rightarrow> ProfileCompetency \<Rightarrow> TalentProfile res" where
  "AddCompetency p c = (case ProfileCompetency_Validate c of Inl e \<Rightarrow> Inl e
     | Inr u \<Rightarrow> Inr (p\<lparr>TP_Competencies := TP_Competencies p @ [c]\<rparr>))"

definition TalentProfile_EmbeddingText :: "TalentProfile \<Rightarrow> gostr" where
  "TalentProfile_EmbeddingText p = strings_Join
     (concat (map (\<lambda>c. [PC_Name c, PC_EvidenceQuote c, PC_SourceSpan c]) (TP_Competencies p))) (lit '' '')"

definition passport_inv :: "TalentProfile \<Rightarrow> bool" where
  "passport_inv p \<longleftrightarrow> \<not> ID_IsZero (TP_CandidateID p) \<and> PassportStatus_Valid (TP_PassportStatus p) \<and>
     (\<forall>c \<in> set (TP_Competencies p). ProfileCompetency_Validate c = Inr ())"

lemma PassportStatus_Valid_iff [simp]: "PassportStatus_Valid s \<longleftrightarrow> s \<noteq> PassportUnset"
  by (cases s) (simp_all add: PassportStatus_Valid_def)

lemma validate_profile_competencies_iff:
  "validate_profile_competencies cs = Inr () \<longleftrightarrow> (\<forall>c \<in> set cs. ProfileCompetency_Validate c = Inr ())"
  by (induction cs) (auto split: sum.splits)

lemma NewTalentProfile_inv:
  "NewTalentProfile i c s cs = Inr p \<Longrightarrow> passport_inv p \<and> TP_ID p = i \<and> TP_CandidateID p = c \<and>
     TP_Competencies p = cs"
  by (auto simp: NewTalentProfile_def passport_inv_def validate_profile_competencies_iff [symmetric]
      split: if_splits sum.splits)

lemma passport_ops_inv:
  "passport_inv p \<Longrightarrow> passport_inv (MarkScreened p)"
  "passport_inv p \<Longrightarrow> passport_inv (MarkVerified p)"
  "passport_inv p \<Longrightarrow> AddCompetency p c = Inr p' \<Longrightarrow> passport_inv p'"
  by (auto simp: passport_inv_def MarkScreened_def MarkVerified_def AddCompetency_def split: sum.splits)

lemma NewCandidate_user: "NewCandidate i u l n = Inr c \<Longrightarrow> \<not> ID_IsZero u \<and> Cand_UserID c = u \<and> Cand_ID c = i"
  by (auto simp: NewCandidate_def split: if_splits sum.splits)

end
