(* ===== verification/Memory.thy ===== *)
theory Memory
  imports Repository Go_Sort Identity Role Talent Matching Interview CandidateAgent Contest_Audit
begin

section \<open>The in-memory repositories\<close>

text \<open>
  \<open>internal/adapters/outbound/memory\<close>: the generic \<open>keyedStore\<close> (\<open>store.go\<close>) and the role, user,
  match, application, interview, contest, audit, candidate and profile repositories. A Go map is
  an association list; where the code iterates over a map the order is a parameter \<open>iter\<close>, any
  permutation, and the unstable \<open>sort.Slice\<close> is a parameter \<open>srt\<close> that keeps the contract \<open>sorts\<close>.
  The mutexes make every method one atomic step. A slice out of range is the error
  \<open>slice_panic\<close>, which no page the program builds can reach.
\<close>

subsection \<open>Listings\<close>

definition slice_panic :: go_error where
  "slice_panic = PlainErr ''panic: slice bounds out of range'' [] []"

definition page_result :: "'a list \<Rightarrow> Page \<Rightarrow> ('a list \<times> int) res" where
  "page_result all_items page = (case page_slice all_items page of None \<Rightarrow> Inl slice_panic
     | Some xs \<Rightarrow> Inr (xs, int (length all_items)))"

lemma page_result_ok:
  "page_ok p \<Longrightarrow> int (length xs) < 2 ^ 62 \<Longrightarrow>
     page_result xs p = Inr (take (nat (Size p)) (drop (nat ((Number p - 1) * Size p)) xs), int (length xs))"
  unfolding page_result_def by (subst page_slice_eq) simp_all

subsection \<open>The keyed store\<close>

record 'v keyedStore =
  ks_byID :: "(ID \<times> 'v) list"
  ks_bySecond :: "(ID \<times> ID) list"
  ks_order :: "ID list"

definition newKeyedStore :: "'v keyedStore" where
  "newKeyedStore = \<lparr>ks_byID = [], ks_bySecond = [], ks_order = []\<rparr>"

definition ks_create :: "('v \<Rightarrow> ID) \<Rightarrow> ('v \<Rightarrow> ID) \<Rightarrow> 'v \<Rightarrow> string \<Rightarrow> ('v keyedStore, unit) io" where
  "ks_create primary secondary v dupMsg s =
     (if map_of (ks_bySecond s) (secondary v) \<noteq> None then (Inl (Conflict dupMsg), s)
      else let i = primary v
        in (Inr (), s\<lparr>ks_byID := AList.update i v (ks_byID s),
                      ks_bySecond := AList.update (secondary v) i (ks_bySecond s),
                      ks_order := ks_order s @ [i]\<rparr>))"

definition ks_get :: "ID \<Rightarrow> string \<Rightarrow> ('v keyedStore, 'v) io" where
  "ks_get i notFound s = (case map_of (ks_byID s) i of None \<Rightarrow> (Inl (NotFound notFound), s)
     | Some v \<Rightarrow> (Inr v, s))"

text \<open>\<open>zero\<close> is the zero value of the element type, which a missing key reads as.\<close>

definition ks_getBySecondary :: "'v \<Rightarrow> ID \<Rightarrow> string \<Rightarrow> ('v keyedStore, 'v) io" where
  "ks_getBySecondary zero k notFound s =
     (case map_of (ks_bySecond s) k of None \<Rightarrow> (Inl (NotFound notFound), s)
      | Some i \<Rightarrow> (case map_of (ks_byID s) i of None \<Rightarrow> (Inr zero, s) | Some v \<Rightarrow> (Inr v, s)))"

definition ks_update :: "('v \<Rightarrow> ID) \<Rightarrow> 'v \<Rightarrow> string \<Rightarrow> ('v keyedStore, unit) io" where
  "ks_update primary v notFound s =
     (if map_of (ks_byID s) (primary v) = None then (Inl (NotFound notFound), s)
      else (Inr (), s\<lparr>ks_byID := AList.update (primary v) v (ks_byID s)\<rparr>))"

definition ks_deleteByPrimary :: "('v \<Rightarrow> ID) \<Rightarrow> ID \<Rightarrow> 'v keyedStore \<Rightarrow> 'v keyedStore" where
  "ks_deleteByPrimary secondary i s =
     (case map_of (ks_byID s) i of None \<Rightarrow> s
      | Some v \<Rightarrow> s\<lparr>ks_bySecond := AList.delete (secondary v) (ks_bySecond s),
                   ks_byID := AList.delete i (ks_byID s), ks_order := remove1 i (ks_order s)\<rparr>)"

definition ks_deleteBySecondary :: "('v \<Rightarrow> ID) \<Rightarrow> ID \<Rightarrow> 'v keyedStore \<Rightarrow> 'v keyedStore" where
  "ks_deleteBySecondary secondary k s =
     (case map_of (ks_bySecond s) k of None \<Rightarrow> s | Some i \<Rightarrow> ks_deleteByPrimary secondary i s)"

definition ks_list :: "'v \<Rightarrow> Page \<Rightarrow> ('v keyedStore, 'v list \<times> int) io" where
  "ks_list zero page s =
     (case page_result (ks_order s) page of Inl e \<Rightarrow> (Inl e, s)
      | Inr (ids, tot) \<Rightarrow>
          (Inr (map (\<lambda>i. case map_of (ks_byID s) i of None \<Rightarrow> zero | Some v \<Rightarrow> v) ids, tot), s))"

text \<open>The three parts of a store agree.\<close>

definition ks_agree :: "('v \<Rightarrow> ID) \<Rightarrow> ('v \<Rightarrow> ID) \<Rightarrow> (ID \<rightharpoonup> 'v) \<Rightarrow> (ID \<rightharpoonup> ID) \<Rightarrow> ID list \<Rightarrow> bool" where
  "ks_agree primary secondary m k order \<longleftrightarrow> distinct order \<and> set order = dom m \<and>
     (\<forall>i v. m i = Some v \<longrightarrow> primary v = i) \<and>
     (\<forall>x i. k x = Some i \<longrightarrow> (\<exists>v. m i = Some v \<and> secondary v = x)) \<and>
     (\<forall>i v. m i = Some v \<longrightarrow> k (secondary v) = Some i)"

definition ks_inv :: "('v \<Rightarrow> ID) \<Rightarrow> ('v \<Rightarrow> ID) \<Rightarrow> 'v keyedStore \<Rightarrow> bool" where
  "ks_inv primary secondary s \<longleftrightarrow>
     ks_agree primary secondary (map_of (ks_byID s)) (map_of (ks_bySecond s)) (ks_order s)"

definition ks_fresh :: "('v \<Rightarrow> ID) \<Rightarrow> 'v keyedStore \<Rightarrow> 'v \<Rightarrow> bool" where
  "ks_fresh secondary s v \<longleftrightarrow> map_of (ks_bySecond s) (secondary v) = None"

definition ks_keeps :: "('v \<Rightarrow> ID) \<Rightarrow> ('v \<Rightarrow> ID) \<Rightarrow> 'v keyedStore \<Rightarrow> 'v \<Rightarrow> bool" where
  "ks_keeps primary secondary s v \<longleftrightarrow>
     (\<forall>old. map_of (ks_byID s) (primary v) = Some old \<longrightarrow> secondary v = secondary old)"

lemma ks_agreeD:
  assumes "ks_agree p sec m k ord"
  shows "distinct ord" and "set ord = dom m" and "\<And>i v. m i = Some v \<Longrightarrow> p v = i"
    and "\<And>x i. k x = Some i \<Longrightarrow> \<exists>v. m i = Some v \<and> sec v = x"
    and "\<And>i v. m i = Some v \<Longrightarrow> k (sec v) = Some i"
  using assms unfolding ks_agree_def by blast+

lemma ks_agreeI:
  assumes "distinct ord" and "set ord = dom m" and "\<And>i v. m i = Some v \<Longrightarrow> p v = i"
    and "\<And>x i. k x = Some i \<Longrightarrow> \<exists>v. m i = Some v \<and> sec v = x"
    and "\<And>i v. m i = Some v \<Longrightarrow> k (sec v) = Some i"
  shows "ks_agree p sec m k ord"
  using assms unfolding ks_agree_def by blast

lemma ks_agree_create:
  assumes "ks_agree p sec m k ord" and "m (p v) = None" and "k (sec v) = None"
  shows "ks_agree p sec (m(p v \<mapsto> v)) (k(sec v \<mapsto> p v)) (ord @ [p v])"
proof (rule ks_agreeI)
  note a = ks_agreeD [OF assms(1)]
  have new: "sec w \<noteq> sec v" if "m i = Some w" for i w using a(5) [OF that] assms(3) by auto
  have pv: "p v \<notin> set ord" using a(2) assms(2) by auto
  show "distinct (ord @ [p v])" using a(1) pv by simp
  show "set (ord @ [p v]) = dom (m(p v \<mapsto> v))" using a(2) by auto
  show "(m(p v \<mapsto> v)) i = Some w \<Longrightarrow> p w = i" for i w using a(3) by (cases "i = p v") auto
  show "(k(sec v \<mapsto> p v)) x = Some i \<Longrightarrow> \<exists>w. (m(p v \<mapsto> v)) i = Some w \<and> sec w = x" for x i
  proof (cases "x = sec v")
    case False
    assume "(k(sec v \<mapsto> p v)) x = Some i"
    then obtain w where w: "m i = Some w" "sec w = x" using False a(4) by auto
    then have "i \<noteq> p v" using assms(2) by auto
    with w show ?thesis by auto
  qed auto
  show "(m(p v \<mapsto> v)) i = Some w \<Longrightarrow> (k(sec v \<mapsto> p v)) (sec w) = Some i" for i w
    using a(5) new by (cases "i = p v") auto
qed

lemma ks_agree_update:
  assumes "ks_agree p sec m k ord" and "m (p v) = Some old" and "sec v = sec old"
  shows "ks_agree p sec (m(p v \<mapsto> v)) k ord"
proof (rule ks_agreeI)
  note a = ks_agreeD [OF assms(1)]
  show "distinct ord" by (rule a(1))
  show "set ord = dom (m(p v \<mapsto> v))" using a(2) assms(2) by auto
  show "(m(p v \<mapsto> v)) i = Some w \<Longrightarrow> p w = i" for i w using a(3) by (cases "i = p v") auto
  show "k x = Some i \<Longrightarrow> \<exists>w. (m(p v \<mapsto> v)) i = Some w \<and> sec w = x" for x i
    using a(4) [of x i] assms(2,3) by (cases "i = p v") auto
  show "(m(p v \<mapsto> v)) i = Some w \<Longrightarrow> k (sec w) = Some i" for i w
    using a(5) [of i w] a(5) [OF assms(2)] assms(3) by (cases "i = p v") auto
qed

lemma ks_agree_delete:
  assumes "ks_agree p sec m k ord" and "m i = Some v"
  shows "ks_agree p sec (m(i := None)) (k(sec v := None)) (remove1 i ord)"
proof (rule ks_agreeI)
  note a = ks_agreeD [OF assms(1)]
  have uniq: "j = i" if "m j = Some w" "sec w = sec v" for j w
    using a(5) [OF that(1)] a(5) [OF assms(2)] that(2) by simp
  show "distinct (remove1 i ord)" using a(1) by simp
  show "set (remove1 i ord) = dom (m(i := None))" using a(1,2) by auto
  show "(m(i := None)) j = Some w \<Longrightarrow> p w = j" for j w using a(3) by (cases "j = i") auto
  show "(k(sec v := None)) x = Some j \<Longrightarrow> \<exists>w. (m(i := None)) j = Some w \<and> sec w = x" for x j
    using a(4) [of x j] assms(2) by (cases "x = sec v") auto
  show "(m(i := None)) j = Some w \<Longrightarrow> (k(sec v := None)) (sec w) = Some j" for j w
    using a(5) [of j w] uniq by (cases "j = i") auto
qed

lemma ks_inv_new: "ks_inv p sec newKeyedStore"
  by (simp add: ks_inv_def ks_agree_def newKeyedStore_def)

lemma ks_create_ok:
  assumes "ks_inv p sec s" and "map_of (ks_byID s) (p v) = None" and "ks_fresh sec s v"
  shows "\<exists>s'. ks_create p sec v msg s = (Inr (), s') \<and> ks_inv p sec s' \<and>
    map_of (ks_byID s') = (map_of (ks_byID s))(p v \<mapsto> v)"
proof -
  let ?s' = "s\<lparr>ks_byID := AList.update (p v) v (ks_byID s),
    ks_bySecond := AList.update (sec v) (p v) (ks_bySecond s), ks_order := ks_order s @ [p v]\<rparr>"
  have "map_of (ks_byID ?s') = (map_of (ks_byID s))(p v \<mapsto> v)"
    and "map_of (ks_bySecond ?s') = (map_of (ks_bySecond s))(sec v \<mapsto> p v)" by (simp_all add: update_conv')
  moreover from this have "ks_inv p sec ?s'"
    using ks_agree_create [OF assms(1) [unfolded ks_inv_def] assms(2) assms(3) [unfolded ks_fresh_def]]
    unfolding ks_inv_def by simp
  moreover have "ks_create p sec v msg s = (Inr (), ?s')"
    using assms(3) by (simp add: ks_create_def ks_fresh_def Let_def)
  ultimately show ?thesis by blast
qed

lemma ks_update_ok:
  assumes "ks_inv p sec s" and "map_of (ks_byID s) (p v) \<noteq> None" and "ks_keeps p sec s v"
  shows "\<exists>s'. ks_update p v msg s = (Inr (), s') \<and> ks_inv p sec s' \<and>
    map_of (ks_byID s') = (map_of (ks_byID s))(p v \<mapsto> v)"
proof -
  let ?s' = "s\<lparr>ks_byID := AList.update (p v) v (ks_byID s)\<rparr>"
  obtain old where old: "map_of (ks_byID s) (p v) = Some old" using assms(2) by blast
  have m: "map_of (ks_byID ?s') = (map_of (ks_byID s))(p v \<mapsto> v)" by (simp add: update_conv')
  have "sec v = sec old" using assms(3) old by (simp add: ks_keeps_def)
  then have "ks_inv p sec ?s'"
    using ks_agree_update [OF assms(1) [unfolded ks_inv_def] old] m unfolding ks_inv_def by simp
  moreover have "ks_update p v msg s = (Inr (), ?s')" using old by (simp add: ks_update_def)
  ultimately show ?thesis using m by blast
qed

lemma ks_inv_delete:
  assumes "ks_inv p sec s"
  shows "ks_inv p sec (ks_deleteByPrimary sec i s)"
    and "map_of (ks_byID (ks_deleteByPrimary sec i s)) = (map_of (ks_byID s))(i := None)"
proof -
  have "ks_inv p sec (ks_deleteByPrimary sec i s) \<and>
      map_of (ks_byID (ks_deleteByPrimary sec i s)) = (map_of (ks_byID s))(i := None)"
  proof (cases "map_of (ks_byID s) i")
    case None
    then show ?thesis using assms by (simp add: ks_deleteByPrimary_def fun_upd_idem)
  next
    case (Some v)
    then show ?thesis
      using ks_agree_delete [OF assms [unfolded ks_inv_def] Some]
      by (simp add: ks_deleteByPrimary_def ks_inv_def delete_conv')
  qed
  then show "ks_inv p sec (ks_deleteByPrimary sec i s)"
    and "map_of (ks_byID (ks_deleteByPrimary sec i s)) = (map_of (ks_byID s))(i := None)" by blast+
qed

lemma ks_getBySecondary_iff:
  assumes "ks_inv p sec s"
  shows "ks_getBySecondary z k msg s = (Inr v, s') \<longleftrightarrow>
     s' = s \<and> (\<exists>i. map_of (ks_byID s) i = Some v \<and> sec v = k)"
proof -
  note 1 = ks_agreeD(4) [OF assms [unfolded ks_inv_def]] and 2 = ks_agreeD(5) [OF assms [unfolded ks_inv_def]]
  show ?thesis
  proof (cases "map_of (ks_bySecond s) k")
    case None
    then show ?thesis using 2 by (auto simp: ks_getBySecondary_def)
  next
    case (Some i)
    with 1 obtain w where w: "map_of (ks_byID s) i = Some w" "sec w = k" by blast
    have "map_of (ks_byID s) j = Some v \<Longrightarrow> sec v = k \<Longrightarrow> j = i" for j v
      using 2 [of j v] Some by simp
    then have "(\<exists>j. map_of (ks_byID s) j = Some v \<and> sec v = k) \<longleftrightarrow> v = w"
      using w by (metis option.inject)
    then show ?thesis using Some w(1) by (simp add: ks_getBySecondary_def) blast
  qed
qed

text \<open>A keyed store keeps the contract of a repository.\<close>

lemma ks_repository:
  "repository (ks_inv p sec) (\<lambda>s. map_of (ks_byID s)) p (ks_fresh sec) (ks_keeps p sec)
     (\<lambda>v. ks_create p sec v dup) (\<lambda>i. ks_get i absent) (\<lambda>v. ks_update p v absent)"
proof unfold_locales
  show "ks_inv p sec s \<Longrightarrow> map_of (ks_byID s) i = Some v \<Longrightarrow> ks_get i absent s = (Inr v, s)" for s i v
    by (simp add: ks_get_def)
  show "ks_inv p sec s \<Longrightarrow> map_of (ks_byID s) i = None \<Longrightarrow> not_found (ks_get i absent) s" for s i
    by (simp add: ks_get_def not_found_def)
  show "ks_inv p sec s \<Longrightarrow> map_of (ks_byID s) (p v) = None \<Longrightarrow> ks_fresh sec s v \<Longrightarrow>
      \<exists>s'. ks_create p sec v dup s = (Inr (), s') \<and> ks_inv p sec s' \<and>
        map_of (ks_byID s') = (map_of (ks_byID s))(p v \<mapsto> v)" for s v
    by (rule ks_create_ok)
  show "ks_inv p sec s \<Longrightarrow> map_of (ks_byID s) (p v) \<noteq> None \<Longrightarrow> ks_keeps p sec s v \<Longrightarrow>
      \<exists>s'. ks_update p v absent s = (Inr (), s') \<and> ks_inv p sec s' \<and>
        map_of (ks_byID s') = (map_of (ks_byID s))(p v \<mapsto> v)" for s v
    by (rule ks_update_ok)
  show "ks_inv p sec s \<Longrightarrow> map_of (ks_byID s) (p v) = None \<Longrightarrow> not_found (ks_update p v absent) s" for s v
    by (simp add: ks_update_def not_found_def)
qed

subsection \<open>Roles\<close>

type_synonym RoleRepo = "(ID \<times> Role) list"

definition RoleRepo_Create :: "Role \<Rightarrow> (RoleRepo, unit) io" where
  "RoleRepo_Create rl items =
     (if map_of items (Role_ID rl) \<noteq> None then (Inl (Conflict ''memory: role already exists''), items)
      else (Inr (), AList.update (Role_ID rl) rl items))"

definition RoleRepo_ByID :: "ID \<Rightarrow> (RoleRepo, Role) io" where
  "RoleRepo_ByID i items = (case map_of items i of None \<Rightarrow> (Inl (NotFound ''memory: role not found''), items)
     | Some rl \<Rightarrow> (Inr rl, items))"

definition RoleRepo_Update :: "Role \<Rightarrow> (RoleRepo, unit) io" where
  "RoleRepo_Update rl items =
     (if map_of items (Role_ID rl) = None then (Inl (NotFound ''memory: role not found''), items)
      else (Inr (), AList.update (Role_ID rl) rl items))"

definition RoleRepo_Delete :: "ID \<Rightarrow> (RoleRepo, unit) io" where
  "RoleRepo_Delete i items =
     (if map_of items i = None then (Inl (NotFound ''memory: role not found''), items)
      else (Inr (), AList.delete i items))"

definition newer_role :: "Role \<Rightarrow> Role \<Rightarrow> bool" where
  "newer_role a b \<longleftrightarrow> Role_CreatedAt b < Role_CreatedAt a"

text \<open>\<open>iter\<close> is the order in which the map is iterated, \<open>srt\<close> is \<open>sort.Slice\<close>.\<close>

definition RoleRepo_ListOpen :: "(Role list \<Rightarrow> Role list) \<Rightarrow>
    ((Role \<Rightarrow> Role \<Rightarrow> bool) \<Rightarrow> Role list \<Rightarrow> Role list) \<Rightarrow> Page \<Rightarrow> (RoleRepo, Role list \<times> int) io" where
  "RoleRepo_ListOpen iter srt page items =
     (let all_roles = filter (\<lambda>rl. Role_Status rl \<noteq> RoleClosed) (iter (map snd items));
          all_roles = srt newer_role all_roles
      in (page_result all_roles page, items))"

definition RoleRepo_ListByEmployer :: "(Role list \<Rightarrow> Role list) \<Rightarrow>
    ((Role \<Rightarrow> Role \<Rightarrow> bool) \<Rightarrow> Role list \<Rightarrow> Role list) \<Rightarrow> ID \<Rightarrow> Page \<Rightarrow> (RoleRepo, Role list \<times> int) io" where
  "RoleRepo_ListByEmployer iter srt employerID page items =
     (let all_roles = filter (\<lambda>rl. Role_EmployerID rl = employerID) (iter (map snd items));
          all_roles = srt newer_role all_roles
      in (page_result all_roles page, items))"

definition keyed_by :: "('v \<Rightarrow> ID) \<Rightarrow> (ID \<times> 'v) list \<Rightarrow> bool" where
  "keyed_by key items \<longleftrightarrow> distinct (map fst items) \<and> (\<forall>(i, v) \<in> set items. key v = i)"

lemma keyed_by_map_of: "keyed_by key items \<Longrightarrow> map_of items i = Some v \<longleftrightarrow> (i, v) \<in> set items"
  by (simp add: keyed_by_def)

lemma keyed_by_update: "keyed_by key items \<Longrightarrow> keyed_by key (AList.update (key v) v items)"
proof -
  assume k: "keyed_by key items"
  have "distinct (map fst (AList.update (key v) v items))" using k by (simp add: keyed_by_def distinct_update)
  moreover have "key x = i" if "(i, x) \<in> set (AList.update (key v) v items)" for i x
  proof -
    have "map_of (AList.update (key v) v items) i = Some x"
      using that calculation by (simp add: map_of_eq_Some_iff)
    then show ?thesis using k by (auto simp: update_conv' keyed_by_map_of keyed_by_def split: if_splits dest: map_of_SomeD)
  qed
  ultimately show ?thesis by (auto simp: keyed_by_def)
qed

lemma keyed_by_delete: "keyed_by key items \<Longrightarrow> keyed_by key (AList.delete i items)"
  unfolding keyed_by_def by (auto simp: AList.delete_eq distinct_map inj_on_def)

interpretation roles: repository "keyed_by Role_ID" map_of Role_ID "\<lambda>w v. True" "\<lambda>w v. True"
  RoleRepo_Create RoleRepo_ByID RoleRepo_Update
  by unfold_locales
    (auto simp: RoleRepo_Create_def RoleRepo_ByID_def RoleRepo_Update_def not_found_def update_conv'
      keyed_by_update)

subsection \<open>Users\<close>

record UserRepo =
  ur_byID :: "(ID \<times> User) list"
  ur_byEmail :: "(Email \<times> ID) list"

definition NewUserRepo :: UserRepo where
  "NewUserRepo = \<lparr>ur_byID = [], ur_byEmail = []\<rparr>"

definition zero_user :: User where
  "zero_user = \<lparr>User_ID = [], User_Email = [], User_Role = RoleUnspecified, User_Name = [],
     User_PasswordHash = [], User_Status = StatusUnspecified, User_CreatedAt = 0\<rparr>"

definition UserRepo_Create :: "User \<Rightarrow> (UserRepo, unit) io" where
  "UserRepo_Create u r =
     (if map_of (ur_byEmail r) (User_Email u) \<noteq> None
      then (Inl (Conflict ''memory: user email already exists''), r)
      else (Inr (), r\<lparr>ur_byID := AList.update (User_ID u) u (ur_byID r),
                      ur_byEmail := AList.update (User_Email u) (User_ID u) (ur_byEmail r)\<rparr>))"

definition UserRepo_ByID :: "ID \<Rightarrow> (UserRepo, User) io" where
  "UserRepo_ByID i r = (case map_of (ur_byID r) i of None \<Rightarrow> (Inl (NotFound ''memory: user not found''), r)
     | Some u \<Rightarrow> (Inr u, r))"

definition UserRepo_ByEmail :: "Email \<Rightarrow> (UserRepo, User) io" where
  "UserRepo_ByEmail email r =
     (case map_of (ur_byEmail r) email of None \<Rightarrow> (Inl (NotFound ''memory: user not found''), r)
      | Some i \<Rightarrow> (case map_of (ur_byID r) i of None \<Rightarrow> (Inr zero_user, r) | Some u \<Rightarrow> (Inr u, r)))"

definition UserRepo_Update :: "User \<Rightarrow> (UserRepo, unit) io" where
  "UserRepo_Update u r =
     (case map_of (ur_byID r) (User_ID u) of None \<Rightarrow> (Inl (NotFound ''memory: user not found''), r)
      | Some existing \<Rightarrow>
          let r' = (if User_Email existing \<noteq> User_Email u
            then r\<lparr>ur_byEmail := AList.update (User_Email u) (User_ID u)
                     (AList.delete (User_Email existing) (ur_byEmail r))\<rparr>
            else r)
          in (Inr (), r'\<lparr>ur_byID := AList.update (User_ID u) u (ur_byID r')\<rparr>))"

definition erased_email :: "ID \<Rightarrow> Email" where
  "erased_email i = lit ''erased+'' @ i @ lit ''@erased.invalid''"

definition UserRepo_Anonymize :: "ID \<Rightarrow> (UserRepo, unit) io" where
  "UserRepo_Anonymize i r =
     (case map_of (ur_byID r) i of None \<Rightarrow> (Inr (), r)
      | Some u \<Rightarrow>
          let byEmail = AList.delete (User_Email u) (ur_byEmail r);
              u' = u\<lparr>User_Name := [], User_PasswordHash := [], User_Email := erased_email i\<rparr>
          in (Inr (), r\<lparr>ur_byID := AList.update i u' (ur_byID r),
                        ur_byEmail := AList.update (User_Email u') i byEmail\<rparr>))"

definition UserRepo_ListEligibleForRetention ::
    "((ID \<times> User) list \<Rightarrow> (ID \<times> User) list) \<Rightarrow> time \<Rightarrow> (UserRepo, ID list) io" where
  "UserRepo_ListEligibleForRetention iter createdOnOrBefore r =
     (Inr (map fst (filter (\<lambda>(i, u). User_Role u = RoleCandidate \<and> \<not> createdOnOrBefore < User_CreatedAt u)
       (iter (ur_byID r)))), r)"

text \<open>The e-mail index agrees with the accounts.\<close>

definition users_inv :: "UserRepo \<Rightarrow> bool" where
  "users_inv r \<longleftrightarrow>
     (\<forall>i u. map_of (ur_byID r) i = Some u \<longrightarrow> User_ID u = i \<and> map_of (ur_byEmail r) (User_Email u) = Some i) \<and>
     (\<forall>e i. map_of (ur_byEmail r) e = Some i \<longrightarrow> (\<exists>u. map_of (ur_byID r) i = Some u \<and> User_Email u = e))"

lemma users_invD:
  assumes "users_inv r"
  shows "map_of (ur_byID r) i = Some u \<Longrightarrow> User_ID u = i"
    and "map_of (ur_byID r) i = Some u \<Longrightarrow> map_of (ur_byEmail r) (User_Email u) = Some i"
    and "map_of (ur_byEmail r) e = Some i \<Longrightarrow> \<exists>u. map_of (ur_byID r) i = Some u \<and> User_Email u = e"
  using assms unfolding users_inv_def by blast+

lemma users_invI:
  assumes "\<And>i u. map_of (ur_byID r) i = Some u \<Longrightarrow> User_ID u = i \<and> map_of (ur_byEmail r) (User_Email u) = Some i"
    and "\<And>e i. map_of (ur_byEmail r) e = Some i \<Longrightarrow> \<exists>u. map_of (ur_byID r) i = Some u \<and> User_Email u = e"
  shows "users_inv r"
  using assms unfolding users_inv_def by blast

lemma users_inv_new: "users_inv NewUserRepo"
  by (simp add: users_inv_def NewUserRepo_def)

lemma users_email_owner:
  "users_inv r \<Longrightarrow> map_of (ur_byID r) i = Some u \<Longrightarrow> map_of (ur_byID r) j = Some v \<Longrightarrow>
     User_Email u = User_Email v \<Longrightarrow> i = j"
  using users_invD(2) [of r i u] users_invD(2) [of r j v] by simp

lemma UserRepo_Create_ok:
  assumes "users_inv r" and "map_of (ur_byID r) (User_ID u) = None"
    and "map_of (ur_byEmail r) (User_Email u) = None"
  shows "\<exists>r'. UserRepo_Create u r = (Inr (), r') \<and> users_inv r' \<and>
    map_of (ur_byID r') = (map_of (ur_byID r))(User_ID u \<mapsto> u)"
proof -
  let ?r = "r\<lparr>ur_byID := AList.update (User_ID u) u (ur_byID r),
    ur_byEmail := AList.update (User_Email u) (User_ID u) (ur_byEmail r)\<rparr>"
  have m: "map_of (ur_byID ?r) = (map_of (ur_byID r))(User_ID u \<mapsto> u)"
    "map_of (ur_byEmail ?r) = (map_of (ur_byEmail r))(User_Email u \<mapsto> User_ID u)"
    by (simp_all add: update_conv')
  have "users_inv ?r"
  proof (rule users_invI)
    fix i v assume "map_of (ur_byID ?r) i = Some v"
    then show "User_ID v = i \<and> map_of (ur_byEmail ?r) (User_Email v) = Some i"
      unfolding m using users_invD(1,2) [OF assms(1), of i v] assms(3) by (auto split: if_splits)
  next
    fix e i assume e: "map_of (ur_byEmail ?r) e = Some i"
    show "\<exists>v. map_of (ur_byID ?r) i = Some v \<and> User_Email v = e"
    proof (cases "e = User_Email u")
      case False
      then obtain v where "map_of (ur_byID r) i = Some v" "User_Email v = e"
        using e users_invD(3) [OF assms(1), of e i] unfolding m by auto
      then show ?thesis unfolding m using assms(2) by auto
    qed (use e in \<open>simp add: update_conv' delete_conv'\<close>)
  qed
  moreover have "UserRepo_Create u r = (Inr (), ?r)" using assms(3) by (simp add: UserRepo_Create_def)
  ultimately show ?thesis using m(1) by blast
qed

text \<open>\<open>Update\<close> keeps the index only when no other account holds the new address.\<close>

definition email_free :: "UserRepo \<Rightarrow> User \<Rightarrow> bool" where
  "email_free r u \<longleftrightarrow> map_of (ur_byEmail r) (User_Email u) \<in> {None, Some (User_ID u)}"

lemma users_inv_replace:
  assumes inv: "users_inv r" and old: "map_of (ur_byID r) (User_ID u) = Some old" and free: "email_free r u"
  shows "users_inv (r\<lparr>ur_byEmail := AList.update (User_Email u) (User_ID u)
      (AList.delete (User_Email old) (ur_byEmail r)), ur_byID := AList.update (User_ID u) u (ur_byID r)\<rparr>)"
    (is "users_inv ?r")
proof (rule users_invI)
  have m: "map_of (ur_byID ?r) = (map_of (ur_byID r))(User_ID u \<mapsto> u)"
    "map_of (ur_byEmail ?r) = ((map_of (ur_byEmail r))(User_Email old := None))(User_Email u \<mapsto> User_ID u)"
    by (simp_all add: update_conv' delete_conv')
  have idx: "map_of (ur_byEmail r) (User_Email old) = Some (User_ID u)" using users_invD(2) [OF inv old] .
  {
    fix i v assume v: "map_of (ur_byID ?r) i = Some v"
    show "User_ID v = i \<and> map_of (ur_byEmail ?r) (User_Email v) = Some i"
    proof (cases "i = User_ID u")
      case False
      then have v: "map_of (ur_byID r) i = Some v" using v unfolding m by simp
      note d = users_invD(1,2) [OF inv v]
      have "User_Email v \<noteq> User_Email old" using d(2) idx False by auto
      moreover have "User_Email v \<noteq> User_Email u"
      proof
        assume "User_Email v = User_Email u"
        then have "map_of (ur_byEmail r) (User_Email u) = Some i" using d(2) by simp
        with free False show False by (simp add: email_free_def)
      qed
      ultimately show ?thesis unfolding m using d by simp
    qed (use v in \<open>simp add: update_conv' delete_conv'\<close>)
  next
    fix e i assume e: "map_of (ur_byEmail ?r) e = Some i"
    show "\<exists>v. map_of (ur_byID ?r) i = Some v \<and> User_Email v = e"
    proof (cases "e = User_Email u")
      case False
      then have "e \<noteq> User_Email old" "map_of (ur_byEmail r) e = Some i"
        using e unfolding m by (auto split: if_splits)
      then obtain v where v: "map_of (ur_byID r) i = Some v" "User_Email v = e"
        using users_invD(3) [OF inv] by blast
      then have "i \<noteq> User_ID u" using old \<open>e \<noteq> User_Email old\<close> by auto
      with v show ?thesis unfolding m by simp
    qed (use e in \<open>simp add: update_conv' delete_conv'\<close>)
  }
qed

lemma UserRepo_Update_ok:
  assumes "users_inv r" and "map_of (ur_byID r) (User_ID u) = Some old" and "email_free r u"
  shows "\<exists>r'. UserRepo_Update u r = (Inr (), r') \<and> users_inv r' \<and>
    map_of (ur_byID r') = (map_of (ur_byID r))(User_ID u \<mapsto> u)"
proof (cases "User_Email old = User_Email u")
  case True
  let ?r = "r\<lparr>ur_byID := AList.update (User_ID u) u (ur_byID r)\<rparr>"
  have idx: "map_of (ur_byEmail r) (User_Email u) = Some (User_ID u)"
    using users_invD(2) [OF assms(1,2)] True by simp
  have m: "map_of (ur_byID ?r) = (map_of (ur_byID r))(User_ID u \<mapsto> u)" by (simp add: update_conv')
  have "users_inv ?r"
  proof (rule users_invI)
    fix i v assume "map_of (ur_byID ?r) i = Some v"
    then show "User_ID v = i \<and> map_of (ur_byEmail ?r) (User_Email v) = Some i"
      unfolding m using users_invD(1,2) [OF assms(1), of i v] idx by (auto split: if_splits)
  next
    fix e i assume "map_of (ur_byEmail ?r) e = Some i"
    then obtain v where v: "map_of (ur_byID r) i = Some v" "User_Email v = e"
      using users_invD(3) [OF assms(1), of e i] by auto
    show "\<exists>v. map_of (ur_byID ?r) i = Some v \<and> User_Email v = e"
      unfolding m using v assms(2) True by (cases "i = User_ID u") auto
  qed
  then show ?thesis using True assms(2) m by (simp add: UserRepo_Update_def Let_def)
next
  case False
  then show ?thesis using assms(2) users_inv_replace [OF assms]
    by (simp add: UserRepo_Update_def Let_def update_conv')
qed

interpretation users: repository users_inv "\<lambda>r. map_of (ur_byID r)" User_ID
  "\<lambda>r u. map_of (ur_byEmail r) (User_Email u) = None" email_free
  UserRepo_Create UserRepo_ByID UserRepo_Update
proof unfold_locales
  fix r and u :: User
  assume "users_inv r" "map_of (ur_byID r) (User_ID u) \<noteq> None" "email_free r u"
  then show "\<exists>r'. UserRepo_Update u r = (Inr (), r') \<and> users_inv r' \<and>
      map_of (ur_byID r') = (map_of (ur_byID r))(User_ID u \<mapsto> u)"
    using UserRepo_Update_ok by blast
qed (auto simp: UserRepo_ByID_def UserRepo_Update_def not_found_def UserRepo_Create_ok)

lemma ByEmail_iff:
  assumes "users_inv r"
  shows "UserRepo_ByEmail e r = (Inr u, r') \<longleftrightarrow> r' = r \<and> (\<exists>i. map_of (ur_byID r) i = Some u \<and> User_Email u = e)"
proof (cases "map_of (ur_byEmail r) e")
  case None
  then show ?thesis using users_invD(2) [OF assms] by (auto simp: UserRepo_ByEmail_def)
next
  case (Some i)
  then obtain v where v: "map_of (ur_byID r) i = Some v" "User_Email v = e"
    using users_invD(3) [OF assms] by blast
  have "j = i" if "map_of (ur_byID r) j = Some u" "User_Email u = e" for j
    using users_email_owner [OF assms that(1) v(1)] that(2) v(2) by simp
  then have "(\<exists>j. map_of (ur_byID r) j = Some u \<and> User_Email u = e) \<longleftrightarrow> u = v"
    using v by (metis option.inject)
  then show ?thesis using Some v(1) by (simp add: UserRepo_ByEmail_def) blast
qed

end
