(* ===== verification/Memory_Hiring.thy ===== *)
theory Memory_Hiring
  imports Memory
begin

section \<open>The hiring repositories in memory\<close>

text \<open>
  \<open>internal/adapters/outbound/memory\<close>: \<open>match.go\<close>, \<open>application.go\<close>, \<open>interview.go\<close>,
  \<open>contest.go\<close>, \<open>audit.go\<close>, \<open>candidate.go\<close>, \<open>talentprofile.go\<close> and \<open>recaller.go\<close>. The lemmas
  give the ranking of a role's matches, the stability of a match's creation time, what the
  right-to-erasure deletions leave, and the owner scope of the audit reads.
\<close>

subsection \<open>Matches\<close>

type_synonym MatchRepo = "(gostr \<times> Match) list"

definition matchKey :: "ID \<Rightarrow> ID \<Rightarrow> gostr" where
  "matchKey roleID candidateID = roleID @ lit '':'' @ candidateID"

text \<open>\<open>now\<close> is the reading of \<open>time.Now\<close>.\<close>

definition MatchRepo_Upsert :: "time \<Rightarrow> Match \<Rightarrow> (MatchRepo, unit) io" where
  "MatchRepo_Upsert now m byKey =
     (let k = matchKey (Match_RoleID m) (Match_CandidateID m);
          cp = (case map_of byKey k of
                  Some existing \<Rightarrow> if \<not> time_IsZero (Match_CreatedAt existing)
                    then m\<lparr>Match_CreatedAt := Match_CreatedAt existing\<rparr> else m
                | None \<Rightarrow> m);
          cp = (if time_IsZero (Match_CreatedAt cp) then cp\<lparr>Match_CreatedAt := now\<rparr> else cp)
      in (Inr (), AList.update k cp byKey))"

definition MatchRepo_ByID :: "(Match list \<Rightarrow> Match list) \<Rightarrow> ID \<Rightarrow> (MatchRepo, Match) io" where
  "MatchRepo_ByID iter i byKey =
     (case filter (\<lambda>m. Match_ID m = i) (iter (map snd byKey)) of
        m # ms \<Rightarrow> (Inr m, byKey) | [] \<Rightarrow> (Inl (NotFound ''memory: match not found''), byKey))"

definition better_match :: "Match \<Rightarrow> Match \<Rightarrow> bool" where
  "better_match a b \<longleftrightarrow>
     (if \<not> feq (OverallScore a) (OverallScore b) then flt (OverallScore b) (OverallScore a)
      else Match_CandidateID a < Match_CandidateID b)"

definition MatchRepo_filter :: "(Match list \<Rightarrow> Match list) \<Rightarrow> (Match \<Rightarrow> bool) \<Rightarrow> Page \<Rightarrow>
    (MatchRepo, Match list \<times> int) io" where
  "MatchRepo_filter iter keep page byKey =
     (let all_matches = filter keep (iter (map snd byKey));
          all_matches = stable_sort better_match all_matches
      in (page_result all_matches page, byKey))"

definition MatchRepo_ByRole :: "(Match list \<Rightarrow> Match list) \<Rightarrow> ID \<Rightarrow> Page \<Rightarrow> (MatchRepo, Match list \<times> int) io" where
  "MatchRepo_ByRole iter roleID page = MatchRepo_filter iter (\<lambda>m. Match_RoleID m = roleID) page"

definition MatchRepo_ForCandidate :: "(Match list \<Rightarrow> Match list) \<Rightarrow> ID \<Rightarrow> Page \<Rightarrow> (MatchRepo, Match list \<times> int) io" where
  "MatchRepo_ForCandidate iter candidateID page =
     MatchRepo_filter iter (\<lambda>m. Match_CandidateID m = candidateID) page"

definition MatchRepo_DeleteByCandidate :: "ID \<Rightarrow> (MatchRepo, unit) io" where
  "MatchRepo_DeleteByCandidate candidateID byKey =
     (Inr (), filter (\<lambda>(k, m). Match_CandidateID m \<noteq> candidateID) byKey)"

lemma flt_negtrans: "a \<noteq> NaN \<Longrightarrow> b \<noteq> NaN \<Longrightarrow> c \<noteq> NaN \<Longrightarrow> \<not> flt a b \<Longrightarrow> \<not> flt b c \<Longrightarrow> \<not> flt a c"
  by (cases a; cases b; cases c) auto

lemma feq_eq: "a \<noteq> NaN \<Longrightarrow> feq a b \<longleftrightarrow> a = b"
  by (cases a; cases b) auto

lemma flt_total: "a \<noteq> NaN \<Longrightarrow> b \<noteq> NaN \<Longrightarrow> a \<noteq> b \<Longrightarrow> flt a b \<or> flt b a"
  by (cases a; cases b) auto

lemma better_match_iff:
  assumes "OverallScore a \<noteq> NaN"
  shows "better_match a b \<longleftrightarrow> flt (OverallScore b) (OverallScore a) \<or>
     OverallScore a = OverallScore b \<and> Match_CandidateID a < Match_CandidateID b"
  using assms by (auto simp: better_match_def feq_eq)

definition scored :: "Match set" where
  "scored = {m. OverallScore m \<noteq> NaN}"

interpretation ranking: weak_order better_match scored
proof
  fix a b assume s: "a \<in> scored" "b \<in> scored" and ab: "better_match a b"
  then have nn: "OverallScore a \<noteq> NaN" "OverallScore b \<noteq> NaN" by (simp_all add: scored_def)
  show "\<not> better_match b a"
    using ab flt_asym flt_irrefl less_asym unfolding better_match_iff [OF nn(1)] better_match_iff [OF nn(2)]
    by metis
next
  fix a b c assume s: "a \<in> scored" "b \<in> scored" "c \<in> scored" and n: "\<not> better_match a b" "\<not> better_match b c"
  let ?s = OverallScore
  have nn: "?s a \<noteq> NaN" "?s b \<noteq> NaN" "?s c \<noteq> NaN" using s by (simp_all add: scored_def)
  have ab: "flt (?s a) (?s b) \<or> ?s a = ?s b \<and> Match_CandidateID b \<le> Match_CandidateID a"
    using n(1) flt_total [OF nn(1,2)] not_less unfolding better_match_iff [OF nn(1)] by metis
  have bc: "flt (?s b) (?s c) \<or> ?s b = ?s c \<and> Match_CandidateID c \<le> Match_CandidateID b"
    using n(2) flt_total [OF nn(2,3)] not_less unfolding better_match_iff [OF nn(2)] by metis
  from ab bc have "flt (?s a) (?s c) \<or> ?s a = ?s c \<and> Match_CandidateID c \<le> Match_CandidateID a"
    using flt_trans order_trans by metis
  then show "\<not> better_match a c"
    using flt_asym flt_irrefl leD unfolding better_match_iff [OF nn(1)] by metis
qed

text \<open>
  A role's listing is ranked. Whatever the order in which the map was iterated, the page of a
  role's matches holds only matches of that role, in rank order: a later entry never has a higher
  score, and equal scores are in order of candidate; the first page of the listing is the top
  of the ranking and its total counts every match of the role.
\<close>

theorem ByRole_ranked:
  assumes "mset (iter (map snd byKey)) = mset (map snd byKey)"
    and "\<forall>(k, m) \<in> set byKey. m \<in> scored" and "page_ok page" and "int (length byKey) < 2 ^ 62"
  shows "\<exists>ms rest before. MatchRepo_ByRole iter roleID page byKey = (Inr (ms, int (length (before @ ms @ rest))), byKey) \<and>
     length before = min (nat ((Number page - 1) * Size page)) (length (before @ ms @ rest)) \<and>
     in_order better_match (before @ ms @ rest) \<and>
     mset (before @ ms @ rest) = mset (filter (\<lambda>m. Match_RoleID m = roleID) (map snd byKey))"
proof -
  let ?f = "filter (\<lambda>m. Match_RoleID m = roleID) (iter (map snd byKey))"
  let ?all = "stable_sort better_match ?f"
  let ?o = "nat ((Number page - 1) * Size page)"
  have len: "length (iter (map snd byKey)) = length byKey" using assms(1) by (metis length_map mset_eq_length)
  have "length ?all \<le> length byKey" using length_filter_le [of _ "iter (map snd byKey)"] len by simp
  then have "int (length ?all) < 2 ^ 62" using assms(4) by linarith
  from page_result_ok [OF assms(3) this]
  have page: "page_result ?all page = Inr (take (nat (Size page)) (drop ?o ?all), int (length ?all))" .
  have "set (iter (map snd byKey)) = snd ` set byKey" using mset_eq_setD [OF assms(1)] by simp
  then have "set ?f \<subseteq> scored" using assms(2) by auto
  then have ord: "in_order better_match ?all" by (rule ranking.sort_in_order)
  have ms: "mset ?all = mset (filter (\<lambda>m. Match_RoleID m = roleID) (map snd byKey))"
    by (simp only: mset_stable_sort mset_filter assms(1))
  have split: "?all = take ?o ?all @ take (nat (Size page)) (drop ?o ?all) @ drop (nat (Size page)) (drop ?o ?all)"
    by (metis append_take_drop_id)
  show ?thesis
  proof (intro exI conjI)
    show "MatchRepo_ByRole iter roleID page byKey =
        (Inr (take (nat (Size page)) (drop ?o ?all), int (length (take ?o ?all @
          take (nat (Size page)) (drop ?o ?all) @ drop (nat (Size page)) (drop ?o ?all)))), byKey)"
      unfolding split [symmetric] by (simp add: MatchRepo_ByRole_def MatchRepo_filter_def Let_def page)
    show "length (take ?o ?all) = min ?o (length (take ?o ?all @
          take (nat (Size page)) (drop ?o ?all) @ drop (nat (Size page)) (drop ?o ?all)))"
      unfolding split [symmetric] by simp
    show "in_order better_match (take ?o ?all @ take (nat (Size page)) (drop ?o ?all) @
        drop (nat (Size page)) (drop ?o ?all))" unfolding split [symmetric] by (rule ord)
    show "mset (take ?o ?all @ take (nat (Size page)) (drop ?o ?all) @ drop (nat (Size page)) (drop ?o ?all)) =
        mset (filter (\<lambda>m. Match_RoleID m = roleID) (map snd byKey))"
      unfolding split [symmetric] by (rule ms)
  qed
qed

lemma Upsert_CreatedAt:
  assumes "MatchRepo_Upsert now m byKey = (Inr (), byKey')" and "map_of byKey (matchKey (Match_RoleID m) (Match_CandidateID m)) = Some old"
    and "Match_CreatedAt old \<noteq> 0"
  shows "\<exists>new. map_of byKey' (matchKey (Match_RoleID m) (Match_CandidateID m)) = Some new \<and>
    Match_CreatedAt new = Match_CreatedAt old \<and> OverallScore new = OverallScore m"
  using assms by (auto simp: MatchRepo_Upsert_def Let_def time_IsZero_def update_conv')

lemma ByRole_ranked_witness:
  "\<exists>ms rest before. MatchRepo_ByRole id [114] (NewPage 1 20)
     [([114, 58, 99], \<lparr>Match_ID = [109], Match_RoleID = [114], Match_CandidateID = [99], OverallScore = Fin 1,
        Match_Confidence = ConfidenceLow, Breakdown = [], Rationale = [], WatchOuts = [], ThinEvidence = False,
        Match_CreatedAt = 1\<rparr>)] = (Inr (ms, int (length (before @ ms @ rest))), 
     [([114, 58, 99], \<lparr>Match_ID = [109], Match_RoleID = [114], Match_CandidateID = [99], OverallScore = Fin 1,
        Match_Confidence = ConfidenceLow, Breakdown = [], Rationale = [], WatchOuts = [], ThinEvidence = False,
        Match_CreatedAt = 1\<rparr>)]) \<and> in_order better_match (before @ ms @ rest)"
  (is "\<exists>ms rest before. MatchRepo_ByRole id [114] (NewPage 1 20) ?b = _ \<and> _")
proof -
  have "page_ok (NewPage 1 20)" by (rule NewPage_ok) simp
  moreover have "\<forall>(k, m) \<in> set ?b. m \<in> scored" by (simp add: scored_def)
  moreover have "mset (id (map snd ?b)) = mset (map snd ?b)" "int (length ?b) < 2 ^ 62" by simp_all
  ultimately show ?thesis using ByRole_ranked [of id ?b "NewPage 1 20" "[114]"] by blast
qed

subsection \<open>Applications\<close>

text \<open>
  The deletion loop of the ordered stores: one pass over the insertion order that deletes from the
  map and keeps the other identifiers.
\<close>

locale order_delete =
  fixes owner :: "'v \<Rightarrow> ID" and zero :: 'v and loop :: "ID \<Rightarrow> ID list \<Rightarrow> (ID \<times> 'v) list \<Rightarrow> ID list \<times> (ID \<times> 'v) list"
  assumes loop_Nil: "loop c [] byID = ([], byID)"
    and loop_Cons: "loop c (i # ids) byID =
      (if owner (case map_of byID i of None \<Rightarrow> zero | Some v \<Rightarrow> v) = c then loop c ids (AList.delete i byID)
       else let (kept, byID') = loop c ids byID in (i # kept, byID'))"
begin

lemma loop_result:
  assumes "loop c order byID = (kept, byID')" and "distinct order" and "set order \<subseteq> dom (map_of byID)"
  shows "kept = filter (\<lambda>i. owner (the (map_of byID i)) \<noteq> c) order \<and>
    map_of byID' = (\<lambda>i. if i \<in> set order \<and> owner (the (map_of byID i)) = c then None else map_of byID i)"
  using assms
proof (induction order arbitrary: byID kept byID')
  case (Cons i order)
  then obtain a where a: "map_of byID i = Some a" by auto
  show ?case
  proof (cases "owner a = c")
    case True
    with Cons.prems a have loop: "loop c order (AList.delete i byID) = (kept, byID')" by (simp add: loop_Cons)
    have other: "map_of (AList.delete i byID) j = map_of byID j" if "j \<in> set order" for j
      using that Cons.prems(2) by (auto simp: delete_conv')
    have "set order \<subseteq> dom (map_of (AList.delete i byID))"
      using Cons.prems(2,3) by (auto simp: delete_conv')
    from Cons.IH [OF loop _ this] Cons.prems(2) have IH:
      "kept = filter (\<lambda>j. owner (the (map_of (AList.delete i byID) j)) \<noteq> c) order"
      "map_of byID' = (\<lambda>j. if j \<in> set order \<and> owner (the (map_of (AList.delete i byID) j)) = c
         then None else map_of (AList.delete i byID) j)" by simp_all
    have "kept = filter (\<lambda>j. owner (the (map_of byID j)) \<noteq> c) (i # order)"
      unfolding IH(1) using other a True by (auto intro: filter_cong)
    moreover have "map_of byID' j = (if j \<in> set (i # order) \<and> owner (the (map_of byID j)) = c
        then None else map_of byID j)" for j
      unfolding IH(2) using other [of j] a True by (auto simp: delete_conv')
    ultimately show ?thesis by blast
  next
    case False
    obtain kept0 where loop: "loop c order byID = (kept0, byID')" "kept = i # kept0"
      using Cons.prems(1) a False by (auto simp: loop_Cons split: prod.splits)
    from Cons.IH [OF loop(1)] Cons.prems(2,3) show ?thesis using loop(2) a False by auto
  qed
qed (simp add: loop_Nil)

lemma store_erased:
  assumes "loop c order byID = (kept, byID')" and "distinct order" and "set order = dom (map_of byID)"
  shows "map_of byID' = (\<lambda>i. case map_of byID i of None \<Rightarrow> None | Some v \<Rightarrow> if owner v = c then None else Some v)"
    and "distinct kept" and "set kept = dom (map_of byID')"
proof -
  from loop_result [OF assms(1,2)] assms(3)
  have k: "kept = filter (\<lambda>i. owner (the (map_of byID i)) \<noteq> c) order"
    and m: "map_of byID' = (\<lambda>i. if i \<in> set order \<and> owner (the (map_of byID i)) = c then None else map_of byID i)"
    by simp_all
  show "map_of byID' = (\<lambda>i. case map_of byID i of None \<Rightarrow> None | Some v \<Rightarrow> if owner v = c then None else Some v)"
    unfolding m assms(3) by (auto simp: fun_eq_iff dom_def split: option.splits)
  show "distinct kept" using k assms(2) by simp
  show "set kept = dom (map_of byID')" using k m assms(3) by (auto simp: dom_def)
qed

end

record ApplicationRepo =
  ar_byID :: "(ID \<times> Application) list"
  ar_order :: "ID list"

definition zero_application :: Application where
  "zero_application = \<lparr>App_ID = [], App_RoleID = [], App_CandidateID = [], App_ProfileID = [],
     App_Source = SourceUnknown, TailoredSummary = [], App_Status = StatusUnknown\<rparr>"

definition ApplicationRepo_at :: "ApplicationRepo \<Rightarrow> ID \<Rightarrow> Application" where
  "ApplicationRepo_at r i = (case map_of (ar_byID r) i of None \<Rightarrow> zero_application | Some a \<Rightarrow> a)"

definition ApplicationRepo_Create :: "Application \<Rightarrow> (ApplicationRepo, unit) io" where
  "ApplicationRepo_Create a r =
     (if map_of (ar_byID r) (App_ID a) \<noteq> None then (Inl (Conflict ''memory: application already exists''), r)
      else (Inr (), r\<lparr>ar_byID := AList.update (App_ID a) a (ar_byID r), ar_order := ar_order r @ [App_ID a]\<rparr>))"

definition ApplicationRepo_ByID :: "ID \<Rightarrow> (ApplicationRepo, Application) io" where
  "ApplicationRepo_ByID i r = (case map_of (ar_byID r) i of
     None \<Rightarrow> (Inl (NotFound ''memory: application not found''), r) | Some a \<Rightarrow> (Inr a, r))"

definition ApplicationRepo_Update :: "Application \<Rightarrow> (ApplicationRepo, unit) io" where
  "ApplicationRepo_Update a r =
     (if map_of (ar_byID r) (App_ID a) = None then (Inl (NotFound ''memory: application not found''), r)
      else (Inr (), r\<lparr>ar_byID := AList.update (App_ID a) a (ar_byID r)\<rparr>))"

definition ApplicationRepo_ByCandidate :: "ID \<Rightarrow> Page \<Rightarrow> (ApplicationRepo, Application list \<times> int) io" where
  "ApplicationRepo_ByCandidate candidateID page r =
     (let all_apps = filter (\<lambda>a. App_CandidateID a = candidateID) (map (ApplicationRepo_at r) (rev (ar_order r)))
      in (page_result all_apps page, r))"

text \<open>The loop of the deletion reads and deletes in one pass over the order.\<close>

fun application_delete_loop :: "ID \<Rightarrow> ID list \<Rightarrow> (ID \<times> Application) list \<Rightarrow> ID list \<times> (ID \<times> Application) list" where
  "application_delete_loop c [] byID = ([], byID)"
| "application_delete_loop c (i # is) byID =
     (if App_CandidateID (case map_of byID i of None \<Rightarrow> zero_application | Some a \<Rightarrow> a) = c
      then application_delete_loop c is (AList.delete i byID)
      else let (kept, byID') = application_delete_loop c is byID in (i # kept, byID'))"

definition ApplicationRepo_DeleteByCandidate :: "ID \<Rightarrow> (ApplicationRepo, unit) io" where
  "ApplicationRepo_DeleteByCandidate candidateID r =
     (let (kept, byID) = application_delete_loop candidateID (ar_order r) (ar_byID r)
      in (Inr (), \<lparr>ar_byID = byID, ar_order = kept\<rparr>))"

definition applications_inv :: "ApplicationRepo \<Rightarrow> bool" where
  "applications_inv r \<longleftrightarrow> distinct (ar_order r) \<and> set (ar_order r) = dom (map_of (ar_byID r)) \<and>
     (\<forall>i a. map_of (ar_byID r) i = Some a \<longrightarrow> App_ID a = i)"

interpretation applications: repository applications_inv "\<lambda>r. map_of (ar_byID r)" App_ID
  "\<lambda>r a. True" "\<lambda>r a. True" ApplicationRepo_Create ApplicationRepo_ByID ApplicationRepo_Update
proof
  fix r and a :: Application
  assume inv: "applications_inv r"
  show "map_of (ar_byID r) (App_ID a) = None \<Longrightarrow> True \<Longrightarrow>
      \<exists>r'. ApplicationRepo_Create a r = (Inr (), r') \<and> applications_inv r' \<and>
        map_of (ar_byID r') = (map_of (ar_byID r))(App_ID a \<mapsto> a)"
    using inv by (auto simp: ApplicationRepo_Create_def applications_inv_def update_conv' dom_def)
  show "map_of (ar_byID r) (App_ID a) \<noteq> None \<Longrightarrow> True \<Longrightarrow>
      \<exists>r'. ApplicationRepo_Update a r = (Inr (), r') \<and> applications_inv r' \<and>
        map_of (ar_byID r') = (map_of (ar_byID r))(App_ID a \<mapsto> a)"
    using inv by (auto simp: ApplicationRepo_Update_def applications_inv_def update_conv' dom_def)
qed (auto simp: ApplicationRepo_ByID_def ApplicationRepo_Update_def not_found_def)

interpretation application_delete: order_delete App_CandidateID zero_application application_delete_loop
  by unfold_locales simp_all

lemma ApplicationRepo_erased:
  assumes "applications_inv r" and "ApplicationRepo_DeleteByCandidate c r = (Inr (), r')"
  shows "applications_inv r'"
    and "map_of (ar_byID r') = (\<lambda>i. case map_of (ar_byID r) i of None \<Rightarrow> None
      | Some a \<Rightarrow> if App_CandidateID a = c then None else Some a)"
proof -
  obtain kept byID' where l: "application_delete_loop c (ar_order r) (ar_byID r) = (kept, byID')"
    and r': "r' = \<lparr>ar_byID = byID', ar_order = kept\<rparr>"
    using assms(2) by (auto simp: ApplicationRepo_DeleteByCandidate_def split: prod.splits)
  note inv = assms(1) [unfolded applications_inv_def]
  note erased = application_delete.store_erased [OF l inv [THEN conjunct1] inv [THEN conjunct2, THEN conjunct1]]
  show "map_of (ar_byID r') = (\<lambda>i. case map_of (ar_byID r) i of None \<Rightarrow> None
      | Some a \<Rightarrow> if App_CandidateID a = c then None else Some a)"
    using erased(1) r' by simp
  then show "applications_inv r'" using inv erased(2,3) r'
    by (auto simp: applications_inv_def split: option.splits if_splits)
qed

subsection \<open>Interviews\<close>

type_synonym InterviewRepo = "(ID \<times> Interview) list"

definition InterviewRepo_Create :: "Interview \<Rightarrow> (InterviewRepo, unit) io" where
  "InterviewRepo_Create i byID =
     (if map_of byID (Iv_ID i) \<noteq> None then (Inl (Conflict ''memory: interview already exists''), byID)
      else (Inr (), AList.update (Iv_ID i) i byID))"

definition InterviewRepo_ByID :: "ID \<Rightarrow> (InterviewRepo, Interview) io" where
  "InterviewRepo_ByID i byID = (case map_of byID i of
     None \<Rightarrow> (Inl (NotFound ''memory: interview not found''), byID) | Some iv \<Rightarrow> (Inr iv, byID))"

definition InterviewRepo_Update :: "Interview \<Rightarrow> (InterviewRepo, unit) io" where
  "InterviewRepo_Update i byID =
     (if map_of byID (Iv_ID i) = None then (Inl (NotFound ''memory: interview not found''), byID)
      else (Inr (), AList.update (Iv_ID i) i byID))"

definition InterviewRepo_ByCandidate ::
    "(Interview list \<Rightarrow> Interview list) \<Rightarrow> ID \<Rightarrow> Page \<Rightarrow> (InterviewRepo, Interview list \<times> int) io" where
  "InterviewRepo_ByCandidate iter candidateID page byID =
     (let all_ivs = filter (\<lambda>i. Iv_CandidateID i = candidateID) (iter (map snd byID));
          tot = int (length all_ivs); start = Offset page
      in if tot \<le> start then (Inr ([], tot), byID)
         else case go_slice all_ivs start (min (wrap64 (start + Limit page)) tot) of
             None \<Rightarrow> (Inl slice_panic, byID) | Some xs \<Rightarrow> (Inr (xs, tot), byID))"

definition InterviewRepo_DeleteByCandidate :: "ID \<Rightarrow> (InterviewRepo, unit) io" where
  "InterviewRepo_DeleteByCandidate candidateID byID =
     (Inr (), filter (\<lambda>(i, iv). Iv_CandidateID iv \<noteq> candidateID) byID)"

interpretation interviews: repository "keyed_by Iv_ID" map_of Iv_ID "\<lambda>w v. True" "\<lambda>w v. True"
  InterviewRepo_Create InterviewRepo_ByID InterviewRepo_Update
  by unfold_locales
    (auto simp: InterviewRepo_Create_def InterviewRepo_ByID_def InterviewRepo_Update_def not_found_def
      update_conv' keyed_by_update)

subsection \<open>Contests\<close>

record ContestRepo =
  cr_byID :: "(ID \<times> Contest) list"
  cr_order :: "ID list"

definition zero_contest :: Contest where
  "zero_contest = \<lparr>Con_ID = [], Con_CandidateID = [], Con_Subject = SubjectUnspecified, Con_SubjectID = [],
     Con_Reason = [], Con_Status = StatusOpen, Resolution = [], Con_CreatedAt = 0, ResolvedAt = 0\<rparr>"

definition ContestRepo_at :: "(ID \<times> Contest) list \<Rightarrow> ID \<Rightarrow> Contest" where
  "ContestRepo_at byID i = (case map_of byID i of None \<Rightarrow> zero_contest | Some c \<Rightarrow> c)"

definition ContestRepo_Create :: "Contest \<Rightarrow> (ContestRepo, unit) io" where
  "ContestRepo_Create c r =
     (Inr (), r\<lparr>cr_byID := AList.update (Con_ID c) c (cr_byID r), cr_order := cr_order r @ [Con_ID c]\<rparr>)"

definition ContestRepo_ByID :: "ID \<Rightarrow> (ContestRepo, Contest) io" where
  "ContestRepo_ByID i r = (case map_of (cr_byID r) i of
     None \<Rightarrow> (Inl (NotFound ''contest: not found''), r) | Some c \<Rightarrow> (Inr c, r))"

definition ContestRepo_Update :: "Contest \<Rightarrow> (ContestRepo, unit) io" where
  "ContestRepo_Update c r =
     (if map_of (cr_byID r) (Con_ID c) = None then (Inl (NotFound ''contest: not found''), r)
      else (Inr (), r\<lparr>cr_byID := AList.update (Con_ID c) c (cr_byID r)\<rparr>))"

definition ContestRepo_list :: "(Contest \<Rightarrow> bool) \<Rightarrow> Page \<Rightarrow> (ContestRepo, Contest list \<times> int) io" where
  "ContestRepo_list keep page r =
     (let all_contests = filter keep (map (ContestRepo_at (cr_byID r)) (rev (cr_order r)))
      in (page_result all_contests page, r))"

definition ContestRepo_ByCandidate :: "ID \<Rightarrow> Page \<Rightarrow> (ContestRepo, Contest list \<times> int) io" where
  "ContestRepo_ByCandidate candidateID page = ContestRepo_list (\<lambda>c. Con_CandidateID c = candidateID) page"

definition ContestRepo_BySubject :: "ID \<Rightarrow> Page \<Rightarrow> (ContestRepo, Contest list \<times> int) io" where
  "ContestRepo_BySubject subjectID page = ContestRepo_list (\<lambda>c. Con_SubjectID c = subjectID) page"

fun contest_delete_loop :: "ID \<Rightarrow> ID list \<Rightarrow> (ID \<times> Contest) list \<Rightarrow> ID list \<times> (ID \<times> Contest) list" where
  "contest_delete_loop c [] byID = ([], byID)"
| "contest_delete_loop c (i # is) byID =
     (if Con_CandidateID (ContestRepo_at byID i) = c then contest_delete_loop c is (AList.delete i byID)
      else let (kept, byID') = contest_delete_loop c is byID in (i # kept, byID'))"

definition ContestRepo_DeleteByCandidate :: "ID \<Rightarrow> (ContestRepo, unit) io" where
  "ContestRepo_DeleteByCandidate candidateID r =
     (let (kept, byID) = contest_delete_loop candidateID (cr_order r) (cr_byID r)
      in (Inr (), \<lparr>cr_byID = byID, cr_order = kept\<rparr>))"

definition contests_inv :: "ContestRepo \<Rightarrow> bool" where
  "contests_inv r \<longleftrightarrow> distinct (cr_order r) \<and> set (cr_order r) = dom (map_of (cr_byID r)) \<and>
     (\<forall>i c. map_of (cr_byID r) i = Some c \<longrightarrow> Con_ID c = i)"

interpretation contests: repository contests_inv "\<lambda>r. map_of (cr_byID r)" Con_ID
  "\<lambda>r c. True" "\<lambda>r c. True" ContestRepo_Create ContestRepo_ByID ContestRepo_Update
proof
  fix r and c :: Contest
  assume inv: "contests_inv r"
  show "map_of (cr_byID r) (Con_ID c) = None \<Longrightarrow> True \<Longrightarrow>
      \<exists>r'. ContestRepo_Create c r = (Inr (), r') \<and> contests_inv r' \<and>
        map_of (cr_byID r') = (map_of (cr_byID r))(Con_ID c \<mapsto> c)"
    using inv by (auto simp: ContestRepo_Create_def contests_inv_def update_conv' dom_def)
  show "map_of (cr_byID r) (Con_ID c) \<noteq> None \<Longrightarrow> True \<Longrightarrow>
      \<exists>r'. ContestRepo_Update c r = (Inr (), r') \<and> contests_inv r' \<and>
        map_of (cr_byID r') = (map_of (cr_byID r))(Con_ID c \<mapsto> c)"
    using inv by (auto simp: ContestRepo_Update_def contests_inv_def update_conv' dom_def)
qed (auto simp: ContestRepo_ByID_def ContestRepo_Update_def not_found_def)

interpretation contest_delete: order_delete Con_CandidateID zero_contest contest_delete_loop
  by unfold_locales (simp_all add: ContestRepo_at_def)

lemma ContestRepo_erased:
  assumes "contests_inv r" and "ContestRepo_DeleteByCandidate c r = (Inr (), r')"
  shows "contests_inv r'"
    and "map_of (cr_byID r') = (\<lambda>i. case map_of (cr_byID r) i of None \<Rightarrow> None
      | Some x \<Rightarrow> if Con_CandidateID x = c then None else Some x)"
proof -
  obtain kept byID' where l: "contest_delete_loop c (cr_order r) (cr_byID r) = (kept, byID')"
    and r': "r' = \<lparr>cr_byID = byID', cr_order = kept\<rparr>"
    using assms(2) by (auto simp: ContestRepo_DeleteByCandidate_def split: prod.splits)
  note inv = assms(1) [unfolded contests_inv_def]
  note erased = contest_delete.store_erased [OF l inv [THEN conjunct1] inv [THEN conjunct2, THEN conjunct1]]
  show "map_of (cr_byID r') = (\<lambda>i. case map_of (cr_byID r) i of None \<Rightarrow> None
      | Some x \<Rightarrow> if Con_CandidateID x = c then None else Some x)"
    using erased(1) r' by simp
  then show "contests_inv r'" using inv erased(2,3) r'
    by (auto simp: contests_inv_def split: option.splits if_splits)
qed

subsection \<open>The audit trail\<close>

type_synonym AuditRepo = "AuditEntry list"

definition AuditRepo_Append :: "AuditEntry \<Rightarrow> (AuditRepo, unit) io" where
  "AuditRepo_Append e entries = (Inr (), entries @ [e])"

definition audit_paginate :: "AuditEntry list \<Rightarrow> Page \<Rightarrow> (AuditEntry list \<times> int) res" where
  "audit_paginate matched page = page_result matched page"

definition AuditRepo_List :: "gostr \<Rightarrow> ID \<Rightarrow> Page \<Rightarrow> (AuditRepo, AuditEntry list \<times> int) io" where
  "AuditRepo_List entity entityID page entries =
     (audit_paginate (filter (\<lambda>e. Entity e = entity \<and> EntityID e = entityID) (rev entries)) page, entries)"

definition AuditRepo_ListForOwner :: "gostr \<Rightarrow> ID \<Rightarrow> ID \<Rightarrow> Page \<Rightarrow> (AuditRepo, AuditEntry list \<times> int) io" where
  "AuditRepo_ListForOwner entity entityID ownerID page entries =
     (audit_paginate (filter (\<lambda>e. Entity e = entity \<and> EntityID e = entityID \<and>
        (ID_IsZero ownerID \<or> OwnerID e = ownerID)) (rev entries)) page, entries)"

definition searchMatches :: "AuditEntry \<Rightarrow> ReportFilter \<Rightarrow> ID \<Rightarrow> bool" where
  "searchMatches e fil ownerID =
     (if \<not> time_IsZero (Timestamp e) \<and> (Timestamp e < Filter_Start fil \<or> Filter_End fil < Timestamp e) then False
      else if Filter_Actions fil \<noteq> [] \<and> Aud_Action e \<notin> set (Filter_Actions fil) then False
      else if Filter_Entities fil \<noteq> [] \<and> Entity e \<notin> set (Filter_Entities fil) then False
      else ID_IsZero ownerID \<or> OwnerID e = ownerID)"

definition AuditRepo_SearchForOwner :: "ReportFilter \<Rightarrow> ID \<Rightarrow> Page \<Rightarrow> (AuditRepo, AuditEntry list \<times> int) io" where
  "AuditRepo_SearchForOwner f ownerID page entries =
     (audit_paginate (filter (\<lambda>e. searchMatches e f ownerID) (rev entries)) page, entries)"

definition AuditRepo_Search :: "ReportFilter \<Rightarrow> Page \<Rightarrow> (AuditRepo, AuditEntry list \<times> int) io" where
  "AuditRepo_Search f page = AuditRepo_SearchForOwner f [] page"

definition AuditRepo_TombstoneActor :: "ID \<Rightarrow> (AuditRepo, unit) io" where
  "AuditRepo_TombstoneActor actorID entries =
     (Inr (), map (\<lambda>e. if ActorUserID e = actorID then e\<lparr>ActorUserID := lit ''erased''\<rparr> else e) entries)"

lemma audit_page_subset:
  "page_ok p \<Longrightarrow> int (length xs) < 2 ^ 62 \<Longrightarrow>
     \<exists>ys. audit_paginate xs p = Inr (ys, int (length xs)) \<and> set ys \<subseteq> set xs"
  unfolding audit_paginate_def by (subst page_result_ok) (auto dest: in_set_takeD in_set_dropD)

text \<open>
  C19: Tenant isolation of the audit reads. For a non-zero owner, every entry that the owner-scoped
  listing or search returns belongs to that owner and is one of the trail's entries, and even the
  totals count that owner's entries only, so no read reveals how many entries another employer has.
\<close>

theorem audit_reads_scoped:
  assumes "\<not> ID_IsZero owner" and "page_ok page" and "int (length entries) < 2 ^ 62"
  shows "(\<exists>ys. AuditRepo_ListForOwner entity eid owner page entries =
        (Inr (ys, int (length (filter (\<lambda>e. OwnerID e = owner \<and> Entity e = entity \<and> EntityID e = eid) entries))), entries) \<and>
      (\<forall>e \<in> set ys. e \<in> set entries \<and> OwnerID e = owner \<and> Entity e = entity \<and> EntityID e = eid)) \<and>
    (\<exists>ys. AuditRepo_SearchForOwner f owner page entries =
        (Inr (ys, int (length (filter (\<lambda>e. OwnerID e = owner \<and> searchMatches e f []) entries))), entries) \<and>
      (\<forall>e \<in> set ys. e \<in> set entries \<and> OwnerID e = owner))"
proof (intro conjI)
  have len: "int (length (filter P (rev entries))) < 2 ^ 62" for P
    using assms(3) length_filter_le [of P "rev entries"] by (simp add: order_le_less_trans)
  have revf: "length (filter P (rev entries)) = length (filter P entries)" for P :: "AuditEntry \<Rightarrow> bool"
    by (simp flip: rev_filter)
  let ?P = "\<lambda>e. Entity e = entity \<and> EntityID e = eid \<and> (ID_IsZero owner \<or> OwnerID e = owner)"
  have P: "?P e \<longleftrightarrow> OwnerID e = owner \<and> Entity e = entity \<and> EntityID e = eid" for e
    using assms(1) by blast
  from audit_page_subset [OF assms(2) len [of ?P]] obtain ys where
    "audit_paginate (filter ?P (rev entries)) page = Inr (ys, int (length (filter ?P (rev entries))))"
    "set ys \<subseteq> set (filter ?P (rev entries))" by blast
  then show "\<exists>ys. AuditRepo_ListForOwner entity eid owner page entries =
        (Inr (ys, int (length (filter (\<lambda>e. OwnerID e = owner \<and> Entity e = entity \<and> EntityID e = eid) entries))), entries) \<and>
      (\<forall>e \<in> set ys. e \<in> set entries \<and> OwnerID e = owner \<and> Entity e = entity \<and> EntityID e = eid)"
    unfolding AuditRepo_ListForOwner_def P revf by (intro exI [of _ ys]) auto
  let ?Q = "\<lambda>e. searchMatches e f owner"
  have Q: "?Q e \<longleftrightarrow> OwnerID e = owner \<and> searchMatches e f []" for e
    using assms(1) by (auto simp: searchMatches_def ID_IsZero_def TrimSpace_Nil_iff)
  from audit_page_subset [OF assms(2) len [of ?Q]] obtain zs where
    "audit_paginate (filter ?Q (rev entries)) page = Inr (zs, int (length (filter ?Q (rev entries))))"
    "set zs \<subseteq> set (filter ?Q (rev entries))" by blast
  then show "\<exists>ys. AuditRepo_SearchForOwner f owner page entries =
        (Inr (ys, int (length (filter (\<lambda>e. OwnerID e = owner \<and> searchMatches e f []) entries))), entries) \<and>
      (\<forall>e \<in> set ys. e \<in> set entries \<and> OwnerID e = owner)"
    unfolding AuditRepo_SearchForOwner_def Q revf by (intro exI [of _ zs]) auto
qed

definition sample_entry :: "ID \<Rightarrow> AuditEntry" where
  "sample_entry owner = \<lparr>Aud_ID = [1], ActorUserID = [2], Aud_Action = [3], Entity = lit ''match'',
     EntityID = [5], OwnerID = owner, BeforeJSON = [], AfterJSON = [], Timestamp = 7\<rparr>"

lemma audit_reads_scoped_witness:
  "\<exists>ys. AuditRepo_ListForOwner (lit ''match'') [5] [97] (NewPage 1 20) [sample_entry [97], sample_entry [98]] =
     (Inr (ys, int (length (filter (\<lambda>e. OwnerID e = [97] \<and> Entity e = lit ''match'' \<and> EntityID e = [5])
        [sample_entry [97], sample_entry [98]]))), [sample_entry [97], sample_entry [98]])"
proof -
  have z: "\<not> ID_IsZero [97]" by code_simp
  have p: "page_ok (NewPage 1 20)" by (rule NewPage_ok) simp
  have n: "int (length [sample_entry [97], sample_entry [98]]) < 2 ^ 62" by simp
  from audit_reads_scoped [OF z p n, of "lit ''match''" "[5]", THEN conjunct1] show ?thesis
    by (elim exE conjE) (rule exI)
qed

lemma TombstoneActor_trail:
  "\<exists>es'. AuditRepo_TombstoneActor a es = (Inr (), es') \<and> length es' = length es \<and>
     (\<forall>e \<in> set es'. a \<noteq> lit ''erased'' \<longrightarrow> ActorUserID e \<noteq> a) \<and>
     map (\<lambda>e. e\<lparr>ActorUserID := []\<rparr>) es' = map (\<lambda>e. e\<lparr>ActorUserID := []\<rparr>) es"
  by (auto simp: AuditRepo_TombstoneActor_def)

subsection \<open>Candidates and profiles\<close>

type_synonym CandidateRepo = "Candidate keyedStore"
type_synonym TalentProfileRepo = "TalentProfile keyedStore"

definition zero_intake :: CandidateIntake where
  "zero_intake = \<lparr>TargetTitles = [], Intake_Location = [], SalaryFloor = Fin 0, SalaryCurrency = [], DealBreakers = []\<rparr>"

definition zero_candidate :: Candidate where
  "zero_candidate = \<lparr>Cand_ID = [], Cand_UserID = [], Cand_Location = [], Cand_Intake = zero_intake\<rparr>"

definition zero_profile :: TalentProfile where
  "zero_profile = \<lparr>TP_ID = [], TP_CandidateID = [], TP_Summary = [], TP_Competencies = [], TP_Embedding = [],
     TP_PassportStatus = PassportUnset\<rparr>"

definition CandidateRepo_Create :: "Candidate \<Rightarrow> (CandidateRepo, unit) io" where
  "CandidateRepo_Create c = ks_create Cand_ID Cand_UserID c ''memory: candidate already exists for user''"

definition CandidateRepo_ByID :: "ID \<Rightarrow> (CandidateRepo, Candidate) io" where
  "CandidateRepo_ByID i = ks_get i ''memory: candidate not found''"

definition CandidateRepo_ByUserID :: "ID \<Rightarrow> (CandidateRepo, Candidate) io" where
  "CandidateRepo_ByUserID u = ks_getBySecondary zero_candidate u ''memory: candidate not found''"

definition CandidateRepo_Update :: "Candidate \<Rightarrow> (CandidateRepo, unit) io" where
  "CandidateRepo_Update c = ks_update Cand_ID c ''memory: candidate not found''"

definition CandidateRepo_List :: "Page \<Rightarrow> (CandidateRepo, Candidate list \<times> int) io" where
  "CandidateRepo_List page = ks_list zero_candidate page"

definition CandidateRepo_Delete :: "ID \<Rightarrow> (CandidateRepo, unit) io" where
  "CandidateRepo_Delete i s = (Inr (), ks_deleteByPrimary Cand_UserID i s)"

definition TalentProfileRepo_Create :: "TalentProfile \<Rightarrow> (TalentProfileRepo, unit) io" where
  "TalentProfileRepo_Create p = ks_create TP_ID TP_CandidateID p ''memory: profile already exists for candidate''"

definition TalentProfileRepo_ByID :: "ID \<Rightarrow> (TalentProfileRepo, TalentProfile) io" where
  "TalentProfileRepo_ByID i = ks_get i ''memory: talent profile not found''"

definition TalentProfileRepo_ByCandidateID :: "ID \<Rightarrow> (TalentProfileRepo, TalentProfile) io" where
  "TalentProfileRepo_ByCandidateID c = ks_getBySecondary zero_profile c ''memory: talent profile not found''"

definition TalentProfileRepo_Update :: "TalentProfile \<Rightarrow> (TalentProfileRepo, unit) io" where
  "TalentProfileRepo_Update p = ks_update TP_ID p ''memory: talent profile not found''"

definition TalentProfileRepo_List :: "Page \<Rightarrow> (TalentProfileRepo, TalentProfile list \<times> int) io" where
  "TalentProfileRepo_List page = ks_list zero_profile page"

definition TalentProfileRepo_DeleteByCandidate :: "ID \<Rightarrow> (TalentProfileRepo, unit) io" where
  "TalentProfileRepo_DeleteByCandidate c s = (Inr (), ks_deleteBySecondary TP_CandidateID c s)"

interpretation candidates: repository "ks_inv Cand_ID Cand_UserID" "\<lambda>s. map_of (ks_byID s)" Cand_ID
  "ks_fresh Cand_UserID" "ks_keeps Cand_ID Cand_UserID"
  CandidateRepo_Create CandidateRepo_ByID CandidateRepo_Update
  unfolding CandidateRepo_Create_def [abs_def] CandidateRepo_ByID_def [abs_def] CandidateRepo_Update_def [abs_def]
  by (rule ks_repository)

interpretation profiles: repository "ks_inv TP_ID TP_CandidateID" "\<lambda>s. map_of (ks_byID s)" TP_ID
  "ks_fresh TP_CandidateID" "ks_keeps TP_ID TP_CandidateID"
  TalentProfileRepo_Create TalentProfileRepo_ByID TalentProfileRepo_Update
  unfolding TalentProfileRepo_Create_def [abs_def] TalentProfileRepo_ByID_def [abs_def] TalentProfileRepo_Update_def [abs_def]
  by (rule ks_repository)

text \<open>The dev stack's recaller: the vector is ignored, the pool comes from \<open>List\<close>.\<close>

definition Recaller_Recall :: "(Page \<Rightarrow> ('w, Candidate list \<times> int) io) \<Rightarrow> rat list \<Rightarrow> int \<Rightarrow> ('w, ID list) io" where
  "Recaller_Recall list_candidates embedding limit =
     (let limit = (if limit \<le> 0 then 100 else limit)
      in io_bind (list_candidates (NewPage 1 limit)) (\<lambda>(cands, tot). io_ret (map Cand_ID cands)))"

end
