(* ===== verification/Auth.thy ===== *)
theory Auth
  imports Memory
begin

section \<open>Authentication\<close>

text \<open>
  \<open>internal/app/auth.go\<close>: the ports of authentication; \<open>internal/adapters/outbound/memory\<close>,
  \<open>refresh.go\<close> and \<open>throttle.go\<close>: the refresh-token store and the login throttle;
  \<open>internal/app/identity/service.go\<close>: registration, login, single sign-on, refresh and logout over
  any world \<open>'w\<close> the ports share. The lemmas show which accounts a session can be issued for, that
  a refresh grant is spent once, and what the throttle lets through.
\<close>

subsection \<open>The refresh-token store\<close>

record RefreshRecord =
  RR_ID :: gostr
  RR_UserID :: ID
  ExpiresAt :: time
  Revoked :: bool

type_synonym RefreshStore = "(gostr \<times> RefreshRecord) list"

definition RefreshStore_Save :: "RefreshRecord \<Rightarrow> (RefreshStore, unit) io" where
  "RefreshStore_Save rec records = (Inr (), AList.update (RR_ID rec) rec records)"

definition RefreshStore_Consume :: "gostr \<Rightarrow> time \<Rightarrow> (RefreshStore, RefreshRecord) io" where
  "RefreshStore_Consume jti now records =
     (case map_of records jti of
        None \<Rightarrow> (Inl (Unauthorized ''auth: refresh token is not valid''), records)
      | Some rec \<Rightarrow>
          if Revoked rec then (Inl (Unauthorized ''auth: refresh token is not valid''), records)
          else if \<not> now < ExpiresAt rec then (Inl (Unauthorized ''auth: refresh token has expired''), records)
          else let rec = rec\<lparr>Revoked := True\<rparr> in (Inr rec, AList.update jti rec records))"

definition RefreshStore_Revoke :: "gostr \<Rightarrow> (RefreshStore, unit) io" where
  "RefreshStore_Revoke jti records =
     (Inr (), case map_of records jti of None \<Rightarrow> records
        | Some rec \<Rightarrow> AList.update jti (rec\<lparr>Revoked := True\<rparr>) records)"

definition grant_live :: "RefreshStore \<Rightarrow> gostr \<Rightarrow> time \<Rightarrow> bool" where
  "grant_live records jti now \<longleftrightarrow>
     (\<exists>rec. map_of records jti = Some rec \<and> \<not> Revoked rec \<and> now < ExpiresAt rec)"

lemma Consume_iff:
  "(\<exists>rec r'. RefreshStore_Consume jti now r = (Inr rec, r')) \<longleftrightarrow> grant_live r jti now"
  by (auto simp: RefreshStore_Consume_def grant_live_def Let_def split: option.splits)

lemma Consume_error: "RefreshStore_Consume jti now r = (Inl e, r') \<Longrightarrow> r' = r \<and> KindOf e = KindUnauthorized"
  by (auto simp: RefreshStore_Consume_def Let_def split: option.splits if_splits)

text \<open>What can happen to the store.\<close>

inductive refresh_step :: "gostr \<Rightarrow> RefreshStore \<Rightarrow> RefreshStore \<Rightarrow> bool" for jti where
  step_save: "RR_ID rec \<noteq> jti \<Longrightarrow> RefreshStore_Save rec r = (res, r') \<Longrightarrow> refresh_step jti r r'"
| step_consume: "RefreshStore_Consume j now r = (res, r') \<Longrightarrow> refresh_step jti r r'"
| step_revoke: "RefreshStore_Revoke j r = (res, r') \<Longrightarrow> refresh_step jti r r'"

definition spent :: "gostr \<Rightarrow> RefreshStore \<Rightarrow> bool" where
  "spent jti r \<longleftrightarrow> (\<forall>rec. map_of r jti = Some rec \<longrightarrow> Revoked rec)"

lemma spent_step: "refresh_step jti r r' \<Longrightarrow> spent jti r \<Longrightarrow> spent jti r'"
  by (induction rule: refresh_step.induct)
    (auto simp: RefreshStore_Save_def RefreshStore_Consume_def RefreshStore_Revoke_def spent_def Let_def
      update_conv' split: option.splits if_splits)

lemma spent_steps: "(refresh_step jti)\<^sup>*\<^sup>* r r' \<Longrightarrow> spent jti r \<Longrightarrow> spent jti r'"
  by (induction rule: rtranclp_induct) (auto intro: spent_step)

lemma spent_Consume: "spent jti r \<Longrightarrow>
    RefreshStore_Consume jti now r = (Inl (Unauthorized ''auth: refresh token is not valid''), r)"
  by (auto simp: spent_def RefreshStore_Consume_def split: option.splits)

lemma Consume_spends: "RefreshStore_Consume jti now r = (Inr rec, r') \<Longrightarrow> spent jti r'"
  by (auto simp: RefreshStore_Consume_def spent_def Let_def update_conv' split: option.splits if_splits)

lemma Revoke_spends: "RefreshStore_Revoke jti r = (res, r') \<Longrightarrow> spent jti r'"
  by (auto simp: RefreshStore_Revoke_def spent_def update_conv' split: option.splits)

text \<open>
  A refresh token is single-use. Once a grant was consumed, no later sequence of saves of
  other grants, of consumptions (of any grant, at any time) and of revocations makes it live
  again: every further attempt to consume it is refused as unauthorized and changes nothing. The
  same holds from the moment a grant is revoked.
\<close>

lemma refresh_single_use:
  assumes "RefreshStore_Consume jti t0 r0 = (Inr rec, r1) \<or> RefreshStore_Revoke jti r0 = (Inr (), r1)"
    and "(refresh_step jti)\<^sup>*\<^sup>* r1 r2"
  shows "RefreshStore_Consume jti now r2 = (Inl (Unauthorized ''auth: refresh token is not valid''), r2)"
proof -
  have "spent jti r1" using assms(1) Consume_spends Revoke_spends by blast
  from spent_steps [OF assms(2) this] show ?thesis by (rule spent_Consume)
qed

lemma refresh_single_use_witness:
  "RefreshStore_Consume [1] 5 [([1], \<lparr>RR_ID = [1], RR_UserID = [2], ExpiresAt = 9, Revoked = True\<rparr>)] =
     (Inl (Unauthorized ''auth: refresh token is not valid''),
      [([1], \<lparr>RR_ID = [1], RR_UserID = [2], ExpiresAt = 9, Revoked = True\<rparr>)])"
proof (rule refresh_single_use [OF disjI1])
  show "RefreshStore_Consume [1] 3 [([1], \<lparr>RR_ID = [1], RR_UserID = [2], ExpiresAt = 9, Revoked = False\<rparr>)] =
      (Inr \<lparr>RR_ID = [1], RR_UserID = [2], ExpiresAt = 9, Revoked = True\<rparr>,
       [([1], \<lparr>RR_ID = [1], RR_UserID = [2], ExpiresAt = 9, Revoked = True\<rparr>)])"
    by (simp add: RefreshStore_Consume_def Let_def)
qed simp

subsection \<open>The login throttle\<close>

definition DefaultMaxFailures :: int where "DefaultMaxFailures = 5"
definition DefaultWindow :: duration where "DefaultWindow = 15 * minute"
definition DefaultLockout :: duration where "DefaultLockout = 15 * minute"

record attemptState =
  at_count :: int
  windowStart :: time
  lockedUntil :: time

record LoginThrottle =
  maxFail :: int
  lt_window :: duration
  lt_lockout :: duration
  byKey :: "(gostr \<times> attemptState) list"

definition NewLoginThrottle :: "int \<Rightarrow> duration \<Rightarrow> duration \<Rightarrow> LoginThrottle" where
  "NewLoginThrottle mf win lockout =
     \<lparr>maxFail = (if mf \<le> 0 then DefaultMaxFailures else mf),
      lt_window = (if win \<le> 0 then DefaultWindow else win),
      lt_lockout = (if lockout \<le> 0 then DefaultLockout else lockout), byKey = []\<rparr>"

definition LoginThrottle_Check :: "time \<Rightarrow> gostr \<Rightarrow> LoginThrottle \<Rightarrow> unit res" where
  "LoginThrottle_Check now k t =
     (case map_of (byKey t) k of
        Some st \<Rightarrow> if now < lockedUntil st
          then Inl (TooManyRequests ''auth: too many failed attempts; please try again later'') else Inr ()
      | None \<Rightarrow> Inr ())"

definition LoginThrottle_Fail :: "time \<Rightarrow> gostr \<Rightarrow> LoginThrottle \<Rightarrow> LoginThrottle" where
  "LoginThrottle_Fail now k t =
     (let fresh_state = \<lparr>at_count = 0, windowStart = now, lockedUntil = 0\<rparr>;
          st = (case map_of (byKey t) k of None \<Rightarrow> fresh_state
                | Some st \<Rightarrow> if lt_window t < time_Sub now (windowStart st) then fresh_state else st);
          st = st\<lparr>at_count := at_count st + 1\<rparr>;
          st = (if maxFail t \<le> at_count st then st\<lparr>lockedUntil := now + lt_lockout t\<rparr> else st)
      in t\<lparr>byKey := AList.update k st (byKey t)\<rparr>)"

definition LoginThrottle_Reset :: "gostr \<Rightarrow> LoginThrottle \<Rightarrow> LoginThrottle" where
  "LoginThrottle_Reset k t = t\<lparr>byKey := AList.delete k (byKey t)\<rparr>"

lemma throttle_other_key:
  "k \<noteq> k' \<Longrightarrow> LoginThrottle_Check now k (LoginThrottle_Fail now' k' t) = LoginThrottle_Check now k t"
  "k \<noteq> k' \<Longrightarrow> LoginThrottle_Check now k (LoginThrottle_Reset k' t) = LoginThrottle_Check now k t"
  by (simp_all add: LoginThrottle_Check_def LoginThrottle_Fail_def LoginThrottle_Reset_def Let_def
      update_conv' delete_conv')

text \<open>Failing attempts at the given times; the count of those the throttle lets through.\<close>

fun failing_attempts :: "gostr \<Rightarrow> time list \<Rightarrow> LoginThrottle \<Rightarrow> nat \<times> LoginThrottle" where
  "failing_attempts k [] t = (0, t)"
| "failing_attempts k (now # nows) t =
     (case LoginThrottle_Check now k t of
        Inl e \<Rightarrow> failing_attempts k nows t
      | Inr u \<Rightarrow> let (n, t') = failing_attempts k nows (LoginThrottle_Fail now k t) in (Suc n, t'))"

lemma attempts_locked:
  assumes "map_of (byKey t) k = Some st" and "\<forall>now \<in> set nows. now < lockedUntil st"
  shows "failing_attempts k nows t = (0, t)"
  using assms(2) by (induction nows) (simp_all add: LoginThrottle_Check_def assms(1))

lemma attempts_counting:
  assumes "map_of (byKey t) k = Some \<lparr>at_count = int n, windowStart = t0, lockedUntil = 0\<rparr>"
    and "int n < maxFail t" and "\<forall>now \<in> set nows. 0 \<le> t0 \<and> t0 \<le> now \<and> now \<le> t0 + lt_window t \<and> now < t0 + lt_lockout t"
    and "lt_window t < 2 ^ 62"
  shows "fst (failing_attempts k nows t) = min (length nows) (nat (maxFail t) - n)"
  using assms
proof (induction nows arbitrary: n t)
  case (Cons now nows)
  have sub: "\<not> lt_window t < time_Sub now t0" using Cons.prems(3,4) by (auto simp: time_Sub_def)
  let ?t = "LoginThrottle_Fail now k t"
  have chk: "LoginThrottle_Check now k t = Inr ()" using Cons.prems(1,3) by (simp add: LoginThrottle_Check_def)
  have cfg: "maxFail ?t = maxFail t" "lt_window ?t = lt_window t" "lt_lockout ?t = lt_lockout t"
    by (simp_all add: LoginThrottle_Fail_def Let_def)
  show ?case
  proof (cases "int (Suc n) < maxFail t")
    case True
    have "map_of (byKey ?t) k = Some \<lparr>at_count = int (Suc n), windowStart = t0, lockedUntil = 0\<rparr>"
      using Cons.prems(1) sub True by (simp add: LoginThrottle_Fail_def Let_def update_conv')
    from Cons.IH [OF this] True Cons.prems(3,4) cfg have
      "fst (failing_attempts k nows ?t) = min (length nows) (nat (maxFail t) - Suc n)" by simp
    then show ?thesis using chk True by (simp add: split_beta)
  next
    case False
    then have m: "maxFail t = int (Suc n)" using Cons.prems(2) by simp
    have "map_of (byKey ?t) k = Some \<lparr>at_count = int (Suc n), windowStart = t0, lockedUntil = now + lt_lockout t\<rparr>"
      using Cons.prems(1) sub m by (simp add: LoginThrottle_Fail_def Let_def update_conv')
    from attempts_locked [OF this] Cons.prems(3) have "failing_attempts k nows ?t = (0, ?t)" by force
    then show ?thesis using chk m by simp
  qed
qed simp

text \<open>
  C20: Brute force is bounded. From a key without recorded failures, of any number of failing
  login attempts that fall within the window and the lockout of the first one, the throttle lets
  exactly the first \<open>maxFail\<close> through and refuses all others.
\<close>

theorem throttle_bounds_attempts:
  assumes "map_of (byKey t) k = None" and "0 < maxFail t" and "0 \<le> t0"
    and "\<forall>now \<in> set nows. t0 \<le> now \<and> now \<le> t0 + lt_window t \<and> now < t0 + lt_lockout t"
    and "0 < lt_lockout t" and "0 < lt_window t" and "lt_window t < 2 ^ 62"
  shows "fst (failing_attempts k (t0 # nows) t) = min (length (t0 # nows)) (nat (maxFail t))"
proof -
  let ?t = "LoginThrottle_Fail t0 k t"
  have chk: "LoginThrottle_Check t0 k t = Inr ()" using assms(1) by (simp add: LoginThrottle_Check_def)
  have cfg: "maxFail ?t = maxFail t" "lt_window ?t = lt_window t" "lt_lockout ?t = lt_lockout t"
    by (simp_all add: LoginThrottle_Fail_def Let_def)
  show ?thesis
  proof (cases "1 < maxFail t")
    case True
    then have "map_of (byKey ?t) k = Some \<lparr>at_count = int 1, windowStart = t0, lockedUntil = 0\<rparr>"
      using assms(1) by (simp add: LoginThrottle_Fail_def Let_def update_conv')
    from attempts_counting [OF this] True assms(3,4,7) cfg have
      "fst (failing_attempts k nows ?t) = min (length nows) (nat (maxFail t) - 1)" by simp
    then show ?thesis using chk True by (simp add: split_beta)
  next
    case False
    then have m: "maxFail t = 1" using assms(2) by simp
    then have "map_of (byKey ?t) k = Some \<lparr>at_count = 1, windowStart = t0, lockedUntil = t0 + lt_lockout t\<rparr>"
      using assms(1) by (simp add: LoginThrottle_Fail_def Let_def update_conv')
    from attempts_locked [OF this] assms(4) have "failing_attempts k nows ?t = (0, ?t)" by force
    then show ?thesis using chk m by simp
  qed
qed

lemma throttle_bounds_attempts_witness:
  "fst (failing_attempts [107] (1000 # [1001, 1002, 1003, 1004, 1005, 1006, 1007]) (NewLoginThrottle 0 0 0)) = 5"
proof -
  have "fst (failing_attempts [107] (1000 # [1001, 1002, 1003, 1004, 1005, 1006, 1007]) (NewLoginThrottle 0 0 0)) =
      min (length (1000 # [1001, 1002, 1003, 1004, 1005, 1006, 1007 :: time])) (nat (maxFail (NewLoginThrottle 0 0 0)))"
    by (rule throttle_bounds_attempts)
      (simp_all add: NewLoginThrottle_def DefaultMaxFailures_def DefaultWindow_def DefaultLockout_def time_units)
  then show ?thesis by (simp add: NewLoginThrottle_def DefaultMaxFailures_def)
qed

end
