(* ===== verification/Go_Effects.thy ===== *)
theory Go_Effects
  imports Go_Prelude
begin

section \<open>Reasoning about effectful calls\<close>

text \<open>
  Two ways to reason about the services. \<open>io_ok\<close> takes a successful call apart into the successful
  calls it is made of; \<open>io_keeps I m\<close> says that \<open>m\<close> keeps the predicate \<open>I\<close> of the world whether it
  succeeds or fails, with one introduction rule per combinator in the collection \<open>io_keep\<close>.
  \<open>io_of\<close> is a call that cannot fail (a clock reading, a fresh identifier), \<open>io_each\<close> a loop
  over a slice that stops at the first error.
\<close>

named_theorems io_ok \<open>the parts of a successful call\<close>
named_theorems io_keep \<open>introduction rules for invariants of calls\<close>

definition io_of :: "('w \<Rightarrow> 'a \<times> 'w) \<Rightarrow> ('w, 'a) io" where
  "io_of f = (\<lambda>w. case f w of (a, w') \<Rightarrow> (Inr a, w'))"

fun io_each :: "('a \<Rightarrow> ('w, unit) io) \<Rightarrow> 'a list \<Rightarrow> ('w, unit) io" where
  "io_each f [] = io_ret ()"
| "io_each f (x # xs) = io_bind (f x) (\<lambda>u. io_each f xs)"

fun io_map :: "('a \<Rightarrow> ('w, 'b) io) \<Rightarrow> 'a list \<Rightarrow> ('w, 'b list) io" where
  "io_map f [] = io_ret []"
| "io_map f (x # xs) = io_bind (f x) (\<lambda>y. io_bind (io_map f xs) (\<lambda>ys. io_ret (y # ys)))"

text \<open>\<open>if cond { return err }\<close>.\<close>

definition io_guard :: "bool \<Rightarrow> go_error \<Rightarrow> ('w, unit) io" where
  "io_guard failed e = (if failed then io_fail e else io_ret ())"

lemma io_of_apply [io_simps]: "io_of f w = (case f w of (a, w') \<Rightarrow> (Inr a, w'))"
  by (simp add: io_of_def)

lemma io_guard_apply [io_simps]: "io_guard b e w = (if b then (Inl e, w) else (Inr (), w))"
  by (simp add: io_guard_def io_simps)

subsection \<open>Successful calls\<close>

lemma io_ok_iffs [io_ok]:
  "io_ret a w = (Inr b, w') \<longleftrightarrow> b = a \<and> w' = w"
  "io_fail e w = (Inr b, w') \<longleftrightarrow> False"
  "io_lift r w = (Inr b, w') \<longleftrightarrow> r = Inr b \<and> w' = w"
  "io_do g w = (Inr u, w') \<longleftrightarrow> w' = g w"
  "io_guard bad e w = (Inr u, w') \<longleftrightarrow> \<not> bad \<and> w' = w"
  "io_of h w = (Inr b, w') \<longleftrightarrow> h w = (b, w')"
  by (auto simp: io_simps split: prod.splits)

lemmas io_bind_ok [io_ok] = io_bind_Inr_iff

lemma io_cases_ok [io_ok]:
  "(case x of Inl e \<Rightarrow> f e | Inr a \<Rightarrow> g a) w = (Inr b, w') \<longleftrightarrow>
     (\<exists>e. x = Inl e \<and> f e w = (Inr b, w')) \<or> (\<exists>a. x = Inr a \<and> g a w = (Inr b, w'))"
  "(case y of None \<Rightarrow> m | Some c \<Rightarrow> h c) w = (Inr b, w') \<longleftrightarrow>
     y = None \<and> m w = (Inr b, w') \<or> (\<exists>c. y = Some c \<and> h c w = (Inr b, w'))"
  "(case z of (i, j) \<Rightarrow> k i j) w = (Inr b, w') \<longleftrightarrow> k (fst z) (snd z) w = (Inr b, w')"
  "(if c then m else n) w = (Inr b, w') \<longleftrightarrow> c \<and> m w = (Inr b, w') \<or> \<not> c \<and> n w = (Inr b, w')"
  by (auto split: sum.splits option.splits prod.splits)

lemma io_try_ok [io_ok]: "io_try m w = (Inr r, w') \<longleftrightarrow> m w = (r, w')"
  by (auto simp: io_simps split: prod.splits)

lemma on_part_ok [io_ok]:
  "on_part get put m w = (r, w') \<longleftrightarrow> (\<exists>s. m (get w) = (r, s) \<and> w' = put s w)"
  by (auto simp: io_simps split: prod.splits)

subsection \<open>Failing calls\<close>

named_theorems io_err \<open>the ways a call can fail\<close>

lemma io_err_iffs [io_err]:
  "io_ret a w = (Inl e, w') \<longleftrightarrow> False"
  "io_fail d w = (Inl e, w') \<longleftrightarrow> e = d \<and> w' = w"
  "io_lift r w = (Inl e, w') \<longleftrightarrow> r = Inl e \<and> w' = w"
  "io_do g w = (Inl e, w') \<longleftrightarrow> False"
  "io_guard bad d w = (Inl e, w') \<longleftrightarrow> bad \<and> e = d \<and> w' = w"
  "io_of h w = (Inl e, w') \<longleftrightarrow> False"
  "io_try m w = (Inl e, w') \<longleftrightarrow> False"
  by (auto simp: io_simps split: prod.splits)

lemma io_cases_err [io_err]:
  "(case x of Inl e \<Rightarrow> f e | Inr a \<Rightarrow> g a) w = (Inl d, w') \<longleftrightarrow>
     (\<exists>e. x = Inl e \<and> f e w = (Inl d, w')) \<or> (\<exists>a. x = Inr a \<and> g a w = (Inl d, w'))"
  "(case y of None \<Rightarrow> m | Some c \<Rightarrow> h c) w = (Inl d, w') \<longleftrightarrow>
     y = None \<and> m w = (Inl d, w') \<or> (\<exists>c. y = Some c \<and> h c w = (Inl d, w'))"
  "(case z of (i, j) \<Rightarrow> k i j) w = (Inl d, w') \<longleftrightarrow> k (fst z) (snd z) w = (Inl d, w')"
  "(if c then m else n) w = (Inl d, w') \<longleftrightarrow> c \<and> m w = (Inl d, w') \<or> \<not> c \<and> n w = (Inl d, w')"
  by (auto split: sum.splits option.splits prod.splits)

lemmas io_bind_err [io_err] = io_bind_Inl_iff

subsection \<open>Invariants\<close>

definition io_keeps :: "('w \<Rightarrow> bool) \<Rightarrow> ('w, 'a) io \<Rightarrow> bool" where
  "io_keeps I m \<longleftrightarrow> (\<forall>w. I w \<longrightarrow> I (snd (m w)))"

lemma io_keepsI: "(\<And>w. I w \<Longrightarrow> I (snd (m w))) \<Longrightarrow> io_keeps I m"
  by (simp add: io_keeps_def)

lemma io_keepsD: "io_keeps I m \<Longrightarrow> m w = (r, w') \<Longrightarrow> I w \<Longrightarrow> I w'"
  by (force simp: io_keeps_def)

lemma io_keeps_basic [io_keep, simp]:
  "io_keeps I (io_ret a)" "io_keeps I (io_fail e)" "io_keeps I (io_lift r)" "io_keeps I (io_guard b e)"
  by (simp_all add: io_keeps_def io_simps)

lemma io_keeps_bind [io_keep]: "io_keeps I m \<Longrightarrow> (\<And>a. io_keeps I (f a)) \<Longrightarrow> io_keeps I (io_bind m f)"
  by (force simp: io_keeps_def io_simps split: prod.splits sum.splits)

lemma io_keeps_try [io_keep]: "io_keeps I m \<Longrightarrow> io_keeps I (io_try m)"
  by (force simp: io_keeps_def io_simps split: prod.splits)

lemma io_keeps_if [io_keep]: "io_keeps I m \<Longrightarrow> io_keeps I n \<Longrightarrow> io_keeps I (if b then m else n)"
  by simp

lemma io_keeps_option [io_keep]:
  "io_keeps I m \<Longrightarrow> (\<And>a. io_keeps I (f a)) \<Longrightarrow> io_keeps I (case x of None \<Rightarrow> m | Some a \<Rightarrow> f a)"
  by (cases x) simp_all

lemma io_keeps_sum [io_keep]:
  "(\<And>e. io_keeps I (f e)) \<Longrightarrow> (\<And>a. io_keeps I (g a)) \<Longrightarrow> io_keeps I (case x of Inl e \<Rightarrow> f e | Inr a \<Rightarrow> g a)"
  by (cases x) simp_all

lemma io_keeps_prod [io_keep]:
  "(\<And>a b. io_keeps I (f a b)) \<Longrightarrow> io_keeps I (case x of (a, b) \<Rightarrow> f a b)"
  by (cases x) simp

lemma io_keeps_each [io_keep]: "(\<And>x. x \<in> set xs \<Longrightarrow> io_keeps I (f x)) \<Longrightarrow> io_keeps I (io_each f xs)"
  by (induction xs) (simp_all add: io_keeps_bind)

lemma io_keeps_map [io_keep]: "(\<And>x. x \<in> set xs \<Longrightarrow> io_keeps I (f x)) \<Longrightarrow> io_keeps I (io_map f xs)"
  by (induction xs) (simp_all add: io_keeps_bind)

lemma io_keeps_pure: "io_pure m \<Longrightarrow> io_keeps I m"
  by (simp add: io_pure_def io_keeps_def)

lemma io_pureD: "io_pure m \<Longrightarrow> m w = (r, w') \<Longrightarrow> w' = w"
  by (metis io_pure_def snd_conv)

text \<open>A call that leaves a part of the world alone.\<close>

definition io_frame :: "('w \<Rightarrow> 's) \<Rightarrow> ('w, 'a) io \<Rightarrow> bool" where
  "io_frame get m \<longleftrightarrow> (\<forall>s. io_keeps (\<lambda>w. get w = s) m)"

lemma io_frameD: "io_frame get m \<Longrightarrow> m w = (r, w') \<Longrightarrow> get w' = get w"
  using io_keepsD [of "\<lambda>v. get v = get w" m w r w'] by (simp add: io_frame_def)

lemma io_frameI: "(\<And>s. io_keeps (\<lambda>w. get w = s) m) \<Longrightarrow> io_frame get m"
  by (simp add: io_frame_def)

lemma io_each_ok [io_ok]:
  "io_each f [] w = (Inr u, w') \<longleftrightarrow> w' = w"
  "io_each f (x # xs) w = (Inr u, w') \<longleftrightarrow> (\<exists>v. f x w = (Inr (), v) \<and> io_each f xs v = (Inr (), w'))"
  by (auto simp: io_ok)

end
