(* ===== verification/Ports.thy ===== *)
theory Ports
  imports Go_Effects Memory_Hiring Auth
begin

section \<open>The ports of the application services and the dev stack's world\<close>

text \<open>
  One record per interface of the domain and application layers, over any world \<open>'w\<close> the ports
  share (\<open>internal/domain/*/repository.go\<close>, \<open>ports.go\<close>, \<open>internal/app/ports.go\<close>). \<open>World\<close> is the
  state of the in-memory stack that \<open>internal/platform/wiring\<close> assembles when no database is
  configured: one store per aggregate, the clock and the source of identifiers. The locale \<open>part\<close>
  is a component of a world, \<open>repository_part\<close> lifts the contract of a repository from the component
  to the world.
\<close>

subsection \<open>Interfaces\<close>

record 'w UserRepository =
  Users_Create :: "User \<Rightarrow> ('w, unit) io"
  Users_ByID :: "ID \<Rightarrow> ('w, User) io"
  Users_ByEmail :: "Email \<Rightarrow> ('w, User) io"
  Users_Update :: "User \<Rightarrow> ('w, unit) io"

record 'w RoleRepository =
  Roles_Create :: "Role \<Rightarrow> ('w, unit) io"
  Roles_ByID :: "ID \<Rightarrow> ('w, Role) io"
  Roles_Update :: "Role \<Rightarrow> ('w, unit) io"
  Roles_Delete :: "ID \<Rightarrow> ('w, unit) io"
  Roles_ListByEmployer :: "ID \<Rightarrow> Page \<Rightarrow> ('w, Role list \<times> int) io"
  Roles_ListOpen :: "Page \<Rightarrow> ('w, Role list \<times> int) io"

record 'w CandidateRepository =
  Candidates_Create :: "Candidate \<Rightarrow> ('w, unit) io"
  Candidates_ByID :: "ID \<Rightarrow> ('w, Candidate) io"
  Candidates_ByUserID :: "ID \<Rightarrow> ('w, Candidate) io"
  Candidates_Update :: "Candidate \<Rightarrow> ('w, unit) io"
  Candidates_List :: "Page \<Rightarrow> ('w, Candidate list \<times> int) io"

record 'w TalentProfileRepository =
  Profiles_Create :: "TalentProfile \<Rightarrow> ('w, unit) io"
  Profiles_ByID :: "ID \<Rightarrow> ('w, TalentProfile) io"
  Profiles_ByCandidateID :: "ID \<Rightarrow> ('w, TalentProfile) io"
  Profiles_Update :: "TalentProfile \<Rightarrow> ('w, unit) io"
  Profiles_List :: "Page \<Rightarrow> ('w, TalentProfile list \<times> int) io"

record 'w ApplicationRepository =
  Apps_Create :: "Application \<Rightarrow> ('w, unit) io"
  Apps_ByID :: "ID \<Rightarrow> ('w, Application) io"
  Apps_Update :: "Application \<Rightarrow> ('w, unit) io"
  Apps_ByCandidate :: "ID \<Rightarrow> Page \<Rightarrow> ('w, Application list \<times> int) io"

record 'w InterviewRepository =
  Interviews_Create :: "Interview \<Rightarrow> ('w, unit) io"
  Interviews_ByID :: "ID \<Rightarrow> ('w, Interview) io"
  Interviews_Update :: "Interview \<Rightarrow> ('w, unit) io"
  Interviews_ByCandidate :: "ID \<Rightarrow> Page \<Rightarrow> ('w, Interview list \<times> int) io"

record 'w MatchRepository =
  Matches_Upsert :: "Match \<Rightarrow> ('w, unit) io"
  Matches_ByID :: "ID \<Rightarrow> ('w, Match) io"
  Matches_ByRole :: "ID \<Rightarrow> Page \<Rightarrow> ('w, Match list \<times> int) io"
  Matches_ForCandidate :: "ID \<Rightarrow> Page \<Rightarrow> ('w, Match list \<times> int) io"

record 'w ContestRepository =
  Contests_Create :: "Contest \<Rightarrow> ('w, unit) io"
  Contests_ByID :: "ID \<Rightarrow> ('w, Contest) io"
  Contests_ByCandidate :: "ID \<Rightarrow> Page \<Rightarrow> ('w, Contest list \<times> int) io"
  Contests_BySubject :: "ID \<Rightarrow> Page \<Rightarrow> ('w, Contest list \<times> int) io"
  Contests_Update :: "Contest \<Rightarrow> ('w, unit) io"

record 'w AuditRepository =
  Audit_Append :: "AuditEntry \<Rightarrow> ('w, unit) io"
  Audit_List :: "gostr \<Rightarrow> ID \<Rightarrow> Page \<Rightarrow> ('w, AuditEntry list \<times> int) io"
  Audit_ListForOwner :: "gostr \<Rightarrow> ID \<Rightarrow> ID \<Rightarrow> Page \<Rightarrow> ('w, AuditEntry list \<times> int) io"
  Audit_Search :: "ReportFilter \<Rightarrow> Page \<Rightarrow> ('w, AuditEntry list \<times> int) io"
  Audit_SearchForOwner :: "ReportFilter \<Rightarrow> ID \<Rightarrow> Page \<Rightarrow> ('w, AuditEntry list \<times> int) io"

record PromptRef =
  Ref_ID :: gostr
  Ref_Version :: gostr

record LLMRequest =
  Req_System :: gostr
  Req_Prompt :: gostr
  Req_MaxTokens :: int
  Req_Source :: PromptRef
  Req_Model :: gostr
  Req_ExpectJSON :: bool

text \<open>\<open>Stream\<close> has no caller among the modelled services.\<close>

record 'w LLMClient =
  LLM_Complete :: "LLMRequest \<Rightarrow> ('w, gostr) io"
  LLM_Warm :: "('w, unit) io"

type_synonym 'w Embedder = "gostr \<Rightarrow> ('w, rat list) io"
type_synonym 'w Clock = "'w \<Rightarrow> time \<times> 'w"
type_synonym 'w IDSource = "'w \<Rightarrow> ID \<times> 'w"

subsection \<open>The world of the in-memory stack\<close>

record World =
  w_users :: UserRepo
  w_roles :: RoleRepo
  w_candidates :: CandidateRepo
  w_profiles :: TalentProfileRepo
  w_apps :: ApplicationRepo
  w_interviews :: InterviewRepo
  w_matches :: MatchRepo
  w_contests :: ContestRepo
  w_audit :: AuditRepo
  w_refresh :: RefreshStore
  w_throttle :: LoginThrottle
  w_clock :: "nat \<Rightarrow> time"
  w_ticks :: nat
  w_ids :: "nat \<Rightarrow> ID"
  w_drawn :: nat

text \<open>The \<open>n\<close>-th reading of the clock and the \<open>n\<close>-th identifier drawn are arbitrary.\<close>

definition World_now :: "World Clock" where
  "World_now w = (w_clock w (w_ticks w), w\<lparr>w_ticks := Suc (w_ticks w)\<rparr>)"

definition World_newID :: "World IDSource" where
  "World_newID w = (w_ids w (w_drawn w), w\<lparr>w_drawn := Suc (w_drawn w)\<rparr>)"

abbreviation "at_users m \<equiv> on_part w_users (\<lambda>s w. w\<lparr>w_users := s\<rparr>) m"
abbreviation "at_roles m \<equiv> on_part w_roles (\<lambda>s w. w\<lparr>w_roles := s\<rparr>) m"
abbreviation "at_candidates m \<equiv> on_part w_candidates (\<lambda>s w. w\<lparr>w_candidates := s\<rparr>) m"
abbreviation "at_profiles m \<equiv> on_part w_profiles (\<lambda>s w. w\<lparr>w_profiles := s\<rparr>) m"
abbreviation "at_apps m \<equiv> on_part w_apps (\<lambda>s w. w\<lparr>w_apps := s\<rparr>) m"
abbreviation "at_interviews m \<equiv> on_part w_interviews (\<lambda>s w. w\<lparr>w_interviews := s\<rparr>) m"
abbreviation "at_matches m \<equiv> on_part w_matches (\<lambda>s w. w\<lparr>w_matches := s\<rparr>) m"
abbreviation "at_contests m \<equiv> on_part w_contests (\<lambda>s w. w\<lparr>w_contests := s\<rparr>) m"
abbreviation "at_audit m \<equiv> on_part w_audit (\<lambda>s w. w\<lparr>w_audit := s\<rparr>) m"
abbreviation "at_refresh m \<equiv> on_part w_refresh (\<lambda>s w. w\<lparr>w_refresh := s\<rparr>) m"

text \<open>The stores, without the clock and the identifiers. A call to the outside leaves them alone.\<close>

definition stores :: "World \<Rightarrow> UserRepo \<times> RoleRepo \<times> CandidateRepo \<times> TalentProfileRepo \<times> ApplicationRepo \<times>
    InterviewRepo \<times> MatchRepo \<times> ContestRepo \<times> AuditRepo \<times> RefreshStore \<times> LoginThrottle" where
  "stores w = (w_users w, w_roles w, w_candidates w, w_profiles w, w_apps w, w_interviews w, w_matches w,
     w_contests w, w_audit w, w_refresh w, w_throttle w)"

definition external :: "(World, 'a) io \<Rightarrow> bool" where
  "external m \<longleftrightarrow> io_frame stores m"

lemma stores_eq_iff: "stores v = stores w \<longleftrightarrow> w_users v = w_users w \<and> w_roles v = w_roles w \<and>
    w_candidates v = w_candidates w \<and> w_profiles v = w_profiles w \<and> w_apps v = w_apps w \<and>
    w_interviews v = w_interviews w \<and> w_matches v = w_matches w \<and> w_contests v = w_contests w \<and>
    w_audit v = w_audit w \<and> w_refresh v = w_refresh w \<and> w_throttle v = w_throttle w"
  by (simp add: stores_def)

lemma externalD: "external m \<Longrightarrow> m w = (r, w') \<Longrightarrow> stores w' = stores w"
  unfolding external_def by (rule io_frameD)

lemma externalI: "(\<And>w. stores (snd (m w)) = stores w) \<Longrightarrow> external m"
  by (simp add: external_def io_frame_def io_keeps_def)

lemma stores_now: "World_now w = (t, w') \<Longrightarrow> stores w' = stores w"
  by (auto simp: World_now_def stores_def)

lemma stores_newID: "World_newID w = (i, w') \<Longrightarrow> stores w' = stores w"
  by (auto simp: World_newID_def stores_def)

text \<open>The stack at start.\<close>

definition memory_world :: "(nat \<Rightarrow> time) \<Rightarrow> (nat \<Rightarrow> ID) \<Rightarrow> World" where
  "memory_world clock ids = \<lparr>w_users = NewUserRepo, w_roles = [], w_candidates = newKeyedStore, w_profiles = newKeyedStore,
     w_apps = \<lparr>ar_byID = [], ar_order = []\<rparr>, w_interviews = [], w_matches = [],
     w_contests = \<lparr>cr_byID = [], cr_order = []\<rparr>, w_audit = [], w_refresh = [], w_throttle = NewLoginThrottle 0 0 0,
     w_clock = clock, w_ticks = 0, w_ids = ids, w_drawn = 0\<rparr>"

definition memory_users :: "World UserRepository" where
  "memory_users = \<lparr>Users_Create = (\<lambda>u. at_users (UserRepo_Create u)), Users_ByID = (\<lambda>i. at_users (UserRepo_ByID i)),
     Users_ByEmail = (\<lambda>e. at_users (UserRepo_ByEmail e)), Users_Update = (\<lambda>u. at_users (UserRepo_Update u))\<rparr>"

definition memory_roles :: "(Role list \<Rightarrow> Role list) \<Rightarrow>
    ((Role \<Rightarrow> Role \<Rightarrow> bool) \<Rightarrow> Role list \<Rightarrow> Role list) \<Rightarrow> World RoleRepository" where
  "memory_roles iter srt = \<lparr>Roles_Create = (\<lambda>r. at_roles (RoleRepo_Create r)), Roles_ByID = (\<lambda>i. at_roles (RoleRepo_ByID i)),
     Roles_Update = (\<lambda>r. at_roles (RoleRepo_Update r)), Roles_Delete = (\<lambda>i. at_roles (RoleRepo_Delete i)),
     Roles_ListByEmployer = (\<lambda>e p. at_roles (RoleRepo_ListByEmployer iter srt e p)),
     Roles_ListOpen = (\<lambda>p. at_roles (RoleRepo_ListOpen iter srt p))\<rparr>"

definition memory_candidates :: "World CandidateRepository" where
  "memory_candidates = \<lparr>Candidates_Create = (\<lambda>c. at_candidates (CandidateRepo_Create c)),
     Candidates_ByID = (\<lambda>i. at_candidates (CandidateRepo_ByID i)),
     Candidates_ByUserID = (\<lambda>u. at_candidates (CandidateRepo_ByUserID u)),
     Candidates_Update = (\<lambda>c. at_candidates (CandidateRepo_Update c)),
     Candidates_List = (\<lambda>p. at_candidates (CandidateRepo_List p))\<rparr>"

definition memory_profiles :: "World TalentProfileRepository" where
  "memory_profiles = \<lparr>Profiles_Create = (\<lambda>p. at_profiles (TalentProfileRepo_Create p)),
     Profiles_ByID = (\<lambda>i. at_profiles (TalentProfileRepo_ByID i)),
     Profiles_ByCandidateID = (\<lambda>c. at_profiles (TalentProfileRepo_ByCandidateID c)),
     Profiles_Update = (\<lambda>p. at_profiles (TalentProfileRepo_Update p)),
     Profiles_List = (\<lambda>p. at_profiles (TalentProfileRepo_List p))\<rparr>"

definition memory_apps :: "World ApplicationRepository" where
  "memory_apps = \<lparr>Apps_Create = (\<lambda>a. at_apps (ApplicationRepo_Create a)), Apps_ByID = (\<lambda>i. at_apps (ApplicationRepo_ByID i)),
     Apps_Update = (\<lambda>a. at_apps (ApplicationRepo_Update a)),
     Apps_ByCandidate = (\<lambda>c p. at_apps (ApplicationRepo_ByCandidate c p))\<rparr>"

definition memory_interviews :: "(Interview list \<Rightarrow> Interview list) \<Rightarrow> World InterviewRepository" where
  "memory_interviews iter = \<lparr>Interviews_Create = (\<lambda>i. at_interviews (InterviewRepo_Create i)),
     Interviews_ByID = (\<lambda>i. at_interviews (InterviewRepo_ByID i)),
     Interviews_Update = (\<lambda>i. at_interviews (InterviewRepo_Update i)),
     Interviews_ByCandidate = (\<lambda>c p. at_interviews (InterviewRepo_ByCandidate iter c p))\<rparr>"

text \<open>An upsert stamps a new match with the clock.\<close>

definition memory_matches :: "(Match list \<Rightarrow> Match list) \<Rightarrow> World MatchRepository" where
  "memory_matches iter = \<lparr>Matches_Upsert = (\<lambda>m. io_bind (io_of World_now) (\<lambda>t. at_matches (MatchRepo_Upsert t m))),
     Matches_ByID = (\<lambda>i. at_matches (MatchRepo_ByID iter i)),
     Matches_ByRole = (\<lambda>r p. at_matches (MatchRepo_ByRole iter r p)),
     Matches_ForCandidate = (\<lambda>c p. at_matches (MatchRepo_ForCandidate iter c p))\<rparr>"

definition memory_contests :: "World ContestRepository" where
  "memory_contests = \<lparr>Contests_Create = (\<lambda>c. at_contests (ContestRepo_Create c)),
     Contests_ByID = (\<lambda>i. at_contests (ContestRepo_ByID i)),
     Contests_ByCandidate = (\<lambda>c p. at_contests (ContestRepo_ByCandidate c p)),
     Contests_BySubject = (\<lambda>s p. at_contests (ContestRepo_BySubject s p)),
     Contests_Update = (\<lambda>c. at_contests (ContestRepo_Update c))\<rparr>"

definition memory_audit :: "World AuditRepository" where
  "memory_audit = \<lparr>Audit_Append = (\<lambda>e. at_audit (AuditRepo_Append e)),
     Audit_List = (\<lambda>e i p. at_audit (AuditRepo_List e i p)),
     Audit_ListForOwner = (\<lambda>e i ow p. at_audit (AuditRepo_ListForOwner e i ow p)),
     Audit_Search = (\<lambda>f p. at_audit (AuditRepo_Search f p)),
     Audit_SearchForOwner = (\<lambda>f ow p. at_audit (AuditRepo_SearchForOwner f ow p))\<rparr>"

lemmas memory_ports = memory_users_def memory_roles_def memory_candidates_def memory_profiles_def
  memory_apps_def memory_interviews_def memory_matches_def memory_contests_def memory_audit_def

lemma memory_sel [simp]:
  "Users_Create memory_users u = at_users (UserRepo_Create u)"
  "Users_ByID memory_users i = at_users (UserRepo_ByID i)"
  "Users_ByEmail memory_users em = at_users (UserRepo_ByEmail em)"
  "Users_Update memory_users u = at_users (UserRepo_Update u)"
  "Roles_Create (memory_roles itr srt) rl = at_roles (RoleRepo_Create rl)"
  "Roles_ByID (memory_roles itr srt) i = at_roles (RoleRepo_ByID i)"
  "Roles_Update (memory_roles itr srt) rl = at_roles (RoleRepo_Update rl)"
  "Roles_ListOpen (memory_roles itr srt) pg = at_roles (RoleRepo_ListOpen itr srt pg)"
  "Candidates_Create memory_candidates c = at_candidates (CandidateRepo_Create c)"
  "Candidates_ByID memory_candidates i = at_candidates (CandidateRepo_ByID i)"
  "Candidates_Update memory_candidates c = at_candidates (CandidateRepo_Update c)"
  "Candidates_List memory_candidates pg = at_candidates (CandidateRepo_List pg)"
  "Profiles_Create memory_profiles p = at_profiles (TalentProfileRepo_Create p)"
  "Profiles_ByCandidateID memory_profiles i = at_profiles (TalentProfileRepo_ByCandidateID i)"
  "Profiles_Update memory_profiles p = at_profiles (TalentProfileRepo_Update p)"
  "Apps_Create memory_apps a = at_apps (ApplicationRepo_Create a)"
  "Apps_ByCandidate memory_apps i pg = at_apps (ApplicationRepo_ByCandidate i pg)"
  "Interviews_Create (memory_interviews iti) iv = at_interviews (InterviewRepo_Create iv)"
  "Interviews_ByID (memory_interviews iti) i = at_interviews (InterviewRepo_ByID i)"
  "Interviews_Update (memory_interviews iti) iv = at_interviews (InterviewRepo_Update iv)"
  "Interviews_ByCandidate (memory_interviews iti) i pg = at_interviews (InterviewRepo_ByCandidate iti i pg)"
  "Matches_Upsert (memory_matches itm) m = io_bind (io_of World_now) (\<lambda>t. at_matches (MatchRepo_Upsert t m))"
  "Matches_ByID (memory_matches itm) i = at_matches (MatchRepo_ByID itm i)"
  "Contests_Create memory_contests con = at_contests (ContestRepo_Create con)"
  "Contests_ByID memory_contests i = at_contests (ContestRepo_ByID i)"
  "Contests_ByCandidate memory_contests i pg = at_contests (ContestRepo_ByCandidate i pg)"
  "Contests_Update memory_contests con = at_contests (ContestRepo_Update con)"
  "Audit_Append memory_audit en = at_audit (AuditRepo_Append en)"
  by (simp_all add: memory_ports)

lemma memory_reads [io_ok]:
  "at_roles (RoleRepo_ByID i) w = (Inr rl, w') \<longleftrightarrow> map_of (w_roles w) i = Some rl \<and> w' = w"
  "at_interviews (InterviewRepo_ByID i) w = (Inr iv, w') \<longleftrightarrow> map_of (w_interviews w) i = Some iv \<and> w' = w"
  "at_contests (ContestRepo_ByID i) w = (Inr con, w') \<longleftrightarrow> map_of (cr_byID (w_contests w)) i = Some con \<and> w' = w"
  "at_candidates (CandidateRepo_ByID i) w = (Inr c, w') \<longleftrightarrow> map_of (ks_byID (w_candidates w)) i = Some c \<and> w' = w"
  "at_users (UserRepo_ByID i) w = (Inr u, w') \<longleftrightarrow> map_of (ur_byID (w_users w)) i = Some u \<and> w' = w"
  by (auto simp: io_simps RoleRepo_ByID_def InterviewRepo_ByID_def ContestRepo_ByID_def CandidateRepo_ByID_def
      ks_get_def UserRepo_ByID_def split: option.splits)

lemma memory_reads_pure:
  "snd (at_roles (RoleRepo_ByID i) w) = w"
  "snd (at_interviews (InterviewRepo_ByID i) w) = w"
  "snd (at_contests (ContestRepo_ByID i) w) = w"
  "snd (at_matches (MatchRepo_ByID itm i) w) = w"
  "snd (at_candidates (CandidateRepo_ByID i) w) = w"
  "snd (at_profiles (TalentProfileRepo_ByCandidateID i) w) = w"
  by (auto simp: io_simps RoleRepo_ByID_def InterviewRepo_ByID_def ContestRepo_ByID_def CandidateRepo_ByID_def
      ks_get_def MatchRepo_ByID_def TalentProfileRepo_ByCandidateID_def ks_getBySecondary_def
      split: option.splits list.splits)

subsection \<open>The contract of a repository, in the world\<close>

locale part =
  fixes get :: "'w \<Rightarrow> 's" and put :: "'s \<Rightarrow> 'w \<Rightarrow> 'w"
  assumes get_put: "get (put s w) = s"

locale repository_part = part get put + repository valid lookup key fresh keeps create byID update
  for get :: "'w \<Rightarrow> 's" and put and valid :: "'s \<Rightarrow> bool" and lookup and key :: "'v \<Rightarrow> ID" and fresh and keeps
    and create byID update +
  assumes put_get: "put (get w) w = w"
begin

lemma not_found_part: "not_found m (get w) \<Longrightarrow> not_found (on_part get put m) w"
  by (auto simp: not_found_def io_simps put_get)

end

sublocale repository_part \<subseteq> lifted: repository "\<lambda>w. valid (get w)" "\<lambda>w. lookup (get w)" key
  "\<lambda>w. fresh (get w)" "\<lambda>w. keeps (get w)" "\<lambda>v. on_part get put (create v)"
  "\<lambda>i. on_part get put (byID i)" "\<lambda>v. on_part get put (update v)"
proof
  fix w and i :: ID and v assume "valid (get w)" "lookup (get w) i = Some v"
  then show "on_part get put (byID i) w = (Inr v, w)" using byID_Some put_get by (simp add: io_simps)
next
  fix w and i :: ID assume "valid (get w)" "lookup (get w) i = None"
  then show "not_found (on_part get put (byID i)) w" using byID_None by (blast intro: not_found_part)
next
  fix w and v assume "valid (get w)" "lookup (get w) (key v) = None" "fresh (get w) v"
  from create_fresh [OF this] show "\<exists>w'. on_part get put (create v) w = (Inr (), w') \<and>
      valid (get w') \<and> lookup (get w') = (lookup (get w))(key v \<mapsto> v)"
    using get_put by (auto simp: io_simps)
next
  fix w and v assume "valid (get w)" "lookup (get w) (key v) \<noteq> None" "keeps (get w) v"
  from update_present [OF this] show "\<exists>w'. on_part get put (update v) w = (Inr (), w') \<and>
      valid (get w') \<and> lookup (get w') = (lookup (get w))(key v \<mapsto> v)"
    using get_put by (auto simp: io_simps)
next
  fix w and v assume "valid (get w)" "lookup (get w) (key v) = None"
  then show "not_found (on_part get put (update v)) w" using update_absent by (blast intro: not_found_part)
qed

interpretation wusers: repository_part w_users "\<lambda>s w. w\<lparr>w_users := s\<rparr>" users_inv "\<lambda>r. map_of (ur_byID r)"
  User_ID "\<lambda>r u. map_of (ur_byEmail r) (User_Email u) = None" email_free UserRepo_Create UserRepo_ByID UserRepo_Update
  by unfold_locales simp_all

interpretation wroles: repository_part w_roles "\<lambda>s w. w\<lparr>w_roles := s\<rparr>" "keyed_by Role_ID" map_of Role_ID
  "\<lambda>w v. True" "\<lambda>w v. True" RoleRepo_Create RoleRepo_ByID RoleRepo_Update
  by unfold_locales simp_all

interpretation wcandidates: repository_part w_candidates "\<lambda>s w. w\<lparr>w_candidates := s\<rparr>" "ks_inv Cand_ID Cand_UserID"
  "\<lambda>s. map_of (ks_byID s)" Cand_ID "ks_fresh Cand_UserID" "ks_keeps Cand_ID Cand_UserID"
  CandidateRepo_Create CandidateRepo_ByID CandidateRepo_Update
  by unfold_locales simp_all

interpretation wprofiles: repository_part w_profiles "\<lambda>s w. w\<lparr>w_profiles := s\<rparr>" "ks_inv TP_ID TP_CandidateID"
  "\<lambda>s. map_of (ks_byID s)" TP_ID "ks_fresh TP_CandidateID" "ks_keeps TP_ID TP_CandidateID"
  TalentProfileRepo_Create TalentProfileRepo_ByID TalentProfileRepo_Update
  by unfold_locales simp_all

interpretation wapps: repository_part w_apps "\<lambda>s w. w\<lparr>w_apps := s\<rparr>" applications_inv "\<lambda>r. map_of (ar_byID r)"
  App_ID "\<lambda>r a. True" "\<lambda>r a. True" ApplicationRepo_Create ApplicationRepo_ByID ApplicationRepo_Update
  by unfold_locales simp_all

interpretation winterviews: repository_part w_interviews "\<lambda>s w. w\<lparr>w_interviews := s\<rparr>" "keyed_by Iv_ID" map_of
  Iv_ID "\<lambda>w v. True" "\<lambda>w v. True" InterviewRepo_Create InterviewRepo_ByID InterviewRepo_Update
  by unfold_locales simp_all

interpretation wcontests: repository_part w_contests "\<lambda>s w. w\<lparr>w_contests := s\<rparr>" contests_inv
  "\<lambda>r. map_of (cr_byID r)" Con_ID "\<lambda>r c. True" "\<lambda>r c. True" ContestRepo_Create ContestRepo_ByID ContestRepo_Update
  by unfold_locales simp_all

subsection \<open>A small stack for the witnesses\<close>

definition sample_role :: Role where
  "sample_role = \<lparr>Role_ID = [82], Role_EmployerID = [69], Role_Title = lit ''Clerk'', Role_Status = RoleOpen,
     Role_Spec = \<lparr>Spec_Title = lit ''Clerk'', Spec_Location = [], Spec_Seniority = SeniorityMid, Spec_Availability = [],
       Spec_Responsibilities = [], Spec_MustHaves = [], Spec_NiceToHaves = [],
       Spec_SalaryBand = \<lparr>Currency = [], Low = Fin 0, High = Fin 0\<rparr>\<rparr>,
     Role_Rubric = \<lparr>Competencies = []\<rparr>, Role_Embedding = [], Role_CreatedAt = 7\<rparr>"

definition sample_interview :: Interview where
  "sample_interview = \<lparr>Iv_ID = [73], Iv_RoleID = [82], Iv_CandidateID = [67], Mode = ModeText, State = StateAsking,
     Turns = [], Pending = None, Report = None, StartedAt = 0\<rparr>"

definition sample_hiring :: World where
  "sample_hiring = (memory_world (\<lambda>n. 1000 + int n) (\<lambda>n. [97 + int n]))
     \<lparr>w_roles := [([82], sample_role)], w_interviews := [([73], sample_interview)]\<rparr>"

end
