(* ===== verification/Session.thy ===== *)
theory Session
  imports Ports
begin

section \<open>Accounts and sessions\<close>

text \<open>
  \<open>internal/app/auth.go\<close>: the ports of authentication; \<open>internal/app/identity/service.go\<close>:
  registration, login, single sign-on, refresh and logout, over any ports;
  \<open>internal/app/provisioning/candidate.go\<close>: the candidate record of a registered candidate. The
  password hasher, the token service and the identity provider are arguments. The lemmas show for
  which accounts a session is issued, that a failed login does not tell why, what registration
  leaves in the stores, and that a refresh token is spent once.
\<close>

subsection \<open>Ports\<close>

record 'w PasswordHasher =
  Hash :: "gostr \<Rightarrow> ('w, gostr) io"
  Verify :: "gostr \<Rightarrow> gostr \<Rightarrow> ('w, bool) io"

record Principal =
  Pri_UserID :: ID
  Pri_Role :: gostr

record AccessToken =
  AT_Token :: gostr
  AT_ExpiresIn :: duration

record RefreshToken =
  RT_Token :: gostr
  RT_ID :: gostr
  RT_ExpiresIn :: duration

record RefreshClaims =
  RC_Principal :: Principal
  RC_ID :: gostr

record 'w TokenService =
  IssueAccess :: "Principal \<Rightarrow> ('w, AccessToken) io"
  IssueRefresh :: "Principal \<Rightarrow> ('w, RefreshToken) io"
  VerifyAccess :: "gostr \<Rightarrow> ('w, Principal) io"
  VerifyRefresh :: "gostr \<Rightarrow> ('w, RefreshClaims) io"

record SSOIdentity =
  SSO_Subject :: gostr
  SSO_Email :: gostr
  SSO_Name :: gostr

record 'w RefreshTokenStore =
  Refresh_Save :: "RefreshRecord \<Rightarrow> ('w, unit) io"
  Refresh_Consume :: "gostr \<Rightarrow> time \<Rightarrow> ('w, RefreshRecord) io"
  Refresh_Revoke :: "gostr \<Rightarrow> ('w, unit) io"

record 'w ThrottlePort =
  Throttle_Check :: "gostr \<Rightarrow> ('w, unit) io"
  Throttle_Fail :: "gostr \<Rightarrow> ('w, unit) io"
  Throttle_Reset :: "gostr \<Rightarrow> ('w, unit) io"

subsection \<open>The service\<close>

record Session =
  Ses_User :: User
  Ses_Access :: AccessToken
  Ses_Refresh :: RefreshToken

record RegisterInput =
  In_Email :: gostr
  In_Password :: gostr
  In_Name :: gostr
  In_Role :: role

record 'w IdentityService =
  id_users :: "'w UserRepository"
  id_hasher :: "'w PasswordHasher"
  id_tokens :: "'w TokenService"
  id_refresh :: "'w RefreshTokenStore"
  id_now :: "'w Clock"
  id_newID :: "'w IDSource"
  id_policy :: PasswordPolicy
  id_provisioner :: "(User \<Rightarrow> ('w, unit) io) option"
  id_throttle :: "'w ThrottlePort option"
  id_sso :: "(gostr \<Rightarrow> ('w, SSOIdentity) io) option"

definition invalidCredentials :: go_error where
  "invalidCredentials = Unauthorized ''identity: invalid email or password''"

definition throttleCheck :: "'w IdentityService \<Rightarrow> gostr \<Rightarrow> ('w, unit) io" where
  "throttleCheck s k = (case id_throttle s of None \<Rightarrow> io_ret () | Some t \<Rightarrow> Throttle_Check t k)"

definition throttleFail :: "'w IdentityService \<Rightarrow> gostr \<Rightarrow> ('w, unit) io" where
  "throttleFail s k = (case id_throttle s of None \<Rightarrow> io_ret () | Some t \<Rightarrow> Throttle_Fail t k)"

definition throttleReset :: "'w IdentityService \<Rightarrow> gostr \<Rightarrow> ('w, unit) io" where
  "throttleReset s k = (case id_throttle s of None \<Rightarrow> io_ret () | Some t \<Rightarrow> Throttle_Reset t k)"

definition issue :: "'w IdentityService \<Rightarrow> User \<Rightarrow> ('w, Session) io" where
  "issue s user =
     (let p = \<lparr>Pri_UserID = User_ID user, Pri_Role = Role_String (User_Role user)\<rparr>
      in io_bind (IssueAccess (id_tokens s) p) (\<lambda>access.
         io_bind (IssueRefresh (id_tokens s) p) (\<lambda>refresh.
         io_bind (io_of (id_now s)) (\<lambda>now.
         io_bind (Refresh_Save (id_refresh s) \<lparr>RR_ID = RT_ID refresh, RR_UserID = User_ID user,
                    ExpiresAt = now + RT_ExpiresIn refresh, Revoked = False\<rparr>) (\<lambda>u.
         io_ret \<lparr>Ses_User = user, Ses_Access = access, Ses_Refresh = refresh\<rparr>)))))"

definition Register :: "'w IdentityService \<Rightarrow> RegisterInput \<Rightarrow> ('w, Session) io" where
  "Register s inp =
     io_bind (io_lift (NewEmail (In_Email inp))) (\<lambda>email.
     io_bind (io_lift (PasswordPolicy_Validate (id_policy s) (In_Password inp))) (\<lambda>u.
     io_bind (io_guard (\<not> Role_Registerable (In_Role inp))
       (Invalid ''identity: a valid, self-registerable role is required'')) (\<lambda>u.
     io_bind (Hash (id_hasher s) (In_Password inp)) (\<lambda>hash.
     io_bind (io_of (id_now s)) (\<lambda>now.
     io_bind (io_of (id_newID s)) (\<lambda>newid.
     io_bind (io_lift (NewUser newid email (In_Role inp) (In_Name inp) hash now)) (\<lambda>user.
     io_bind (Users_Create (id_users s) user) (\<lambda>u.
     io_bind (case id_provisioner s of None \<Rightarrow> io_ret () | Some provision \<Rightarrow> provision user) (\<lambda>u.
     issue s user)))))))))"

definition verifyCredentials :: "'w IdentityService \<Rightarrow> Email \<Rightarrow> gostr \<Rightarrow> ('w, User) io" where
  "verifyCredentials s email password =
     io_bind (io_try (Users_ByEmail (id_users s) email)) (\<lambda>r. case r of
       Inl err \<Rightarrow>
         if KindOf err = KindNotFound
         then io_bind (io_try (Hash (id_hasher s) password)) (\<lambda>h. io_fail invalidCredentials)
         else io_fail err
     | Inr user \<Rightarrow>
         io_bind (Verify (id_hasher s) (User_PasswordHash user) password) (\<lambda>ok.
           if \<not> ok \<or> \<not> User_IsActive user then io_fail invalidCredentials else io_ret user))"

definition Login :: "'w IdentityService \<Rightarrow> gostr \<Rightarrow> gostr \<Rightarrow> ('w, Session) io" where
  "Login s rawEmail password =
     (case NewEmail rawEmail of
        Inl err \<Rightarrow> io_fail invalidCredentials
      | Inr email \<Rightarrow>
          if MaxAllowedLength (id_policy s) < byte_len password then io_fail invalidCredentials
          else io_bind (throttleCheck s email) (\<lambda>u.
               io_bind (io_try (verifyCredentials s email password)) (\<lambda>r. case r of
                 Inl err \<Rightarrow>
                   io_bind (if KindOf err = KindUnauthorized then throttleFail s email else io_ret ()) (\<lambda>u.
                   io_fail err)
               | Inr user \<Rightarrow> io_bind (throttleReset s email) (\<lambda>u. issue s user))))"

definition LoginWithSSO :: "'w IdentityService \<Rightarrow> gostr \<Rightarrow> ('w, Session) io" where
  "LoginWithSSO s providerToken =
     (case id_sso s of
        None \<Rightarrow> io_fail (Unauthorized ''identity: SSO is not configured'')
      | Some authenticate \<Rightarrow>
          io_bind (authenticate providerToken) (\<lambda>asserted.
            case NewEmail (SSO_Email asserted) of
              Inl err \<Rightarrow> io_fail (Unauthorized ''identity: SSO assertion carries no valid email'')
            | Inr email \<Rightarrow>
                io_bind (io_try (Users_ByEmail (id_users s) email)) (\<lambda>r. case r of
                  Inl err \<Rightarrow>
                    if KindOf err = KindNotFound
                    then io_fail (Unauthorized ''identity: no account is provisioned for this SSO identity'')
                    else io_fail err
                | Inr user \<Rightarrow>
                    if \<not> User_IsActive user then io_fail (Unauthorized ''identity: account is not active'')
                    else issue s user)))"

definition Refresh :: "'w IdentityService \<Rightarrow> gostr \<Rightarrow> ('w, Session) io" where
  "Refresh s refreshToken =
     io_bind (VerifyRefresh (id_tokens s) refreshToken) (\<lambda>claims.
     io_bind (io_of (id_now s)) (\<lambda>now.
     io_bind (Refresh_Consume (id_refresh s) (RC_ID claims) now) (\<lambda>rec.
     io_bind (io_try (Users_ByID (id_users s) (RR_UserID rec))) (\<lambda>r. case r of
       Inl err \<Rightarrow>
         if KindOf err = KindNotFound then io_fail (Unauthorized ''identity: account no longer exists'')
         else io_fail err
     | Inr user \<Rightarrow>
         if \<not> User_IsActive user then io_fail (Unauthorized ''identity: account is not active'')
         else issue s user))))"

definition Logout :: "'w IdentityService \<Rightarrow> gostr \<Rightarrow> ('w, unit) io" where
  "Logout s refreshToken =
     io_bind (io_try (VerifyRefresh (id_tokens s) refreshToken)) (\<lambda>r. case r of
       Inl err \<Rightarrow> io_ret ()
     | Inr claims \<Rightarrow> Refresh_Revoke (id_refresh s) (RC_ID claims))"

definition Me :: "'w IdentityService \<Rightarrow> ID \<Rightarrow> ('w, User) io" where
  "Me s userID = Users_ByID (id_users s) userID"

subsection \<open>Provisioning\<close>

definition CandidateProvisioner_Provision ::
    "'w CandidateRepository \<Rightarrow> 'w IDSource \<Rightarrow> User \<Rightarrow> ('w, unit) io" where
  "CandidateProvisioner_Provision candidates newID user =
     (if User_Role user \<noteq> RoleCandidate then io_ret ()
      else io_bind (io_of newID) (\<lambda>i.
           io_bind (io_lift (NewCandidate i (User_ID user) [] zero_intake)) (\<lambda>candidate.
           Candidates_Create candidates (candidate\<lparr>Cand_ID := User_ID user\<rparr>))))"

subsection \<open>Who gets a session\<close>

lemma issue_ok:
  "issue s user w = (Inr ses, w') \<Longrightarrow> Ses_User ses = user \<and>
     (\<exists>a v1 v2 t v3. IssueAccess (id_tokens s) \<lparr>Pri_UserID = User_ID user, Pri_Role = Role_String (User_Role user)\<rparr> w =
         (Inr (Ses_Access ses), v1) \<and>
       IssueRefresh (id_tokens s) \<lparr>Pri_UserID = User_ID user, Pri_Role = Role_String (User_Role user)\<rparr> v1 =
         (Inr (Ses_Refresh ses), v2) \<and> id_now s v2 = (t, v3) \<and>
       Refresh_Save (id_refresh s) \<lparr>RR_ID = RT_ID (Ses_Refresh ses), RR_UserID = User_ID user,
         ExpiresAt = t + RT_ExpiresIn (Ses_Refresh ses), Revoked = False\<rparr> v3 = (Inr (), w'))"
  by (auto simp: issue_def io_ok Let_def)

text \<open>
  Only a verified, active account is logged in. Over any ports, a successful login found an
  account by the canonical form of the e-mail address, that account is active and is the one the
  session is for, the hasher accepted the password against its stored hash, the password was within
  the policy's length, and the throttle let the attempt through.
\<close>

lemma login_sound:
  assumes "Login s rawEmail password w = (Inr ses, w')"
  shows "\<exists>email v1 v2 v3 v4. NewEmail rawEmail = Inr email \<and> byte_len password \<le> MaxAllowedLength (id_policy s) \<and>
    throttleCheck s email w = (Inr (), v1) \<and>
    Users_ByEmail (id_users s) email v1 = (Inr (Ses_User ses), v2) \<and>
    Verify (id_hasher s) (User_PasswordHash (Ses_User ses)) password v2 = (Inr True, v3) \<and>
    User_IsActive (Ses_User ses) \<and> throttleReset s email v3 = (Inr (), v4) \<and>
    issue s (Ses_User ses) v4 = (Inr ses, w')"
proof -
  have ver: "verifyCredentials s e password v = (Inr u, v') \<Longrightarrow> \<exists>v2. Users_ByEmail (id_users s) e v = (Inr u, v2) \<and>
      Verify (id_hasher s) (User_PasswordHash u) password v2 = (Inr True, v') \<and> User_IsActive u" for e v u v'
    by (auto simp: verifyCredentials_def io_ok)
  from assms obtain email v1 u v3 v4 where "NewEmail rawEmail = Inr email"
    "byte_len password \<le> MaxAllowedLength (id_policy s)" "throttleCheck s email w = (Inr (), v1)"
    and v: "verifyCredentials s email password v1 = (Inr u, v3)" and "throttleReset s email v3 = (Inr (), v4)"
    and i: "issue s u v4 = (Inr ses, w')"
    by (auto simp: Login_def io_ok)
  moreover from i have "u = Ses_User ses" by (simp add: issue_ok)
  moreover from ver [OF v] obtain v2 where "Users_ByEmail (id_users s) email v1 = (Inr u, v2)"
    "Verify (id_hasher s) (User_PasswordHash u) password v2 = (Inr True, v3)" "User_IsActive u" by blast
  ultimately show ?thesis by blast
qed

lemma SSO_active: "LoginWithSSO s tok w = (Inr ses, w') \<Longrightarrow> User_IsActive (Ses_User ses)"
  by (auto simp: LoginWithSSO_def io_ok dest!: issue_ok)

lemma Refresh_active: "Refresh s tok w = (Inr ses, w') \<Longrightarrow> User_IsActive (Ses_User ses)"
  by (auto simp: Refresh_def io_ok dest!: issue_ok)

subsection \<open>On the in-memory stack\<close>

definition memory_refresh :: "World RefreshTokenStore" where
  "memory_refresh = \<lparr>Refresh_Save = (\<lambda>r. at_refresh (RefreshStore_Save r)),
     Refresh_Consume = (\<lambda>j t. at_refresh (RefreshStore_Consume j t)),
     Refresh_Revoke = (\<lambda>j. at_refresh (RefreshStore_Revoke j))\<rparr>"

definition memory_throttle :: "World ThrottlePort" where
  "memory_throttle =
     \<lparr>Throttle_Check = (\<lambda>k. io_bind (io_of World_now) (\<lambda>t w. (LoginThrottle_Check t k (w_throttle w), w))),
      Throttle_Fail = (\<lambda>k. io_bind (io_of World_now) (\<lambda>t. io_do (\<lambda>w. w\<lparr>w_throttle := LoginThrottle_Fail t k (w_throttle w)\<rparr>))),
      Throttle_Reset = (\<lambda>k. io_do (\<lambda>w. w\<lparr>w_throttle := LoginThrottle_Reset k (w_throttle w)\<rparr>))\<rparr>"

definition memory_identity :: "World PasswordHasher \<Rightarrow> World TokenService \<Rightarrow> World IdentityService" where
  "memory_identity hasher tokens =
     \<lparr>id_users = memory_users, id_hasher = hasher, id_tokens = tokens, id_refresh = memory_refresh,
      id_now = World_now, id_newID = World_newID, id_policy = DefaultPasswordPolicy,
      id_provisioner = Some (CandidateProvisioner_Provision memory_candidates World_newID),
      id_throttle = Some memory_throttle, id_sso = None\<rparr>"

lemma memory_identity_sel [simp]:
  "id_users (memory_identity h tk) = memory_users" "id_hasher (memory_identity h tk) = h"
  "id_tokens (memory_identity h tk) = tk" "id_refresh (memory_identity h tk) = memory_refresh"
  "id_now (memory_identity h tk) = World_now" "id_newID (memory_identity h tk) = World_newID"
  "id_policy (memory_identity h tk) = DefaultPasswordPolicy"
  "id_provisioner (memory_identity h tk) = Some (CandidateProvisioner_Provision memory_candidates World_newID)"
  "id_throttle (memory_identity h tk) = Some memory_throttle" "id_sso (memory_identity h tk) = None"
  by (simp_all add: memory_identity_def)

lemma memory_session_sel [simp]:
  "Refresh_Save memory_refresh r = at_refresh (RefreshStore_Save r)"
  "Refresh_Consume memory_refresh j t = at_refresh (RefreshStore_Consume j t)"
  "Refresh_Revoke memory_refresh j = at_refresh (RefreshStore_Revoke j)"
  "Throttle_Check memory_throttle k =
     io_bind (io_of World_now) (\<lambda>t w. (LoginThrottle_Check t k (w_throttle w), w))"
  "Throttle_Fail memory_throttle k =
     io_bind (io_of World_now) (\<lambda>t. io_do (\<lambda>w. w\<lparr>w_throttle := LoginThrottle_Fail t k (w_throttle w)\<rparr>))"
  "Throttle_Reset memory_throttle k = io_do (\<lambda>w. w\<lparr>w_throttle := LoginThrottle_Reset k (w_throttle w)\<rparr>)"
  by (simp_all add: memory_refresh_def memory_throttle_def)

text \<open>What is asked of the hasher and the token service: they are outside the stores, and
  verification of a password is a function of the hash and the password, which may be an error (of a
  stored hash it cannot read).\<close>

definition outside_hasher :: "(gostr \<Rightarrow> gostr \<Rightarrow> bool res) \<Rightarrow> World PasswordHasher \<Rightarrow> bool" where
  "outside_hasher ver h \<longleftrightarrow> (\<forall>p. external (Hash h p)) \<and>
     (\<forall>e p. external (Verify h e p) \<and> (\<forall>w. fst (Verify h e p w) = ver e p))"

definition outside_tokens :: "World TokenService \<Rightarrow> bool" where
  "outside_tokens t \<longleftrightarrow> (\<forall>p. external (IssueAccess t p) \<and> external (IssueRefresh t p)) \<and>
     (\<forall>r. external (VerifyRefresh t r))"

lemma outside_hasherD:
  assumes "outside_hasher ver h"
  shows "Hash h p w = (r, w') \<Longrightarrow> stores w' = stores w"
    and "Verify h e p w = (r', w') \<Longrightarrow> stores w' = stores w \<and> r' = ver e p"
  using assms externalD fst_conv unfolding outside_hasher_def by metis+

lemma outside_tokensD:
  assumes "outside_tokens t"
  shows "IssueAccess t p w = (r1, w') \<Longrightarrow> stores w' = stores w"
    and "IssueRefresh t p w = (r2, w') \<Longrightarrow> stores w' = stores w"
    and "VerifyRefresh t k w = (r3, w') \<Longrightarrow> stores w' = stores w"
  using assms externalD unfolding outside_tokens_def by blast+

text \<open>The account a login names, if its password matches; and the error of a stored hash that cannot be
  verified.\<close>

definition account :: "(gostr \<Rightarrow> gostr \<Rightarrow> bool res) \<Rightarrow> World \<Rightarrow> Email \<Rightarrow> gostr \<Rightarrow> User \<Rightarrow> bool" where
  "account ver w e password u \<longleftrightarrow> (\<exists>i. map_of (ur_byID (w_users w)) i = Some u) \<and> User_Email u = e \<and>
     User_IsActive u \<and> ver (User_PasswordHash u) password = Inr True"

definition unverifiable :: "(gostr \<Rightarrow> gostr \<Rightarrow> bool res) \<Rightarrow> World \<Rightarrow> Email \<Rightarrow> gostr \<Rightarrow> go_error \<Rightarrow> bool" where
  "unverifiable ver w e password err \<longleftrightarrow> (\<exists>i u. map_of (ur_byID (w_users w)) i = Some u \<and> User_Email u = e \<and>
     ver (User_PasswordHash u) password = Inl err)"

lemma memory_ByEmail:
  "users_inv (w_users w) \<Longrightarrow> on_part w_users (\<lambda>s w. w\<lparr>w_users := s\<rparr>) (UserRepo_ByEmail e) w = (Inr u, w') \<longleftrightarrow>
     w' = w \<and> (\<exists>i. map_of (ur_byID (w_users w)) i = Some u \<and> User_Email u = e)"
  by (auto simp: io_ok ByEmail_iff)

lemma memory_ByEmail_missing:
  assumes "users_inv (w_users w)" and "\<nexists>i u. map_of (ur_byID (w_users w)) i = Some u \<and> User_Email u = e"
  shows "on_part w_users (\<lambda>s w. w\<lparr>w_users := s\<rparr>) (UserRepo_ByEmail e) w = (Inl (NotFound ''memory: user not found''), w)"
proof -
  have "map_of (ur_byEmail (w_users w)) e = None"
    using assms users_invD(3) [OF assms(1)] by (metis not_None_eq)
  then show ?thesis by (simp add: io_simps UserRepo_ByEmail_def)
qed

lemma memory_verify:
  assumes "users_inv (w_users w)" and "outside_hasher ver h"
  shows "\<exists>r w'. stores w' = stores w \<and> verifyCredentials (memory_identity h tk) e password w = (r, w') \<and>
    (\<forall>u. account ver w e password u \<longrightarrow> r = Inr u) \<and>
    (\<forall>err. unverifiable ver w e password err \<longrightarrow> r = Inl err) \<and>
    ((\<nexists>u. account ver w e password u) \<and> (\<nexists>err. unverifiable ver w e password err) \<longrightarrow> r = Inl invalidCredentials)"
proof (cases "\<exists>i u. map_of (ur_byID (w_users w)) i = Some u \<and> User_Email u = e")
  case False
  obtain r v where h: "Hash h password w = (r, v)" by fastforce
  have "\<not> (\<exists>u. account ver w e password u)" "\<not> (\<exists>err. unverifiable ver w e password err)"
    using False by (auto simp: account_def unverifiable_def)
  then show ?thesis
    using memory_ByEmail_missing [OF assms(1) False] outside_hasherD(1) [OF assms(2) h] h
    by (simp add: verifyCredentials_def io_try_def io_bind_def io_fail_def NotFound_def)
next
  case True
  then obtain i u where u: "map_of (ur_byID (w_users w)) i = Some u" "User_Email u = e" by blast
  have uniq: "x = u" if "map_of (ur_byID (w_users w)) j = Some x" "User_Email x = e" for j x
    using that u users_email_owner [OF assms(1)] by auto (metis option.inject)
  obtain r v where v: "Verify h (User_PasswordHash u) password w = (r, v)" by fastforce
  note d = outside_hasherD(2) [OF assms(2) v]
  have b: "on_part w_users (\<lambda>s w. w\<lparr>w_users := s\<rparr>) (UserRepo_ByEmail e) w = (Inr u, w)"
    using memory_ByEmail [OF assms(1)] u by blast
  have "verifyCredentials (memory_identity h tk) e password w =
      ((case ver (User_PasswordHash u) password of Inl err \<Rightarrow> Inl err
        | Inr ok \<Rightarrow> if ok \<and> User_IsActive u then Inr u else Inl invalidCredentials), v)"
  proof -
    have v': "Verify h (User_PasswordHash u) password w = (ver (User_PasswordHash u) password, v)" using v d by blast
    show ?thesis
    proof (cases "ver (User_PasswordHash u) password")
      case (Inl err)
      then show ?thesis using b v' by (simp add: verifyCredentials_def io_try_def io_bind_def)
    next
      case (Inr ok)
      then show ?thesis using b v'
        by (cases "ok \<and> User_IsActive u") (auto simp: verifyCredentials_def io_try_def io_bind_def io_fail_def io_ret_def)
    qed
  qed
  moreover have "account ver w e password x \<longleftrightarrow> x = u \<and> ver (User_PasswordHash u) password = Inr True \<and> User_IsActive u" for x
    unfolding account_def using uniq u by blast
  moreover have "unverifiable ver w e password err \<longleftrightarrow> ver (User_PasswordHash u) password = Inl err" for err
    unfolding unverifiable_def using uniq u by blast
  ultimately show ?thesis using d
    by (intro exI [of _ "case ver (User_PasswordHash u) password of Inl err \<Rightarrow> Inl err
        | Inr ok \<Rightarrow> if ok \<and> User_IsActive u then Inr u else Inl invalidCredentials"] exI [of _ v])
      (simp split: sum.split)
qed

text \<open>
  C6: A failed login does not tell why. On the in-memory stack, with the account not locked out and whatever
  the hasher verifies as a function of hash and password, errors included, a login issues a session exactly
  for the active account of that address whose stored hash verifies the password. An unknown address, a wrong
  password, a locked account, a malformed address and an over-long password all get the same error; each such
  attempt with a well-formed address and length is recorded against that address and changes no other store.
  The exception is stated too: when the hasher cannot verify the stored hash of the addressed account, its
  own error is the answer, and (unless it is of the unauthorized kind) the attempt is not recorded.
\<close>

theorem login_uniform:
  assumes "users_inv (w_users w)" and "outside_hasher ver h"
    and "\<forall>e. LoginThrottle_Check (fst (World_now w)) e (w_throttle w) = Inr ()"
  shows "(\<forall>e u. NewEmail rawEmail = Inr e \<and> byte_len password \<le> 128 \<and> account ver w e password u \<longrightarrow>
      (\<exists>v. Login (memory_identity h tk) rawEmail password w = issue (memory_identity h tk) u v \<and>
           w_users v = w_users w \<and> w_refresh v = w_refresh w \<and> w_throttle v = LoginThrottle_Reset e (w_throttle w))) \<and>
    ((\<nexists>e u. NewEmail rawEmail = Inr e \<and> byte_len password \<le> 128 \<and> account ver w e password u) \<and>
     (\<nexists>e err. NewEmail rawEmail = Inr e \<and> byte_len password \<le> 128 \<and> unverifiable ver w e password err) \<longrightarrow>
      fst (Login (memory_identity h tk) rawEmail password w) = Inl invalidCredentials) \<and>
    (\<forall>e. NewEmail rawEmail = Inr e \<and> byte_len password \<le> 128 \<and> (\<nexists>u. account ver w e password u) \<and>
        (\<nexists>err. unverifiable ver w e password err) \<longrightarrow>
      (\<exists>t w'. Login (memory_identity h tk) rawEmail password w = (Inl invalidCredentials, w') \<and>
           w_users w' = w_users w \<and> w_refresh w' = w_refresh w \<and> w_throttle w' = LoginThrottle_Fail t e (w_throttle w))) \<and>
    (\<forall>e err. NewEmail rawEmail = Inr e \<and> byte_len password \<le> 128 \<and> unverifiable ver w e password err \<and>
        KindOf err \<noteq> KindUnauthorized \<longrightarrow>
      (\<exists>w'. Login (memory_identity h tk) rawEmail password w = (Inl err, w') \<and>
           w_users w' = w_users w \<and> w_refresh w' = w_refresh w \<and> w_throttle w' = w_throttle w))"
proof -
  let ?s = "memory_identity h tk"
  obtain t w1 where now: "World_now w = (t, w1)" by fastforce
  have st1: "stores w1 = stores w" by (rule stores_now [OF now])
  then have inv1: "users_inv (w_users w1)" using assms(1) by (simp add: stores_eq_iff)
  have acc1: "account ver w1 = account ver w" "unverifiable ver w1 = unverifiable ver w"
    using st1 by (simp_all add: account_def unverifiable_def fun_eq_iff stores_eq_iff)
  have max: "MaxAllowedLength DefaultPasswordPolicy = 128"
    by (simp add: MaxAllowedLength_def DefaultPasswordPolicy_def DefaultPasswordMaxLength_def)
  have chk: "throttleCheck ?s e w = (Inr (), w1)" for e
    using assms(3) now st1 by (simp add: throttleCheck_def io_simps stores_eq_iff)
  have run: "Login ?s rawEmail password w = (case NewEmail rawEmail of Inl err \<Rightarrow> (Inl invalidCredentials, w)
     | Inr e \<Rightarrow> if 128 < byte_len password then (Inl invalidCredentials, w)
        else (case verifyCredentials ?s e password w1 of
          (Inl err, v) \<Rightarrow> io_bind (if KindOf err = KindUnauthorized then throttleFail ?s e else io_ret ()) (\<lambda>u. io_fail err) v
        | (Inr u, v) \<Rightarrow> issue ?s u (v\<lparr>w_throttle := LoginThrottle_Reset e (w_throttle v)\<rparr>)))"
  proof (cases "NewEmail rawEmail")
    case (Inr e)
    obtain r v where v: "verifyCredentials ?s e password w1 = (r, v)" by fastforce
    have "throttleReset ?s e v = (Inr (), v\<lparr>w_throttle := LoginThrottle_Reset e (w_throttle v)\<rparr>)"
      by (simp add: throttleReset_def io_simps)
    with Inr v show ?thesis
      by (cases r; cases "128 < byte_len password") (simp_all add: Login_def max chk io_apply(2,4,5))
  qed (simp add: Login_def io_simps)
  have kind: "KindOf invalidCredentials = KindUnauthorized" by (simp add: invalidCredentials_def)
  have fails: "\<exists>t w'. Login ?s rawEmail password w = (Inl invalidCredentials, w') \<and> w_users w' = w_users w \<and>
      w_refresh w' = w_refresh w \<and> w_throttle w' = LoginThrottle_Fail t e (w_throttle w)"
    if e: "NewEmail rawEmail = Inr e" "byte_len password \<le> 128" "\<nexists>u. account ver w e password u"
      "\<nexists>err. unverifiable ver w e password err" for e
  proof -
    obtain v where v: "stores v = stores w1" "verifyCredentials ?s e password w1 = (Inl invalidCredentials, v)"
      using memory_verify [OF inv1 assms(2), of tk e password] e(3,4) acc1 by auto
    obtain t' v' where n: "World_now v = (t', v')" by fastforce
    have "Login ?s rawEmail password w =
        (Inl invalidCredentials, v'\<lparr>w_throttle := LoginThrottle_Fail t' e (w_throttle v')\<rparr>)"
      using e v n kind by (simp add: run throttleFail_def io_simps)
    then show ?thesis using v(1) st1 stores_now [OF n] by (auto simp: stores_eq_iff)
  qed
  have ok: "\<exists>v. Login ?s rawEmail password w = issue ?s u v \<and> w_users v = w_users w \<and> w_refresh v = w_refresh w \<and>
      w_throttle v = LoginThrottle_Reset e (w_throttle w)"
    if e: "NewEmail rawEmail = Inr e" "byte_len password \<le> 128" "account ver w e password u" for e u
  proof -
    obtain v where v: "stores v = stores w1" "verifyCredentials ?s e password w1 = (Inr u, v)"
      using memory_verify [OF inv1 assms(2), of tk e password] e(3) acc1 by auto
    have "Login ?s rawEmail password w = issue ?s u (v\<lparr>w_throttle := LoginThrottle_Reset e (w_throttle v)\<rparr>)"
      using e v by (simp add: run)
    then show ?thesis using v(1) st1
      by (intro exI [of _ "v\<lparr>w_throttle := LoginThrottle_Reset e (w_throttle v)\<rparr>"]) (simp add: stores_eq_iff)
  qed
  have err: "\<exists>w'. Login ?s rawEmail password w = (Inl err, w') \<and> w_users w' = w_users w \<and>
      w_refresh w' = w_refresh w \<and> w_throttle w' = w_throttle w"
    if e: "NewEmail rawEmail = Inr e" "byte_len password \<le> 128" "unverifiable ver w e password err"
      "KindOf err \<noteq> KindUnauthorized" for e err
  proof -
    obtain v where v: "stores v = stores w1" "verifyCredentials ?s e password w1 = (Inl err, v)"
      using memory_verify [OF inv1 assms(2), of tk e password] e(3) acc1 by auto
    have "Login ?s rawEmail password w = (Inl err, v)" using e v by (simp add: run io_simps)
    then show ?thesis using v(1) st1 by (simp add: stores_eq_iff)
  qed
  have other: "fst (Login ?s rawEmail password w) = Inl invalidCredentials"
    if none: "\<nexists>e u. NewEmail rawEmail = Inr e \<and> byte_len password \<le> 128 \<and> account ver w e password u"
      "\<nexists>e err. NewEmail rawEmail = Inr e \<and> byte_len password \<le> 128 \<and> unverifiable ver w e password err"
  proof (cases "\<exists>e. NewEmail rawEmail = Inr e \<and> byte_len password \<le> 128")
    case True
    then show ?thesis using fails none by (metis fst_conv)
  qed (auto simp: run split: sum.splits)
  show ?thesis using fails ok err other by blast
qed

subsection \<open>Registration, rotation and revocation on the in-memory stack\<close>

lemma issue_memory:
  assumes "outside_tokens tk" and "issue (memory_identity h tk) u w = (Inr ses, w')"
  shows "w_users w' = w_users w" and "w_candidates w' = w_candidates w" and "w_throttle w' = w_throttle w"
    and "\<exists>t. w_refresh w' = AList.update (RT_ID (Ses_Refresh ses)) \<lparr>RR_ID = RT_ID (Ses_Refresh ses), RR_UserID = User_ID u,
       ExpiresAt = t + RT_ExpiresIn (Ses_Refresh ses), Revoked = False\<rparr> (w_refresh w)"
proof -
  from issue_ok [OF assms(2)] obtain p q v1 v2 t v3 where
    a: "IssueAccess tk p w = (Inr (Ses_Access ses), v1)" and r: "IssueRefresh tk q v1 = (Inr (Ses_Refresh ses), v2)"
    and n: "World_now v2 = (t, v3)"
    and sv: "w' = v3\<lparr>w_refresh := AList.update (RT_ID (Ses_Refresh ses)) \<lparr>RR_ID = RT_ID (Ses_Refresh ses),
       RR_UserID = User_ID u, ExpiresAt = t + RT_ExpiresIn (Ses_Refresh ses), Revoked = False\<rparr> (w_refresh v3)\<rparr>"
    by (auto simp: io_ok RefreshStore_Save_def)
  have "stores v3 = stores w"
    using outside_tokensD(1) [OF assms(1) a] outside_tokensD(2) [OF assms(1) r] stores_now [OF n] by simp
  then show "w_users w' = w_users w" "w_candidates w' = w_candidates w" "w_throttle w' = w_throttle w"
    "\<exists>t. w_refresh w' = AList.update (RT_ID (Ses_Refresh ses)) \<lparr>RR_ID = RT_ID (Ses_Refresh ses), RR_UserID = User_ID u,
       ExpiresAt = t + RT_ExpiresIn (Ses_Refresh ses), Revoked = False\<rparr> (w_refresh w)"
    unfolding sv by (auto simp: stores_eq_iff)
qed

lemma provision_memory:
  assumes "CandidateProvisioner_Provision memory_candidates World_newID u w = (Inr (), w')"
  shows "w_users w' = w_users w \<and> w_refresh w' = w_refresh w \<and>
    (if User_Role u \<noteq> RoleCandidate then w_candidates w' = w_candidates w
     else map_of (ks_bySecond (w_candidates w)) (User_ID u) = None \<and>
       map_of (ks_byID (w_candidates w')) = (map_of (ks_byID (w_candidates w)))
         (User_ID u \<mapsto> \<lparr>Cand_ID = User_ID u, Cand_UserID = User_ID u, Cand_Location = [], Cand_Intake = zero_intake\<rparr>))"
proof (cases "User_Role u = RoleCandidate")
  case True
  with assms obtain i v c where n: "World_newID w = (i, v)" and c: "NewCandidate i (User_ID u) [] zero_intake = Inr c"
    and k: "CandidateRepo_Create (c\<lparr>Cand_ID := User_ID u\<rparr>) (w_candidates v) = (Inr (), w_candidates w')"
    and w': "w' = v\<lparr>w_candidates := w_candidates w'\<rparr>"
    by (auto simp: CandidateProvisioner_Provision_def io_ok)
  have "c\<lparr>Cand_ID := User_ID u\<rparr> =
      \<lparr>Cand_ID = User_ID u, Cand_UserID = User_ID u, Cand_Location = [], Cand_Intake = zero_intake\<rparr>"
    using c by (auto simp: NewCandidate_def split: if_splits sum.splits)
  with k stores_newID [OF n] True show ?thesis
    by (subst (1 2) w') (auto simp: stores_eq_iff CandidateRepo_Create_def ks_create_def Let_def update_conv'
        split: if_splits dest!: sym [of _ "w_candidates w'"])
qed (use assms in \<open>simp add: CandidateProvisioner_Provision_def io_ok\<close>)

text \<open>
  What a registration leaves behind. On the in-memory stack, with identifiers that are not in
  use, a successful registration is for a self-registerable role, an address no account had and a
  password within the policy; it adds exactly one account, active, with the canonical address and
  the hash of the password, keeps the e-mail index consistent, adds the candidate record with the
  account's own identifier exactly when the account is a candidate's, and records a refresh grant.
\<close>

theorem register_stores:
  assumes "Register (memory_identity h tk) inp w = (Inr ses, w')"
    and "users_inv (w_users w)" and "outside_hasher ver h" and "outside_tokens tk"
    and "map_of (ur_byID (w_users w)) (User_ID (Ses_User ses)) = None"
  shows "let u = Ses_User ses in
      Role_Registerable (User_Role u) \<and> User_Role u = In_Role inp \<and> User_IsActive u \<and> user_ok u \<and>
      NewEmail (In_Email inp) = Inr (User_Email u) \<and>
      12 \<le> byte_len (In_Password inp) \<and> byte_len (In_Password inp) \<le> 128 \<and>
      (\<exists>v v'. Hash h (In_Password inp) v = (Inr (User_PasswordHash u), v')) \<and>
      (\<nexists>i v. map_of (ur_byID (w_users w)) i = Some v \<and> User_Email v = User_Email u) \<and>
      users_inv (w_users w') \<and> map_of (ur_byID (w_users w')) = (map_of (ur_byID (w_users w)))(User_ID u \<mapsto> u) \<and>
      (if User_Role u = RoleCandidate
       then map_of (ks_byID (w_candidates w')) = (map_of (ks_byID (w_candidates w)))
         (User_ID u \<mapsto> \<lparr>Cand_ID = User_ID u, Cand_UserID = User_ID u, Cand_Location = [], Cand_Intake = zero_intake\<rparr>)
       else w_candidates w' = w_candidates w) \<and>
      (\<exists>rec. map_of (w_refresh w') (RT_ID (Ses_Refresh ses)) = Some rec \<and> RR_UserID rec = User_ID u \<and> \<not> Revoked rec)"
proof -
  from assms(1) obtain email hash now newid u v1 v2 v3 v4 v5 where e: "NewEmail (In_Email inp) = Inr email"
    and p: "PasswordPolicy_Validate DefaultPasswordPolicy (In_Password inp) = Inr ()"
    and r: "Role_Registerable (In_Role inp)" and hash: "Hash h (In_Password inp) w = (Inr hash, v1)"
    and now: "World_now v1 = (now, v2)" and newid: "World_newID v2 = (newid, v3)"
    and u: "NewUser newid email (In_Role inp) (In_Name inp) hash now = Inr u"
    and cr: "at_users (UserRepo_Create u) v3 = (Inr (), v4)"
    and pr: "CandidateProvisioner_Provision memory_candidates World_newID u v4 = (Inr (), v5)"
    and i: "issue (memory_identity h tk) u v5 = (Inr ses, w')"
    by (auto simp: Register_def io_bind_Inr_iff io_ok_iffs)
  have ses: "Ses_User ses = u" using issue_ok [OF i] by simp
  have st: "stores v3 = stores w"
    using outside_hasherD(1) [OF assms(3) hash] stores_now [OF now] stores_newID [OF newid] by simp
  note uok = NewUser_ok [OF u]
  have nidx: "map_of (ur_byEmail (w_users w)) (User_Email u) = None"
    using cr st by (auto simp: io_ok UserRepo_Create_def stores_eq_iff split: if_splits)
  have free: "map_of (ur_byID (w_users w)) (User_ID u) = None" using assms(5) ses by simp
  obtain r' where r': "UserRepo_Create u (w_users w) = (Inr (), r')" "users_inv r'"
      "map_of (ur_byID r') = (map_of (ur_byID (w_users w)))(User_ID u \<mapsto> u)"
    using UserRepo_Create_ok [OF assms(2) free nidx] by blast
  have v4: "v4 = v3\<lparr>w_users := r'\<rparr>" using cr st r'(1) by (auto simp: io_ok stores_eq_iff)
  note prov = provision_memory [OF pr] and iss = issue_memory [OF assms(4) i]
  have "w_users w' = r'" using prov iss(1) v4 by simp
  moreover have "\<nexists>i v. map_of (ur_byID (w_users w)) i = Some v \<and> User_Email v = User_Email u"
    using users_invD(2) [OF assms(2)] nidx by fastforce
  moreover have "w_candidates v4 = w_candidates w" using v4 st by (simp add: stores_eq_iff)
  moreover have "\<exists>rec. map_of (w_refresh w') (RT_ID (Ses_Refresh ses)) = Some rec \<and> RR_UserID rec = User_ID u \<and> \<not> Revoked rec"
    using iss(4) by (auto simp: update_conv')
  ultimately show ?thesis
    using uok e r p hash r'(2,3) prov iss(2) by (auto simp: ses Let_def Password_ok_iff)
qed

text \<open>
  C7: A refresh token buys one session. On the in-memory stack, once a refresh token was exchanged
  for a new session, or logged out, exchanging it again is refused as unauthorized, whatever other
  refresh grants were consumed, revoked or saved under another identifier in between.
\<close>

theorem refresh_token_once:
  assumes "outside_tokens tk" and "\<forall>v. fst (VerifyRefresh tk token v) = Inr claims"
    and "(\<exists>ses. Refresh (memory_identity h tk) token w = (Inr ses, w1) \<and> RT_ID (Ses_Refresh ses) \<noteq> RC_ID claims) \<or>
      Logout (memory_identity h tk) token w = (Inr (), w1)"
    and "(refresh_step (RC_ID claims))\<^sup>*\<^sup>* (w_refresh w1) (w_refresh w2)"
  shows "fst (Refresh (memory_identity h tk) token w2) = Inl (Unauthorized ''auth: refresh token is not valid'')"
proof -
  let ?j = "RC_ID claims"
  have ver: "\<exists>v'. VerifyRefresh tk token v = (Inr claims, v') \<and> stores v' = stores v" for v
    using assms(2) outside_tokensD(3) [OF assms(1)] by (metis prod.collapse)
  have "spent ?j (w_refresh w1)"
    using assms(3)
  proof (elim disjE exE conjE)
    fix ses assume run: "Refresh (memory_identity h tk) token w = (Inr ses, w1)" and new: "RT_ID (Ses_Refresh ses) \<noteq> ?j"
    obtain v where v: "VerifyRefresh tk token w = (Inr claims, v)" using ver by blast
    from run obtain t v1 rec v2 u v3 where c: "at_refresh (RefreshStore_Consume ?j t) v1 = (Inr rec, v2)"
      and b: "at_users (UserRepo_ByID (RR_UserID rec)) v2 = (Inr u, v3)"
      and i: "issue (memory_identity h tk) u v3 = (Inr ses, w1)"
      by (auto simp: Refresh_def io_bind_Inr_iff io_ok_iffs io_cases_ok io_try_ok v)
    have "spent ?j (w_refresh v2)" using c Consume_spends by (auto simp: io_ok)
    moreover have "w_refresh v3 = w_refresh v2" using b by (auto simp: io_ok)
    ultimately show ?thesis
      using issue_memory(4) [OF assms(1) i] new by (auto simp: spent_def update_conv')
  next
    assume "Logout (memory_identity h tk) token w = (Inr (), w1)"
    moreover obtain v where "VerifyRefresh tk token w = (Inr claims, v)" using ver by blast
    ultimately have "\<exists>r. at_refresh (RefreshStore_Revoke ?j) v = (Inr (), w1)"
      by (simp add: Logout_def io_try_def io_bind_def)
    then show ?thesis using Revoke_spends by (auto simp: io_ok)
  qed
  then have sp: "spent ?j (w_refresh w2)" using spent_steps assms(4) by blast
  obtain v where v: "VerifyRefresh tk token w2 = (Inr claims, v)" "stores v = stores w2" using ver by blast
  obtain t v' where n: "World_now v = (t, v')" by fastforce
  have "spent ?j (w_refresh v')" using sp v(2) stores_now [OF n] by (simp add: stores_eq_iff)
  from spent_Consume [OF this, of t] show ?thesis using v(1) n by (simp add: Refresh_def io_simps)
qed

subsection \<open>A run\<close>

text \<open>A hasher and a token service for the witnesses: a prefix as hash, the empty text not a hash, drawn
  identifiers as tokens.\<close>

definition sample_verify :: "gostr \<Rightarrow> gostr \<Rightarrow> bool res" where
  "sample_verify e p = (if e = [] then Inl (Invalid ''auth: malformed password hash'') else Inr (e = 104 # p))"

definition sample_hasher :: "World PasswordHasher" where
  "sample_hasher = \<lparr>Hash = (\<lambda>p. io_ret (104 # p)), Verify = (\<lambda>e p. io_lift (sample_verify e p))\<rparr>"

definition sample_tokens :: "World TokenService" where
  "sample_tokens = \<lparr>IssueAccess = (\<lambda>p. io_ret \<lparr>AT_Token = Pri_UserID p, AT_ExpiresIn = 900\<rparr>),
     IssueRefresh = (\<lambda>p. io_bind (io_of World_newID) (\<lambda>i. io_ret \<lparr>RT_Token = i, RT_ID = i, RT_ExpiresIn = 9000\<rparr>)),
     VerifyAccess = (\<lambda>t. io_ret \<lparr>Pri_UserID = t, Pri_Role = []\<rparr>),
     VerifyRefresh = (\<lambda>t. io_ret \<lparr>RC_Principal = \<lparr>Pri_UserID = [], Pri_Role = []\<rparr>, RC_ID = t\<rparr>)\<rparr>"

definition sample_world :: World where
  "sample_world = memory_world (\<lambda>n. 1000 + int n) (\<lambda>n. [65 + int n])"

definition sample_input :: RegisterInput where
  "sample_input = \<lparr>In_Email = lit '' Ada@Example.com'', In_Password = lit ''correct horse battery'',
     In_Name = lit ''Ada'', In_Role = RoleCandidate\<rparr>"

definition sample_run :: "Session res \<times> World" where
  "sample_run = Register (memory_identity sample_hasher sample_tokens) sample_input sample_world"

lemma sample_outside:
  "outside_hasher sample_verify sample_hasher" "outside_tokens sample_tokens"
  by (auto simp: outside_hasher_def outside_tokens_def sample_hasher_def sample_tokens_def io_simps
      World_newID_def stores_def split: prod.splits intro!: externalI)

lemma sample_registers: "\<exists>ses w'. sample_run = (Inr ses, w')"
proof -
  have "\<not> isl (fst sample_run)" by code_simp
  then show ?thesis by (metis isl_def prod.collapse sum.collapse(2))
qed

lemma sample_world_inv: "users_inv (w_users sample_world)" "map_of (ur_byID (w_users sample_world)) = Map.empty"
  using users_inv_new by (simp_all add: sample_world_def memory_world_def) (simp add: NewUserRepo_def)

lemma register_stores_witness:
  "\<exists>ses w'. sample_run = (Inr ses, w') \<and> map_of (ur_byID (w_users w')) (User_ID (Ses_User ses)) = Some (Ses_User ses) \<and>
     NewEmail (In_Email sample_input) = Inr (User_Email (Ses_User ses)) \<and> users_inv (w_users w')"
proof -
  obtain ses w' where r: "sample_run = (Inr ses, w')" using sample_registers by blast
  have "map_of (ur_byID (w_users sample_world)) (User_ID (Ses_User ses)) = None" using sample_world_inv(2) by simp
  from register_stores [OF r [unfolded sample_run_def] sample_world_inv(1) sample_outside this] r
  show ?thesis by (intro exI [of _ ses] exI [of _ w']) (simp add: Let_def)
qed

text \<open>The account of the run, and its first login.\<close>

definition sample_login :: "gostr \<Rightarrow> Session res \<times> World" where
  "sample_login password =
     Login (memory_identity sample_hasher sample_tokens) (In_Email sample_input) password (snd sample_run)"

lemma login_sound_witness:
  "\<exists>ses w'. sample_login (In_Password sample_input) = (Inr ses, w') \<and> User_IsActive (Ses_User ses)"
proof -
  have "\<not> isl (fst (sample_login (In_Password sample_input)))" by code_simp
  then obtain ses w' where r: "sample_login (In_Password sample_input) = (Inr ses, w')"
    by (metis isl_def prod.collapse sum.collapse(2))
  from login_sound [OF r [unfolded sample_login_def]] r show ?thesis by blast
qed

definition sample_user :: User where
  "sample_user = \<lparr>User_ID = [65], User_Email = lit ''a@b.c'', User_Role = RoleEmployer, User_Name = [65],
     User_PasswordHash = 104 # lit ''swordfish'', User_Status = StatusActive, User_CreatedAt = 5\<rparr>"

definition sample_accounts :: World where
  "sample_accounts = sample_world\<lparr>w_users := \<lparr>ur_byID = [([65], sample_user)], ur_byEmail = [(User_Email sample_user, [65])]\<rparr>\<rparr>"

text \<open>The same stores with a stored hash that cannot be read.\<close>

definition sample_spoilt :: World where
  "sample_spoilt = sample_world\<lparr>w_users := \<lparr>ur_byID = [([65], sample_user\<lparr>User_PasswordHash := []\<rparr>)],
     ur_byEmail = [(User_Email sample_user, [65])]\<rparr>\<rparr>"

lemma login_uniform_witness:
  "(\<exists>v. Login (memory_identity sample_hasher sample_tokens) (lit ''A@b.c '') (lit ''swordfish'') sample_accounts =
      issue (memory_identity sample_hasher sample_tokens) sample_user v) \<and>
   fst (Login (memory_identity sample_hasher sample_tokens) (lit ''a@b.c'') (lit ''Swordfish'') sample_accounts) =
     Inl invalidCredentials \<and>
   fst (Login (memory_identity sample_hasher sample_tokens) (lit ''a@b.c'') (lit ''swordfish'') sample_spoilt) =
     Inl (Invalid ''auth: malformed password hash'')"
proof -
  have inv: "users_inv (w_users sample_accounts)" "users_inv (w_users sample_spoilt)"
    by (simp_all add: users_inv_def sample_accounts_def sample_spoilt_def) (simp_all add: sample_user_def)
  have open_: "\<forall>e. LoginThrottle_Check (fst (World_now w)) e (w_throttle w) = Inr ()"
    if "w = sample_accounts \<or> w = sample_spoilt" for w
    using that by (auto simp: sample_accounts_def sample_spoilt_def sample_world_def memory_world_def
        NewLoginThrottle_def LoginThrottle_Check_def)
  have em: "NewEmail (lit ''A@b.c '') = Inr (User_Email sample_user)" "NewEmail (lit ''a@b.c'') = Inr (User_Email sample_user)"
    and len: "byte_len (lit ''swordfish'') \<le> 128" "byte_len (lit ''Swordfish'') \<le> 128"
    and acc: "User_IsActive sample_user \<and> User_PasswordHash sample_user = 104 # lit ''swordfish''"
      "User_PasswordHash sample_user \<noteq> 104 # lit ''Swordfish''"
    by code_simp+
  have is_acc: "account sample_verify sample_accounts (User_Email sample_user) p u \<longleftrightarrow>
      u = sample_user \<and> p = lit ''swordfish''" for p u
    using acc(1) by (auto simp: account_def sample_verify_def sample_accounts_def simp del: lit_simps)
  have no_err: "\<not> unverifiable sample_verify sample_accounts e p err" for e p err
    using acc(1) by (auto simp: unverifiable_def sample_verify_def sample_accounts_def simp del: lit_simps)
  have err: "unverifiable sample_verify sample_spoilt (User_Email sample_user) p (Invalid ''auth: malformed password hash'')" for p
    by (simp add: unverifiable_def sample_verify_def sample_spoilt_def)
  note t = login_uniform [OF inv(1) sample_outside(1) open_, of _ _ sample_tokens, simplified no_err simp_thms]
  note f = login_uniform [OF inv(2) sample_outside(1) open_, of "lit ''a@b.c''" "lit ''swordfish''" sample_tokens]
  have "fst (Login (memory_identity sample_hasher sample_tokens) (lit ''a@b.c'') (lit ''swordfish'') sample_spoilt) =
     Inl (Invalid ''auth: malformed password hash'')"
    using f em(2) len(1) err [of "lit ''swordfish''"] by (force simp: Invalid_def simp del: lit_simps)
  then show ?thesis using t [of "lit ''A@b.c ''" "lit ''swordfish''"] t [of "lit ''a@b.c''" "lit ''Swordfish''"] em len acc(2)
    by (auto simp: is_acc acc(1) simp del: lit_simps)
qed

lemma refresh_token_once_witness:
  "fst (Refresh (memory_identity sample_hasher sample_tokens) [67]
      (snd (Refresh (memory_identity sample_hasher sample_tokens) [67] (snd sample_run)))) =
   Inl (Unauthorized ''auth: refresh token is not valid'')"
proof (rule refresh_token_once [OF sample_outside(2), where claims = "\<lparr>RC_Principal = \<lparr>Pri_UserID = [], Pri_Role = []\<rparr>, RC_ID = [67]\<rparr>"])
  let ?r = "Refresh (memory_identity sample_hasher sample_tokens) [67] (snd sample_run)"
  have c: "case fst ?r of Inr ses \<Rightarrow> RT_ID (Ses_Refresh ses) \<noteq> [67] | Inl e \<Rightarrow> False" by code_simp
  then obtain ses where "fst ?r = Inr ses" by (cases "fst ?r") simp_all
  then show "(\<exists>ses. ?r = (Inr ses, snd ?r) \<and> RT_ID (Ses_Refresh ses) \<noteq>
        RC_ID \<lparr>RC_Principal = \<lparr>Pri_UserID = [], Pri_Role = []\<rparr>, RC_ID = [67]\<rparr>) \<or>
      Logout (memory_identity sample_hasher sample_tokens) [67] (snd sample_run) = (Inr (), snd ?r)"
    using c by (intro disjI1 exI [of _ ses]) (simp add: prod_eq_iff)
qed (simp_all add: sample_tokens_def io_simps)

end
