(* ===== verification/Go_JSON_Decode.thy ===== *)
theory Go_JSON_Decode
  imports Go_JSON Float64
begin

section \<open>Reading JSON\<close>

text \<open>
  \<open>json.Unmarshal\<close> as the program uses it: the scanner of \<open>encoding/json\<close> as a lexer and a machine
  with the stack of the open objects and arrays, and the decoding of a value into a struct, which
  matches field names without regard to case, ignores unknown names and leaves a field alone on
  \<open>null\<close>. Decoding answers \<open>None\<close> for every error; the texts of the errors are not modelled. The last
  section shows that the scanner reads back what the encoder writes.
\<close>

datatype jval = VNull | VBool bool | VNum gostr | VStr gostr | VArr "jval list" | VObj "(gostr \<times> jval) list"

subsection \<open>Tokens\<close>

datatype jtok = TOpen | TClose | TBrack | TEnd | TColon | TComma | TStr gostr | TScalar jval

definition json_space :: "rune \<Rightarrow> bool" where
  "json_space r \<longleftrightarrow> r = 32 \<or> r = 9 \<or> r = 10 \<or> r = 13"

definition json_digit :: "rune \<Rightarrow> bool" where
  "json_digit r \<longleftrightarrow> 48 \<le> r \<and> r \<le> 57"

definition hex_value :: "rune \<Rightarrow> int option" where
  "hex_value r = (if 48 \<le> r \<and> r \<le> 57 then Some (r - 48) else if 97 \<le> r \<and> r \<le> 102 then Some (r - 87)
     else if 65 \<le> r \<and> r \<le> 70 then Some (r - 55) else None)"

definition getu4 :: "rune \<Rightarrow> rune \<Rightarrow> rune \<Rightarrow> rune \<Rightarrow> rune option" where
  "getu4 a b c d = (case (hex_value a, hex_value b, hex_value c, hex_value d) of
     (Some x, Some y, Some z, Some u) \<Rightarrow> Some (4096 * x + 256 * y + 16 * z + u) | _ \<Rightarrow> None)"

definition simple_escape :: "rune \<Rightarrow> rune option" where
  "simple_escape r = (if r = 34 \<or> r = 92 \<or> r = 47 then Some r else if r = 98 then Some 8 else if r = 102 then Some 12
     else if r = 110 then Some 10 else if r = 114 then Some 13 else if r = 116 then Some 9 else None)"

text \<open>
  The rest of a string after its opening quote, decoded, and what follows the closing quote. A
  surrogate that is not the first of a pair becomes the replacement rune; the second of a bad pair
  is read again on its own.
\<close>

definition surrogate :: "rune \<Rightarrow> bool" where
  "surrogate u \<longleftrightarrow> 55296 \<le> u \<and> u < 57344"

definition pair_rune :: "rune \<Rightarrow> rune \<Rightarrow> rune option" where
  "pair_rune u v = (if 55296 \<le> u \<and> u < 56320 \<and> 56320 \<le> v \<and> v < 57344
     then Some ((u - 55296) * 1024 + (v - 56320) + 65536) else None)"

definition pushed :: "rune \<Rightarrow> (gostr \<times> gostr) option \<Rightarrow> (gostr \<times> gostr) option" where
  "pushed r = map_option (\<lambda>(s, rest). (r # s, rest))"

definition escape_unit :: "gostr \<Rightarrow> (rune \<times> gostr) option" where
  "escape_unit s = (case s of a # b # c # d # rest \<Rightarrow>
       (case getu4 a b c d of None \<Rightarrow> None | Some u \<Rightarrow>
         if \<not> surrogate u then Some (u, rest)
         else (case rest of bs # uu # a' # b' # c' # d' # rest' \<Rightarrow>
             if bs = 92 \<and> uu = 117 then
               (case Option.bind (getu4 a' b' c' d') (pair_rune u) of Some p \<Rightarrow> Some (p, rest') | None \<Rightarrow> Some (65533, rest))
             else Some (65533, rest)
           | _ \<Rightarrow> Some (65533, rest)))
     | _ \<Rightarrow> None)"

definition string_unit :: "rune \<Rightarrow> gostr \<Rightarrow> (rune \<times> gostr) option" where
  "string_unit r rs =
     (if r < 32 then None
      else if r \<noteq> 92 then Some (r, rs)
      else (case rs of [] \<Rightarrow> None | e # es \<Rightarrow>
        if e = 117 then escape_unit es else map_option (\<lambda>c. (c, es)) (simple_escape e)))"

lemma escape_unit_shorter: "escape_unit s = Some (c, rest) \<Longrightarrow> length rest < length s"
  by (auto simp: escape_unit_def split: list.splits option.splits if_splits)

lemma string_unit_shorter: "string_unit r s = Some (c, rest) \<Longrightarrow> length rest \<le> length s"
  by (auto simp: string_unit_def split: list.splits option.splits if_splits dest: escape_unit_shorter)

function lex_string :: "gostr \<Rightarrow> (gostr \<times> gostr) option" where
  "lex_string [] = None"
| "lex_string (r # rs) =
     (if r = 34 then Some ([], rs)
      else (case string_unit r rs of None \<Rightarrow> None | Some (c, rest) \<Rightarrow> pushed c (lex_string rest)))"
  by pat_completeness auto
termination
  by (relation "measure length") (auto dest: string_unit_shorter)

text \<open>A number: the optional sign, the integer part, and the optional fraction and exponent.\<close>

definition digits1 :: "gostr \<Rightarrow> (gostr \<times> gostr) option" where
  "digits1 s = (let ds = takeWhile json_digit s in if ds = [] then None else Some (ds, dropWhile json_digit s))"

definition lex_int :: "gostr \<Rightarrow> (gostr \<times> gostr) option" where
  "lex_int s = (case s of c # cs \<Rightarrow> if c = 48 then Some ([48], cs) else digits1 s | [] \<Rightarrow> None)"

definition lex_frac :: "gostr \<Rightarrow> (gostr \<times> gostr) option" where
  "lex_frac s = (case s of c # cs \<Rightarrow>
       if c = 46 then map_option (\<lambda>(ds, rest). (46 # ds, rest)) (digits1 cs) else Some ([], s)
     | [] \<Rightarrow> Some ([], []))"

definition lex_exp :: "gostr \<Rightarrow> (gostr \<times> gostr) option" where
  "lex_exp s = (case s of c # cs \<Rightarrow>
       if c = 101 \<or> c = 69 then
         (case cs of g # gs \<Rightarrow>
            if g = 43 \<or> g = 45 then map_option (\<lambda>(ds, rest). (c # g # ds, rest)) (digits1 gs)
            else map_option (\<lambda>(ds, rest). (c # ds, rest)) (digits1 cs)
          | [] \<Rightarrow> None)
       else Some ([], s)
     | [] \<Rightarrow> Some ([], []))"

definition lex_number :: "gostr \<Rightarrow> (gostr \<times> gostr) option" where
  "lex_number s =
     (let (sign, s1) = (case s of c # cs \<Rightarrow> if c = 45 then ([45], cs) else ([], s) | [] \<Rightarrow> ([], []))
      in case lex_int s1 of None \<Rightarrow> None | Some (i, s2) \<Rightarrow>
         (case lex_frac s2 of None \<Rightarrow> None | Some (f, s3) \<Rightarrow>
         (case lex_exp s3 of None \<Rightarrow> None | Some (e, s4) \<Rightarrow> Some (sign @ i @ f @ e, s4))))"

lemma lex_string_shorter: "lex_string s = Some (t, rest) \<Longrightarrow> length rest < length s"
  by (induction s arbitrary: t rule: lex_string.induct)
    (force simp: pushed_def split: if_splits option.splits dest: string_unit_shorter)+

lemma lex_number_shorter: "lex_number s = Some (t, rest) \<Longrightarrow> length rest < length s"
proof -
  have d: "digits1 s = Some (t, rest) \<Longrightarrow> length rest < length s" for s t rest
    by (cases s) (auto simp: digits1_def Let_def split: if_splits intro: le_less_trans [OF length_dropWhile_le])
  have i: "lex_int s = Some (t, rest) \<Longrightarrow> length rest < length s" for s t rest
    by (cases s) (auto simp: lex_int_def split: if_splits dest: d)
  have f: "lex_frac s = Some (t, rest) \<Longrightarrow> length rest \<le> length s" for s t rest
    by (cases s) (auto simp: lex_frac_def split: if_splits dest: d)
  have e: "lex_exp s = Some (t, rest) \<Longrightarrow> length rest \<le> length s" for s t rest
    by (cases s) (auto simp: lex_exp_def split: if_splits list.splits dest!: d)
  show "lex_number s = Some (t, rest) \<Longrightarrow> length rest < length s"
    by (cases s) (auto simp: lex_number_def split: if_splits option.splits dest!: i f e)
qed

definition cons_tok :: "jtok \<Rightarrow> jtok list option \<Rightarrow> jtok list option" where
  "cons_tok t = map_option (Cons t)"

definition lex_word :: "gostr \<Rightarrow> (jval \<times> nat) option" where
  "lex_word s = (if strings_HasPrefix s (lit ''true'') then Some (VBool True, 4)
     else if strings_HasPrefix s (lit ''false'') then Some (VBool False, 5)
     else if strings_HasPrefix s (lit ''null'') then Some (VNull, 4) else None)"

function json_lex :: "gostr \<Rightarrow> jtok list option" where
  "json_lex [] = Some []"
| "json_lex (r # rs) =
     (if json_space r then json_lex rs
      else if r = 123 then cons_tok TOpen (json_lex rs) else if r = 125 then cons_tok TClose (json_lex rs)
      else if r = 91 then cons_tok TBrack (json_lex rs) else if r = 93 then cons_tok TEnd (json_lex rs)
      else if r = 58 then cons_tok TColon (json_lex rs) else if r = 44 then cons_tok TComma (json_lex rs)
      else if r = 34 then
        (case lex_string rs of None \<Rightarrow> None | Some (s, rest) \<Rightarrow> cons_tok (TStr s) (json_lex rest))
      else if r = 45 \<or> json_digit r then
        (case lex_number (r # rs) of None \<Rightarrow> None | Some (n, rest) \<Rightarrow> cons_tok (TScalar (VNum n)) (json_lex rest))
      else (case lex_word (r # rs) of None \<Rightarrow> None
        | Some (v, n) \<Rightarrow> cons_tok (TScalar v) (json_lex (drop (n - 1) rs))))"
  by pat_completeness auto
termination
  by (relation "measure length") (auto dest!: lex_string_shorter lex_number_shorter)

subsection \<open>The scanner\<close>

text \<open>The stack holds what is open: the elements of an array, the members of an object, the key whose value is read.\<close>

datatype jframe = FArr "jval list" | FObj "(gostr \<times> jval) list" | FKey "(gostr \<times> jval) list" gostr

datatype jmode = WantValue | WantValueOrEnd | WantKey | WantKeyOrEnd | WantColon gostr | After jval

definition maxNestingDepth :: nat where "maxNestingDepth = 10000"

definition open_frame :: "jmode \<Rightarrow> jframe \<Rightarrow> jframe list \<Rightarrow> (jmode \<times> jframe list) option" where
  "open_frame m f fs = (if length fs < maxNestingDepth then Some (m, f # fs) else None)"

definition value_token :: "jframe list \<Rightarrow> jtok \<Rightarrow> (jmode \<times> jframe list) option" where
  "value_token fs t = (case t of TStr s \<Rightarrow> Some (After (VStr s), fs) | TScalar v \<Rightarrow> Some (After v, fs)
     | TBrack \<Rightarrow> open_frame WantValueOrEnd (FArr []) fs | TOpen \<Rightarrow> open_frame WantKeyOrEnd (FObj []) fs | _ \<Rightarrow> None)"

fun after_token :: "jval \<Rightarrow> jframe list \<Rightarrow> jtok \<Rightarrow> (jmode \<times> jframe list) option" where
  "after_token v (FArr xs # fs) t = (if t = TComma then Some (WantValue, FArr (xs @ [v]) # fs)
     else if t = TEnd then Some (After (VArr (xs @ [v])), fs) else None)"
| "after_token v (FKey kvs k # fs) t = (if t = TComma then Some (WantKey, FObj (kvs @ [(k, v)]) # fs)
     else if t = TClose then Some (After (VObj (kvs @ [(k, v)])), fs) else None)"
| "after_token v fs t = None"

fun scan_step :: "jmode \<Rightarrow> jframe list \<Rightarrow> jtok \<Rightarrow> (jmode \<times> jframe list) option" where
  "scan_step WantValue fs t = value_token fs t"
| "scan_step WantValueOrEnd fs t = (if t = TEnd then
     (case fs of FArr xs # gs \<Rightarrow> Some (After (VArr xs), gs) | _ \<Rightarrow> None) else value_token fs t)"
| "scan_step WantKey fs t = (case t of TStr k \<Rightarrow> Some (WantColon k, fs) | _ \<Rightarrow> None)"
| "scan_step WantKeyOrEnd fs t = (if t = TClose then
     (case fs of FObj kvs # gs \<Rightarrow> Some (After (VObj kvs), gs) | _ \<Rightarrow> None)
     else case t of TStr k \<Rightarrow> Some (WantColon k, fs) | _ \<Rightarrow> None)"
| "scan_step (WantColon k) fs t = (if t = TColon then
     (case fs of FObj kvs # gs \<Rightarrow> Some (WantValue, FKey kvs k # gs) | _ \<Rightarrow> None) else None)"
| "scan_step (After v) fs t = after_token v fs t"

fun scan :: "jmode \<Rightarrow> jframe list \<Rightarrow> jtok list \<Rightarrow> (jmode \<times> jframe list) option" where
  "scan m fs [] = Some (m, fs)"
| "scan m fs (t # ts) = (case scan_step m fs t of None \<Rightarrow> None | Some (m', fs') \<Rightarrow> scan m' fs' ts)"

definition json_parse :: "gostr \<Rightarrow> jval option" where
  "json_parse s = (case json_lex s of None \<Rightarrow> None | Some ts \<Rightarrow>
     (case scan WantValue [] ts of Some (After v, []) \<Rightarrow> Some v | _ \<Rightarrow> None))"

subsection \<open>Decoding into Go values\<close>

text \<open>A decoder changes the value that is already there.\<close>

type_synonym 'a decoder = "jval \<Rightarrow> 'a \<Rightarrow> 'a option"

definition digits_value :: "gostr \<Rightarrow> int" where
  "digits_value ds = foldl (\<lambda>n d. 10 * n + (d - 48)) 0 ds"

text \<open>The value of a number literal that the lexer accepted.\<close>

definition number_value :: "gostr \<Rightarrow> rat" where
  "number_value n =
     (let neg = (n \<noteq> [] \<and> hd n = 45); m = (if neg then tl n else n);
          ip = takeWhile json_digit m; r1 = dropWhile json_digit m;
          fp = (if r1 \<noteq> [] \<and> hd r1 = 46 then takeWhile json_digit (tl r1) else []);
          r2 = (if r1 \<noteq> [] \<and> hd r1 = 46 then dropWhile json_digit (tl r1) else r1);
          e = (if r2 = [] then 0 else
                 let x = tl r2 in if hd x = 45 then - digits_value (tl x)
                   else if hd x = 43 then digits_value (tl x) else digits_value x);
          q = of_int (digits_value (ip @ fp)) * (10 :: rat) powi (e - int (length fp))
      in if neg then - q else q)"

fun dec_string :: "gostr decoder" where
  "dec_string (VStr s) old = Some s"
| "dec_string VNull old = Some old"
| "dec_string v old = None"

fun dec_bool :: "bool decoder" where
  "dec_bool (VBool b) old = Some b"
| "dec_bool VNull old = Some old"
| "dec_bool v old = None"

text \<open>A number that overflows \<open>float64\<close> is an error.\<close>

fun dec_float :: "f64 decoder" where
  "dec_float (VNum n) old = (case f64_of (number_value n) of Fin q \<Rightarrow> Some (Fin q) | _ \<Rightarrow> None)"
| "dec_float VNull old = Some old"
| "dec_float v old = None"

text \<open>A slice keeps its elements where it has some already: they are decoded into.\<close>

fun dec_elems :: "'a decoder \<Rightarrow> 'a \<Rightarrow> jval list \<Rightarrow> 'a list \<Rightarrow> 'a list option" where
  "dec_elems d zero [] old = Some []"
| "dec_elems d zero (v # vs) old =
     (case d v (case old of [] \<Rightarrow> zero | x # xs \<Rightarrow> x) of None \<Rightarrow> None
      | Some y \<Rightarrow> map_option (Cons y) (dec_elems d zero vs (tl old)))"

fun dec_slice :: "'a decoder \<Rightarrow> 'a \<Rightarrow> 'a list decoder" where
  "dec_slice d zero (VArr vs) old = dec_elems d zero vs old"
| "dec_slice d zero VNull old = Some []"
| "dec_slice d zero v old = None"

type_synonym 'a field = "gostr \<times> 'a decoder"

definition field_of :: "(gostr \<times> 'b) list \<Rightarrow> gostr \<Rightarrow> 'b option" where
  "field_of fields k = (case map_of fields k of Some d \<Rightarrow> Some d
     | None \<Rightarrow> map_option snd (find (\<lambda>(name, d). strings_EqualFold name k) fields))"

fun dec_members :: "'a field list \<Rightarrow> (gostr \<times> jval) list \<Rightarrow> 'a \<Rightarrow> 'a option" where
  "dec_members fields [] r = Some r"
| "dec_members fields ((k, v) # kvs) r =
     (case field_of fields k of None \<Rightarrow> dec_members fields kvs r
      | Some d \<Rightarrow> (case d v r of None \<Rightarrow> None | Some r' \<Rightarrow> dec_members fields kvs r'))"

fun dec_struct :: "'a field list \<Rightarrow> 'a decoder" where
  "dec_struct fields (VObj kvs) old = dec_members fields kvs old"
| "dec_struct fields VNull old = Some old"
| "dec_struct fields v old = None"

definition json_Unmarshal :: "'a decoder \<Rightarrow> 'a \<Rightarrow> gostr \<Rightarrow> 'a option" where
  "json_Unmarshal d zero s = Option.bind (json_parse s) (\<lambda>v. d v zero)"

subsection \<open>What is written is read back\<close>

fun jval_of :: "json \<Rightarrow> jval" where
  "jval_of (JStr s) = VStr s"
| "jval_of (JBool b) = VBool b"
| "jval_of (JInt n) = VNum (dec_int n)"
| "jval_of JNull = VNull"
| "jval_of (JArr xs) = VArr (map jval_of xs)"
| "jval_of (JObj fs) = VObj (map (\<lambda>(k, v). (lit k, jval_of v)) fs)"

fun json_runes :: "json \<Rightarrow> bool" where
  "json_runes (JStr s) \<longleftrightarrow> (\<forall>r \<in> set s. 0 \<le> r)"
| "json_runes (JArr xs) \<longleftrightarrow> (\<forall>x \<in> set xs. json_runes x)"
| "json_runes (JObj fs) \<longleftrightarrow> (\<forall>(k, v) \<in> set fs. json_runes v)"
| "json_runes v \<longleftrightarrow> True"

fun json_depth :: "json \<Rightarrow> nat" where
  "json_depth (JArr xs) = Suc (Max (set (0 # map json_depth xs)))"
| "json_depth (JObj fs) = Suc (Max (set (0 # map (\<lambda>(k, v). json_depth v) fs)))"
| "json_depth v = 0"

lemma hex_value_json_hex: "0 \<le> d \<Longrightarrow> d < 16 \<Longrightarrow> hex_value (json_hex d) = Some d"
  by (auto simp: hex_value_def json_hex_def)

lemma getu4_json_u:
  assumes "0 \<le> r" and "r < 65536"
  shows "getu4 (json_hex (r div 4096 mod 16)) (json_hex (r div 256 mod 16)) (json_hex (r div 16 mod 16)) (json_hex (r mod 16)) = Some r"
proof -
  have "4096 * (r div 4096 mod 16) + 256 * (r div 256 mod 16) + 16 * (r div 16 mod 16) + r mod 16 = r"
  proof -
    have e: "r div 256 = r div 16 div 16" "r div 4096 = r div 16 div 16 div 16" by (simp_all flip: zdiv_zmult2_eq)
    have "0 \<le> r div 16 div 16 div 16" "r div 16 div 16 div 16 < 16" using assms by (simp_all flip: zdiv_zmult2_eq)
    then have "r div 16 div 16 div 16 mod 16 = r div 16 div 16 div 16" by simp
    moreover have "16 * (r div 16) + r mod 16 = r" "16 * (r div 16 div 16) + r div 16 mod 16 = r div 16"
      "16 * (r div 16 div 16 div 16) + r div 16 div 16 mod 16 = r div 16 div 16" by (rule mult_div_mod_eq)+
    ultimately show ?thesis unfolding e by linarith
  qed
  moreover have "hex_value (json_hex (x mod 16)) = Some (x mod 16)" for x by (rule hex_value_json_hex) simp_all
  ultimately show ?thesis by (simp only: getu4_def prod.case option.case)
qed

lemma lex_escape: "0 \<le> r \<Longrightarrow> lex_string (json_escape r @ s) = pushed r (lex_string s)"
  using getu4_json_u [of r]
  by (auto simp: json_escape_def json_u_def string_unit_def escape_unit_def simple_escape_def surrogate_def)

lemma lex_json_string:
  assumes "\<forall>r \<in> set s. 0 \<le> r"
  shows "lex_string (concat (map json_escape s) @ 34 # rest) = Some (s, rest)"
  using assms by (induction s) (simp_all add: lex_escape pushed_def)

lemma dec_digits_shape: "0 \<le> n \<Longrightarrow> (\<forall>d \<in> set (dec_digits n). json_digit d) \<and> dec_digits n \<noteq> [] \<and>
    (hd (dec_digits n) = 48 \<longrightarrow> n = 0)"
proof (induction n rule: dec_digits.induct)
  case (1 n)
  show ?case
  proof (cases "n < 10")
    case True
    then show ?thesis using "1.prems" by (simp add: dec_digits.simps [of n] json_digit_def)
  next
    case False
    have m: "0 \<le> n mod 10" "n mod 10 < 10" by simp_all
    have "0 < n div 10" using False by (simp add: pos_imp_zdiv_pos_iff)
    then show ?thesis using 1 False m by (simp add: dec_digits.simps [of n] json_digit_def)
  qed
qed

definition ends_number :: "gostr \<Rightarrow> bool" where
  "ends_number s \<longleftrightarrow> s = [] \<or> hd s \<in> {44, 93, 125}"

lemma digits1_digits: "\<forall>d \<in> set ds. json_digit d \<Longrightarrow> ds \<noteq> [] \<Longrightarrow> ends_number rest \<Longrightarrow> digits1 (ds @ rest) = Some (ds, rest)"
proof -
  assume d: "\<forall>d \<in> set ds. json_digit d" "ds \<noteq> []" and e: "ends_number rest"
  have "takeWhile json_digit rest = []" "dropWhile json_digit rest = rest"
    using e by (cases rest; auto simp: ends_number_def json_digit_def)+
  then have "takeWhile json_digit (ds @ rest) = ds" "dropWhile json_digit (ds @ rest) = rest" using d(1) by simp_all
  then show ?thesis using d(2) by (simp add: digits1_def)
qed

lemma lex_nat:
  assumes "0 \<le> n" and "ends_number rest"
  shows "lex_int (dec_digits n @ rest) = Some (dec_digits n, rest)"
proof (cases "n = 0")
  case False
  have d: "\<forall>d \<in> set (dec_digits n). json_digit d" "dec_digits n \<noteq> []" "hd (dec_digits n) \<noteq> 48"
    using dec_digits_shape [OF assms(1)] False by blast+
  then show ?thesis using digits1_digits [OF d(1,2) assms(2)]
    by (cases "dec_digits n") (auto simp: lex_int_def)
qed (simp add: dec_digits.simps [of 0] lex_int_def)

lemma lex_dec_int: "ends_number rest \<Longrightarrow> lex_number (dec_int n @ rest) = Some (dec_int n, rest)"
proof -
  assume e: "ends_number rest"
  have fe: "lex_frac rest = Some ([], rest)" "lex_exp rest = Some ([], rest)"
    using e by (cases rest; auto simp: lex_frac_def lex_exp_def ends_number_def)+
  have first: "hd (dec_digits n) \<noteq> 45" "dec_digits n \<noteq> []" if "0 \<le> n" for n
    using dec_digits_shape [OF that] by (cases "dec_digits n"; force simp: json_digit_def)+
  have sign: "lex_number (dec_digits n @ rest) =
      (case lex_int (dec_digits n @ rest) of None \<Rightarrow> None | Some (i, s2) \<Rightarrow>
         (case lex_frac s2 of None \<Rightarrow> None | Some (f, s3) \<Rightarrow>
         (case lex_exp s3 of None \<Rightarrow> None | Some (e, s4) \<Rightarrow> Some (i @ f @ e, s4))))" if n: "0 \<le> n" for n
  proof -
    obtain a l where "dec_digits n = a # l" "a \<noteq> 45" using first [OF n] by (cases "dec_digits n") simp_all
    then show ?thesis by (simp add: lex_number_def split: option.splits)
  qed
  show ?thesis
  proof (cases "n < 0")
    case True
    then show ?thesis using lex_nat [OF _ e, of "- n"] fe by (simp add: lex_number_def dec_int_def)
  next
    case False
    then show ?thesis using sign [of n] lex_nat [OF _ e, of n] fe by (simp add: dec_int_def)
  qed
qed

fun commas :: "jtok list list \<Rightarrow> jtok list" where
  "commas [] = []"
| "commas [ts] = ts"
| "commas (ts # us # tss) = ts @ TComma # commas (us # tss)"

fun toks :: "json \<Rightarrow> jtok list" where
  "toks (JStr s) = [TStr s]"
| "toks (JBool b) = [TScalar (VBool b)]"
| "toks (JInt n) = [TScalar (VNum (dec_int n))]"
| "toks JNull = [TScalar VNull]"
| "toks (JArr xs) = TBrack # commas (map toks xs) @ [TEnd]"
| "toks (JObj fs) = TOpen # commas (map (\<lambda>(k, v). TStr (lit k) # TColon # toks v) fs) @ [TClose]"

lemma cons_tok_append: "cons_tok t (map_option ((@) ts) x) = map_option ((@) (t # ts)) x"
  by (cases x) (simp_all add: cons_tok_def)

lemma map_option_append: "map_option ((@) ts) (map_option ((@) us) x) = map_option ((@) (ts @ us)) x"
  by (cases x) simp_all

lemma lex_marks:
  "json_lex (123 # s) = cons_tok TOpen (json_lex s)" "json_lex (125 # s) = cons_tok TClose (json_lex s)"
  "json_lex (91 # s) = cons_tok TBrack (json_lex s)" "json_lex (93 # s) = cons_tok TEnd (json_lex s)"
  "json_lex (58 # s) = cons_tok TColon (json_lex s)" "json_lex (44 # s) = cons_tok TComma (json_lex s)"
  by (simp_all add: json_space_def)

lemma lex_quoted: "\<forall>r \<in> set s. 0 \<le> r \<Longrightarrow> json_lex (json_string s @ rest) = cons_tok (TStr s) (json_lex rest)"
  using lex_json_string [of s rest] by (simp add: json_string_def json_space_def)

lemma lex_printed_int: "ends_number rest \<Longrightarrow> json_lex (dec_int n @ rest) = cons_tok (TScalar (VNum (dec_int n))) (json_lex rest)"
proof -
  assume e: "ends_number rest"
  obtain a l where a: "dec_int n = a # l" "a = 45 \<or> json_digit a"
    using dec_digits_shape [of n] by (cases "n < 0"; cases "dec_digits n") (auto simp: dec_int_def)
  then have "\<not> json_space a" "a \<notin> {123, 125, 91, 93, 58, 44, 34}" by (auto simp: json_space_def json_digit_def)
  then show ?thesis using lex_dec_int [OF e, of n] a by simp
qed

lemma lex_words:
  "json_lex (lit ''true'' @ rest) = cons_tok (TScalar (VBool True)) (json_lex rest)"
  "json_lex (lit ''false'' @ rest) = cons_tok (TScalar (VBool False)) (json_lex rest)"
  "json_lex (lit ''null'' @ rest) = cons_tok (TScalar VNull) (json_lex rest)"
  by (simp_all add: json_space_def json_digit_def lex_word_def)

declare json_lex.simps(2) [simp del]

lemma ends_number_Cons [simp]: "ends_number (r # s) \<longleftrightarrow> r = 44 \<or> r = 93 \<or> r = 125"
  by (simp add: ends_number_def)

lemma lit_nonneg: "\<forall>r \<in> set (lit k). 0 \<le> r"
proof -
  have "(of_char c :: int) = of_nat (of_char c)" for c :: char by (rule of_nat_of_char [symmetric])
  then show ?thesis unfolding lit_def by (metis (no_types, lifting) imageE list.set_map of_nat_0_le_iff)
qed

lemma lex_joined:
  assumes "\<And>x r. x \<in> set xs \<Longrightarrow> ends_number r \<Longrightarrow> json_lex (pr x @ r) = map_option ((@) (tk x)) (json_lex r)"
    and "ends_number rest"
  shows "json_lex (strings_Join (map pr xs) [44] @ rest) = map_option ((@) (commas (map tk xs))) (json_lex rest)"
  using assms
proof (induction xs rule: induct_list012)
  case 1
  then show ?case by (cases "json_lex rest") simp_all
next
  case (3 x y zs)
  have "json_lex (pr x @ 44 # strings_Join (map pr (y # zs)) [44] @ rest) =
      map_option ((@) (tk x)) (cons_tok TComma (json_lex (strings_Join (map pr (y # zs)) [44] @ rest)))"
    using "3.prems"(1) [of x "44 # strings_Join (map pr (y # zs)) [44] @ rest"] by (simp add: lex_marks)
  moreover have "json_lex (strings_Join (map pr (y # zs)) [44] @ rest) = map_option ((@) (commas (map tk (y # zs)))) (json_lex rest)"
    by (rule "3.IH"(2)) (use "3.prems" in auto)
  ultimately show ?case by (simp add: cons_tok_append map_option_append) (cases "json_lex rest"; simp)
qed simp

lemma lex_Marshal: "json_runes v \<Longrightarrow> ends_number rest \<Longrightarrow> json_lex (json_Marshal v @ rest) = map_option ((@) (toks v)) (json_lex rest)"
proof (induction v arbitrary: rest rule: json_Marshal.induct)
  case (1 s)
  then show ?case by (simp add: lex_quoted cons_tok_def)
next
  case (2 b)
  then show ?case using lex_words [of rest] by (simp add: cons_tok_def del: lit_simps)
next
  case (3 n)
  then show ?case by (simp add: lex_printed_int cons_tok_def)
next
  case 4
  then show ?case using lex_words [of rest] by (simp add: cons_tok_def del: lit_simps)
next
  case (5 xs)
  have "json_lex (strings_Join (map json_Marshal xs) [44] @ 93 # rest) = map_option ((@) (commas (map toks xs))) (json_lex (93 # rest))"
    by (rule lex_joined) (use 5 in auto)
  then show ?case by (simp add: lex_marks cons_tok_append map_option_append) (cases "json_lex rest"; simp add: cons_tok_def)
next
  case (6 fs)
  have "json_lex (strings_Join (map (\<lambda>(k, v). json_string (lit k) @ [58] @ json_Marshal v) fs) [44] @ 125 # rest) =
      map_option ((@) (commas (map (\<lambda>(k, v). TStr (lit k) # TColon # toks v) fs))) (json_lex (125 # rest))"
  proof (rule lex_joined)
    fix x r assume x: "x \<in> set fs" and r: "ends_number r"
    obtain k v where kv: "x = (k, v)" by fastforce
    have "json_lex (json_Marshal v @ r) = map_option ((@) (toks v)) (json_lex r)"
      using 6 x r kv by fastforce
    then show "json_lex ((case x of (k, v) \<Rightarrow> json_string (lit k) @ [58] @ json_Marshal v) @ r) =
        map_option ((@) (case x of (k, v) \<Rightarrow> TStr (lit k) # TColon # toks v)) (json_lex r)"
      using lex_quoted [OF lit_nonneg, of k "58 # json_Marshal v @ r"] by (simp add: kv lex_marks cons_tok_append del: lit_simps)
  qed simp
  then show ?case by (simp add: lex_marks cons_tok_append map_option_append) (cases "json_lex rest"; simp add: cons_tok_def)
qed

lemma scan_append: "scan m fs (ts @ us) = (case scan m fs ts of None \<Rightarrow> None | Some (m', fs') \<Rightarrow> scan m' fs' us)"
  by (induction m fs ts rule: scan.induct) (auto split: option.splits)

lemma scan_elems:
  assumes "\<And>x gs. x \<in> set xs \<Longrightarrow> length gs \<le> d \<Longrightarrow> scan WantValue gs (tk x) = Some (After (vl x), gs)" and "length fs < d"
  shows "xs \<noteq> [] \<Longrightarrow> scan WantValue (FArr ys # fs) (commas (map tk xs) @ [TEnd]) = Some (After (VArr (ys @ map vl xs)), fs)"
  using assms(1)
proof (induction xs arbitrary: ys rule: induct_list012)
  case (2 x)
  then show ?case using assms(2) "2.prems"(2) [of x "FArr ys # fs"] by (simp add: scan_append)
next
  case (3 x y zs)
  have "scan WantValue (FArr ys # fs) (tk x) = Some (After (vl x), FArr ys # fs)" using "3.prems"(2) assms(2) by simp
  moreover have "scan WantValue (FArr (ys @ [vl x]) # fs) (commas (map tk (y # zs)) @ [TEnd]) =
      Some (After (VArr ((ys @ [vl x]) @ map vl (y # zs))), fs)"
    by (rule "3.IH"(2)) (use "3.prems" in auto)
  ultimately show ?case by (simp add: scan_append)
qed simp

lemma scan_members:
  assumes "\<And>k x gs. (k, x) \<in> set ms \<Longrightarrow> length gs \<le> d \<Longrightarrow> scan WantValue gs (tk x) = Some (After (vl x), gs)" and "length fs < d"
    and "m = WantKey \<or> m = WantKeyOrEnd"
  shows "ms \<noteq> [] \<Longrightarrow> scan m (FObj kvs # fs) (commas (map (\<lambda>(k, x). TStr (lit k) # TColon # tk x) ms) @ [TClose]) =
    Some (After (VObj (kvs @ map (\<lambda>(k, x). (lit k, vl x)) ms)), fs)"
  using assms(1,3)
proof (induction ms arbitrary: kvs m rule: induct_list012)
  case (2 kx)
  obtain k x where kx: "kx = (k, x)" by fastforce
  have "scan WantValue (FKey kvs (lit k) # fs) (tk x) = Some (After (vl x), FKey kvs (lit k) # fs)"
    by (rule "2.prems"(2) [of k]) (use assms(2) kx in auto)
  then show ?case using "2.prems"(3) by (auto simp: kx scan_append)
next
  case (3 kx y zs)
  obtain k x where kx: "kx = (k, x)" by fastforce
  have "scan WantValue (FKey kvs (lit k) # fs) (tk x) = Some (After (vl x), FKey kvs (lit k) # fs)"
    by (rule "3.prems"(2) [of k]) (use assms(2) kx in auto)
  moreover have "scan WantKey (FObj (kvs @ [(lit k, vl x)]) # fs)
      (commas (map (\<lambda>(k, x). TStr (lit k) # TColon # tk x) (y # zs)) @ [TClose]) =
      Some (After (VObj ((kvs @ [(lit k, vl x)]) @ map (\<lambda>(k, x). (lit k, vl x)) (y # zs))), fs)"
    by (rule "3.IH"(2)) (use "3.prems" in auto)
  ultimately show ?case using "3.prems"(3) by (auto simp: kx scan_append)
qed simp

lemma value_or_end:
  assumes "scan WantValue fs ts = Some (After v, gs)"
  shows "scan WantValueOrEnd fs ts = Some (After v, gs)"
  using assms by (cases ts) (auto simp: value_token_def)

lemma depth_le:
  "json_depth (JArr xs) \<le> Suc n \<longleftrightarrow> (\<forall>x \<in> set xs. json_depth x \<le> n)"
  "json_depth (JObj fs) \<le> Suc n \<longleftrightarrow> (\<forall>(k, v) \<in> set fs. json_depth v \<le> n)"
  by auto

lemma scan_toks: "length fs + json_depth v \<le> maxNestingDepth \<Longrightarrow> scan WantValue fs (toks v) = Some (After (jval_of v), fs)"
proof (induction v arbitrary: fs rule: toks.induct)
  case (5 xs)
  let ?d = "length fs + 1"
  have el: "scan WantValue gs (toks x) = Some (After (jval_of x), gs)" if "x \<in> set xs" "length gs \<le> ?d" for x gs
  proof (rule "5.IH" [OF that(1)])
    have "json_depth x < json_depth (JArr xs)" using that(1) by (simp add: less_Suc_eq_le)
    then show "length gs + json_depth x \<le> maxNestingDepth" using "5.prems" that(2) by linarith
  qed
  have room: "length fs < maxNestingDepth" using "5.prems" by simp
  show ?case
  proof (cases "xs = []")
    case False
    then show ?thesis using room value_or_end [OF scan_elems [where xs = xs and fs = fs and ys = "[]", OF el]] by (simp add: value_token_def open_frame_def)
  qed (use room in \<open>simp add: value_token_def open_frame_def\<close>)
next
  case (6 ms)
  let ?d = "length fs + 1"
  have el: "scan WantValue gs (toks x) = Some (After (jval_of x), gs)" if "(k, x) \<in> set ms" "length gs \<le> ?d" for k x gs
  proof (rule "6.IH" [OF that(1) refl])
    have "json_depth x < json_depth (JObj ms)" using that(1) by (force simp: less_Suc_eq_le intro: Max_ge)
    then show "length gs + json_depth x \<le> maxNestingDepth" using "6.prems" that(2) by linarith
  qed
  have room: "length fs < maxNestingDepth" using "6.prems" by simp
  show ?case
  proof (cases "ms = []")
    case False
    then show ?thesis using room scan_members [where ms = ms and fs = fs and m = WantKeyOrEnd and kvs = "[]", OF el] by (simp add: value_token_def open_frame_def)
  qed (use room in \<open>simp add: value_token_def open_frame_def\<close>)
qed (simp_all add: value_token_def)

lemma json_roundtrip:
  assumes "json_runes v" and "json_depth v \<le> maxNestingDepth"
  shows "json_parse (json_Marshal v) = Some (jval_of v)"
  using lex_Marshal [OF assms(1), of "[]"] scan_toks [of "[]" v] assms(2) by (simp add: json_parse_def ends_number_def)

subsection \<open>What decoding keeps\<close>

text \<open>A decoder keeps \<open>P\<close> when it turns a value with \<open>P\<close> into one with \<open>P\<close>.\<close>

definition dec_keeps :: "('a \<Rightarrow> bool) \<Rightarrow> 'a decoder \<Rightarrow> bool" where
  "dec_keeps P d \<longleftrightarrow> (\<forall>v x y. P x \<longrightarrow> d v x = Some y \<longrightarrow> P y)"

lemma dec_keepsI: "(\<And>v x y. P x \<Longrightarrow> d v x = Some y \<Longrightarrow> P y) \<Longrightarrow> dec_keeps P d"
  by (simp add: dec_keeps_def)

lemma field_of_mem: "field_of fields k = Some d \<Longrightarrow> d \<in> snd ` set fields"
proof (cases "map_of fields k")
  case None
  assume "field_of fields k = Some d"
  with None obtain name where "find (\<lambda>(name, d). strings_EqualFold name k) fields = Some (name, d)"
    by (auto simp: field_of_def)
  then have "(name, d) \<in> set fields" by (metis find_Some_iff nth_mem)
  then show ?thesis by force
next
  case (Some e)
  assume "field_of fields k = Some d"
  with Some have "(k, d) \<in> set fields" by (simp add: field_of_def map_of_SomeD)
  then show ?thesis by force
qed

lemma dec_members_keeps:
  "\<forall>d \<in> snd ` set fields. dec_keeps P d \<Longrightarrow> P x \<Longrightarrow> dec_members fields kvs x = Some y \<Longrightarrow> P y"
proof (induction fields kvs x rule: dec_members.induct)
  case (2 fields k v kvs r)
  show ?case
  proof (cases "field_of fields k")
    case None
    with "2.prems"(3) have "dec_members fields kvs r = Some y" by simp
    with "2.IH"(1) [OF None "2.prems"(1,2)] show ?thesis .
  next
    case (Some d)
    with "2.prems"(3) obtain r' where r: "d v r = Some r'" "dec_members fields kvs r' = Some y"
      by (cases "d v r") simp_all
    have "dec_keeps P d" using field_of_mem [OF Some] "2.prems"(1) by (rule bspec [rotated])
    then have "P r'" using r(1) "2.prems"(2) by (simp add: dec_keeps_def)
    with "2.IH"(2) [OF Some r(1) "2.prems"(1)] r(2) show ?thesis by simp
  qed
qed simp

lemma dec_struct_keeps: "\<forall>d \<in> snd ` set fields. dec_keeps P d \<Longrightarrow> dec_keeps P (dec_struct fields)"
proof (rule dec_keepsI)
  fix v x y assume f: "\<forall>d \<in> snd ` set fields. dec_keeps P d" and x: "P x" "dec_struct fields v x = Some y"
  show "P y"
  proof (cases v)
    case (VObj kvs)
    with x(2) show ?thesis using dec_members_keeps [OF f x(1)] by simp
  qed (use x in simp_all)
qed

lemma json_Unmarshal_keeps: "dec_keeps P d \<Longrightarrow> P zero \<Longrightarrow> json_Unmarshal d zero s = Some x \<Longrightarrow> P x"
  by (auto simp: json_Unmarshal_def dec_keeps_def split: Option.bind_splits)

lemma dec_float_finite: "dec_float v old = Some x \<Longrightarrow> (\<exists>q. old = Fin q) \<Longrightarrow> \<exists>q. x = Fin q"
proof (cases v)
  case (VNum n)
  assume "dec_float v old = Some x"
  with VNum show ?thesis by (cases "f64_of (number_value n)") auto
qed auto

end
