(* ===== verification/Reviews.thy ===== *)
theory Reviews
  imports Ports Go_JSON_Decode
begin

section \<open>Human decisions: contests and rejections\<close>

text \<open>
  \<open>internal/app/contest/service.go\<close>: a candidate contests an assessment, the owning employer
  resolves it; \<open>internal/app/matching/rejection.go\<close>: a reviewer rejects a candidate. Every such
  decision is recorded in the audit trail, owned by the employer of the role. The lemmas show who
  can take which decision, once, and what is recorded.
\<close>

subsection \<open>Contests\<close>

record 'w ContestService =
  cs_contests :: "'w ContestRepository"
  cs_audit :: "'w AuditRepository"
  cs_matches :: "'w MatchRepository"
  cs_interviews :: "'w InterviewRepository"
  cs_roles :: "'w RoleRepository"
  cs_now :: "'w Clock"
  cs_newID :: "'w IDSource"

fun subjectRef :: "'w ContestService \<Rightarrow> subject \<Rightarrow> ID \<Rightarrow> ('w, ID \<times> ID) io" where
  "subjectRef s SubjectMatch subjectID =
     io_bind (Matches_ByID (cs_matches s) subjectID) (\<lambda>m. io_ret (Match_RoleID m, Match_CandidateID m))"
| "subjectRef s SubjectReportCard subjectID =
     io_bind (Interviews_ByID (cs_interviews s) subjectID) (\<lambda>iv. io_ret (Iv_RoleID iv, Iv_CandidateID iv))"
| "subjectRef s SubjectUnspecified subjectID = io_fail (Invalid ''contest: unknown subject'')"

definition ownerOf :: "'w ContestService \<Rightarrow> Contest \<Rightarrow> ('w, ID) io" where
  "ownerOf s c =
     io_bind (subjectRef s (Con_Subject c) (Con_SubjectID c)) (\<lambda>(roleID, cand).
     io_bind (Roles_ByID (cs_roles s) roleID) (\<lambda>rl. io_ret (Role_EmployerID rl)))"

definition record_contest :: "'w ContestService \<Rightarrow> ID \<Rightarrow> gostr \<Rightarrow> ID \<Rightarrow> ID \<Rightarrow> ('w, unit) io" where
  "record_contest s actorID action contestID ownerID =
     io_bind (io_of (cs_now s)) (\<lambda>now.
     io_bind (io_of (cs_newID s)) (\<lambda>newid.
     case NewAuditEntry newid actorID action (lit ''contest'') contestID [] [] now of
       Inl err \<Rightarrow> io_ret ()
     | Inr entry \<Rightarrow>
         io_bind (io_try (Audit_Append (cs_audit s) (entry\<lparr>OwnerID := ownerID\<rparr>))) (\<lambda>r. io_ret ())))"

definition Raise :: "'w ContestService \<Rightarrow> ID \<Rightarrow> ID \<Rightarrow> subject \<Rightarrow> gostr \<Rightarrow> ('w, Contest) io" where
  "Raise s candidateID subjectID sub reason =
     io_bind (io_of (cs_now s)) (\<lambda>now.
     io_bind (io_of (cs_newID s)) (\<lambda>newid.
     io_bind (io_lift (NewContest newid candidateID subjectID sub reason now)) (\<lambda>c.
     io_bind (subjectRef s sub subjectID) (\<lambda>(roleID, subjectCandidate).
     io_bind (io_guard (subjectCandidate \<noteq> candidateID)
       (Forbidden ''contest: may only contest your own assessment'')) (\<lambda>u.
     io_bind (Contests_Create (cs_contests s) c) (\<lambda>u.
     io_bind (io_try (Roles_ByID (cs_roles s) roleID)) (\<lambda>r.
     let owner = (case r of Inr rl \<Rightarrow> Role_EmployerID rl | Inl rerr \<Rightarrow> [])
     in io_bind (record_contest s candidateID ActionContestRaised (Con_ID c) owner) (\<lambda>u. io_ret c))))))))"

definition ListForCandidate :: "'w ContestService \<Rightarrow> ID \<Rightarrow> Page \<Rightarrow> ('w, Contest list \<times> int) io" where
  "ListForCandidate s candidateID page = Contests_ByCandidate (cs_contests s) candidateID page"

definition ListForSubject :: "'w ContestService \<Rightarrow> ID \<Rightarrow> Page \<Rightarrow> ('w, Contest list \<times> int) io" where
  "ListForSubject s subjectID page = Contests_BySubject (cs_contests s) subjectID page"

definition Resolve :: "'w ContestService \<Rightarrow> ID \<Rightarrow> ID \<Rightarrow> bool \<Rightarrow> gostr \<Rightarrow> ('w, Contest) io" where
  "Resolve s reviewerID contestID upheld note_text =
     io_bind (Contests_ByID (cs_contests s) contestID) (\<lambda>c.
     io_bind (ownerOf s c) (\<lambda>ownerID.
     io_bind (io_guard (ownerID \<noteq> reviewerID)
       (Forbidden ''contest: reviewer does not own the contested assessment'')) (\<lambda>u.
     io_bind (io_of (cs_now s)) (\<lambda>now.
     io_bind (io_lift (Contest_Resolve c upheld note_text now)) (\<lambda>c.
     io_bind (Contests_Update (cs_contests s) c) (\<lambda>u.
     io_bind (record_contest s reviewerID ActionContestResolved (Con_ID c) ownerID) (\<lambda>u. io_ret c)))))))"

subsection \<open>Rejections\<close>

record 'w RejectionRecorder =
  rr_roles :: "'w RoleRepository"
  rr_audit :: "'w AuditRepository"
  rr_now :: "'w Clock"
  rr_newID :: "'w IDSource"

definition RejectionRecorder_Record :: "'w RejectionRecorder \<Rightarrow> ID \<Rightarrow> ID \<Rightarrow> ID \<Rightarrow> gostr \<Rightarrow> bool \<Rightarrow> ('w, ID) io" where
  "RejectionRecorder_Record r actorUserID roleID candidateID reason humanApproved =
     io_bind (Roles_ByID (rr_roles r) roleID) (\<lambda>rl.
     io_bind (io_guard (Role_EmployerID rl \<noteq> actorUserID)
       (Forbidden ''matching: may only reject candidates for your own roles'')) (\<lambda>u.
     io_bind (io_lift (NewRejection roleID candidateID reason humanApproved)) (\<lambda>rej.
     io_bind (io_of (rr_now r)) (\<lambda>now.
     io_bind (io_of (rr_newID r)) (\<lambda>newid.
     io_bind (io_lift (NewAuditEntry newid actorUserID ActionApproveRejection (lit ''match'') candidateID []
       (Rejection_SnapshotJSON rej) now)) (\<lambda>entry.
     io_bind (Audit_Append (rr_audit r) (entry\<lparr>OwnerID := actorUserID\<rparr>)) (\<lambda>u.
     io_ret (Aud_ID entry))))))))"

subsection \<open>On the in-memory stack\<close>

definition memory_contest_service :: "(Role list \<Rightarrow> Role list) \<Rightarrow> ((Role \<Rightarrow> Role \<Rightarrow> bool) \<Rightarrow> Role list \<Rightarrow> Role list) \<Rightarrow>
    (Match list \<Rightarrow> Match list) \<Rightarrow> (Interview list \<Rightarrow> Interview list) \<Rightarrow> World ContestService" where
  "memory_contest_service itr srt itm iti =
     \<lparr>cs_contests = memory_contests, cs_audit = memory_audit, cs_matches = memory_matches itm,
      cs_interviews = memory_interviews iti, cs_roles = memory_roles itr srt, cs_now = World_now, cs_newID = World_newID\<rparr>"

definition memory_rejections :: "(Role list \<Rightarrow> Role list) \<Rightarrow> ((Role \<Rightarrow> Role \<Rightarrow> bool) \<Rightarrow> Role list \<Rightarrow> Role list) \<Rightarrow>
    World RejectionRecorder" where
  "memory_rejections itr srt =
     \<lparr>rr_roles = memory_roles itr srt, rr_audit = memory_audit, rr_now = World_now, rr_newID = World_newID\<rparr>"

lemma memory_contest_sel [simp]:
  "cs_contests (memory_contest_service itr srt itm iti) = memory_contests"
  "cs_audit (memory_contest_service itr srt itm iti) = memory_audit"
  "cs_matches (memory_contest_service itr srt itm iti) = memory_matches itm"
  "cs_interviews (memory_contest_service itr srt itm iti) = memory_interviews iti"
  "cs_roles (memory_contest_service itr srt itm iti) = memory_roles itr srt"
  "cs_now (memory_contest_service itr srt itm iti) = World_now"
  "cs_newID (memory_contest_service itr srt itm iti) = World_newID"
  "rr_roles (memory_rejections itr srt) = memory_roles itr srt" "rr_audit (memory_rejections itr srt) = memory_audit"
  "rr_now (memory_rejections itr srt) = World_now" "rr_newID (memory_rejections itr srt) = World_newID"
  by (simp_all add: memory_contest_service_def memory_rejections_def)

lemma memory_append: "at_audit (AuditRepo_Append e) w = (r, w') \<longleftrightarrow> r = Inr () \<and> w' = w\<lparr>w_audit := w_audit w @ [e]\<rparr>"
  by (auto simp: io_simps AuditRepo_Append_def)


text \<open>A decision with a non-zero actor is always recorded.\<close>

lemma record_contest_memory:
  assumes "record_contest (memory_contest_service itr srt itm iti) actor action cid owner w = (Inr u, w')"
    and "\<not> ID_IsZero actor" and "strings_TrimSpace action \<noteq> []"
  shows "\<exists>entry. stores w' = stores (w\<lparr>w_audit := w_audit w @ [entry]\<rparr>) \<and> ActorUserID entry = actor \<and>
    Aud_Action entry = action \<and> Entity entry = lit ''contest'' \<and> EntityID entry = cid \<and> OwnerID entry = owner"
proof -
  have e: "strings_TrimSpace (lit ''contest'') \<noteq> []" by code_simp
  obtain now v where n: "World_now w = (now, v)" by fastforce
  obtain i v' where d: "World_newID v = (i, v')" by fastforce
  obtain en where en: "NewAuditEntry i actor action (lit ''contest'') cid [] [] now = Inr en"
    using assms(2,3) e by (simp add: NewAuditEntry_def del: lit_simps)
  have "w' = v'\<lparr>w_audit := w_audit v' @ [en\<lparr>OwnerID := owner\<rparr>]\<rparr>"
    using assms(1) n d en by (auto simp: record_contest_def io_simps AuditRepo_Append_def simp del: lit_simps)
  moreover have "stores v' = stores w" using stores_now [OF n] stores_newID [OF d] by simp
  ultimately show ?thesis using NewAuditEntry_simps [OF en]
    by (intro exI [of _ "en\<lparr>OwnerID := owner\<rparr>"]) (auto simp: stores_eq_iff)
qed

definition own_subject :: "World \<Rightarrow> ID \<Rightarrow> subject \<Rightarrow> ID \<Rightarrow> ID \<Rightarrow> bool" where
  "own_subject w candID sub subjectID roleID \<longleftrightarrow>
     sub = SubjectMatch \<and> (\<exists>m \<in> snd ` set (w_matches w). Match_ID m = subjectID \<and> Match_CandidateID m = candID \<and> Match_RoleID m = roleID) \<or>
     sub = SubjectReportCard \<and> (\<exists>iv. map_of (w_interviews w) subjectID = Some iv \<and> Iv_CandidateID iv = candID \<and> Iv_RoleID iv = roleID)"

lemma subjectRef_memory:
  assumes "subjectRef (memory_contest_service itr srt itm iti) sub subjectID w = (Inr (roleID, candID), w')"
    and "\<forall>ms. set (itm ms) = set ms"
  shows "w' = w \<and> own_subject w candID sub subjectID roleID"
proof (cases sub)
  case SubjectMatch
  with assms(1) have "\<exists>m. at_matches (MatchRepo_ByID itm subjectID) w = (Inr m, w') \<and> roleID = Match_RoleID m \<and> candID = Match_CandidateID m"
    by (auto simp: io_bind_Inr_iff io_ok_iffs)
  then obtain m ms where "filter (\<lambda>m. Match_ID m = subjectID) (itm (map snd (w_matches w))) = m # ms" and w': "w' = w"
    and r: "roleID = Match_RoleID m" "candID = Match_CandidateID m"
    by (auto simp: io_ok MatchRepo_ByID_def split: list.splits)
  then have "m \<in> set (filter (\<lambda>m. Match_ID m = subjectID) (itm (map snd (w_matches w))))" by simp
  then show ?thesis using assms(2) SubjectMatch w' r by (auto simp: own_subject_def)
next
  case SubjectReportCard
  with assms(1) show ?thesis by (auto simp: io_ok own_subject_def simp del: on_part_ok)
qed (use assms(1) in \<open>simp add: io_simps\<close>)

lemma memory_readsD:
  "at_roles (RoleRepo_ByID i) w = (r1, w') \<Longrightarrow> w' = w"
  "at_interviews (InterviewRepo_ByID i) w = (r2, w') \<Longrightarrow> w' = w"
  "at_contests (ContestRepo_ByID i) w = (r3, w') \<Longrightarrow> w' = w"
  "at_matches (MatchRepo_ByID itm i) w = (r4, w') \<Longrightarrow> w' = w"
  using memory_reads_pure snd_conv by metis+

lemma subjectRef_pure: "subjectRef (memory_contest_service itr srt itm iti) sub i w = (r, w') \<Longrightarrow> w' = w"
  by (cases r; cases sub) (auto simp: io_err io_ok simp del: on_part_ok dest: memory_readsD)

lemma actions_named: "strings_TrimSpace ActionContestRaised \<noteq> []" "strings_TrimSpace ActionContestResolved \<noteq> []"
  by code_simp+

text \<open>
  Candidates contest their own assessments only. On the in-memory stack a raised contest is
  open, well formed and stored; its subject exists and is the candidate's own match or interview;
  and the audit trail grows by the one entry that names the candidate as the actor and the
  employer of the assessed role as the owner.
\<close>

lemma contest_raised_own:
  assumes "Raise (memory_contest_service itr srt itm iti) candID subjectID sub reason w = (Inr c, w')"
    and "\<forall>ms. set (itm ms) = set ms"
  shows "contest_inv c \<and> Con_Status c = StatusOpen \<and> Con_CandidateID c = candID \<and> Con_SubjectID c = subjectID \<and>
    map_of (cr_byID (w_contests w')) (Con_ID c) = Some c \<and>
    (\<exists>roleID entry. own_subject w candID sub subjectID roleID \<and>
       stores w' = stores (w\<lparr>w_contests := w_contests w', w_audit := w_audit w @ [entry]\<rparr>) \<and>
       ActorUserID entry = candID \<and> Aud_Action entry = ActionContestRaised \<and> EntityID entry = Con_ID c \<and>
       OwnerID entry = (case map_of (w_roles w) roleID of Some rl \<Rightarrow> Role_EmployerID rl | None \<Rightarrow> []))"
proof -
  let ?s = "memory_contest_service itr srt itm iti"
  from assms(1) obtain now v newid v' roleID v2 v3 r v4 where n: "World_now w = (now, v)" and d: "World_newID v = (newid, v')"
    and c: "NewContest newid candID subjectID sub reason now = Inr c"
    and sr: "subjectRef ?s sub subjectID v' = (Inr (roleID, candID), v2)"
    and cr: "at_contests (ContestRepo_Create c) v2 = (Inr (), v3)"
    and ro: "at_roles (RoleRepo_ByID roleID) v3 = (r, v4)"
    and rec: "record_contest ?s candID ActionContestRaised (Con_ID c) (case r of Inr rl \<Rightarrow> Role_EmployerID rl | Inl e \<Rightarrow> []) v4 = (Inr (), w')"
    by (auto simp: Raise_def io_bind_Inr_iff io_ok_iffs io_try_ok io_cases_ok Let_def)
  note cinv = NewContest_inv [OF c]
  note sub_ref = subjectRef_memory [OF sr assms(2)]
  have st: "stores v' = stores w" using stores_now [OF n] stores_newID [OF d] by simp
  have v3: "stores v3 = stores (w\<lparr>w_contests := w_contests v3\<rparr>)" "map_of (cr_byID (w_contests v3)) (Con_ID c) = Some c"
    using cr sub_ref st by (auto simp: io_ok ContestRepo_Create_def stores_eq_iff update_conv' split: if_splits)
  have v4: "v4 = v3" using memory_reads_pure(1) [of roleID v3] ro by simp
  have own: "(case r of Inr rl \<Rightarrow> Role_EmployerID rl | Inl e \<Rightarrow> []) =
      (case map_of (w_roles w) roleID of Some rl \<Rightarrow> Role_EmployerID rl | None \<Rightarrow> [])"
    using ro v3(1) by (auto simp: io_ok RoleRepo_ByID_def stores_eq_iff split: option.splits)
  have "\<not> ID_IsZero candID" using cinv by (auto simp: contest_inv_def)
  from record_contest_memory [OF rec this actions_named(1)] obtain entry where
    e: "stores w' = stores (v4\<lparr>w_audit := w_audit v4 @ [entry]\<rparr>)" "ActorUserID entry = candID"
      "Aud_Action entry = ActionContestRaised" "EntityID entry = Con_ID c"
      "OwnerID entry = (case map_of (w_roles w) roleID of Some rl \<Rightarrow> Role_EmployerID rl | None \<Rightarrow> [])"
    unfolding own by blast
  have "own_subject w candID sub subjectID roleID"
    using sub_ref st by (simp add: own_subject_def stores_eq_iff)
  moreover have "stores w' = stores (w\<lparr>w_contests := w_contests w', w_audit := w_audit w @ [entry]\<rparr>)"
    and "w_contests w' = w_contests v3"
    using e(1) v3(1) v4 by (auto simp: stores_eq_iff)
  ultimately show ?thesis using cinv v3(2) e(2-5) by auto
qed

text \<open>
  C13: A contest is resolved once, by the owner. On the in-memory stack a resolution succeeds only
  on an open contest and for the reviewer who owns the role the contested assessment belongs to; it
  changes that contest alone, to upheld or dismissed as the reviewer said, and is recorded in the
  owner's trail; afterwards every further attempt to resolve it fails and changes no store.
\<close>

theorem contest_resolved_once:
  assumes "Resolve (memory_contest_service itr srt itm iti) reviewer i upheld note_text w = (Inr c', w')"
    and "contests_inv (w_contests w)" and "\<forall>ms. set (itm ms) = set ms" and "\<not> ID_IsZero reviewer"
  shows "(\<exists>c roleID cand rl. map_of (cr_byID (w_contests w)) i = Some c \<and> Con_Status c = StatusOpen \<and>
      own_subject w cand (Con_Subject c) (Con_SubjectID c) roleID \<and>
      map_of (w_roles w) roleID = Some rl \<and> Role_EmployerID rl = reviewer \<and>
      Con_Status c' = (if upheld then StatusUpheld else StatusDismissed) \<and>
      c'\<lparr>Con_Status := Con_Status c, Resolution := Resolution c, ResolvedAt := ResolvedAt c\<rparr> = c) \<and>
    contests_inv (w_contests w') \<and>
    map_of (cr_byID (w_contests w')) = (map_of (cr_byID (w_contests w)))(i \<mapsto> c') \<and>
    (\<exists>entry. stores w' = stores (w\<lparr>w_contests := w_contests w', w_audit := w_audit w @ [entry]\<rparr>) \<and>
       ActorUserID entry = reviewer \<and> OwnerID entry = reviewer \<and> EntityID entry = i \<and>
       Aud_Action entry = ActionContestResolved) \<and>
    (\<forall>v reviewer' upheld' note'. w_contests v = w_contests w' \<longrightarrow>
       (\<exists>e v'. Resolve (memory_contest_service itr srt itm iti) reviewer' i upheld' note' v = (Inl e, v') \<and> stores v' = stores v))"
proof -
  let ?s = "memory_contest_service itr srt itm iti"
  from assms(1) obtain c now v v2 v3 where c: "map_of (cr_byID (w_contests w)) i = Some c"
    and o1: "ownerOf ?s c w = (Inr reviewer, v)" and n: "World_now v = (now, v2)"
    and r: "Contest_Resolve c upheld note_text now = Inr c'"
    and u: "at_contests (ContestRepo_Update c') v2 = (Inr (), v3)"
    and rec: "record_contest ?s reviewer ActionContestResolved (Con_ID c') reviewer v3 = (Inr (), w')"
    by (auto simp: Resolve_def io_ok simp del: on_part_ok)
  from o1 obtain roleID cand rl where own: "own_subject w cand (Con_Subject c) (Con_SubjectID c) roleID" "v = w"
      "map_of (w_roles w) roleID = Some rl" "Role_EmployerID rl = reviewer"
    by (auto simp: ownerOf_def io_ok simp del: on_part_ok dest!: subjectRef_memory [OF _ assms(3)])
  have cid: "Con_ID c = i" using assms(2) c by (simp add: contests_inv_def)
  have c': "Con_Status c = StatusOpen" "Con_ID c' = i" "Con_Status c' = (if upheld then StatusUpheld else StatusDismissed)"
    "c'\<lparr>Con_Status := Con_Status c, Resolution := Resolution c, ResolvedAt := ResolvedAt c\<rparr> = c"
    using r cid by (auto simp: Contest_Resolve_def split: if_splits)
  have st2: "stores v2 = stores w" using stores_now [OF n] own(2) by simp
  have upd: "ContestRepo_Update c' (w_contests w) = (Inr (), w_contests v3)" "stores v3 = stores (w\<lparr>w_contests := w_contests v3\<rparr>)"
    using u st2 by (auto simp: io_ok stores_eq_iff)
  from record_contest_memory [OF rec assms(4) actions_named(2)] obtain entry where
    e: "stores w' = stores (v3\<lparr>w_audit := w_audit v3 @ [entry]\<rparr>)" "ActorUserID entry = reviewer"
      "Aud_Action entry = ActionContestResolved" "EntityID entry = i" "OwnerID entry = reviewer"
    using c'(2) by blast
  have st': "w_contests w' = w_contests v3" "stores w' = stores (w\<lparr>w_contests := w_contests w', w_audit := w_audit w @ [entry]\<rparr>)"
    using e(1) upd(2) by (auto simp: stores_eq_iff)
  note after = contests.read_after_update [OF assms(2) upd(1) TrueI]
  have again: "\<exists>e v'. Resolve ?s reviewer' i upheld' note' v = (Inl e, v') \<and> stores v' = stores v"
    if v: "w_contests v = w_contests w'" for v reviewer' upheld' note'
  proof -
    have m: "map_of (cr_byID (w_contests v)) i = Some c'" using after(3) c'(2) st'(1) v by simp
    obtain r v' where run: "Resolve ?s reviewer' i upheld' note' v = (r, v')" by fastforce
    have closed: "Con_Status c' \<noteq> StatusOpen" using c'(3) by simp
    show ?thesis
    proof (cases r)
      case (Inr c2)
      with run m closed show ?thesis
        by (auto simp: Resolve_def io_ok Contest_Resolve_def simp del: on_part_ok split: if_splits)
    next
      case (Inl e)
      with run m have "stores v' = stores v"
        using closed
        by (auto simp: Resolve_def io_err io_ok Contest_Resolve_def ownerOf_def simp del: on_part_ok
            dest!: stores_now subjectRef_pure memory_readsD split: if_splits)
      with Inl run show ?thesis by blast
    qed
  qed
  show ?thesis
    using c own c' after(2,3) st' e(2-5) again by (intro conjI) (auto simp: st'(1))
qed

subsection \<open>A run\<close>

definition sample_contests :: "World ContestService" where
  "sample_contests = memory_contest_service id (\<lambda>less xs. xs) id id"


lemma contest_raised_own_witness:
  "\<exists>c w'. Raise sample_contests [67] [73] SubjectReportCard (lit ''too low'') sample_hiring = (Inr c, w') \<and>
     Con_Status c = StatusOpen \<and> map_of (cr_byID (w_contests w')) (Con_ID c) = Some c"
proof -
  have "\<not> isl (fst (Raise sample_contests [67] [73] SubjectReportCard (lit ''too low'') sample_hiring))" by code_simp
  then obtain c w' where r: "Raise sample_contests [67] [73] SubjectReportCard (lit ''too low'') sample_hiring = (Inr c, w')"
    by (metis isl_def prod.collapse sum.collapse(2))
  from contest_raised_own [OF r [unfolded sample_contests_def]] r show ?thesis by simp
qed

definition sample_contested :: World where
  "sample_contested = snd (Raise sample_contests [67] [73] SubjectReportCard (lit ''too low'') sample_hiring)"

lemma contest_resolved_once_witness:
  "\<exists>c' w'. Resolve sample_contests [69] [97] True [] sample_contested = (Inr c', w') \<and> Con_Status c' = StatusUpheld \<and>
     (\<exists>e. fst (Resolve sample_contests [69] [97] False [] w') = Inl e)"
proof -
  have run: "\<not> isl (fst (Resolve sample_contests [69] [97] True [] sample_contested))" and z: "\<not> ID_IsZero [69]"
    by code_simp+
  have dom: "cr_order (w_contests sample_contested) = [[97]]" "map fst (cr_byID (w_contests sample_contested)) = [[97]]"
      "map (Con_ID \<circ> snd) (cr_byID (w_contests sample_contested)) = [[97]]"
    by code_simp+
  have "contests_inv (w_contests sample_contested)"
  proof -
    obtain c where "cr_byID (w_contests sample_contested) = [([97], c)]" "Con_ID c = [97]"
      using dom(2,3) by (auto simp: map_eq_Cons_conv)
    then show ?thesis using dom(1) by (simp add: contests_inv_def)
  qed
  moreover obtain c' w' where r: "Resolve sample_contests [69] [97] True [] sample_contested = (Inr c', w')"
    using run by (metis isl_def prod.collapse sum.collapse(2))
  ultimately have inv: "contests_inv (w_contests sample_contested)"
    and r: "Resolve sample_contests [69] [97] True [] sample_contested = (Inr c', w')" by simp_all
  have "\<forall>ms. set (id ms :: Match list) = set ms" by simp
  note t = contest_resolved_once [OF r [unfolded sample_contests_def] inv this z]
  from t have "Con_Status c' = StatusUpheld" by auto
  moreover from t have "\<exists>e v'. Resolve sample_contests [69] [97] False [] w' = (Inl e, v')"
    unfolding sample_contests_def by blast
  then have "\<exists>e. fst (Resolve sample_contests [69] [97] False [] w') = Inl e" by force
  ultimately show ?thesis using r by blast
qed

subsection \<open>The snapshot of a rejection\<close>

text \<open>
  C26: The audit trail can be read back. The snapshot that a rejection leaves in the audit trail is
  one JSON document, and parsing it gives exactly the role, the candidate, the reason and the human
  approval that were recorded, whatever characters the reason contains.
\<close>

theorem snapshot_roundtrip:
  assumes "\<forall>r \<in> set (Rej_RoleID rej @ Rej_CandidateID rej @ Rej_Reason rej). 0 \<le> r"
  shows "json_parse (Rejection_SnapshotJSON rej) = Some (VObj
    [(lit ''role_id'', VStr (Rej_RoleID rej)), (lit ''candidate_id'', VStr (Rej_CandidateID rej)),
     (lit ''reason'', VStr (Rej_Reason rej)), (lit ''human_approved'', VBool True)])"
proof -
  let ?v = "JObj [(''role_id'', JStr (Rej_RoleID rej)), (''candidate_id'', JStr (Rej_CandidateID rej)),
      (''reason'', JStr (Rej_Reason rej)), (''human_approved'', JBool True)]"
  have "json_runes ?v" using assms by simp
  moreover have "json_depth ?v \<le> maxNestingDepth" by (simp add: maxNestingDepth_def)
  ultimately show ?thesis using json_roundtrip [of ?v] by (simp add: Rejection_SnapshotJSON_def del: lit_simps)
qed

lemma snapshot_roundtrip_witness:
  "json_parse (Rejection_SnapshotJSON \<lparr>Rej_RoleID = [114], Rej_CandidateID = [99],
       Rej_Reason = [34, 125, 10, 92, 117, 8232, 128512]\<rparr>) =
     Some (VObj [(lit ''role_id'', VStr [114]), (lit ''candidate_id'', VStr [99]),
       (lit ''reason'', VStr [34, 125, 10, 92, 117, 8232, 128512]), (lit ''human_approved'', VBool True)])"
  using snapshot_roundtrip [of "\<lparr>Rej_RoleID = [114], Rej_CandidateID = [99],
       Rej_Reason = [34, 125, 10, 92, 117, 8232, 128512]\<rparr>"] by (simp del: lit_simps)

end
