(* ===== verification/Privacy.thy ===== *)
theory Privacy
  imports Session
begin

section \<open>Data-subject rights\<close>

text \<open>
  \<open>internal/app/privacy\<close>: the erasure cascade (\<open>eraser.go\<close>), the export (\<open>exporter.go\<close>,
  \<open>document.go\<close>) and the retention sweep (\<open>retention.go\<close>), with the cascade that
  \<open>internal/platform/wiring/eraser.go\<close> assembles. The lemmas show that an erased candidate is gone
  from every store and nobody else is touched, and that an export is complete and ends.
\<close>

subsection \<open>Erasure\<close>

record 'w Eraser =
  er_scoped :: "(ID \<Rightarrow> ('w, unit) io) list"
  er_candidate :: "ID \<Rightarrow> ('w, unit) io"
  er_identity :: "ID \<Rightarrow> ('w, unit) io"
  er_audit :: "ID \<Rightarrow> ('w, unit) io"

definition EraseCandidate :: "'w Eraser \<Rightarrow> ID \<Rightarrow> ('w, unit) io" where
  "EraseCandidate e candidateID =
     (if ID_IsZero candidateID then io_fail (Invalid ''privacy: candidate id is required'')
      else io_bind (io_each (\<lambda>s. s candidateID) (er_scoped e)) (\<lambda>u.
           io_bind (er_candidate e candidateID) (\<lambda>u.
           io_bind (er_identity e candidateID) (\<lambda>u.
           er_audit e candidateID))))"

text \<open>The cascade of the in-memory stack.\<close>

definition BuildEraser :: "World Eraser" where
  "BuildEraser =
     \<lparr>er_scoped = [\<lambda>c. at_profiles (TalentProfileRepo_DeleteByCandidate c), \<lambda>c. at_apps (ApplicationRepo_DeleteByCandidate c),
        \<lambda>c. at_interviews (InterviewRepo_DeleteByCandidate c), \<lambda>c. at_matches (MatchRepo_DeleteByCandidate c),
        \<lambda>c. at_contests (ContestRepo_DeleteByCandidate c)],
      er_candidate = (\<lambda>c. at_candidates (CandidateRepo_Delete c)),
      er_identity = (\<lambda>c. at_users (UserRepo_Anonymize c)),
      er_audit = (\<lambda>c. at_audit (AuditRepo_TombstoneActor c))\<rparr>"

definition world_inv :: "World \<Rightarrow> bool" where
  "world_inv w \<longleftrightarrow> users_inv (w_users w) \<and> keyed_by Role_ID (w_roles w) \<and>
     ks_inv Cand_ID Cand_UserID (w_candidates w) \<and> ks_inv TP_ID TP_CandidateID (w_profiles w) \<and>
     applications_inv (w_apps w) \<and> keyed_by Iv_ID (w_interviews w) \<and> contests_inv (w_contests w)"

text \<open>No step of the cascade can fail.\<close>

lemma erasers:
  "fst (TalentProfileRepo_DeleteByCandidate c ps) = Inr ()"
  "fst (ApplicationRepo_DeleteByCandidate c as) = Inr ()"
  "fst (InterviewRepo_DeleteByCandidate c is) = Inr ()"
  "fst (MatchRepo_DeleteByCandidate c ms) = Inr ()"
  "fst (ContestRepo_DeleteByCandidate c cs) = Inr ()"
  "fst (CandidateRepo_Delete c ds) = Inr ()"
  "fst (UserRepo_Anonymize c us) = Inr ()"
  "fst (AuditRepo_TombstoneActor c es) = Inr ()"
  by (simp_all add: TalentProfileRepo_DeleteByCandidate_def ApplicationRepo_DeleteByCandidate_def
    InterviewRepo_DeleteByCandidate_def MatchRepo_DeleteByCandidate_def ContestRepo_DeleteByCandidate_def
    CandidateRepo_Delete_def UserRepo_Anonymize_def AuditRepo_TombstoneActor_def Let_def
    split: prod.splits option.splits)

lemma total_part:
  assumes "\<And>s. fst (m s) = Inr ()"
  shows "on_part get put m w = (Inr (), put (snd (m (get w))) w)"
  using assms [of "get w"] by (cases "m (get w)") (simp add: io_simps)

lemma erase_world:
  "EraseCandidate BuildEraser c w =
     (if ID_IsZero c then (Inl (Invalid ''privacy: candidate id is required''), w)
      else (Inr (), w
        \<lparr>w_profiles := snd (TalentProfileRepo_DeleteByCandidate c (w_profiles w)),
         w_apps := snd (ApplicationRepo_DeleteByCandidate c (w_apps w)),
         w_interviews := snd (InterviewRepo_DeleteByCandidate c (w_interviews w)),
         w_matches := snd (MatchRepo_DeleteByCandidate c (w_matches w)),
         w_contests := snd (ContestRepo_DeleteByCandidate c (w_contests w)),
         w_candidates := snd (CandidateRepo_Delete c (w_candidates w)),
         w_users := snd (UserRepo_Anonymize c (w_users w)),
         w_audit := snd (AuditRepo_TombstoneActor c (w_audit w))\<rparr>))"
proof -
  note t = total_part [where m = "TalentProfileRepo_DeleteByCandidate c", OF erasers(1)]
    total_part [where m = "ApplicationRepo_DeleteByCandidate c", OF erasers(2)]
    total_part [where m = "InterviewRepo_DeleteByCandidate c", OF erasers(3)]
    total_part [where m = "MatchRepo_DeleteByCandidate c", OF erasers(4)]
    total_part [where m = "ContestRepo_DeleteByCandidate c", OF erasers(5)]
    total_part [where m = "CandidateRepo_Delete c", OF erasers(6)]
    total_part [where m = "UserRepo_Anonymize c", OF erasers(7)]
    total_part [where m = "AuditRepo_TombstoneActor c", OF erasers(8)]
  show ?thesis by (simp add: EraseCandidate_def BuildEraser_def io_apply(1,2,4) t)
qed

lemma ks_deleteBySecondary_map:
  assumes "ks_inv p sec s"
  shows "ks_inv p sec (ks_deleteBySecondary sec k s)"
    and "map_of (ks_byID (ks_deleteBySecondary sec k s)) =
      (\<lambda>i. case map_of (ks_byID s) i of None \<Rightarrow> None | Some v \<Rightarrow> if sec v = k then None else Some v)"
proof -
  note a = ks_agreeD [OF assms [unfolded ks_inv_def]]
  have "ks_inv p sec (ks_deleteBySecondary sec k s) \<and> map_of (ks_byID (ks_deleteBySecondary sec k s)) =
      (\<lambda>i. case map_of (ks_byID s) i of None \<Rightarrow> None | Some v \<Rightarrow> if sec v = k then None else Some v)"
  proof (cases "map_of (ks_bySecond s) k")
    case None
    then have "map_of (ks_byID s) i = Some v \<Longrightarrow> sec v \<noteq> k" for i v using a(5) [of i v] by auto
    then show ?thesis using None assms by (auto simp: ks_deleteBySecondary_def fun_eq_iff split: option.splits)
  next
    case (Some i)
    then obtain v where v: "map_of (ks_byID s) i = Some v" "sec v = k" using a(4) by blast
    have uniq: "j = i" if "map_of (ks_byID s) j = Some u" "sec u = k" for j u
      using a(5) [OF that(1)] a(5) [OF v(1)] v(2) that(2) by simp
    have "((map_of (ks_byID s))(i := None)) j =
        (case map_of (ks_byID s) j of None \<Rightarrow> None | Some v \<Rightarrow> if sec v = k then None else Some v)" for j
    proof (cases "map_of (ks_byID s) j")
      case (Some u)
      have "sec u = k \<longleftrightarrow> j = i" using uniq [OF Some] v Some by (cases "j = i") auto
      with Some show ?thesis by simp
    qed simp
    then show ?thesis using Some ks_inv_delete [OF assms, of i] by (simp add: ks_deleteBySecondary_def fun_eq_iff)
  qed
  then show "ks_inv p sec (ks_deleteBySecondary sec k s)"
    "map_of (ks_byID (ks_deleteBySecondary sec k s)) =
      (\<lambda>i. case map_of (ks_byID s) i of None \<Rightarrow> None | Some v \<Rightarrow> if sec v = k then None else Some v)" by simp_all
qed

text \<open>A map without the entries of an owner.\<close>

definition without :: "('v \<Rightarrow> ID) \<Rightarrow> ID \<Rightarrow> (ID \<rightharpoonup> 'v) \<Rightarrow> (ID \<rightharpoonup> 'v)" where
  "without owner c m = (\<lambda>i. case m i of None \<Rightarrow> None | Some v \<Rightarrow> if owner v = c then None else Some v)"

definition anonymized :: "ID \<Rightarrow> User \<Rightarrow> User" where
  "anonymized c u = u\<lparr>User_Name := [], User_PasswordHash := [], User_Email := erased_email c\<rparr>"

lemma without_Some_iff: "without owner c m i = Some v \<longleftrightarrow> m i = Some v \<and> owner v \<noteq> c"
  by (auto simp: without_def split: option.splits if_splits)

lemma Anonymize_world:
  assumes "users_inv r" and "\<forall>i u. map_of (ur_byID r) i = Some u \<and> User_Email u = erased_email c \<longrightarrow> i = c"
  shows "users_inv (snd (UserRepo_Anonymize c r))"
    and "map_of (ur_byID (snd (UserRepo_Anonymize c r))) = (\<lambda>i. if i = c then map_option (anonymized c) (map_of (ur_byID r) c) else map_of (ur_byID r) i)"
proof -
  have "users_inv (snd (UserRepo_Anonymize c r)) \<and> map_of (ur_byID (snd (UserRepo_Anonymize c r))) =
      (\<lambda>i. if i = c then map_option (anonymized c) (map_of (ur_byID r) c) else map_of (ur_byID r) i)"
  proof (cases "map_of (ur_byID r) c")
    case (Some u)
    let ?u = "anonymized c u"
    have id: "User_ID ?u = c" using users_invD(1) [OF assms(1) Some] by (simp add: anonymized_def)
    have em: "User_Email ?u = erased_email c" by (simp add: anonymized_def)
    have "email_free r ?u"
    proof (cases "map_of (ur_byEmail r) (erased_email c)")
      case (Some j)
      then obtain v where "map_of (ur_byID r) j = Some v" "User_Email v = erased_email c"
        using users_invD(3) [OF assms(1)] by blast
      then have "j = c" using assms(2) by blast
      then show ?thesis using Some id em by (simp add: email_free_def)
    qed (simp add: email_free_def em)
    from users_inv_replace [OF assms(1) _ this, unfolded id em, OF Some]
    have "users_inv (r\<lparr>ur_byID := AList.update c ?u (ur_byID r), ur_byEmail := AList.update (erased_email c) c
        (AList.delete (User_Email u) (ur_byEmail r))\<rparr>)" (is "users_inv ?r")
      by (rule back_subst [of users_inv]) simp
    moreover have "UserRepo_Anonymize c r = (Inr (), ?r)"
      using Some by (simp add: UserRepo_Anonymize_def Let_def anonymized_def)
    ultimately show ?thesis
      using Some by (auto simp: update_conv' fun_eq_iff)
  qed (use assms(1) in \<open>auto simp: UserRepo_Anonymize_def fun_eq_iff\<close>)
  then show "users_inv (snd (UserRepo_Anonymize c r))"
    "map_of (ur_byID (snd (UserRepo_Anonymize c r))) =
      (\<lambda>i. if i = c then map_option (anonymized c) (map_of (ur_byID r) c) else map_of (ur_byID r) i)" by simp_all
qed

lemma tombstone:
  "c \<noteq> t \<Longrightarrow> \<forall>e \<in> set (map (\<lambda>e :: AuditEntry. if ActorUserID e = c then e\<lparr>ActorUserID := t\<rparr> else e) es). ActorUserID e \<noteq> c"
  "map (\<lambda>e. e\<lparr>ActorUserID := []\<rparr>) (map (\<lambda>e :: AuditEntry. if ActorUserID e = c then e\<lparr>ActorUserID := t\<rparr> else e) es) = map (\<lambda>e. e\<lparr>ActorUserID := []\<rparr>) es"
  "c \<noteq> t \<Longrightarrow> filter (\<lambda>e. ActorUserID e \<noteq> t) (map (\<lambda>e :: AuditEntry. if ActorUserID e = c then e\<lparr>ActorUserID := t\<rparr> else e) es) =
     filter (\<lambda>e. ActorUserID e \<noteq> c \<and> ActorUserID e \<noteq> t) es"
  by auto (induction es; auto)

lemma map_eqI: "(\<And>i v. f i = Some v \<longleftrightarrow> g i = Some v) \<Longrightarrow> f = g"
  by (rule ext) (metis option.exhaust)

lemma keyed_by_filter:
  assumes "keyed_by key items"
  shows "keyed_by key (filter (\<lambda>(i, v). owner v \<noteq> c) items)"
    and "map_of (filter (\<lambda>(i, v). owner v \<noteq> c) items) = without owner c (map_of items)"
proof -
  show k: "keyed_by key (filter (\<lambda>(i, v). owner v \<noteq> c) items)"
    using assms by (simp add: keyed_by_def distinct_map_filter)
  show "map_of (filter (\<lambda>(i, v). owner v \<noteq> c) items) = without owner c (map_of items)"
    by (rule map_eqI) (simp add: keyed_by_map_of [OF k] without_Some_iff keyed_by_map_of [OF assms])
qed

lemma erase_effect:
  assumes "world_inv w" and "\<not> ID_IsZero c" and "c \<noteq> lit ''erased''"
    and "\<forall>i u. map_of (ur_byID (w_users w)) i = Some u \<and> User_Email u = erased_email c \<longrightarrow> i = c"
  shows "\<exists>w'. EraseCandidate BuildEraser c w = (Inr (), w') \<and> world_inv w' \<and>
    map_of (ks_byID (w_profiles w')) = without TP_CandidateID c (map_of (ks_byID (w_profiles w))) \<and>
    map_of (ar_byID (w_apps w')) = without App_CandidateID c (map_of (ar_byID (w_apps w))) \<and>
    map_of (w_interviews w') = without Iv_CandidateID c (map_of (w_interviews w)) \<and>
    w_matches w' = filter (\<lambda>(k, m). Match_CandidateID m \<noteq> c) (w_matches w) \<and>
    map_of (cr_byID (w_contests w')) = without Con_CandidateID c (map_of (cr_byID (w_contests w))) \<and>
    map_of (ks_byID (w_candidates w')) = (map_of (ks_byID (w_candidates w)))(c := None) \<and>
    map_of (ur_byID (w_users w')) = (\<lambda>i. if i = c then map_option (anonymized c) (map_of (ur_byID (w_users w)) c)
      else map_of (ur_byID (w_users w)) i) \<and>
    (\<forall>e \<in> set (w_audit w'). ActorUserID e \<noteq> c) \<and>
    map (\<lambda>e. e\<lparr>ActorUserID := []\<rparr>) (w_audit w') = map (\<lambda>e. e\<lparr>ActorUserID := []\<rparr>) (w_audit w) \<and>
    filter (\<lambda>e. ActorUserID e \<noteq> lit ''erased'') (w_audit w') =
      filter (\<lambda>e. ActorUserID e \<noteq> c \<and> ActorUserID e \<noteq> lit ''erased'') (w_audit w) \<and>
    w_roles w' = w_roles w \<and> w_refresh w' = w_refresh w \<and> w_throttle w' = w_throttle w"
proof -
  note inv = assms(1) [unfolded world_inv_def]
  define w' where "w' = snd (EraseCandidate BuildEraser c w)"
  have run: "EraseCandidate BuildEraser c w = (Inr (), w')"
    unfolding w'_def erase_world using assms(2) by (simp only: if_False snd_conv)
  note world' = w'_def [unfolded erase_world if_not_P [OF assms(2)] snd_conv]
  have w': "w_profiles w' = ks_deleteBySecondary TP_CandidateID c (w_profiles w)"
    "w_apps w' = snd (ApplicationRepo_DeleteByCandidate c (w_apps w))"
    "w_interviews w' = filter (\<lambda>(i, iv). Iv_CandidateID iv \<noteq> c) (w_interviews w)"
    "w_matches w' = snd (MatchRepo_DeleteByCandidate c (w_matches w))"
    "w_contests w' = snd (ContestRepo_DeleteByCandidate c (w_contests w))"
    "w_candidates w' = ks_deleteByPrimary Cand_UserID c (w_candidates w)"
    "w_users w' = snd (UserRepo_Anonymize c (w_users w))"
    "w_audit w' = map (\<lambda>e. if ActorUserID e = c then e\<lparr>ActorUserID := lit ''erased''\<rparr> else e) (w_audit w)"
    "w_roles w' = w_roles w" "w_refresh w' = w_refresh w" "w_throttle w' = w_throttle w"
    unfolding world' by (simp_all add: TalentProfileRepo_DeleteByCandidate_def InterviewRepo_DeleteByCandidate_def
      CandidateRepo_Delete_def AuditRepo_TombstoneActor_def del: lit_simps)
  have apps: "applications_inv (w_apps w') \<and> map_of (ar_byID (w_apps w')) = without App_CandidateID c (map_of (ar_byID (w_apps w)))"
    unfolding w'(2) without_def
    using ApplicationRepo_erased [of "w_apps w" c "snd (ApplicationRepo_DeleteByCandidate c (w_apps w))"] inv
    by (simp add: prod_eq_iff erasers)
  have cons: "contests_inv (w_contests w') \<and> map_of (cr_byID (w_contests w')) = without Con_CandidateID c (map_of (cr_byID (w_contests w)))"
    unfolding w'(5) without_def
    using ContestRepo_erased [of "w_contests w" c "snd (ContestRepo_DeleteByCandidate c (w_contests w))"] inv
    by (simp add: prod_eq_iff erasers)
  note profs = ks_deleteBySecondary_map [of TP_ID TP_CandidateID "w_profiles w" c]
  note cands = ks_inv_delete [of Cand_ID Cand_UserID "w_candidates w" c]
  note users = Anonymize_world [OF _ assms(4)]
  have ivs: "keyed_by Iv_ID (w_interviews w')" "map_of (w_interviews w') = without Iv_CandidateID c (map_of (w_interviews w))"
    using inv keyed_by_filter [of Iv_ID "w_interviews w" Iv_CandidateID c] unfolding w'(3) by simp_all
  have ms: "w_matches w' = filter (\<lambda>(k, m). Match_CandidateID m \<noteq> c) (w_matches w)"
    by (simp add: w'(4) MatchRepo_DeleteByCandidate_def)
  have aud: "\<forall>e \<in> set (w_audit w'). ActorUserID e \<noteq> c"
    "map (\<lambda>e. e\<lparr>ActorUserID := []\<rparr>) (w_audit w') = map (\<lambda>e. e\<lparr>ActorUserID := []\<rparr>) (w_audit w)"
    "filter (\<lambda>e. ActorUserID e \<noteq> lit ''erased'') (w_audit w') =
      filter (\<lambda>e. ActorUserID e \<noteq> c \<and> ActorUserID e \<noteq> lit ''erased'') (w_audit w)"
    unfolding w'(8) using tombstone [of c "lit ''erased''"] assms(3) by blast+
  have "world_inv w'"
    using inv apps cons profs(1) cands(1) users(1) ivs(1) by (simp add: world_inv_def w'(1,6,7,9))
  then show ?thesis
    using run inv apps cons profs(2) cands(2) users(2) ivs(2) ms aud
    by (intro exI [of _ w'] conjI) (simp_all add: w'(1,6,7,9,10,11) without_def [of TP_CandidateID])
qed

lemma erase_audit:
  assumes "\<not> ID_IsZero c" and "EraseCandidate BuildEraser c w = (Inr (), w')"
  shows "w_audit w' = map (\<lambda>e. if ActorUserID e = c then e\<lparr>ActorUserID := lit ''erased''\<rparr> else e) (w_audit w)"
proof -
  have "w' = snd (EraseCandidate BuildEraser c w)" using assms(2) by (simp only: snd_conv)
  note world' = this [unfolded erase_world if_not_P [OF assms(1)] snd_conv]
  show ?thesis unfolding world' by (simp add: AuditRepo_TombstoneActor_def del: lit_simps)
qed

text \<open>
  C1: Erasure is complete in the records and confined. On the in-memory stack, in a state that meets the
  stores' invariants, for an identifier that is neither empty nor the tombstone, and with the tombstone address
  of the candidate not taken by somebody else, erasing a candidate does not fail. In the stores afterwards there
  is no profile, application, interview, match, contest or candidate record of that candidate, and the account
  of the same identifier has lost its name, credential and address. The audit trail keeps every entry with
  everything it says, the entity and the snapshots included; only where the candidate was the actor the
  tombstone stands instead. Every record of anybody else is exactly what it was.
\<close>

theorem erasure_complete:
  assumes "world_inv w" and "\<not> ID_IsZero c" and "c \<noteq> lit ''erased''"
    and "\<forall>i u. map_of (ur_byID (w_users w)) i = Some u \<and> User_Email u = erased_email c \<longrightarrow> i = c"
  shows "\<exists>w'. EraseCandidate BuildEraser c w = (Inr (), w') \<and> world_inv w' \<and>
    map_of (ks_byID (w_profiles w')) = without TP_CandidateID c (map_of (ks_byID (w_profiles w))) \<and>
    map_of (ar_byID (w_apps w')) = without App_CandidateID c (map_of (ar_byID (w_apps w))) \<and>
    map_of (w_interviews w') = without Iv_CandidateID c (map_of (w_interviews w)) \<and>
    w_matches w' = filter (\<lambda>(k, m). Match_CandidateID m \<noteq> c) (w_matches w) \<and>
    map_of (cr_byID (w_contests w')) = without Con_CandidateID c (map_of (cr_byID (w_contests w))) \<and>
    map_of (ks_byID (w_candidates w')) = (map_of (ks_byID (w_candidates w)))(c := None) \<and>
    map_of (ur_byID (w_users w')) = (\<lambda>i. if i = c then map_option (anonymized c) (map_of (ur_byID (w_users w)) c)
      else map_of (ur_byID (w_users w)) i) \<and>
    (\<forall>e \<in> set (w_audit w'). ActorUserID e \<noteq> c) \<and>
    w_audit w' = map (\<lambda>e. if ActorUserID e = c then e\<lparr>ActorUserID := lit ''erased''\<rparr> else e) (w_audit w) \<and>
    w_roles w' = w_roles w \<and> w_refresh w' = w_refresh w \<and> w_throttle w' = w_throttle w"
proof -
  obtain w' where run: "EraseCandidate BuildEraser c w = (Inr (), w')" using erase_effect [OF assms] by blast
  show ?thesis using erase_effect [OF assms] erase_audit [OF assms(2) run] unfolding run prod.inject by blast
qed

text \<open>
  What stays: an entry about the candidate, a recorded rejection for one, still names the candidate as its
  entity and keeps its snapshots.
\<close>

lemma erasure_keeps_subject:
  assumes "\<not> ID_IsZero c" and "EraseCandidate BuildEraser c w = (Inr (), w')" and "e \<in> set (w_audit w)" and "EntityID e = c"
  shows "\<exists>e' \<in> set (w_audit w'). Aud_ID e' = Aud_ID e \<and> EntityID e' = c \<and> BeforeJSON e' = BeforeJSON e \<and> AfterJSON e' = AfterJSON e"
proof -
  let ?e = "if ActorUserID e = c then e\<lparr>ActorUserID := lit ''erased''\<rparr> else e"
  have "?e \<in> set (w_audit w')" unfolding erase_audit [OF assms(1,2)] set_map using assms(3) by (rule imageI)
  moreover have "Aud_ID ?e = Aud_ID e \<and> EntityID ?e = c \<and> BeforeJSON ?e = BeforeJSON e \<and> AfterJSON ?e = AfterJSON e"
    using assms(4) by (cases "ActorUserID e = c") (simp_all del: lit_simps)
  ultimately show ?thesis by blast
qed

subsection \<open>Sessions after an erasure\<close>

text \<open>
  C16: Erasure leaves the sessions of the erased account alive. On the in-memory stack the cascade
  does not touch the refresh grants and keeps the account active, so a refresh token issued before
  the erasure is still accepted after it and a session for the anonymized account is issued.
\<close>

theorem erased_session_survives:
  assumes "world_inv w" and "\<not> ID_IsZero c" and "EraseCandidate BuildEraser c w = (Inr (), w')"
    and "\<forall>i u. map_of (ur_byID (w_users w)) i = Some u \<and> User_Email u = erased_email c \<longrightarrow> i = c"
    and "map_of (ur_byID (w_users w)) c = Some u" and "User_IsActive u"
    and "VerifyRefresh tk token w' = (Inr claims, w')"
    and "map_of (w_refresh w) (RC_ID claims) = Some rec" and "RR_UserID rec = c" and "\<not> Revoked rec"
    and "fst (World_now w') < ExpiresAt rec"
  shows "\<exists>v. Refresh (memory_identity h tk) token w' = issue (memory_identity h tk) (anonymized c u) v"
proof -
  have w': "w_users w' = snd (UserRepo_Anonymize c (w_users w))" "w_refresh w' = w_refresh w"
    using assms(2,3) by (auto simp: erase_world simp del: lit_simps)
  have acc: "map_of (ur_byID (w_users w')) c = Some (anonymized c u)"
    using Anonymize_world(2) [OF _ assms(4)] assms(1,5) by (simp add: w'(1) world_inv_def)
  obtain t v where n: "World_now w' = (t, v)" by fastforce
  have v: "w_refresh v = w_refresh w" "w_users v = w_users w'" using stores_now [OF n] w'(2) by (simp_all add: stores_eq_iff)
  let ?v = "v\<lparr>w_refresh := AList.update (RC_ID claims) (rec\<lparr>Revoked := True\<rparr>) (w_refresh v)\<rparr>"
  have "at_refresh (RefreshStore_Consume (RC_ID claims) t) v = (Inr (rec\<lparr>Revoked := True\<rparr>), ?v)"
    using assms(8,10,11) n v(1) by (simp add: io_simps RefreshStore_Consume_def Let_def)
  moreover have "at_users (UserRepo_ByID c) ?v = (Inr (anonymized c u), ?v)"
    using acc v(2) by (simp add: memory_reads)
  moreover have "User_IsActive (anonymized c u)" using assms(6) by (simp add: User_IsActive_def anonymized_def)
  ultimately have "Refresh (memory_identity h tk) token w' = issue (memory_identity h tk) (anonymized c u) ?v"
    using assms(7,9) n by (simp add: Refresh_def io_bind_def io_of_def io_try_def)
  then show ?thesis by blast
qed

subsection \<open>Retention\<close>

record RetentionResult =
  Eligible :: int
  Erased :: int
  Failed :: int

record 'w RetentionSweeper =
  rs_lister :: "time \<Rightarrow> ('w, ID list) io"
  rs_eraser :: "ID \<Rightarrow> ('w, unit) io"
  rs_retention :: duration
  rs_now :: "'w Clock"

text \<open>The loop over the candidates: a failed erasure is counted, wrapped and does not stop the sweep.\<close>

fun sweep_loop :: "(ID \<Rightarrow> ('w, unit) io) \<Rightarrow> ID list \<Rightarrow> RetentionResult \<Rightarrow> go_error list \<Rightarrow> 'w \<Rightarrow>
    (RetentionResult \<times> go_error list) \<times> 'w" where
  "sweep_loop erase [] result errs w = ((result, errs), w)"
| "sweep_loop erase (i # ids) result errs w =
     (case erase i w of
        (Inl eerr, w') \<Rightarrow> sweep_loop erase ids (result\<lparr>Failed := Failed result + 1\<rparr>)
          (errs @ [PlainErr ''erase %s: %w'' [AStr i] [eerr]]) w'
      | (Inr u, w') \<Rightarrow> sweep_loop erase ids (result\<lparr>Erased := Erased result + 1\<rparr>) errs w')"

text \<open>The sweep returns its result also when it returns an error.\<close>

definition Sweep :: "'w RetentionSweeper \<Rightarrow> 'w \<Rightarrow> (RetentionResult \<times> go_error option) \<times> 'w" where
  "Sweep s w =
     (if rs_retention s \<le> 0 then ((\<lparr>Eligible = 0, Erased = 0, Failed = 0\<rparr>, None), w)
      else case rs_now s w of (now, w1) \<Rightarrow>
        (case rs_lister s (now + - rs_retention s) w1 of
           (Inl err, w2) \<Rightarrow> ((\<lparr>Eligible = 0, Erased = 0, Failed = 0\<rparr>,
              Some (PlainErr ''privacy: list retention-eligible: %w'' [] [err])), w2)
         | (Inr ids, w2) \<Rightarrow>
             let ((result, errs), w3) = sweep_loop (rs_eraser s) ids
                   \<lparr>Eligible = int (length ids), Erased = 0, Failed = 0\<rparr> [] w2
             in if errs \<noteq> [] then ((result, Some (PlainErr ''privacy: retention sweep had %d failure(s): %w''
                    [AInt (int (length errs))] [PlainErr ''errors.Join'' [] errs])), w3)
                else ((result, None), w3)))"

lemma sweep_loop_counts:
  "sweep_loop erase ids r errs w = ((r', errs'), w') \<Longrightarrow>
     Erased r' + Failed r' = Erased r + Failed r + int (length ids) \<and> Eligible r' = Eligible r \<and>
     int (length errs') - int (length errs) = Failed r' - Failed r \<and> Erased r \<le> Erased r' \<and> Failed r \<le> Failed r'"
proof (induction ids arbitrary: r errs w)
  case (Cons i ids)
  obtain res v where e: "erase i w = (res, v)" by fastforce
  show ?case using Cons.prems Cons.IH e by (cases res) (fastforce simp: e)+
qed simp

text \<open>Nothing is left of a candidate but the anonymized account.\<close>

definition gone :: "ID \<Rightarrow> World \<Rightarrow> bool" where
  "gone c w \<longleftrightarrow> (\<forall>p \<in> ran (map_of (ks_byID (w_profiles w))). TP_CandidateID p \<noteq> c) \<and>
     (\<forall>a \<in> ran (map_of (ar_byID (w_apps w))). App_CandidateID a \<noteq> c) \<and>
     (\<forall>i \<in> ran (map_of (w_interviews w)). Iv_CandidateID i \<noteq> c) \<and>
     (\<forall>m \<in> snd ` set (w_matches w). Match_CandidateID m \<noteq> c) \<and>
     (\<forall>x \<in> ran (map_of (cr_byID (w_contests w))). Con_CandidateID x \<noteq> c) \<and>
     map_of (ks_byID (w_candidates w)) c = None \<and> (\<forall>e \<in> set (w_audit w). ActorUserID e \<noteq> c) \<and>
     (\<forall>u. map_of (ur_byID (w_users w)) c = Some u \<longrightarrow>
        User_Name u = [] \<and> User_PasswordHash u = [] \<and> User_Email u = erased_email c)"

definition tombstones_free :: "World \<Rightarrow> bool" where
  "tombstones_free w \<longleftrightarrow> (\<forall>c i u. map_of (ur_byID (w_users w)) i = Some u \<and> User_Email u = erased_email c \<longrightarrow> i = c)"

lemma ran_without: "ran (without owner c m) = {v \<in> ran m. owner v \<noteq> c}"
  by (auto simp: ran_def without_Some_iff)

lemma erased_email_inj: "erased_email c = erased_email d \<longleftrightarrow> c = d"
  by (simp add: erased_email_def del: lit_simps)

lemma erase_step:
  assumes "world_inv w" and "tombstones_free w" and "\<not> ID_IsZero c" and "c \<noteq> lit ''erased''"
  shows "\<exists>w'. EraseCandidate BuildEraser c w = (Inr (), w') \<and> world_inv w' \<and> tombstones_free w' \<and> gone c w' \<and>
    (\<forall>d. d \<noteq> lit ''erased'' \<and> gone d w \<longrightarrow> gone d w') \<and>
    map_of (ur_byID (w_users w')) = (\<lambda>i. if i = c then map_option (anonymized c) (map_of (ur_byID (w_users w)) c)
      else map_of (ur_byID (w_users w)) i)"
proof -
  obtain w' where run: "EraseCandidate BuildEraser c w = (Inr (), w')" and inv: "world_inv w'" and e:
    "map_of (ks_byID (w_profiles w')) = without TP_CandidateID c (map_of (ks_byID (w_profiles w)))"
    "map_of (ar_byID (w_apps w')) = without App_CandidateID c (map_of (ar_byID (w_apps w)))"
    "map_of (w_interviews w') = without Iv_CandidateID c (map_of (w_interviews w))"
    "w_matches w' = filter (\<lambda>(k, m). Match_CandidateID m \<noteq> c) (w_matches w)"
    "map_of (cr_byID (w_contests w')) = without Con_CandidateID c (map_of (cr_byID (w_contests w)))"
    "map_of (ks_byID (w_candidates w')) = (map_of (ks_byID (w_candidates w)))(c := None)"
    "map_of (ur_byID (w_users w')) = (\<lambda>i. if i = c then map_option (anonymized c) (map_of (ur_byID (w_users w)) c)
      else map_of (ur_byID (w_users w)) i)"
    and actor: "\<forall>e \<in> set (w_audit w'). ActorUserID e \<noteq> c"
    and trail: "filter (\<lambda>e. ActorUserID e \<noteq> lit ''erased'') (w_audit w') =
      filter (\<lambda>e. ActorUserID e \<noteq> c \<and> ActorUserID e \<noteq> lit ''erased'') (w_audit w)"
    using erase_effect [OF assms(1,3,4)] assms(2) unfolding tombstones_free_def by blast
  have "gone c w'"
    unfolding gone_def e ran_without using actor by (auto simp: anonymized_def)
  moreover have "tombstones_free w'"
    using assms(2) unfolding tombstones_free_def e(7) by (auto simp: anonymized_def erased_email_inj split: if_splits)
  moreover have "gone d w'" if d: "d \<noteq> lit ''erased''" "gone d w" for d
  proof -
    have "ActorUserID x \<noteq> d" if x: "x \<in> set (w_audit w')" for x
    proof
      assume "ActorUserID x = d"
      then have "x \<in> set (filter (\<lambda>e. ActorUserID e \<noteq> lit ''erased'') (w_audit w'))" using x d(1) by simp
      then have "x \<in> set (w_audit w)" unfolding trail by simp
      with d(2) \<open>ActorUserID x = d\<close> show False by (simp add: gone_def)
    qed
    then show ?thesis using d(2) unfolding gone_def e ran_without by (auto simp: anonymized_def)
  qed
  ultimately show ?thesis using run inv e(7) by blast
qed

definition memory_sweeper :: "((ID \<times> User) list \<Rightarrow> (ID \<times> User) list) \<Rightarrow> duration \<Rightarrow> World RetentionSweeper" where
  "memory_sweeper iter retention =
     \<lparr>rs_lister = (\<lambda>t. at_users (UserRepo_ListEligibleForRetention iter t)), rs_eraser = EraseCandidate BuildEraser,
      rs_retention = retention, rs_now = World_now\<rparr>"

lemma sweep_loop_memory:
  assumes "world_inv w" and "tombstones_free w" and "\<forall>c \<in> set ids. \<not> ID_IsZero c \<and> c \<noteq> lit ''erased''"
  shows "\<exists>w'. sweep_loop (EraseCandidate BuildEraser) ids r errs w =
      ((r\<lparr>Erased := Erased r + int (length ids)\<rparr>, errs), w') \<and>
    world_inv w' \<and> tombstones_free w' \<and> (\<forall>c \<in> set ids. gone c w') \<and> (\<forall>d. d \<noteq> lit ''erased'' \<and> gone d w \<longrightarrow> gone d w') \<and>
    (\<forall>i. map_of (ur_byID (w_users w')) i = (if i \<in> set ids then map_option (anonymized i) (map_of (ur_byID (w_users w)) i)
       else map_of (ur_byID (w_users w)) i))"
  using assms
proof (induction ids arbitrary: r w)
  case (Cons c ids)
  have c: "\<not> ID_IsZero c" "c \<noteq> lit ''erased''" using Cons.prems(3) by simp_all
  from erase_step [OF Cons.prems(1,2) c] obtain v where v: "EraseCandidate BuildEraser c w = (Inr (), v)"
    "world_inv v" "tombstones_free v" "gone c v" "\<forall>d. d \<noteq> lit ''erased'' \<and> gone d w \<longrightarrow> gone d v"
    "map_of (ur_byID (w_users v)) = (\<lambda>i. if i = c then map_option (anonymized c) (map_of (ur_byID (w_users w)) c)
      else map_of (ur_byID (w_users w)) i)" by blast
  have rest: "\<forall>c \<in> set ids. \<not> ID_IsZero c \<and> c \<noteq> lit ''erased''" using Cons.prems(3) by simp
  from Cons.IH [OF v(2,3) rest, of "r\<lparr>Erased := Erased r + 1\<rparr>"] obtain w' where
    w': "sweep_loop (EraseCandidate BuildEraser) ids (r\<lparr>Erased := Erased r + 1\<rparr>) errs v =
      ((r\<lparr>Erased := Erased r + 1 + int (length ids)\<rparr>, errs), w')" "world_inv w'" "tombstones_free w'"
      "\<forall>c \<in> set ids. gone c w'" "\<forall>d. d \<noteq> lit ''erased'' \<and> gone d v \<longrightarrow> gone d w'"
      "\<And>i. map_of (ur_byID (w_users w')) i = (if i \<in> set ids then map_option (anonymized i) (map_of (ur_byID (w_users v)) i)
       else map_of (ur_byID (w_users v)) i)" by auto
  have twice: "map_option (anonymized c) (map_option (anonymized c) x) = map_option (anonymized c) x" for x
    by (cases x) (simp_all add: anonymized_def)
  have "sweep_loop (EraseCandidate BuildEraser) (c # ids) r errs w =
      ((r\<lparr>Erased := Erased r + int (length (c # ids))\<rparr>, errs), w')"
    using v(1) w'(1) by (simp add: add.assoc add.commute)
  moreover have "\<forall>d \<in> set (c # ids). gone d w'" using w'(4,5) v(4) c(2) by auto
  moreover have "map_of (ur_byID (w_users w')) i = (if i \<in> set (c # ids) then map_option (anonymized i) (map_of (ur_byID (w_users w)) i)
       else map_of (ur_byID (w_users w)) i)" for i
    unfolding w'(6) v(6) by (simp add: twice)
  ultimately show ?case using w'(2,3,5) v(5) by blast
qed simp

text \<open>
  C10: The retention sweep. On the in-memory stack a sweep with a positive window never fails: it
  erases exactly the candidate accounts created on or before the cutoff, counts each of them once
  as eligible and erased, leaves every other account as it was, and nothing but the anonymized
  account remains of the erased candidates. The accounts it erased stay eligible, so the next
  sweep erases and counts them again.
\<close>

theorem retention_sweep:
  assumes "world_inv w" and "tombstones_free w" and "0 < retention"
    and "\<forall>i. i \<in> dom (map_of (ur_byID (w_users w))) \<longrightarrow> \<not> ID_IsZero i \<and> i \<noteq> lit ''erased''"
    and "distinct (map fst (ur_byID (w_users w)))" and "\<forall>xs. mset (iter xs) = mset xs"
  defines "due \<equiv> {i. \<exists>u. map_of (ur_byID (w_users w)) i = Some u \<and> User_Role u = RoleCandidate \<and>
    User_CreatedAt u \<le> fst (World_now w) - retention}"
  shows "\<exists>n w'. Sweep (memory_sweeper iter retention) w = ((\<lparr>Eligible = n, Erased = n, Failed = 0\<rparr>, None), w') \<and>
    n = int (card due) \<and> (\<forall>c \<in> due. gone c w') \<and> world_inv w' \<and>
    (\<forall>i. i \<notin> due \<longrightarrow> map_of (ur_byID (w_users w')) i = map_of (ur_byID (w_users w)) i) \<and>
    due \<subseteq> {i. \<exists>u. map_of (ur_byID (w_users w')) i = Some u \<and> User_Role u = RoleCandidate \<and>
      User_CreatedAt u \<le> fst (World_now w) - retention}"
proof -
  obtain now v where n: "World_now w = (now, v)" by fastforce
  let ?P = "\<lambda>(i :: ID, u). User_Role u = RoleCandidate \<and> \<not> now - retention < User_CreatedAt u"
  let ?ids = "map fst (filter ?P (iter (ur_byID (w_users w))))"
  have st: "stores v = stores w" using stores_now [OF n] .
  have inv: "world_inv v" "tombstones_free v"
    using assms(1,2) st by (simp_all add: world_inv_def tombstones_free_def stores_eq_iff)
  have perm: "mset (iter (ur_byID (w_users w))) = mset (ur_byID (w_users w))" using assms(6) by blast
  have dist: "distinct (map fst (iter (ur_byID (w_users w))))"
    using perm assms(5) mset_eq_imp_distinct_iff [of "map fst (iter (ur_byID (w_users w)))" "map fst (ur_byID (w_users w))"]
    by simp
  have set_iter: "set (iter (ur_byID (w_users w))) = set (ur_byID (w_users w))" using mset_eq_setD [OF perm] .
  have due: "set ?ids = due"
    unfolding due_def by (auto simp: set_iter n not_less map_of_eq_Some_iff [OF assms(5)] image_iff)
  have "distinct ?ids" using dist by (simp add: distinct_map_filter)
  then have len: "int (length ?ids) = int (card due)" using due distinct_card by metis
  have "\<forall>c \<in> set ?ids. \<not> ID_IsZero c \<and> c \<noteq> lit ''erased''" using assms(4) unfolding due by (auto simp: due_def)
  from sweep_loop_memory [OF inv this, of "\<lparr>Eligible = int (length ?ids), Erased = 0, Failed = 0\<rparr>" "[]"]
  obtain w' where w': "sweep_loop (EraseCandidate BuildEraser) ?ids \<lparr>Eligible = int (length ?ids), Erased = 0, Failed = 0\<rparr> [] v =
      ((\<lparr>Eligible = int (length ?ids), Erased = int (length ?ids), Failed = 0\<rparr>, []), w')" "world_inv w'"
      "\<forall>c \<in> set ?ids. gone c w'" "\<And>i. map_of (ur_byID (w_users w')) i =
        (if i \<in> set ?ids then map_option (anonymized i) (map_of (ur_byID (w_users v)) i) else map_of (ur_byID (w_users v)) i)"
    by auto
  have "at_users (UserRepo_ListEligibleForRetention iter (now + - retention)) v = (Inr ?ids, v)"
    using st by (simp add: io_simps UserRepo_ListEligibleForRetention_def stores_eq_iff)
  then have "Sweep (memory_sweeper iter retention) w =
      ((\<lparr>Eligible = int (card due), Erased = int (card due), Failed = 0\<rparr>, None), w')"
    using n w'(1) assms(3) len by (simp add: Sweep_def memory_sweeper_def Let_def)
  moreover have "due \<subseteq> {i. \<exists>u. map_of (ur_byID (w_users w')) i = Some u \<and> User_Role u = RoleCandidate \<and>
      User_CreatedAt u \<le> fst (World_now w) - retention}"
    using st unfolding w'(4) due by (auto simp: due_def anonymized_def stores_eq_iff)
  ultimately show ?thesis using w'(2,3,4) st unfolding due by (simp add: stores_eq_iff)
qed

subsection \<open>The export\<close>

definition exportPageSize :: int where "exportPageSize = 100"

text \<open>\<open>None\<close> is a loop that does not end: nothing but the port decides when the pages run out.\<close>

partial_function (option) collect_from ::
    "(Page \<Rightarrow> ('w, 'a list \<times> int) io) \<Rightarrow> 'a list \<Rightarrow> int \<Rightarrow> 'w \<Rightarrow> ('a list res \<times> 'w) option" where
  "collect_from read acc page w =
     (case read (NewPage page exportPageSize) w of
        (Inl err, w') \<Rightarrow> Some (Inl err, w')
      | (Inr (batch, tot), w') \<Rightarrow>
          if batch = [] \<or> tot \<le> int (length (acc @ batch)) then Some (Inr (acc @ batch), w')
          else collect_from read (acc @ batch) (page + 1) w')"

definition collectAll :: "(Page \<Rightarrow> ('w, 'a list \<times> int) io) \<Rightarrow> 'w \<Rightarrow> ('a list res \<times> 'w) option" where
  "collectAll read = collect_from read [] 1"

record DataExport =
  Exp_Candidate :: Candidate
  Exp_Profile :: "TalentProfile option"
  Exp_Applications :: "Application list"
  Exp_Interviews :: "Interview list"
  Exp_Contests :: "Contest list"

record 'w Exporter =
  ex_candidates :: "'w CandidateRepository"
  ex_profiles :: "'w TalentProfileRepository"
  ex_apps :: "'w ApplicationRepository"
  ex_interviews :: "'w InterviewRepository"
  ex_contests :: "'w ContestRepository"

text \<open>One collected section, then the next.\<close>

definition then_collect :: "(Page \<Rightarrow> ('w, 'a list \<times> int) io) \<Rightarrow> ('a list \<Rightarrow> 'w \<Rightarrow> ('b res \<times> 'w) option) \<Rightarrow>
    'w \<Rightarrow> ('b res \<times> 'w) option" where
  "then_collect read k w = (case collectAll read w of None \<Rightarrow> None
     | Some (Inl err, w') \<Rightarrow> Some (Inl err, w') | Some (Inr xs, w') \<Rightarrow> k xs w')"

definition export_sections :: "'w Exporter \<Rightarrow> ID \<Rightarrow> DataExport \<Rightarrow> 'w \<Rightarrow> (DataExport res \<times> 'w) option" where
  "export_sections e candidateID out =
     then_collect (\<lambda>p. Apps_ByCandidate (ex_apps e) candidateID p) (\<lambda>apps.
     then_collect (\<lambda>p. Interviews_ByCandidate (ex_interviews e) candidateID p) (\<lambda>ivs.
     then_collect (\<lambda>p. Contests_ByCandidate (ex_contests e) candidateID p) (\<lambda>cons w.
       Some (Inr (out\<lparr>Exp_Applications := apps, Exp_Interviews := ivs, Exp_Contests := cons\<rparr>), w))))"

definition ExportCandidate :: "'w Exporter \<Rightarrow> ID \<Rightarrow> 'w \<Rightarrow> (DataExport res \<times> 'w) option" where
  "ExportCandidate e candidateID w =
     (case Candidates_ByID (ex_candidates e) candidateID w of
        (Inl err, w1) \<Rightarrow> Some (Inl err, w1)
      | (Inr cand, w1) \<Rightarrow>
          let out = \<lparr>Exp_Candidate = cand, Exp_Profile = None, Exp_Applications = [], Exp_Interviews = [], Exp_Contests = []\<rparr>
          in case Profiles_ByCandidateID (ex_profiles e) candidateID w1 of
               (Inr profile, w2) \<Rightarrow> export_sections e candidateID (out\<lparr>Exp_Profile := Some profile\<rparr>) w2
             | (Inl perr, w2) \<Rightarrow>
                 if KindOf perr \<noteq> KindNotFound then Some (Inl perr, w2) else export_sections e candidateID out w2)"

text \<open>A port that serves one listing page by page is collected in full.\<close>

definition serves :: "(Page \<Rightarrow> ('w, 'a list \<times> int) io) \<Rightarrow> 'w \<Rightarrow> 'a list \<Rightarrow> bool" where
  "serves read w xs \<longleftrightarrow> (\<forall>p. page_ok p \<longrightarrow>
     read p w = (Inr (take (nat (Size p)) (drop (nat ((Number p - 1) * Size p)) xs), int (length xs)), w))"

lemma collect_from_serves:
  assumes "serves read w xs" and "int (length xs) < 2 ^ 31" and "1 \<le> page" and "page \<le> int (length xs) + 1"
    and "page = 1 \<or> (page - 1) * 100 < int (length xs)"
  shows "collect_from read (take (nat ((page - 1) * 100)) xs) page w = Some (Inr xs, w)"
  using assms(3-5)
proof (induction "nat (int (length xs) - (page - 1) * 100)" arbitrary: page rule: less_induct)
  case less
  let ?acc = "take (nat ((page - 1) * 100)) xs"
  let ?batch = "take 100 (drop (nat ((page - 1) * 100)) xs)"
  have np: "NewPage page exportPageSize = \<lparr>Number = page, Size = 100\<rparr>"
    using less.prems(1) by (simp add: NewPage_def exportPageSize_def MaxPageSize_def DefaultPageSize_def)
  have "page_ok \<lparr>Number = page, Size = 100\<rparr>"
    using less.prems assms(2) by (simp add: page_ok_def MaxPageSize_def)
  then have rd: "read (NewPage page exportPageSize) w = (Inr (?batch, int (length xs)), w)"
    using assms(1) by (simp add: serves_def np)
  have "nat (page * 100) = nat ((page - 1) * 100) + 100" using less.prems(1) by simp
  then have acc: "?acc @ ?batch = take (nat (page * 100)) xs" by (simp only: take_add)
  have step: "collect_from read ?acc page w =
      (if ?batch = [] \<or> int (length xs) \<le> int (length (take (nat (page * 100)) xs))
       then Some (Inr (take (nat (page * 100)) xs), w) else collect_from read (take (nat (page * 100)) xs) (page + 1) w)"
    by (subst collect_from.simps) (simp only: rd prod.case sum.case acc)
  show ?case
  proof (cases "page * 100 < int (length xs)")
    case False
    then show ?thesis using step by simp
  next
    case True
    have "collect_from read (take (nat ((page + 1 - 1) * 100)) xs) (page + 1) w = Some (Inr xs, w)"
      by (rule less.hyps) (use True less.prems in auto)
    moreover have "nat (page * 100 - 100) < length xs" using True less.prems(1) by arith
    ultimately show ?thesis using step True less.prems(1) by (auto simp: not_le)
  qed
qed

lemma collectAll_serves: "serves read w xs \<Longrightarrow> int (length xs) < 2 ^ 31 \<Longrightarrow> collectAll read w = Some (Inr xs, w)"
  using collect_from_serves [of read w xs 1] by (simp add: collectAll_def)

lemma collect_from_ends:
  assumes "\<forall>p w. case read p w of (Inr (batch, tot), w') \<Rightarrow> tot \<le> bound | (Inl err, w') \<Rightarrow> True"
  shows "collect_from read acc page w \<noteq> None"
proof (induction "nat (bound - int (length acc))" arbitrary: acc page w rule: less_induct)
  case less
  obtain r w' where r: "read (NewPage page exportPageSize) w = (r, w')" by fastforce
  show ?case
  proof (cases r)
    case (Inr bt)
    obtain batch tot where bt: "bt = (batch, tot)" by fastforce
    have tot: "tot \<le> bound" using assms [rule_format, of "NewPage page exportPageSize" w] r Inr bt by simp
    show ?thesis
    proof (cases "batch = [] \<or> tot \<le> int (length (acc @ batch))")
      case True
      then show ?thesis by (subst collect_from.simps) (simp add: r Inr bt)
    next
      case False
      then have "0 < length batch" "int (length acc) + int (length batch) < bound" using tot by auto
      then have "nat (bound - int (length (acc @ batch))) < nat (bound - int (length acc))" by simp
      from less.hyps [OF this, of "page + 1" w'] False show ?thesis
        by (subst collect_from.simps) (auto simp: r Inr bt)
    qed
  qed (subst collect_from.simps, simp add: r)
qed

text \<open>
  C15: Collecting the pages ends. Whatever the repository answers, and even when it misreports the
  number of records, the loop over its pages returns as long as the totals it reports are bounded.
\<close>

theorem collectAll_ends:
  assumes "\<forall>p w. case read p w of (Inr (batch, tot), w') \<Rightarrow> tot \<le> bound | (Inl err, w') \<Rightarrow> True"
  shows "\<exists>r. collectAll read w = Some r"
  using collect_from_ends [OF assms] by (simp add: collectAll_def)

definition memory_exporter :: "(Interview list \<Rightarrow> Interview list) \<Rightarrow> World Exporter" where
  "memory_exporter iter = \<lparr>ex_candidates = memory_candidates, ex_profiles = memory_profiles, ex_apps = memory_apps,
     ex_interviews = memory_interviews iter, ex_contests = memory_contests\<rparr>"

lemma memory_exporter_sel [simp]:
  "ex_candidates (memory_exporter iter) = memory_candidates" "ex_profiles (memory_exporter iter) = memory_profiles"
  "ex_apps (memory_exporter iter) = memory_apps" "ex_interviews (memory_exporter iter) = memory_interviews iter"
  "ex_contests (memory_exporter iter) = memory_contests"
  by (simp_all add: memory_exporter_def)

definition apps_of :: "ID \<Rightarrow> World \<Rightarrow> Application list" where
  "apps_of c w = filter (\<lambda>a. App_CandidateID a = c) (map (ApplicationRepo_at (w_apps w)) (rev (ar_order (w_apps w))))"

definition interviews_of :: "(Interview list \<Rightarrow> Interview list) \<Rightarrow> ID \<Rightarrow> World \<Rightarrow> Interview list" where
  "interviews_of iter c w = filter (\<lambda>i. Iv_CandidateID i = c) (iter (map snd (w_interviews w)))"

definition contests_of :: "ID \<Rightarrow> World \<Rightarrow> Contest list" where
  "contests_of c w = filter (\<lambda>x. Con_CandidateID x = c)
     (map (ContestRepo_at (cr_byID (w_contests w))) (rev (cr_order (w_contests w))))"

definition small :: "World \<Rightarrow> bool" where
  "small w \<longleftrightarrow> length (ar_order (w_apps w)) < 2 ^ 31 \<and> length (w_interviews w) < 2 ^ 31 \<and>
     length (cr_order (w_contests w)) < 2 ^ 31"

lemma ordered_listing:
  assumes "distinct ks" and "set ks = dom m" and "\<forall>i v. m i = Some v \<longrightarrow> key v = i"
    and "\<forall>i v. m i = Some v \<longrightarrow> look i = v"
  shows "set (filter P (map look (rev ks))) = {v \<in> ran m. P v}" and "distinct (filter P (map look (rev ks)))"
proof -
  have "set (map look (rev ks)) = ran m"
    using assms(2,4) by (force simp: ran_def image_iff dom_def)
  then show "set (filter P (map look (rev ks))) = {v \<in> ran m. P v}" by (auto simp del: set_map)
  have "inj_on look (set ks)"
  proof (rule inj_onI)
    fix x y assume "x \<in> set ks" "y \<in> set ks" and eq: "look x = look y"
    then obtain a b where "m x = Some a" "m y = Some b" using assms(2) by auto
    with assms(3,4) eq show "x = y" by metis
  qed
  then have "distinct (map look (rev ks))" using assms(1) by (simp add: distinct_map)
  then show "distinct (filter P (map look (rev ks)))" by (rule distinct_filter)
qed

lemma serves_apps: "small w \<Longrightarrow> serves (\<lambda>p. at_apps (ApplicationRepo_ByCandidate c p)) w (apps_of c w)"
proof -
  assume "small w"
  then have "int (length (apps_of c w)) < 2 ^ 62"
    using length_filter_le [of "\<lambda>a. App_CandidateID a = c" "map (ApplicationRepo_at (w_apps w)) (rev (ar_order (w_apps w)))"]
    by (simp add: small_def apps_of_def)
  then show ?thesis
    by (simp add: serves_def io_simps ApplicationRepo_ByCandidate_def Let_def page_result_ok flip: apps_of_def)
qed

lemma serves_contests: "small w \<Longrightarrow> serves (\<lambda>p. at_contests (ContestRepo_ByCandidate c p)) w (contests_of c w)"
proof -
  assume "small w"
  then have "int (length (contests_of c w)) < 2 ^ 62"
    using length_filter_le [of "\<lambda>a. Con_CandidateID a = c" "map (ContestRepo_at (cr_byID (w_contests w))) (rev (cr_order (w_contests w)))"]
    by (simp add: small_def contests_of_def)
  then show ?thesis
    by (simp add: serves_def io_simps ContestRepo_ByCandidate_def ContestRepo_list_def Let_def page_result_ok
        flip: contests_of_def)
qed

text \<open>
  \<open>InterviewRepo.ByCandidate\<close> pages through the map in the order of the moment: \<open>iter\<close> is the order
  of one call. A listing that fits one page does not depend on it.
\<close>

lemma one_page_interviews:
  assumes "int (length (interviews_of iter c w)) \<le> 100"
  shows "collectAll (\<lambda>p. at_interviews (InterviewRepo_ByCandidate iter c p)) w = Some (Inr (interviews_of iter c w), w)"
proof -
  have np: "NewPage 1 exportPageSize = \<lparr>Number = 1, Size = 100\<rparr>"
    by (simp add: NewPage_def exportPageSize_def MaxPageSize_def DefaultPageSize_def)
  have off: "Offset \<lparr>Number = 1, Size = 100\<rparr> = 0" "wrap64 (Limit \<lparr>Number = 1, Size = 100\<rparr>) = 100"
    by (simp_all add: Offset_def Limit_def wrap64_def)
  let ?xs = "interviews_of iter c w"
  have "at_interviews (InterviewRepo_ByCandidate iter c (NewPage 1 exportPageSize)) w = (Inr (?xs, int (length ?xs)), w)"
  proof (cases "?xs = []")
    case False
    then have n: "\<not> int (length ?xs) \<le> 0" by simp
    have "go_slice ?xs 0 (min 100 (int (length ?xs))) = Some ?xs" using assms by (simp add: go_slice_def min_def)
    with n show ?thesis by (simp add: io_simps InterviewRepo_ByCandidate_def Let_def np off flip: interviews_of_def)
  qed (simp add: io_simps InterviewRepo_ByCandidate_def Let_def np off flip: interviews_of_def)
  then show ?thesis by (subst collectAll_def, subst collect_from.simps) simp
qed

text \<open>
  C11: An export ends and holds what it exports once. On the in-memory stack, for a candidate with at most a
  hundred interviews (one page of the exporter) and stores whose sizes fit the wire's integers, the paging loops
  end and the document holds the candidate record, the profile exactly when there is one, and every application,
  interview and contest of the candidate once, and none of anybody else; reading changes nothing. Matches and
  audit entries about the candidate are not part of the document. An unknown candidate is reported as not found.
\<close>

theorem export_complete:
  assumes "world_inv w" and "small w" and "\<forall>xs. mset (iter xs) = mset xs"
    and "length (filter (\<lambda>(i, v). Iv_CandidateID v = c) (w_interviews w)) \<le> 100"
  shows "case map_of (ks_byID (w_candidates w)) c of
      None \<Rightarrow> (\<exists>e. ExportCandidate (memory_exporter iter) c w = Some (Inl e, w) \<and> KindOf e = KindNotFound)
    | Some cand \<Rightarrow> (\<exists>out. ExportCandidate (memory_exporter iter) c w = Some (Inr out, w) \<and> Exp_Candidate out = cand \<and>
        (\<forall>p. Exp_Profile out = Some p \<longleftrightarrow> p \<in> ran (map_of (ks_byID (w_profiles w))) \<and> TP_CandidateID p = c) \<and>
        distinct (Exp_Applications out) \<and>
        set (Exp_Applications out) = {a \<in> ran (map_of (ar_byID (w_apps w))). App_CandidateID a = c} \<and>
        mset (Exp_Interviews out) = mset (filter (\<lambda>i. Iv_CandidateID i = c) (map snd (w_interviews w))) \<and>
        distinct (Exp_Contests out) \<and>
        set (Exp_Contests out) = {x \<in> ran (map_of (cr_byID (w_contests w))). Con_CandidateID x = c})"
proof -
  note inv = assms(1) [unfolded world_inv_def]
  have ms: "mset (interviews_of iter c w) = mset (filter (\<lambda>i. Iv_CandidateID i = c) (map snd (w_interviews w)))"
    using assms(3) by (simp add: interviews_of_def mset_filter)
  have "length (interviews_of iter c w) = length (filter (\<lambda>(i, v). Iv_CandidateID v = c) (w_interviews w))"
    using mset_eq_length [OF ms] by (simp add: filter_map comp_def split_def)
  then have iv: "then_collect (\<lambda>p. at_interviews (InterviewRepo_ByCandidate iter c p)) k w = k (interviews_of iter c w) w"
    for k :: "Interview list \<Rightarrow> World \<Rightarrow> (DataExport res \<times> World) option"
    using one_page_interviews [of iter c w] assms(4) by (simp add: then_collect_def)
  have len: "int (length (apps_of c w)) < 2 ^ 31" "int (length (contests_of c w)) < 2 ^ 31"
    using assms(2) length_filter_le [of "\<lambda>a. App_CandidateID a = c" "map (ApplicationRepo_at (w_apps w)) (rev (ar_order (w_apps w)))"]
      length_filter_le [of "\<lambda>a. Con_CandidateID a = c" "map (ContestRepo_at (cr_byID (w_contests w))) (rev (cr_order (w_contests w)))"]
    by (simp_all add: small_def apps_of_def contests_of_def)
  have ap: "then_collect (\<lambda>p. at_apps (ApplicationRepo_ByCandidate c p)) k w = k (apps_of c w) w"
    for k :: "Application list \<Rightarrow> World \<Rightarrow> (DataExport res \<times> World) option"
    using collectAll_serves [OF serves_apps [OF assms(2)] len(1)] by (simp add: then_collect_def)
  have co: "then_collect (\<lambda>p. at_contests (ContestRepo_ByCandidate c p)) k w = k (contests_of c w) w"
    for k :: "Contest list \<Rightarrow> World \<Rightarrow> (DataExport res \<times> World) option"
    using collectAll_serves [OF serves_contests [OF assms(2)] len(2)] by (simp add: then_collect_def)
  have sections: "export_sections (memory_exporter iter) c out w = Some (Inr (out\<lparr>Exp_Applications := apps_of c w,
      Exp_Interviews := interviews_of iter c w, Exp_Contests := contests_of c w\<rparr>), w)" for out
    by (simp add: export_sections_def ap iv co)
  have apps: "set (apps_of c w) = {a \<in> ran (map_of (ar_byID (w_apps w))). App_CandidateID a = c}" "distinct (apps_of c w)"
    unfolding apps_of_def using inv ordered_listing [of "ar_order (w_apps w)" "map_of (ar_byID (w_apps w))" App_ID "ApplicationRepo_at (w_apps w)"]
    by (auto simp: applications_inv_def ApplicationRepo_at_def)
  have cons: "set (contests_of c w) = {x \<in> ran (map_of (cr_byID (w_contests w))). Con_CandidateID x = c}" "distinct (contests_of c w)"
    unfolding contests_of_def using inv ordered_listing [of "cr_order (w_contests w)" "map_of (cr_byID (w_contests w))" Con_ID
        "ContestRepo_at (cr_byID (w_contests w))"]
    by (auto simp: contests_inv_def ContestRepo_at_def)
  show ?thesis
  proof (cases "map_of (ks_byID (w_candidates w)) c")
    case None
    then show ?thesis by (simp add: ExportCandidate_def io_simps CandidateRepo_ByID_def ks_get_def)
  next
    case (Some cand)
    then have cb: "at_candidates (CandidateRepo_ByID c) w = (Inr cand, w)" by (simp add: memory_reads)
    note prof = ks_agreeD [OF inv [THEN conjunct2, THEN conjunct2, THEN conjunct2, THEN conjunct1, unfolded ks_inv_def]]
    let ?prof = "at_profiles (TalentProfileRepo_ByCandidateID c) w"
    show ?thesis
    proof (cases "map_of (ks_bySecond (w_profiles w)) c")
      case None
      then have "?prof = (Inl (NotFound ''memory: talent profile not found''), w)"
        by (simp add: io_simps TalentProfileRepo_ByCandidateID_def ks_getBySecondary_def)
      moreover have "p \<in> ran (map_of (ks_byID (w_profiles w))) \<Longrightarrow> TP_CandidateID p \<noteq> c" for p
        using prof(5) None by (force simp: ran_def)
      ultimately show ?thesis using Some cb apps cons ms by (auto simp: ExportCandidate_def Let_def sections)
    next
      case (Some i)
      then obtain p where p: "map_of (ks_byID (w_profiles w)) i = Some p" "TP_CandidateID p = c" using prof(4) by blast
      have "?prof = (Inr p, w)"
        using Some p by (simp add: io_simps TalentProfileRepo_ByCandidateID_def ks_getBySecondary_def)
      moreover have "q \<in> ran (map_of (ks_byID (w_profiles w))) \<and> TP_CandidateID q = c \<longleftrightarrow> q = p" for q
      proof
        assume q: "q \<in> ran (map_of (ks_byID (w_profiles w))) \<and> TP_CandidateID q = c"
        then obtain j where j: "map_of (ks_byID (w_profiles w)) j = Some q" by (auto simp: ran_def)
        from prof(5) [OF j] q Some have "j = i" by simp
        with j p(1) show "q = p" by simp
      qed (use p in \<open>auto simp: ran_def\<close>)
      ultimately show ?thesis using \<open>map_of (ks_byID (w_candidates w)) c = Some cand\<close> cb apps cons ms
        by (auto simp: ExportCandidate_def Let_def sections)
    qed
  qed
qed

subsection \<open>A run\<close>

definition sample_subject :: World where
  "sample_subject = (memory_world (\<lambda>n. 1000 + int n) (\<lambda>n. [97 + int n]))
     \<lparr>w_users := \<lparr>ur_byID = [([67], \<lparr>User_ID = [67], User_Email = lit ''a@b.c'', User_Role = RoleCandidate,
          User_Name = [65], User_PasswordHash = [104], User_Status = StatusActive, User_CreatedAt = 5\<rparr>)],
        ur_byEmail = [(lit ''a@b.c'', [67])]\<rparr>,
      w_candidates := \<lparr>ks_byID = [([67], \<lparr>Cand_ID = [67], Cand_UserID = [67], Cand_Location = [],
          Cand_Intake = \<lparr>TargetTitles = [], Intake_Location = [], SalaryFloor = Fin 0, SalaryCurrency = [], DealBreakers = []\<rparr>\<rparr>)],
        ks_bySecond = [([67], [67])], ks_order = [[67]]\<rparr>,
      w_apps := \<lparr>ar_byID = [([70], \<lparr>App_ID = [70], App_RoleID = [82], App_CandidateID = [67], App_ProfileID = [80],
          App_Source = SourceManual, TailoredSummary = [], App_Status = StatusSubmitted\<rparr>)], ar_order = [[70]]\<rparr>,
      w_refresh := [([88], \<lparr>RR_ID = [88], RR_UserID = [67], ExpiresAt = 9999, Revoked = False\<rparr>)]\<rparr>"

lemma sample_subject_sel:
  "w_users sample_subject = \<lparr>ur_byID = [([67], \<lparr>User_ID = [67], User_Email = lit ''a@b.c'', User_Role = RoleCandidate,
          User_Name = [65], User_PasswordHash = [104], User_Status = StatusActive, User_CreatedAt = 5\<rparr>)],
        ur_byEmail = [(lit ''a@b.c'', [67])]\<rparr>"
  "w_apps sample_subject = \<lparr>ar_byID = [([70], \<lparr>App_ID = [70], App_RoleID = [82], App_CandidateID = [67], App_ProfileID = [80],
          App_Source = SourceManual, TailoredSummary = [], App_Status = StatusSubmitted\<rparr>)], ar_order = [[70]]\<rparr>"
  "w_interviews sample_subject = []" "w_profiles sample_subject = newKeyedStore"
  "w_contests sample_subject = \<lparr>cr_byID = [], cr_order = []\<rparr>"
  "w_refresh sample_subject = [([88], \<lparr>RR_ID = [88], RR_UserID = [67], ExpiresAt = 9999, Revoked = False\<rparr>)]"
  by (simp_all add: sample_subject_def memory_world_def)

lemma sample_subject_inv:
  "world_inv sample_subject" "tombstones_free sample_subject" "\<not> ID_IsZero [67]" "[67] \<noteq> lit ''erased''"
proof -
  show "world_inv sample_subject"
    by (simp add: world_inv_def sample_subject_sel users_inv_def keyed_by_def ks_inv_def ks_agree_def applications_inv_def
        contests_inv_def newKeyedStore_def) (simp add: sample_subject_def memory_world_def)
  show "tombstones_free sample_subject"
    by (simp add: tombstones_free_def sample_subject_sel erased_email_def)
qed (code_simp, simp)

lemma erasure_complete_witness:
  "\<exists>w'. EraseCandidate BuildEraser [67] sample_subject = (Inr (), w') \<and> map_of (ar_byID (w_apps w')) [70] = None"
proof -
  have "\<forall>i u. map_of (ur_byID (w_users sample_subject)) i = Some u \<and> User_Email u = erased_email [67] \<longrightarrow> i = [67]"
    using sample_subject_inv(2) unfolding tombstones_free_def by blast
  from erasure_complete [OF sample_subject_inv(1,3,4) this] obtain w' where
    w': "EraseCandidate BuildEraser [67] sample_subject = (Inr (), w')"
      "map_of (ar_byID (w_apps w')) = without App_CandidateID [67] (map_of (ar_byID (w_apps sample_subject)))" by blast
  have "without App_CandidateID [67] (map_of (ar_byID (w_apps sample_subject))) [70] = None"
    by (simp add: without_def sample_subject_sel(2))
  then show ?thesis using w' by (intro exI [of _ w']) (simp only: simp_thms)
qed

lemma retention_sweep_witness:
  "\<exists>w'. Sweep (memory_sweeper id 100) sample_subject = ((\<lparr>Eligible = 1, Erased = 1, Failed = 0\<rparr>, None), w') \<and>
     gone [67] w'"
proof -
  let ?due = "{i. \<exists>u. map_of (ur_byID (w_users sample_subject)) i = Some u \<and> User_Role u = RoleCandidate \<and>
    User_CreatedAt u \<le> fst (World_now sample_subject) - 100}"
  have now: "fst (World_now sample_subject) = 1000" by code_simp
  have due: "?due = {[67]}" by (auto simp: sample_subject_sel now split: if_splits simp del: lit_simps)
  have ids: "\<forall>i. i \<in> dom (map_of (ur_byID (w_users sample_subject))) \<longrightarrow> \<not> ID_IsZero i \<and> i \<noteq> lit ''erased''"
    using sample_subject_inv(3,4) by (simp add: sample_subject_sel del: lit_simps)
  have "distinct (map fst (ur_byID (w_users sample_subject)))" by (simp add: sample_subject_sel)
  from retention_sweep [OF sample_subject_inv(1,2) _ ids this, of 100 id] show ?thesis unfolding due by auto
qed

lemma erased_session_survives_witness:
  "\<exists>v. Refresh (memory_identity sample_hasher sample_tokens) [88] (snd (EraseCandidate BuildEraser [67] sample_subject)) =
     issue (memory_identity sample_hasher sample_tokens)
       (anonymized [67] (the (map_of (ur_byID (w_users sample_subject)) [67]))) v"
proof -
  let ?w' = "snd (EraseCandidate BuildEraser [67] sample_subject)"
  have run: "EraseCandidate BuildEraser [67] sample_subject = (Inr (), ?w')"
    using sample_subject_inv(3) by (simp add: erase_world del: lit_simps)
  have "case w_users sample_subject of us \<Rightarrow> case map_of (ur_byID us) [67] of None \<Rightarrow> False | Some u \<Rightarrow> User_IsActive u"
    by code_simp
  then obtain u where u: "map_of (ur_byID (w_users sample_subject)) [67] = Some u" "User_IsActive u"
    by (auto split: option.splits)
  have now: "fst (World_now ?w') < 9999" by code_simp
  have "VerifyRefresh sample_tokens [88] ?w' = (Inr \<lparr>RC_Principal = \<lparr>Pri_UserID = [], Pri_Role = []\<rparr>, RC_ID = [88]\<rparr>, ?w')"
    by (simp add: sample_tokens_def io_simps)
  from erased_session_survives [OF sample_subject_inv(1,3) run _ u this]
  show ?thesis using sample_subject_inv(2) u(1) now by (auto simp: tombstones_free_def sample_subject_sel(6) simp del: lit_simps)
qed

lemma distinct_one: "distinct xs \<Longrightarrow> set xs = {a} \<Longrightarrow> xs = [a]"
proof (cases xs)
  case (Cons x ys)
  assume "distinct xs" "set xs = {a}"
  with Cons have "x = a" "set ys \<subseteq> {a}" "a \<notin> set ys" by auto
  then have "ys = []" by (cases ys) auto
  with Cons \<open>x = a\<close> show ?thesis by simp
qed simp

text \<open>A repository that reports three records and returns the same one for ever.\<close>

lemma collectAll_ends_witness:
  "\<exists>r. collectAll (\<lambda>p w. (Inr ([lit ''x''], 3), w)) () = Some r"
  by (rule collectAll_ends [where bound = 3]) simp

lemma export_complete_witness:
  "\<exists>out. ExportCandidate (memory_exporter id) [67] sample_subject = Some (Inr out, sample_subject) \<and>
     map App_ID (Exp_Applications out) = [[70]]"
proof -
  obtain cand where c: "map_of (ks_byID (w_candidates sample_subject)) [67] = Some cand"
    by (simp add: sample_subject_def)
  have "small sample_subject" by (simp add: small_def sample_subject_sel)
  from export_complete [OF sample_subject_inv(1) this, of id "[67]"] c obtain out where
    out: "ExportCandidate (memory_exporter id) [67] sample_subject = Some (Inr out, sample_subject)"
      "distinct (Exp_Applications out)"
      "set (Exp_Applications out) = {a \<in> ran (map_of (ar_byID (w_apps sample_subject))). App_CandidateID a = [67]}"
    by (auto simp: sample_subject_sel(3))
  define a where "a = \<lparr>App_ID = [70], App_RoleID = [82], App_CandidateID = [67], App_ProfileID = [80],
    App_Source = SourceManual, TailoredSummary = [], App_Status = StatusSubmitted\<rparr>"
  have "ran (map_of (ar_byID (w_apps sample_subject))) = {a}" by (simp add: sample_subject_sel(2) a_def)
  moreover have id: "App_ID a = [70]" "App_CandidateID a = [67]" by (simp_all add: a_def)
  ultimately have "set (Exp_Applications out) = {x \<in> {a}. App_CandidateID x = [67]}" using out(3) by simp
  also have "\<dots> = {a}" using id(2) by (simp add: set_eq_iff cong: conj_cong)
  finally have "set (Exp_Applications out) = {a}" .
  then have "Exp_Applications out = [a]" by (rule distinct_one [OF out(2)])
  then have "map App_ID (Exp_Applications out) = [[70]]" using id by simp
  then show ?thesis by (intro exI [of _ out] conjI out(1))
qed

end
