(* ===== verification/LLM.thy ===== *)
theory LLM
  imports Ports Go_JSON_Decode
begin

section \<open>Calls of the language model\<close>

text \<open>
  \<open>internal/app/prompts/registry.go\<close>, the registry of the system prompts, and
  \<open>internal/app/llmjson.go\<close>, the boundary that turns the replies of the model into values and asks
  again when a reply is not the JSON it should be. The lemmas show which requests reach the model and
  which reply is returned, for any sequence of replies.
\<close>

subsection \<open>The prompt registry\<close>

text \<open>The texts are embedded files: a map from paths to contents. A panic is an error value.\<close>

record Prompt =
  Prompt_ID :: gostr
  Prompt_Version :: gostr
  Prompt_Body :: gostr
  Prompt_MaxTokens :: int

record reg =
  reg_id :: gostr
  reg_version :: gostr
  reg_path :: gostr
  reg_maxTokens :: int

type_synonym registry = "(gostr \<times> Prompt) list"

definition Prompt_Ref :: "Prompt \<Rightarrow> PromptRef" where
  "Prompt_Ref p = \<lparr>Ref_ID = Prompt_ID p, Ref_Version = Prompt_Version p\<rparr>"

definition Prompt_Request :: "Prompt \<Rightarrow> gostr \<Rightarrow> LLMRequest" where
  "Prompt_Request p userPrompt = \<lparr>Req_System = Prompt_Body p, Req_Prompt = userPrompt, Req_MaxTokens = Prompt_MaxTokens p,
     Req_Source = Prompt_Ref p, Req_Model = [], Req_ExpectJSON = False\<rparr>"

definition IDInterviewQuestion :: gostr where "IDInterviewQuestion = lit ''interview_question''"
definition IDInterviewReport :: gostr where "IDInterviewReport = lit ''interview_report''"
definition IDAgentAssess :: gostr where "IDAgentAssess = lit ''agent_assess''"
definition IDCVExtract :: gostr where "IDCVExtract = lit ''cv_extract''"
definition IDShortlistScore :: gostr where "IDShortlistScore = lit ''shortlist_score''"
definition IDRoleSpec :: gostr where "IDRoleSpec = lit ''role_spec''"

fun mustLoad_onto :: "(gostr \<Rightarrow> gostr res) \<Rightarrow> reg list \<Rightarrow> registry \<Rightarrow> registry res" where
  "mustLoad_onto files [] out = Inr out"
| "mustLoad_onto files (e # es) out =
     (if map_of out (reg_id e) \<noteq> None then Inl (PlainErr ''panic: prompts: duplicate id %q'' [AStr (reg_id e)] [])
      else case files (reg_path e) of
        Inl err \<Rightarrow> Inl (PlainErr ''panic: prompts: cannot load %q: %v'' [AStr (reg_path e)] [err])
      | Inr body \<Rightarrow>
          if strings_TrimSpace body = [] then Inl (PlainErr ''panic: prompts: empty body for %q'' [AStr (reg_id e)] [])
          else mustLoad_onto files es (out @ [(reg_id e, \<lparr>Prompt_ID = reg_id e, Prompt_Version = reg_version e,
                 Prompt_Body = body, Prompt_MaxTokens = reg_maxTokens e\<rparr>)]))"

definition mustLoad :: "(gostr \<Rightarrow> gostr res) \<Rightarrow> reg list \<Rightarrow> registry res" where
  "mustLoad files entries = mustLoad_onto files entries []"

definition registered :: "reg list" where
  "registered =
     [\<lparr>reg_id = IDInterviewQuestion, reg_version = lit ''v1'', reg_path = lit ''files/interview_question/v1.txt'', reg_maxTokens = 512\<rparr>,
      \<lparr>reg_id = IDInterviewReport, reg_version = lit ''v1'', reg_path = lit ''files/interview_report/v1.txt'', reg_maxTokens = 1024\<rparr>,
      \<lparr>reg_id = IDAgentAssess, reg_version = lit ''v1'', reg_path = lit ''files/agent_assess/v1.txt'', reg_maxTokens = 768\<rparr>,
      \<lparr>reg_id = IDCVExtract, reg_version = lit ''v1'', reg_path = lit ''files/cv_extract/v1.txt'', reg_maxTokens = 4096\<rparr>,
      \<lparr>reg_id = IDShortlistScore, reg_version = lit ''v1'', reg_path = lit ''files/shortlist_score/v1.txt'', reg_maxTokens = 1024\<rparr>,
      \<lparr>reg_id = IDRoleSpec, reg_version = lit ''v1'', reg_path = lit ''files/role_spec/v1.txt'', reg_maxTokens = 1024\<rparr>]"

definition prompts_Get :: "registry \<Rightarrow> gostr \<Rightarrow> Prompt res" where
  "prompts_Get reg i = (case map_of reg i of
     None \<Rightarrow> Inl (PlainErr ''panic: prompts: unknown id %q'' [AStr i] []) | Some p \<Rightarrow> Inr p)"

definition prompts_All :: "registry \<Rightarrow> Prompt list" where
  "prompts_All reg = map snd reg"

subsection \<open>Structured output\<close>

definition DefaultLLMAttempts :: int where "DefaultLLMAttempts = 2"

definition jsonCorrection :: gostr where
  "jsonCorrection = [10, 10] @ lit ''[SYSTEM NOTICE] Your previous reply could not be parsed as JSON. '' @
     lit ''Reply with ONLY the JSON object specified above '' @ [8212] @ lit '' no prose, no markdown fences.''"

text \<open>The error of \<open>json.Unmarshal\<close>, without its text.\<close>

definition decode_error :: go_error where
  "decode_error = PlainErr ''json.Unmarshal'' [] []"

definition correct :: "LLMRequest \<Rightarrow> LLMRequest" where
  "correct req = req\<lparr>Req_Prompt := Req_Prompt req @ jsonCorrection\<rparr>"

fun decode_rounds :: "'a decoder \<Rightarrow> 'a \<Rightarrow> 'w LLMClient \<Rightarrow> string \<Rightarrow> nat \<Rightarrow> LLMRequest \<Rightarrow> ('w, 'a) io" where
  "decode_rounds d zero client label 0 req =
     io_fail (Wrap decode_error KindInvalid (label @ '': model did not return valid JSON''))"
| "decode_rounds d zero client label (Suc n) req =
     io_bind (io_try (LLM_Complete client req)) (\<lambda>r. case r of
       Inl err \<Rightarrow> io_fail (Wrap err KindInternal (label @ '': model call failed''))
     | Inr reply \<Rightarrow> (case json_Unmarshal d zero reply of
         Some out \<Rightarrow> io_ret out
       | None \<Rightarrow> decode_rounds d zero client label n (correct req)))"

definition DecodeJSON :: "'a decoder \<Rightarrow> 'a \<Rightarrow> 'w LLMClient \<Rightarrow> LLMRequest \<Rightarrow> int \<Rightarrow> string \<Rightarrow> ('w, 'a) io" where
  "DecodeJSON d zero client req attempts label =
     decode_rounds d zero client label (nat (if attempts < 1 then 1 else attempts)) (req\<lparr>Req_ExpectJSON := True\<rparr>)"

subsection \<open>The registry loads or panics\<close>

lemma mustLoad_onto_ok:
  assumes "mustLoad_onto files es out = Inr reg" and "e \<in> set es \<or> map_of out (reg_id e) =
      Some \<lparr>Prompt_ID = reg_id e, Prompt_Version = reg_version e, Prompt_Body = body, Prompt_MaxTokens = reg_maxTokens e\<rparr> \<and>
      files (reg_path e) = Inr body"
  shows "\<exists>body. files (reg_path e) = Inr body \<and> map_of reg (reg_id e) =
    Some \<lparr>Prompt_ID = reg_id e, Prompt_Version = reg_version e, Prompt_Body = body, Prompt_MaxTokens = reg_maxTokens e\<rparr>"
  using assms
proof (induction es arbitrary: out body)
  case (Cons a es)
  obtain b where a: "map_of out (reg_id a) = None" "files (reg_path a) = Inr b"
    and rest: "mustLoad_onto files es (out @ [(reg_id a, \<lparr>Prompt_ID = reg_id a, Prompt_Version = reg_version a,
        Prompt_Body = b, Prompt_MaxTokens = reg_maxTokens a\<rparr>)]) = Inr reg"
    using Cons.prems(1) by (auto split: if_splits sum.splits)
  show ?case
  proof (cases "e = a")
    case True
    then show ?thesis using Cons.IH [OF rest, of b] a by (simp add: map_add_def)
  next
    case False
    then show ?thesis using Cons.IH [OF rest, of body] Cons.prems(2) a by (auto simp: map_add_def split: option.splits)
  qed
qed auto

subsection \<open>Which reply is returned\<close>

text \<open>A model that plays a list of replies and keeps the requests it was sent.\<close>

definition scripted :: "(LLMRequest list \<times> gostr res list) LLMClient" where
  "scripted = \<lparr>LLM_Complete = (\<lambda>req (sent, replies). case replies of
       [] \<Rightarrow> (Inl (PlainErr ''script: no reply left'' [] []), (sent @ [req], []))
     | r # rs \<Rightarrow> (r, (sent @ [req], rs))),
     LLM_Warm = io_ret ()\<rparr>"

definition bad_reply :: "'a decoder \<Rightarrow> 'a \<Rightarrow> gostr res \<Rightarrow> bool" where
  "bad_reply d zero r \<longleftrightarrow> (case r of Inl err \<Rightarrow> False | Inr reply \<Rightarrow> json_Unmarshal d zero reply = None)"

definition answered :: "'a decoder \<Rightarrow> 'a \<Rightarrow> string \<Rightarrow> gostr res list \<Rightarrow> 'a res" where
  "answered d zero label replies = (case dropWhile (bad_reply d zero) replies of
     [] \<Rightarrow> Inl (Wrap decode_error KindInvalid (label @ '': model did not return valid JSON''))
   | Inl err # rs \<Rightarrow> Inl (Wrap err KindInternal (label @ '': model call failed''))
   | Inr reply # rs \<Rightarrow> Inr (the (json_Unmarshal d zero reply)))"

lemma scripted_rounds:
  assumes "n \<le> length replies"
  shows "decode_rounds d zero scripted label n req (sent, replies) =
    (let k = min n (Suc (length (takeWhile (bad_reply d zero) (take n replies))))
     in (answered d zero label (take n replies), (sent @ map (\<lambda>i. (correct ^^ i) req) [0..<k], drop k replies)))"
  using assms
proof (induction n arbitrary: req sent replies)
  case (Suc n)
  obtain r rs where r: "replies = r # rs" using Suc.prems by (cases replies) auto
  show ?case
  proof (cases "bad_reply d zero r")
    case False
    then show ?thesis by (cases r) (auto simp: r io_simps scripted_def bad_reply_def answered_def split: option.splits)
  next
    case True
    then obtain reply where reply: "r = Inr reply" "json_Unmarshal d zero reply = None"
      by (auto simp: bad_reply_def split: sum.splits)
    let ?k = "min n (Suc (length (takeWhile (bad_reply d zero) (take n rs))))"
    have "decode_rounds d zero scripted label (Suc n) req (sent, replies) =
        decode_rounds d zero scripted label n (correct req) (sent @ [req], rs)"
      using reply by (simp add: r io_simps scripted_def)
    also have "\<dots> = (answered d zero label (take n rs),
        (sent @ [req]) @ map (\<lambda>i. (correct ^^ i) (correct req)) [0..<?k], drop ?k rs)"
      using Suc.IH [of rs "correct req" "sent @ [req]"] Suc.prems by (simp add: r Let_def)
    also have "map (\<lambda>i. (correct ^^ i) (correct req)) [0..<?k] = map (\<lambda>i. (correct ^^ i) req) [1..<Suc ?k]"
      by (simp add: funpow_swap1 map_Suc_upt [symmetric] del: upt_Suc)
    also have "(sent @ [req]) @ map (\<lambda>i. (correct ^^ i) req) [1..<Suc ?k] = sent @ map (\<lambda>i. (correct ^^ i) req) [0..<Suc ?k]"
      by (simp add: upt_conv_Cons del: upt_Suc)
    finally show ?thesis using True by (simp add: r Let_def answered_def del: upt_Suc)
  qed
qed (simp add: answered_def io_simps)

lemma correct_iter: "(correct ^^ i) req = req\<lparr>Req_Prompt := Req_Prompt req @ concat (replicate i jsonCorrection)\<rparr>"
proof (induction i)
  case (Suc i)
  have "concat (replicate (Suc i) jsonCorrection) = concat (replicate i jsonCorrection) @ jsonCorrection"
    by (induction i) simp_all
  then show ?case using Suc by (simp add: correct_def)
qed simp

text \<open>
  C21: Structured output is asked for at most the given number of times. Against any list of replies
  that is long enough, the model is asked until the first reply that is an error or decodes, at most
  max 1 attempts times; every request repeats the first one with one more correction at its end; the
  result is that reply's value, or the error of the call as internal, or, when no reply decodes, an
  invalid-output error; and no further reply is consumed.
\<close>

theorem DecodeJSON_script:
  fixes attempts :: int
  assumes "nat (max 1 attempts) \<le> length replies"
  shows "DecodeJSON d zero scripted req attempts label (sent, replies) =
    (let n = nat (max 1 attempts); k = min n (Suc (length (takeWhile (bad_reply d zero) (take n replies))))
     in (answered d zero label (take n replies),
         (sent @ map (\<lambda>i. req\<lparr>Req_Prompt := Req_Prompt req @ concat (replicate i jsonCorrection), Req_ExpectJSON := True\<rparr>) [0..<k],
          drop k replies)))"
proof -
  have "nat (if attempts < 1 then 1 else attempts) = nat (max 1 attempts)" by simp
  moreover have "(correct ^^ i) (req\<lparr>Req_ExpectJSON := True\<rparr>) =
      req\<lparr>Req_Prompt := Req_Prompt req @ concat (replicate i jsonCorrection), Req_ExpectJSON := True\<rparr>" for i
    by (simp add: correct_iter)
  ultimately show ?thesis using scripted_rounds [OF assms, of d zero label "req\<lparr>Req_ExpectJSON := True\<rparr>" sent]
    by (simp only: DecodeJSON_def Let_def)
qed

definition sample_request :: LLMRequest where
  "sample_request = \<lparr>Req_System = lit ''Extract.'', Req_Prompt = lit ''hi'', Req_MaxTokens = 256,
     Req_Source = \<lparr>Ref_ID = lit ''cv_extract'', Ref_Version = lit ''v1''\<rparr>, Req_Model = [], Req_ExpectJSON = False\<rparr>"

lemma DecodeJSON_script_witness:
  "DecodeJSON dec_string [] scripted sample_request 2 ''x'' ([], [Inr (lit ''no JSON''), Inr [34, 104, 105, 34]]) =
     (Inr (lit ''hi''), ([sample_request\<lparr>Req_ExpectJSON := True\<rparr>,
        sample_request\<lparr>Req_Prompt := Req_Prompt sample_request @ jsonCorrection, Req_ExpectJSON := True\<rparr>], []))"
proof -
  have b: "bad_reply dec_string [] (Inr (lit ''no JSON''))" "\<not> bad_reply dec_string [] (Inr [34, 104, 105, 34])"
    "json_Unmarshal dec_string [] [34, 104, 105, 34] = Some (lit ''hi'')" by code_simp+
  have "nat (max 1 2) = 2" by simp
  then show ?thesis using DecodeJSON_script [of 2 "[Inr (lit ''no JSON''), Inr [34, 104, 105, 34]]" dec_string "[]" sample_request "''x''" "[]"] b
    by (simp add: Let_def answered_def numeral_2_eq_2 upt_conv_Cons del: lit_simps)
qed

subsection \<open>Any model\<close>

lemma decode_rounds_ok:
  "decode_rounds d zero client label n req w = (Inr out, w') \<Longrightarrow>
     \<exists>r reply v. LLM_Complete client r v = (Inr reply, w') \<and> json_Unmarshal d zero reply = Some out"
  by (induction n arbitrary: req w) (auto simp: io_simps split: sum.splits option.splits prod.splits)

lemma DecodeJSON_ok:
  "DecodeJSON d zero client req attempts label w = (Inr out, w') \<Longrightarrow>
     \<exists>r reply v. LLM_Complete client r v = (Inr reply, w') \<and> json_Unmarshal d zero reply = Some out"
  unfolding DecodeJSON_def by (rule decode_rounds_ok)

lemma decode_rounds_keeps: "(\<And>r. io_keeps I (LLM_Complete client r)) \<Longrightarrow> io_keeps I (decode_rounds d zero client label n req)"
  by (induction n arbitrary: req) (auto intro!: io_keep)

lemma DecodeJSON_keeps [io_keep]:
  "(\<And>r. io_keeps I (LLM_Complete client r)) \<Longrightarrow> io_keeps I (DecodeJSON d zero client req attempts label)"
  unfolding DecodeJSON_def by (rule decode_rounds_keeps)

subsection \<open>On the in-memory stack\<close>

text \<open>The model is outside: a call does not change the stores.\<close>

definition outside_llm :: "World LLMClient \<Rightarrow> bool" where
  "outside_llm llm \<longleftrightarrow> (\<forall>r. external (LLM_Complete llm r)) \<and> external (LLM_Warm llm)"

lemma keeps_external: "external m \<Longrightarrow> io_keeps (\<lambda>w. stores w = x) m"
  unfolding external_def io_frame_def by (erule spec)

lemma DecodeJSON_external: "outside_llm llm \<Longrightarrow> external (DecodeJSON d zero llm req attempts label)"
  unfolding external_def by (intro io_frameI DecodeJSON_keeps keeps_external) (simp add: outside_llm_def)

lemma now_external: "external (io_of World_now)"
  by (rule externalI) (simp add: io_simps World_now_def stores_def)

lemma newID_external: "external (io_of World_newID)"
  by (rule externalI) (simp add: io_simps World_newID_def stores_def)

lemma read_keeps: "(\<And>w. snd (m w) = w) \<Longrightarrow> io_keeps I m"
  by (rule io_keepsI) simp

lemma memory_lists_pure:
  "snd (at_roles (RoleRepo_ListOpen itr srt pg) w) = w"
  "snd (at_roles (RoleRepo_ListByEmployer itr srt i pg) w) = w"
  "snd (at_apps (ApplicationRepo_ByCandidate i pg) w) = w"
  "snd (at_interviews (InterviewRepo_ByCandidate iti i pg) w) = w"
  "snd (at_candidates (CandidateRepo_List pg) w) = w"
  "snd (at_users (UserRepo_ByID i) w) = w"
  by (simp_all add: io_simps RoleRepo_ListOpen_def RoleRepo_ListByEmployer_def ApplicationRepo_ByCandidate_def
      InterviewRepo_ByCandidate_def CandidateRepo_List_def ks_list_def UserRepo_ByID_def Let_def
      split: option.splits prod.splits sum.splits)

lemmas reads_keep = memory_reads_pure [THEN read_keeps] memory_lists_pure [THEN read_keeps]

text \<open>A profile is found by its candidate.\<close>

lemma profile_of:
  assumes "ks_inv TP_ID TP_CandidateID (w_profiles w)"
    and "at_profiles (TalentProfileRepo_ByCandidateID i) w = (Inr p, w')"
  shows "w' = w \<and> TP_CandidateID p = i \<and> map_of (ks_byID (w_profiles w)) (TP_ID p) = Some p"
proof (cases "map_of (ks_bySecond (w_profiles w)) i")
  case None
  then show ?thesis using assms(2) by (simp add: io_simps TalentProfileRepo_ByCandidateID_def ks_getBySecondary_def)
next
  case (Some k)
  note a = ks_agreeD [OF assms(1) [unfolded ks_inv_def]]
  from a Some obtain v where v: "map_of (ks_byID (w_profiles w)) k = Some v" "TP_CandidateID v = i" by blast
  then have "TP_ID v = k" using a by blast
  with v Some assms(2) show ?thesis
    by (auto simp: io_simps TalentProfileRepo_ByCandidateID_def ks_getBySecondary_def)
qed

subsection \<open>A small stack for the witnesses\<close>

lemma run_ok: "(case fst x of Inl e \<Rightarrow> False | Inr a \<Rightarrow> P a) \<Longrightarrow> \<exists>a w. x = (Inr a, w) \<and> P a"
  by (cases x; cases "fst x") auto

definition sample_registry :: registry where
  "sample_registry = (case mustLoad Inr registered of Inr reg \<Rightarrow> reg | Inl e \<Rightarrow> [])"

definition replying :: "(LLMRequest \<Rightarrow> gostr) \<Rightarrow> World LLMClient" where
  "replying reply = \<lparr>LLM_Complete = (\<lambda>r. io_ret (reply r)), LLM_Warm = io_ret ()\<rparr>"

lemma replying_outside: "outside_llm (replying reply)"
  by (auto simp: outside_llm_def replying_def io_simps intro!: externalI)

text \<open>An open role, and a candidate who evidences what it asks for.\<close>

definition sample_rubric :: Rubric where
  "sample_rubric = \<lparr>Competencies = [\<lparr>Comp_Name = lit ''SQL'', Comp_Weight = Fin 1, Comp_MustHave = True\<rparr>]\<rparr>"

definition sample_candidate :: Candidate where
  "sample_candidate = \<lparr>Cand_ID = [67], Cand_UserID = [85], Cand_Location = lit ''Accra'', Cand_Intake = zero_intake\<rparr>"

definition sample_profile :: TalentProfile where
  "sample_profile = \<lparr>TP_ID = [80], TP_CandidateID = [67], TP_Summary = lit ''Analyst'',
     TP_Competencies = [\<lparr>PC_Name = lit ''SQL'', PC_Level = Fin 4, PC_EvidenceQuote = lit ''wrote SQL reports'', PC_SourceSpan = []\<rparr>],
     TP_Embedding = [], TP_PassportStatus = PassportCVOnly\<rparr>"

definition sample_pool :: World where
  "sample_pool = sample_hiring
     \<lparr>w_roles := [([82], sample_role\<lparr>Role_Rubric := sample_rubric\<rparr>)],
      w_candidates := \<lparr>ks_byID = [([67], sample_candidate)], ks_bySecond = [([85], [67])], ks_order = [[67]]\<rparr>,
      w_profiles := \<lparr>ks_byID = [([80], sample_profile)], ks_bySecond = [([67], [80])], ks_order = [[80]]\<rparr>\<rparr>"

lemma sample_pool_inv: "ks_inv TP_ID TP_CandidateID (w_profiles sample_pool)"
  "ks_inv Cand_ID Cand_UserID (w_candidates sample_pool)"
  by (auto simp: sample_pool_def ks_inv_def ks_agree_def sample_profile_def sample_candidate_def)

end
