(* ===== verification/Go_Fmt.thy ===== *)
theory Go_Fmt
  imports Go_JSON Float64
begin

section \<open>Formatting\<close>

text \<open>
  The verbs of \<open>fmt\<close> the prompts use: \<open>%d\<close> is \<open>dec_int\<close>, \<open>%v\<close> of a boolean, and \<open>%.nf\<close>, which rounds the
  exact value to \<open>n\<close> decimals, ties to even.
\<close>

definition fmt_bool :: "bool \<Rightarrow> gostr" where
  "fmt_bool b = (if b then lit ''true'' else lit ''false'')"

definition pad_zeros :: "nat \<Rightarrow> gostr \<Rightarrow> gostr" where
  "pad_zeros n s = replicate (n - length s) 48 @ s"

fun fmt_fixed :: "nat \<Rightarrow> f64 \<Rightarrow> gostr" where
  "fmt_fixed n (Fin q) =
     (let m = round_even (\<bar>q\<bar> * 10 ^ n)
      in (if q < 0 then [45] else []) @ dec_digits (m div 10 ^ n) @
         (if n = 0 then [] else 46 # pad_zeros n (dec_digits (m mod 10 ^ n))))"
| "fmt_fixed n PInf = lit ''+Inf''"
| "fmt_fixed n NInf = lit ''-Inf''"
| "fmt_fixed n NaN = lit ''NaN''"

text \<open>The printed forms have no brackets.\<close>

lemma dec_digits_set: "0 \<le> n \<Longrightarrow> set (dec_digits n) \<subseteq> {48..57}"
proof (induction n rule: dec_digits.induct)
  case (1 n)
  then show ?case by (subst dec_digits.simps) (auto simp: pos_imp_zdiv_nonneg_iff)
qed

lemma dec_int_set: "set (dec_int n) \<subseteq> {45} \<union> {48..57}"
proof (cases "n < 0")
  case True
  then show ?thesis using dec_digits_set [of "- n"] unfolding dec_int_def by (simp add: subset_insertI2)
next
  case False
  then show ?thesis using dec_digits_set [of n] unfolding dec_int_def by (simp add: subset_insertI2)
qed

lemma fmt_bool_set: "set (fmt_bool b) \<subseteq> {97..122}"
  by (simp add: fmt_bool_def)

lemma fmt_fixed_set: "set (fmt_fixed n x) \<subseteq> {43, 45, 46} \<union> {48..57} \<union> {65..90} \<union> {97..122}"
proof (cases x)
  case (Fin q)
  let ?m = "round_even (\<bar>q\<bar> * 10 ^ n)"
  have "(0 :: int) \<le> ?m" using round_even_ge [of 0 "\<bar>q\<bar> * 10 ^ n"] by simp
  then have "set (dec_digits (?m div 10 ^ n)) \<subseteq> {48..57}" "set (dec_digits (?m mod 10 ^ n)) \<subseteq> {48..57}"
    by (auto intro!: dec_digits_set simp: pos_imp_zdiv_nonneg_iff)
  then show ?thesis using Fin by (auto simp: Let_def pad_zeros_def)
qed auto

end
