(* ===== verification/Shortlist.thy ===== *)
theory Shortlist
  imports LLM Fences
begin

section \<open>Shortlists\<close>

text \<open>
  \<open>internal/app/matching\<close>: the shortlist of a role (\<open>shortlist.go\<close>), its re-ranking after an edit
  (\<open>refine.go\<close>), the roles that fit a candidate (\<open>twoway.go\<close>) and the cache of embeddings
  (\<open>embedcache.go\<close>). The lemmas show who gets a shortlist, that nobody below a hard gate is on it, that it
  is ranked and bounded, and that the cache is invisible.
\<close>

subsection \<open>What the scorer answers\<close>

record llmScoreItem =
  si_competency :: gostr
  si_score :: f64
  si_evidence :: gostr

definition zero_llmScoreItem :: llmScoreItem where
  "zero_llmScoreItem = \<lparr>si_competency = [], si_score = Fin 0, si_evidence = []\<rparr>"

definition dec_llmScoreItem :: "llmScoreItem decoder" where
  "dec_llmScoreItem = dec_struct
     [(lit ''competency'', \<lambda>v r. map_option (\<lambda>x. r\<lparr>si_competency := x\<rparr>) (dec_string v (si_competency r))),
      (lit ''score'', \<lambda>v r. map_option (\<lambda>x. r\<lparr>si_score := x\<rparr>) (dec_float v (si_score r))),
      (lit ''evidence'', \<lambda>v r. map_option (\<lambda>x. r\<lparr>si_evidence := x\<rparr>) (dec_string v (si_evidence r)))]"

record llmMatchScore =
  ms_overall_score :: f64
  ms_confidence :: gostr
  ms_breakdown :: "llmScoreItem list"
  ms_rationale :: gostr
  ms_watch_outs :: "gostr list"
  ms_thin_evidence :: bool

definition zero_llmMatchScore :: llmMatchScore where
  "zero_llmMatchScore = \<lparr>ms_overall_score = Fin 0, ms_confidence = [], ms_breakdown = [], ms_rationale = [],
     ms_watch_outs = [], ms_thin_evidence = False\<rparr>"

definition dec_llmMatchScore :: "llmMatchScore decoder" where
  "dec_llmMatchScore = dec_struct
     [(lit ''overall_score'', \<lambda>v r. map_option (\<lambda>x. r\<lparr>ms_overall_score := x\<rparr>) (dec_float v (ms_overall_score r))),
      (lit ''confidence'', \<lambda>v r. map_option (\<lambda>x. r\<lparr>ms_confidence := x\<rparr>) (dec_string v (ms_confidence r))),
      (lit ''breakdown'', \<lambda>v r. map_option (\<lambda>x. r\<lparr>ms_breakdown := x\<rparr>) (dec_slice dec_llmScoreItem zero_llmScoreItem v (ms_breakdown r))),
      (lit ''rationale'', \<lambda>v r. map_option (\<lambda>x. r\<lparr>ms_rationale := x\<rparr>) (dec_string v (ms_rationale r))),
      (lit ''watch_outs'', \<lambda>v r. map_option (\<lambda>x. r\<lparr>ms_watch_outs := x\<rparr>) (dec_slice dec_string [] v (ms_watch_outs r))),
      (lit ''thin_evidence'', \<lambda>v r. map_option (\<lambda>x. r\<lparr>ms_thin_evidence := x\<rparr>) (dec_bool v (ms_thin_evidence r)))]"

definition match_confidence :: "gostr \<Rightarrow> confidence" where
  "match_confidence s = (let t = strings_ToLower (strings_TrimSpace s)
     in if t = lit ''low'' then ConfidenceLow else if t = lit ''high'' then ConfidenceHigh else ConfidenceMedium)"

definition clamp01 :: "f64 \<Rightarrow> f64" where
  "clamp01 v = (if flt v (Fin 0) then Fin 0 else if flt (Fin 1) v then Fin 1 else v)"

subsection \<open>What is derived from a role\<close>

definition recallWindow :: int where "recallWindow = 100"

definition competencyNames :: "Rubric \<Rightarrow> gostr list" where
  "competencyNames r = map Comp_Name (Competencies r)"

definition mustHaveNames :: "Rubric \<Rightarrow> gostr list" where
  "mustHaveNames r = map Comp_Name (filter Comp_MustHave (Competencies r))"

definition requirementsFor :: "Role \<Rightarrow> Requirements" where
  "requirementsFor rl = NewRequirements (Spec_Location (Role_Spec rl)) (High (Spec_SalaryBand (Role_Spec rl)))
     (Currency (Spec_SalaryBand (Role_Spec rl))) (mustHaveNames (Role_Rubric rl))"

definition roleText :: "Role \<Rightarrow> gostr" where
  "roleText rl = Role_EmbeddingText rl"

definition candidateSignals :: "TalentProfile \<Rightarrow> CandidateSignal list" where
  "candidateSignals p = map (\<lambda>c. \<lparr>CS_Name = PC_Name c, CS_Level = PC_Level c\<rparr>) (TP_Competencies p)"

definition rubricSignals :: "Role \<Rightarrow> RubricSignal list" where
  "rubricSignals rl = map (\<lambda>c. \<lparr>RS_Name = Comp_Name c, RS_Weight = Comp_Weight c, RS_MustHave = Comp_MustHave c\<rparr>)
     (Competencies (Role_Rubric rl))"

definition signalNames :: "RubricSignal list \<Rightarrow> gostr list" where
  "signalNames rs = map RS_Name rs"

definition screen_candidate :: "Requirements \<Rightarrow> ID \<Rightarrow> Candidate \<Rightarrow> Exclusion list" where
  "screen_candidate req cid cand = ScreenLogistics req cid (Cand_Location cand) (SalaryFloor (Cand_Intake cand))
     (SalaryCurrency (Cand_Intake cand))"

definition logisticsClear :: "Candidate \<Rightarrow> Role \<Rightarrow> bool" where
  "logisticsClear cand rl \<longleftrightarrow> screen_candidate (requirementsFor rl) (Cand_ID cand) cand = []"

definition evidence_label :: gostr where "evidence_label = lit ''CANDIDATE_EVIDENCE''"

definition weight_line :: "Competency \<Rightarrow> gostr" where
  "weight_line c = lit ''- '' @ Sanitize (Comp_Name c) @ lit '' (weight '' @ fmt_fixed 2 (Comp_Weight c) @
     lit '', must_have '' @ fmt_bool (Comp_MustHave c) @ lit '')'' @ [10]"

definition evidence_line :: "ProfileCompetency \<Rightarrow> gostr" where
  "evidence_line c = lit ''- '' @ Sanitize (PC_Name c) @ lit '' (level '' @ fmt_fixed 1 (PC_Level c) @ lit ''): '' @
     Sanitize (PC_EvidenceQuote c) @ [10]"

definition scoringPrompt :: "Role \<Rightarrow> TalentProfile \<Rightarrow> gostr" where
  "scoringPrompt rl p = lit ''ROLE: '' @ Sanitize (Spec_Title (Role_Spec rl)) @ [10] @ lit ''RUBRIC:'' @ [10] @
     concat (map weight_line (Competencies (Role_Rubric rl))) @ lit ''CANDIDATE COMPETENCIES:'' @ [10] @
     Fence evidence_label (concat (map evidence_line (TP_Competencies p)))"

subsection \<open>The shortlist\<close>

record ShortlistResult =
  Matches :: "Match list"
  Exclusions :: "Exclusion list"
  PoolDepth :: int

record 'w Shortlister =
  sh_roles :: "'w RoleRepository"
  sh_candidates :: "'w CandidateRepository"
  sh_profiles :: "'w TalentProfileRepository"
  sh_recall :: "rat list \<Rightarrow> int \<Rightarrow> ('w, ID list) io"
  sh_embed :: "'w Embedder"
  sh_scorer :: "'w LLMClient"
  sh_matches :: "'w MatchRepository"
  sh_prompts :: registry
  sh_newID :: "'w IDSource"

definition skipIfMissing :: "go_error \<Rightarrow> go_error option" where
  "skipIfMissing err = (if KindOf err = KindNotFound then None else Some err)"

definition score :: "'w Shortlister \<Rightarrow> Role \<Rightarrow> TalentProfile \<Rightarrow> ('w, Match) io" where
  "score s rl profile =
     io_bind (io_lift (prompts_Get (sh_prompts s) IDShortlistScore)) (\<lambda>p.
     io_bind (DecodeJSON dec_llmMatchScore zero_llmMatchScore (sh_scorer s) (Prompt_Request p (scoringPrompt rl profile))
       DefaultLLMAttempts ''matching: scoring'') (\<lambda>parsed.
     io_bind (io_of (sh_newID s)) (\<lambda>newid.
     io_lift (NewMatch newid (Role_ID rl) (TP_CandidateID profile) (clamp01 (ms_overall_score parsed))
       (match_confidence (ms_confidence parsed))
       (map (\<lambda>b. \<lparr>BD_Competency = si_competency b, BD_Score = si_score b, BD_Evidence = si_evidence b\<rparr>) (ms_breakdown parsed))
       (ms_rationale parsed) (ms_watch_outs parsed) (ms_thin_evidence parsed)))))"

text \<open>A candidate or profile that went missing is skipped: neither a match nor an exclusion.\<close>

definition skip_missing :: "go_error \<Rightarrow> ('w, Match option \<times> Exclusion list) io" where
  "skip_missing err = (case skipIfMissing err of None \<Rightarrow> io_ret (None, []) | Some e \<Rightarrow> io_fail e)"

definition evaluateCandidate :: "'w Shortlister \<Rightarrow> Role \<Rightarrow> Requirements \<Rightarrow> ID \<Rightarrow> ('w, Match option \<times> Exclusion list) io" where
  "evaluateCandidate s rl req cid =
     io_bind (io_try (Candidates_ByID (sh_candidates s) cid)) (\<lambda>r. case r of
       Inl err \<Rightarrow> skip_missing err
     | Inr cand \<Rightarrow>
         let ex = screen_candidate req cid cand
         in if ex \<noteq> [] then io_ret (None, ex)
            else io_bind (io_try (Profiles_ByCandidateID (sh_profiles s) cid)) (\<lambda>r. case r of
                Inl err \<Rightarrow> skip_missing err
              | Inr profile \<Rightarrow>
                  io_bind (score s rl profile) (\<lambda>m.
                  let ex = ScreenMatch req (Some m)
                  in io_ret (if ex \<noteq> [] then (None, ex) else (Some m, [])))))"

text \<open>The loop over the recalled candidates, on the result so far.\<close>

fun screen_loop :: "'w Shortlister \<Rightarrow> Role \<Rightarrow> Requirements \<Rightarrow> ID list \<Rightarrow> ShortlistResult \<Rightarrow> ('w, ShortlistResult) io" where
  "screen_loop s rl req [] res = io_ret res"
| "screen_loop s rl req (cid # cids) res =
     io_bind (evaluateCandidate s rl req cid) (\<lambda>(m, excluded).
     screen_loop s rl req cids
       (if excluded \<noteq> [] then res\<lparr>Exclusions := Exclusions res @ excluded\<rparr>
        else case m of None \<Rightarrow> res | Some m \<Rightarrow> res\<lparr>Matches := Matches res @ [m]\<rparr>))"

definition screenAndScore :: "'w Shortlister \<Rightarrow> Role \<Rightarrow> Requirements \<Rightarrow> ID list \<Rightarrow> ('w, ShortlistResult) io" where
  "screenAndScore s rl req candidateIDs =
     screen_loop s rl req candidateIDs \<lparr>Matches = [], Exclusions = [], PoolDepth = 0\<rparr>"

definition persist :: "'w Shortlister \<Rightarrow> Match list \<Rightarrow> ('w, unit) io" where
  "persist s ms = io_each (\<lambda>m. Matches_Upsert (sh_matches s) m) ms"

definition higher :: "Match \<Rightarrow> Match \<Rightarrow> bool" where
  "higher a b \<longleftrightarrow> flt (OverallScore b) (OverallScore a)"

definition GenerateShortlist :: "'w Shortlister \<Rightarrow> ID \<Rightarrow> ID \<Rightarrow> int \<Rightarrow> ('w, ShortlistResult) io" where
  "GenerateShortlist s roleID actorUserID limit =
     io_bind (Roles_ByID (sh_roles s) roleID) (\<lambda>rl.
     io_bind (io_guard (Role_EmployerID rl \<noteq> actorUserID) (Forbidden ''matching: may only shortlist your own roles'')) (\<lambda>u.
     io_bind (io_lift (EnsureBiasSafe (competencyNames (Role_Rubric rl)))) (\<lambda>u.
     io_bind (sh_embed s (roleText rl)) (\<lambda>emb.
     io_bind (sh_recall s emb recallWindow) (\<lambda>candidateIDs.
     io_bind (screenAndScore s rl (requirementsFor rl) candidateIDs) (\<lambda>result.
     let result = result\<lparr>Matches := stable_sort higher (Matches result)\<rparr> in
     io_bind (persist s (Matches result)) (\<lambda>u.
     let result = result\<lparr>PoolDepth := int (length (Matches result))\<rparr> in
     io_ret (if 0 < limit \<and> limit < int (length (Matches result))
             then result\<lparr>Matches := take (nat limit) (Matches result)\<rparr> else result))))))))"

text \<open>Missing data is no fit, never an error.\<close>

definition availableFit :: "'w Shortlister \<Rightarrow> Requirements \<Rightarrow> RubricSignal list \<Rightarrow> ID \<Rightarrow> ('w, bool) io" where
  "availableFit s req rubric cid =
     io_bind (io_try (Candidates_ByID (sh_candidates s) cid)) (\<lambda>r. case r of
       Inl err \<Rightarrow> io_ret False
     | Inr cand \<Rightarrow>
         if screen_candidate req cid cand \<noteq> [] then io_ret False
         else io_bind (io_try (Profiles_ByCandidateID (sh_profiles s) cid)) (\<lambda>r. case r of
             Inl err \<Rightarrow> io_ret False
           | Inr profile \<Rightarrow> io_ret (CoversMustHaves rubric (candidateSignals profile))))"

definition CountAvailable :: "'w Shortlister \<Rightarrow> ID \<Rightarrow> ('w, int) io" where
  "CountAvailable s roleID =
     io_bind (Roles_ByID (sh_roles s) roleID) (\<lambda>rl.
     io_bind (io_lift (EnsureBiasSafe (competencyNames (Role_Rubric rl)))) (\<lambda>u.
     io_bind (sh_embed s (roleText rl)) (\<lambda>emb.
     io_bind (sh_recall s emb recallWindow) (\<lambda>candidateIDs.
     io_bind (io_map (availableFit s (requirementsFor rl) (rubricSignals rl)) candidateIDs) (\<lambda>fits.
     io_ret (int (length (filter id fits))))))))"

record 'w Refiner =
  rf_roles :: "'w RoleRepository"
  rf_shortlister :: "'w Shortlister"

definition Refine :: "'w Refiner \<Rightarrow> ID \<Rightarrow> ID \<Rightarrow> RoleSpec \<Rightarrow> Rubric \<Rightarrow> int \<Rightarrow> ('w, ShortlistResult) io" where
  "Refine r roleID actorUserID spec rubric limit =
     io_bind (Roles_ByID (rf_roles r) roleID) (\<lambda>rl.
     io_bind (io_guard (Role_EmployerID rl \<noteq> actorUserID) (Forbidden ''matching: may only refine your own roles'')) (\<lambda>u.
     io_bind (io_lift (Role_Revise rl spec (Rubric_Normalize rubric))) (\<lambda>rl.
     io_bind (Roles_Update (rf_roles r) rl) (\<lambda>u.
     GenerateShortlist (rf_shortlister r) roleID actorUserID limit))))"

subsection \<open>The roles that fit a candidate\<close>

definition twoWayScanLimit :: int where "twoWayScanLimit = 100"
definition defaultRoleFitLimit :: int where "defaultRoleFitLimit = 10"

record RoleFit =
  RF_Role :: Role
  RF_Fit :: Fit

record 'w PassiveMatcher =
  pm_roles :: "'w RoleRepository"
  pm_profiles :: "'w TalentProfileRepository"
  pm_candidates :: "'w CandidateRepository"

definition dealbreaker_text :: "Role \<Rightarrow> gostr" where
  "dealbreaker_text rl = Spec_Title (Role_Spec rl) @ lit '' '' @ Spec_Availability (Role_Spec rl) @ lit '' '' @
     strings_Join (Spec_Responsibilities (Role_Spec rl)) (lit '' '')"

definition evaluateRoleFit :: "Candidate \<Rightarrow> CandidateSignal list \<Rightarrow> Role \<Rightarrow> RoleFit option" where
  "evaluateRoleFit cand signals rl =
     (if \<not> logisticsClear cand rl then None
      else if ViolatesDealBreaker (DealBreakers (Cand_Intake cand)) (dealbreaker_text rl) then None
      else let rubric = rubricSignals rl
        in if isl (EnsureBiasSafe (signalNames rubric)) then None
           else let fit = ComputeFit rubric signals
             in if \<not> MustHavesMet fit then None else Some \<lparr>RF_Role = rl, RF_Fit = fit\<rparr>)"

definition better_fit :: "RoleFit \<Rightarrow> RoleFit \<Rightarrow> bool" where
  "better_fit a b \<longleftrightarrow> flt (Fit_Score (RF_Fit b)) (Fit_Score (RF_Fit a))"

definition rankRoleFits :: "Candidate \<Rightarrow> CandidateSignal list \<Rightarrow> Role list \<Rightarrow> RoleFit list" where
  "rankRoleFits cand signals opens = stable_sort better_fit (List.map_filter (evaluateRoleFit cand signals) opens)"

definition RolesForCandidate :: "'w PassiveMatcher \<Rightarrow> ID \<Rightarrow> int \<Rightarrow> ('w, RoleFit list) io" where
  "RolesForCandidate m candidateID limit =
     (let limit = (if limit \<le> 0 then defaultRoleFitLimit else limit) in
     io_bind (Candidates_ByID (pm_candidates m) candidateID) (\<lambda>cand.
     io_bind (io_try (Profiles_ByCandidateID (pm_profiles m) candidateID)) (\<lambda>r. case r of
       Inl err \<Rightarrow> if KindOf err = KindNotFound then io_ret [] else io_fail err
     | Inr profile \<Rightarrow>
         io_bind (Roles_ListOpen (pm_roles m) (NewPage 1 twoWayScanLimit)) (\<lambda>(opens, tot).
         let fits = rankRoleFits cand (candidateSignals profile) opens
         in io_ret (if limit < int (length fits) then take (nat limit) fits else fits)))))"

subsection \<open>The cache of embeddings\<close>

text \<open>
  The cache lives beside the world of the inner embedder. \<open>hashText\<close>, the hexadecimal SHA-256 of a text, is a
  parameter; nothing is assumed of it beyond the texts at hand.
\<close>

definition CachedEmbedder_Embed :: "(gostr \<Rightarrow> 'h) \<Rightarrow> 'w Embedder \<Rightarrow> gostr \<Rightarrow> ('w \<times> ('h \<times> rat list) list, rat list) io" where
  "CachedEmbedder_Embed hashText inner text = (\<lambda>(w, cache).
     case map_of cache (hashText text) of
       Some v \<Rightarrow> (Inr v, (w, cache))
     | None \<Rightarrow> (case inner text w of
         (Inl err, w') \<Rightarrow> (Inl err, (w', cache))
       | (Inr v, w') \<Rightarrow> (Inr v, (w', AList.update (hashText text) v cache))))"

subsection \<open>Scores are numbers\<close>

lemma match_score_finite:
  assumes "json_Unmarshal dec_llmMatchScore zero_llmMatchScore s = Some x"
  shows "\<exists>q. ms_overall_score x = Fin q"
proof (rule json_Unmarshal_keeps [OF _ _ assms])
  show "dec_keeps (\<lambda>x. \<exists>q. ms_overall_score x = Fin q) dec_llmMatchScore"
    unfolding dec_llmMatchScore_def by (rule dec_struct_keeps) (force intro!: dec_keepsI dest: dec_float_finite)
qed (simp add: zero_llmMatchScore_def)

lemma clamp01_finite: "\<exists>q. clamp01 (Fin p) = Fin q"
  by (simp add: clamp01_def)

lemma score_ok:
  assumes "score s rl p w = (Inr m, w')"
  shows "match_ok m \<and> Match_RoleID m = Role_ID rl \<and> Match_CandidateID m = TP_CandidateID p \<and> Match_CreatedAt m = 0 \<and>
    (\<exists>q. OverallScore m = Fin q)"
proof -
  from assms obtain pr parsed i v v' where d: "DecodeJSON dec_llmMatchScore zero_llmMatchScore (sh_scorer s)
      (Prompt_Request pr (scoringPrompt rl p)) DefaultLLMAttempts ''matching: scoring'' w = (Inr parsed, v)"
    and n: "NewMatch i (Role_ID rl) (TP_CandidateID p) (clamp01 (ms_overall_score parsed))
      (match_confidence (ms_confidence parsed))
      (map (\<lambda>b. \<lparr>BD_Competency = si_competency b, BD_Score = si_score b, BD_Evidence = si_evidence b\<rparr>) (ms_breakdown parsed))
      (ms_rationale parsed) (ms_watch_outs parsed) (ms_thin_evidence parsed) = Inr m"
    by (auto simp: score_def io_ok)
  from DecodeJSON_ok [OF d] match_score_finite obtain q where "ms_overall_score parsed = Fin q" by blast
  moreover have "Match_CreatedAt m = 0" using n by (auto simp: NewMatch_def split: if_splits sum.splits)
  ultimately show ?thesis using NewMatch_ok [OF n] clamp01_finite [of q] by auto
qed

subsection \<open>Who is on a shortlist\<close>

definition memory_shortlister :: "(Role list \<Rightarrow> Role list) \<Rightarrow> ((Role \<Rightarrow> Role \<Rightarrow> bool) \<Rightarrow> Role list \<Rightarrow> Role list) \<Rightarrow>
    (Match list \<Rightarrow> Match list) \<Rightarrow> (rat list \<Rightarrow> int \<Rightarrow> (World, ID list) io) \<Rightarrow> World Embedder \<Rightarrow> World LLMClient \<Rightarrow>
    registry \<Rightarrow> World Shortlister" where
  "memory_shortlister itr srt itm recall emb llm reg = \<lparr>sh_roles = memory_roles itr srt, sh_candidates = memory_candidates,
     sh_profiles = memory_profiles, sh_recall = recall, sh_embed = emb, sh_scorer = llm, sh_matches = memory_matches itm,
     sh_prompts = reg, sh_newID = World_newID\<rparr>"

lemma memory_shortlister_sel [simp]:
  "sh_roles (memory_shortlister itr srt itm recall emb llm reg) = memory_roles itr srt"
  "sh_candidates (memory_shortlister itr srt itm recall emb llm reg) = memory_candidates"
  "sh_profiles (memory_shortlister itr srt itm recall emb llm reg) = memory_profiles"
  "sh_recall (memory_shortlister itr srt itm recall emb llm reg) = recall"
  "sh_embed (memory_shortlister itr srt itm recall emb llm reg) = emb"
  "sh_scorer (memory_shortlister itr srt itm recall emb llm reg) = llm"
  "sh_matches (memory_shortlister itr srt itm recall emb llm reg) = memory_matches itm"
  "sh_prompts (memory_shortlister itr srt itm recall emb llm reg) = reg"
  "sh_newID (memory_shortlister itr srt itm recall emb llm reg) = World_newID"
  by (simp_all add: memory_shortlister_def)

text \<open>The candidate is stored, clears the logistics, has a profile, and its match the must-have gate.\<close>

definition survivor :: "World \<Rightarrow> Role \<Rightarrow> ID \<Rightarrow> Match \<Rightarrow> bool" where
  "survivor w rl cid m \<longleftrightarrow> match_ok m \<and> Match_RoleID m = Role_ID rl \<and> Match_CandidateID m = cid \<and> (\<exists>q. OverallScore m = Fin q) \<and>
     Match_CreatedAt m = 0 \<and> ScreenMatch (requirementsFor rl) (Some m) = [] \<and>
     (\<exists>c. map_of (ks_byID (w_candidates w)) cid = Some c \<and> screen_candidate (requirementsFor rl) cid c = [])"

lemma evaluateCandidate_external:
  assumes "outside_llm llm"
  shows "external (evaluateCandidate (memory_shortlister itr srt itm recall emb llm reg) rl req cid)"
  unfolding evaluateCandidate_def skip_missing_def score_def external_def Let_def memory_shortlister_sel memory_sel
  by (intro io_frameI io_keep reads_keep keeps_external DecodeJSON_external newID_external assms)

lemma survivor_stores: "stores v = stores w \<Longrightarrow> survivor v rl cid m \<longleftrightarrow> survivor w rl cid m"
  by (simp add: survivor_def stores_eq_iff)

lemma evaluateCandidate_ok:
  assumes "ks_inv TP_ID TP_CandidateID (w_profiles w)"
    and "evaluateCandidate (memory_shortlister itr srt itm recall emb llm reg) rl (requirementsFor rl) cid w = (Inr (Some m, ex), w')"
  shows "ex = [] \<and> survivor w rl cid m"
proof -
  let ?s = "memory_shortlister itr srt itm recall emb llm reg"
  from assms(2) obtain c p v where c: "map_of (ks_byID (w_candidates w)) cid = Some c"
      "screen_candidate (requirementsFor rl) cid c = []"
    and p: "at_profiles (TalentProfileRepo_ByCandidateID cid) w = (Inr p, v)" and m: "score ?s rl p v = (Inr m, w')"
    and g: "ScreenMatch (requirementsFor rl) (Some m) = []" "ex = []"
    by (auto simp: evaluateCandidate_def skip_missing_def io_ok_iffs io_bind_ok io_cases_ok io_try_ok memory_reads Let_def
        split: if_splits)
  from profile_of [OF assms(1) p] score_ok [OF m] c g show ?thesis by (simp add: survivor_def)
qed

lemma screen_loop_ok:
  assumes "outside_llm llm" and "ks_inv TP_ID TP_CandidateID (w_profiles w)"
    and "screen_loop (memory_shortlister itr srt itm recall emb llm reg) rl (requirementsFor rl) cids res w = (Inr out, w')"
  shows "\<exists>ms. Matches out = Matches res @ ms \<and> (\<forall>m \<in> set ms. \<exists>cid \<in> set cids. survivor w rl cid m) \<and> length ms \<le> length cids"
  using assms(2,3)
proof (induction cids arbitrary: res w)
  case (Cons cid cids)
  let ?s = "memory_shortlister itr srt itm recall emb llm reg"
  obtain mo ex v where e: "evaluateCandidate ?s rl (requirementsFor rl) cid w = (Inr (mo, ex), v)"
    and l: "screen_loop ?s rl (requirementsFor rl) cids
       (if ex \<noteq> [] then res\<lparr>Exclusions := Exclusions res @ ex\<rparr>
        else case mo of None \<Rightarrow> res | Some m \<Rightarrow> res\<lparr>Matches := Matches res @ [m]\<rparr>) v = (Inr out, w')"
    using Cons.prems(2) by (auto simp: io_bind_ok split: prod.splits)
  have v: "stores v = stores w" by (rule externalD [OF evaluateCandidate_external [OF assms(1)] e])
  then have "ks_inv TP_ID TP_CandidateID (w_profiles v)" using Cons.prems(1) by (simp add: stores_eq_iff)
  from Cons.IH [OF this l] obtain ms where ms: "Matches out = Matches (if ex \<noteq> [] then res\<lparr>Exclusions := Exclusions res @ ex\<rparr>
        else case mo of None \<Rightarrow> res | Some m \<Rightarrow> res\<lparr>Matches := Matches res @ [m]\<rparr>) @ ms"
    "\<forall>m \<in> set ms. \<exists>cid \<in> set cids. survivor w rl cid m" "length ms \<le> length cids"
    using survivor_stores [OF v] by blast
  show ?case
  proof (cases mo)
    case None
    then show ?thesis using ms by (intro exI [of _ ms]) auto
  next
    case (Some m)
    from evaluateCandidate_ok [OF Cons.prems(1) e [unfolded Some]] ms Some show ?thesis
      by (intro exI [of _ "m # ms"]) auto
  qed
qed (auto simp: io_ok)

subsection \<open>Ranking and storing\<close>

interpretation fitness: weak_order higher scored
proof
  fix a b assume "a \<in> scored" "b \<in> scored" "higher a b"
  then show "\<not> higher b a" using flt_asym by (auto simp: higher_def scored_def)
next
  fix a b c assume "a \<in> scored" "b \<in> scored" "c \<in> scored" "\<not> higher a b" "\<not> higher b c"
  then show "\<not> higher a c" using flt_negtrans [of "OverallScore c" "OverallScore b" "OverallScore a"]
    by (simp add: higher_def scored_def)
qed

lemma Upsert_fresh:
  assumes "Match_CreatedAt m = 0" and "Matches_Upsert (memory_matches itm) m w = (Inr u, w')"
  shows "\<exists>t. map_of (w_matches w') = (map_of (w_matches w))
    (matchKey (Match_RoleID m) (Match_CandidateID m) \<mapsto> m\<lparr>Match_CreatedAt := t\<rparr>)"
proof -
  obtain t v where t: "World_now w = (t, v)" by fastforce
  have v: "w_matches v = w_matches w" using stores_now [OF t] by (simp add: stores_eq_iff)
  have "m = m\<lparr>Match_CreatedAt := 0\<rparr>" using assms(1) by (cases m) simp
  then show ?thesis using assms t v
    by (auto simp: io_simps MatchRepo_Upsert_def Let_def update_conv' time_IsZero_def split: option.splits if_splits)
qed

lemma persist_ok:
  assumes "\<forall>m \<in> set ms. Match_CreatedAt m = 0" and "persist (memory_shortlister itr srt itm recall emb llm reg) ms w = (Inr u, w')"
  shows "if \<exists>m \<in> set ms. matchKey (Match_RoleID m) (Match_CandidateID m) = k
    then \<exists>m \<in> set ms. \<exists>t. matchKey (Match_RoleID m) (Match_CandidateID m) = k \<and> map_of (w_matches w') k = Some (m\<lparr>Match_CreatedAt := t\<rparr>)
    else map_of (w_matches w') k = map_of (w_matches w) k"
  using assms
proof (induction ms arbitrary: w)
  case (Cons m ms)
  let ?s = "memory_shortlister itr srt itm recall emb llm reg"
  obtain v where f: "Matches_Upsert (memory_matches itm) m w = (Inr (), v)" and r: "persist ?s ms v = (Inr u, w')"
    using Cons.prems(2) by (auto simp: persist_def io_bind_ok simp del: memory_sel)
  have z: "Match_CreatedAt m = 0" using Cons.prems(1) by simp
  from Upsert_fresh [OF z f] obtain t where
    t: "map_of (w_matches v) = (map_of (w_matches w))(matchKey (Match_RoleID m) (Match_CandidateID m) \<mapsto> m\<lparr>Match_CreatedAt := t\<rparr>)" ..
  note IH = Cons.IH [OF _ r]
  have z': "\<forall>m \<in> set ms. Match_CreatedAt m = 0" using Cons.prems(1) by simp
  show ?case
  proof (cases "\<exists>m \<in> set ms. matchKey (Match_RoleID m) (Match_CandidateID m) = k")
    case True
    with IH [OF z'] obtain m' t' where "m' \<in> set ms" "matchKey (Match_RoleID m') (Match_CandidateID m') = k"
      "map_of (w_matches w') k = Some (m'\<lparr>Match_CreatedAt := t'\<rparr>)" by auto
    then have "\<exists>m' \<in> set (m # ms). \<exists>t. matchKey (Match_RoleID m') (Match_CandidateID m') = k \<and>
        map_of (w_matches w') k = Some (m'\<lparr>Match_CreatedAt := t\<rparr>)" by auto
    moreover have "\<exists>m' \<in> set (m # ms). matchKey (Match_RoleID m') (Match_CandidateID m') = k" using True by auto
    ultimately show ?thesis by (simp only: if_True)
  next
    case False
    with IH [OF z'] have "map_of (w_matches w') k = map_of (w_matches v) k" by simp
    with t False show ?thesis by auto
  qed
qed (simp add: persist_def io_ok)

lemma persist_stores:
  "persist (memory_shortlister itr srt itm recall emb llm reg) ms w = (r, w') \<Longrightarrow> stores w' = stores (w\<lparr>w_matches := w_matches w'\<rparr>)"
proof (induction ms arbitrary: w)
  case (Cons m ms)
  let ?s = "memory_shortlister itr srt itm recall emb llm reg"
  obtain t v where t: "World_now w = (t, v)" by fastforce
  obtain x v' where x: "MatchRepo_Upsert t m (w_matches v) = (Inr (), x)" by (auto simp: MatchRepo_Upsert_def Let_def)
  have "Matches_Upsert (memory_matches itm) m w = (Inr (), v\<lparr>w_matches := x\<rparr>)" using t x by (simp add: io_simps)
  then have "persist ?s ms (v\<lparr>w_matches := x\<rparr>) = (r, w')" using Cons.prems
    by (simp add: persist_def io_simps del: memory_sel)
  from Cons.IH [OF this] stores_now [OF t] show ?case by (simp add: stores_eq_iff)
qed (simp add: persist_def io_simps stores_eq_iff)

lemma screenAndScore_external:
  assumes "outside_llm llm"
  shows "external (screenAndScore (memory_shortlister itr srt itm recall emb llm reg) rl req cids)"
proof -
  have "external (screen_loop (memory_shortlister itr srt itm recall emb llm reg) rl req cids res)" for res
  proof (induction cids arbitrary: res)
    case (Cons cid cids)
    note k = keeps_external [OF evaluateCandidate_external [OF assms]] keeps_external [OF Cons.IH]
    show ?case unfolding external_def screen_loop.simps by (intro io_frameI io_keep k)
  qed (simp add: external_def io_frame_def)
  then show ?thesis by (simp add: screenAndScore_def)
qed

definition same_key :: "Match \<Rightarrow> Match \<Rightarrow> bool" where
  "same_key a b \<longleftrightarrow> Match_RoleID a = Match_RoleID b \<and> Match_CandidateID a = Match_CandidateID b"

lemma matchKey_same: "Match_RoleID a = Match_RoleID b \<Longrightarrow>
    matchKey (Match_RoleID a) (Match_CandidateID a) = matchKey (Match_RoleID b) (Match_CandidateID b) \<longleftrightarrow> same_key a b"
  by (auto simp: matchKey_def same_key_def)

lemma shortlist_prefix:
  assumes "outside_llm llm" and "\<forall>t. external (emb t)" and "\<forall>e n. external (recall e n)"
    and inv: "ks_inv TP_ID TP_CandidateID (w_profiles w)"
    and run: "GenerateShortlist (memory_shortlister itr srt itm recall emb llm reg) roleID actor limit w = (Inr res, w')"
  shows "\<exists>rl ms v. map_of (w_roles w) roleID = Some rl \<and> Role_EmployerID rl = actor \<and>
    EnsureBiasSafe (competencyNames (Role_Rubric rl)) = Inr () \<and> (\<forall>m \<in> set ms. \<exists>cid. survivor w rl cid m) \<and>
    stores v = stores w \<and>
    persist (memory_shortlister itr srt itm recall emb llm reg) (stable_sort higher ms) v = (Inr (), w') \<and>
    PoolDepth res = int (length ms) \<and>
    Matches res = (if 0 < limit then take (nat limit) (stable_sort higher ms) else stable_sort higher ms)"
proof -
  let ?s = "memory_shortlister itr srt itm recall emb llm reg"
  from run obtain rl e v1 cids v2 out v3 where rl: "map_of (w_roles w) roleID = Some rl" "Role_EmployerID rl = actor"
      "EnsureBiasSafe (competencyNames (Role_Rubric rl)) = Inr ()"
    and e: "emb (roleText rl) w = (Inr e, v1)" and c: "recall e recallWindow v1 = (Inr cids, v2)"
    and l: "screenAndScore ?s rl (requirementsFor rl) cids v2 = (Inr out, v3)"
    and p: "persist ?s (stable_sort higher (Matches out)) v3 = (Inr (), w')"
    and res: "res = (let result = out\<lparr>Matches := stable_sort higher (Matches out),
          PoolDepth := int (length (stable_sort higher (Matches out)))\<rparr>
        in if 0 < limit \<and> limit < int (length (Matches result))
           then result\<lparr>Matches := take (nat limit) (Matches result)\<rparr> else result)"
    by (auto simp: GenerateShortlist_def io_ok_iffs io_bind_ok memory_reads Let_def simp del: length_stable_sort)
  have v1: "stores v1 = stores w" using assms(2) e externalD by blast
  have v2: "stores v2 = stores w" using assms(3) c externalD v1 by metis
  have v3: "stores v3 = stores w" using externalD [OF screenAndScore_external [OF assms(1)] l] v2 by simp
  have "ks_inv TP_ID TP_CandidateID (w_profiles v2)" using inv v2 by (simp add: stores_eq_iff)
  from screen_loop_ok [OF assms(1) this l [unfolded screenAndScore_def]]
  have ms: "\<forall>m \<in> set (Matches out). \<exists>cid. survivor w rl cid m" using survivor_stores [OF v2] by auto
  have "PoolDepth res = int (length (Matches out)) \<and>
      Matches res = (if 0 < limit then take (nat limit) (stable_sort higher (Matches out)) else stable_sort higher (Matches out))"
    by (auto simp: res Let_def)
  with rl ms v3 p show ?thesis by blast
qed

lemma shortlist_stores:
  assumes "outside_llm llm" and "\<forall>t. external (emb t)" and "\<forall>e n. external (recall e n)"
    and "GenerateShortlist (memory_shortlister itr srt itm recall emb llm reg) roleID actor limit w = (r, w')"
  shows "stores w' = stores (w\<lparr>w_matches := w_matches w'\<rparr>)"
proof -
  let ?rest = "\<lambda>v. stores (v\<lparr>w_matches := []\<rparr>)" and ?s = "memory_shortlister itr srt itm recall emb llm reg"
  have ext: "io_keeps (\<lambda>v. ?rest v = x) m" if "external m" for m :: "(World, 'b) io" and x
  proof (rule io_keepsI)
    fix v assume v: "?rest v = x"
    from externalD [OF that prod.collapse [symmetric]] have "stores (snd (m v)) = stores v" .
    with v show "?rest (snd (m v)) = x" by (simp add: stores_def)
  qed
  have per: "io_keeps (\<lambda>v. ?rest v = x) (persist ?s ms)" for ms x
  proof (rule io_keepsI)
    fix v assume v: "?rest v = x"
    from persist_stores [OF prod.collapse [symmetric], of itr srt itm recall emb llm reg ms v]
    have "stores (snd (persist ?s ms v)) = stores (v\<lparr>w_matches := w_matches (snd (persist ?s ms v))\<rparr>)" .
    with v show "?rest (snd (persist ?s ms v)) = x" by (simp add: stores_def)
  qed
  have "io_frame ?rest (GenerateShortlist ?s roleID actor limit)"
    unfolding GenerateShortlist_def Let_def memory_shortlister_sel memory_sel
    by (intro io_frameI io_keep reads_keep per ext screenAndScore_external)
      (use assms in auto)
  from io_frameD [OF this assms(4)] show ?thesis by (simp add: stores_def)
qed

text \<open>
  C14: A shortlist is honest. On the in-memory stack only the owner of the role gets one, from a rubric
  without protected attributes. Every match on it is a valid match of that role with a stored candidate
  who clears the location and salary gates and the must-have gate; the matches are in order of their
  score; the pool depth counts all of them and the page is their top; every one of them is stored for
  its role and candidate; and, successful or not, the run changes nothing but the matches.
\<close>

theorem shortlist_honest:
  assumes "outside_llm llm" and "\<forall>t. external (emb t)" and "\<forall>e n. external (recall e n)"
    and "ks_inv TP_ID TP_CandidateID (w_profiles w)"
    and "GenerateShortlist (memory_shortlister itr srt itm recall emb llm reg) roleID actor limit w = (r, w')"
  shows "stores w' = stores (w\<lparr>w_matches := w_matches w'\<rparr>) \<and>
    (case r of
       Inl e \<Rightarrow> \<forall>rl. map_of (w_roles w) roleID = Some rl \<longrightarrow> Role_EmployerID rl \<noteq> actor \<longrightarrow> KindOf e = KindForbidden \<and> w' = w
     | Inr res \<Rightarrow> \<exists>rl ranked. map_of (w_roles w) roleID = Some rl \<and> Role_EmployerID rl = actor \<and>
         (\<forall>k \<in> set (competencyNames (Role_Rubric rl)). \<not> is_protected k) \<and>
         (\<forall>m \<in> set ranked. (\<exists>cid. survivor w rl cid m) \<and> (\<exists>m' \<in> set ranked. \<exists>t. same_key m' m \<and>
            map_of (w_matches w') (matchKey (Match_RoleID m) (Match_CandidateID m)) = Some (m'\<lparr>Match_CreatedAt := t\<rparr>))) \<and>
         in_order higher ranked \<and> PoolDepth res = int (length ranked) \<and>
         Matches res = (if 0 < limit then take (nat limit) ranked else ranked))"
proof (intro conjI)
  show "stores w' = stores (w\<lparr>w_matches := w_matches w'\<rparr>)" by (rule shortlist_stores [OF assms(1-3,5)])
  show "case r of
       Inl e \<Rightarrow> \<forall>rl. map_of (w_roles w) roleID = Some rl \<longrightarrow> Role_EmployerID rl \<noteq> actor \<longrightarrow> KindOf e = KindForbidden \<and> w' = w
     | Inr res \<Rightarrow> \<exists>rl ranked. map_of (w_roles w) roleID = Some rl \<and> Role_EmployerID rl = actor \<and>
         (\<forall>k \<in> set (competencyNames (Role_Rubric rl)). \<not> is_protected k) \<and>
         (\<forall>m \<in> set ranked. (\<exists>cid. survivor w rl cid m) \<and> (\<exists>m' \<in> set ranked. \<exists>t. same_key m' m \<and>
            map_of (w_matches w') (matchKey (Match_RoleID m) (Match_CandidateID m)) = Some (m'\<lparr>Match_CreatedAt := t\<rparr>))) \<and>
         in_order higher ranked \<and> PoolDepth res = int (length ranked) \<and>
         Matches res = (if 0 < limit then take (nat limit) ranked else ranked)"
  proof (cases r)
    case (Inl e)
    have "KindOf e = KindForbidden \<and> w' = w" if "map_of (w_roles w) roleID = Some rl" "Role_EmployerID rl \<noteq> actor" for rl
      using assms(5) that Inl by (auto simp: GenerateShortlist_def io_simps RoleRepo_ByID_def)
    then show ?thesis by (simp add: Inl)
  next
    case (Inr res)
    let ?s = "memory_shortlister itr srt itm recall emb llm reg"
    from shortlist_prefix [OF assms(1-4) assms(5) [unfolded Inr]] obtain rl ms v where
      rl: "map_of (w_roles w) roleID = Some rl" "Role_EmployerID rl = actor" "EnsureBiasSafe (competencyNames (Role_Rubric rl)) = Inr ()"
      and ms: "\<forall>m \<in> set ms. \<exists>cid. survivor w rl cid m"
      and p: "persist ?s (stable_sort higher ms) v = (Inr (), w')"
      and res: "PoolDepth res = int (length ms)"
        "Matches res = (if 0 < limit then take (nat limit) (stable_sort higher ms) else stable_sort higher ms)" by blast
    have fresh: "\<forall>m \<in> set (stable_sort higher ms). Match_CreatedAt m = 0" using ms by (auto simp: survivor_def)
    have scored: "set ms \<subseteq> scored" using ms by (auto simp: survivor_def scored_def)
    have stored: "\<exists>m' \<in> set (stable_sort higher ms). \<exists>t. same_key m' m \<and>
        map_of (w_matches w') (matchKey (Match_RoleID m) (Match_CandidateID m)) = Some (m'\<lparr>Match_CreatedAt := t\<rparr>)"
      if "m \<in> set (stable_sort higher ms)" for m
    proof -
      let ?k = "matchKey (Match_RoleID m) (Match_CandidateID m)"
      from persist_ok [OF fresh p, of ?k] that obtain m' t where m': "m' \<in> set (stable_sort higher ms)"
        "matchKey (Match_RoleID m') (Match_CandidateID m') = ?k" "map_of (w_matches w') ?k = Some (m'\<lparr>Match_CreatedAt := t\<rparr>)"
        by (auto simp del: set_stable_sort split: if_splits)
      have "Match_RoleID m' = Match_RoleID m" using ms m'(1) that by (auto simp: survivor_def)
      with m' show ?thesis using matchKey_same by blast
    qed
    have "\<forall>k \<in> set (competencyNames (Role_Rubric rl)). \<not> is_protected k" using rl(3) by (simp add: EnsureBiasSafe_iff)
    moreover have "in_order higher (stable_sort higher ms)" by (rule fitness.sort_in_order [OF scored])
    moreover have "\<forall>m \<in> set (stable_sort higher ms). \<exists>cid. survivor w rl cid m" using ms by simp
    ultimately show ?thesis unfolding Inr sum.case using rl(1,2) stored res
      by (intro exI [of _ rl] exI [of _ "stable_sort higher ms"]) simp
  qed
qed

definition sample_scorer :: "World LLMClient" where
  "sample_scorer = replying (\<lambda>r. json_Marshal (JObj
     [(''overall_score'', JInt 1), (''breakdown'', JArr [JObj [(''competency'', JStr (lit ''SQL'')), (''score'', JInt 4)]])]))"

abbreviation "sample_shortlister \<equiv> memory_shortlister id (\<lambda>less xs. xs) id (\<lambda>e n. io_ret [[67], [68]]) (\<lambda>t. io_ret []) sample_scorer sample_registry"

lemma io_ret_external: "external (io_ret x)"
  by (rule externalI) (simp add: io_simps)

lemma shortlist_honest_witness:
  "\<exists>res w' m. GenerateShortlist sample_shortlister [82] [69] 5 sample_pool = (Inr res, w') \<and> Matches res = [m] \<and>
     (\<exists>cid. survivor sample_pool (sample_role\<lparr>Role_Rubric := sample_rubric\<rparr>) cid m)"
proof -
  let ?w = sample_pool
  have "case fst (GenerateShortlist sample_shortlister [82] [69] 5 ?w) of Inl e \<Rightarrow> False | Inr res \<Rightarrow> length (Matches res) = 1"
    by code_simp
  from run_ok [OF this] obtain res w' where
    r: "GenerateShortlist sample_shortlister [82] [69] 5 ?w = (Inr res, w')" "length (Matches res) = 1" by blast
  from r(2) obtain m where m: "Matches res = [m]" by (auto simp: length_Suc_conv)
  have rl: "map_of (w_roles ?w) [82] = Some (sample_role\<lparr>Role_Rubric := sample_rubric\<rparr>)" by (simp add: sample_pool_def)
  have "outside_llm sample_scorer" by (simp add: sample_scorer_def replying_outside)
  moreover have "\<forall>t. external (io_ret [] :: (World, rat list) io)" "\<forall>e n. external (io_ret [[67], [68]] :: (World, ID list) io)"
    by (simp_all add: io_ret_external)
  ultimately obtain ranked where k: "\<forall>m \<in> set ranked. \<exists>cid. survivor ?w (sample_role\<lparr>Role_Rubric := sample_rubric\<rparr>) cid m"
    "Matches res = take 5 ranked"
    using shortlist_honest [OF _ _ _ sample_pool_inv(1) r(1)] rl by auto
  have "m \<in> set (Matches res)" by (simp add: m)
  then have "m \<in> set ranked" unfolding k(2) by (rule in_set_takeD)
  with k(1) r(1) m show ?thesis by blast
qed

subsection \<open>What the scorer is shown\<close>

interpretation evidence: fence_label evidence_label
  by unfold_locales (simp_all add: evidence_label_def)

lemma unfenced_evidence: "evidence.unfenced (evidence_line c @ s) \<longleftrightarrow> evidence.unfenced s"
proof -
  let ?u = "lit ''level '' @ fmt_fixed 1 (PC_Level c)"
  have "91 \<notin> set ?u" using not_in_ranges [OF fmt_fixed_set] by simp
  from evidence.unfenced_item [OF this, of "PC_Name c" "lit '': '' @ Sanitize (PC_EvidenceQuote c) @ 10 # s"]
  show ?thesis by (simp add: evidence_line_def evidence.unfenced_Cons evidence.unfenced_field)
qed

lemma unfenced_weight: "evidence.unfenced (weight_line c @ s) \<longleftrightarrow> evidence.unfenced s"
proof -
  let ?u = "lit ''weight '' @ fmt_fixed 2 (Comp_Weight c) @ lit '', must_have '' @ fmt_bool (Comp_MustHave c)"
  have "91 \<notin> set ?u" using not_in_ranges [OF fmt_fixed_set] not_in_ranges [OF fmt_bool_set] by simp
  from evidence.unfenced_item [OF this, of "Comp_Name c" "10 # s"]
  show ?thesis by (simp add: weight_line_def evidence.unfenced_Cons)
qed

text \<open>The evidence of a candidate cannot leave its fence, which closes the scoring prompt.\<close>

lemma scoringPrompt_fence:
  "(\<exists>a b. scoringPrompt rl p = a @ endFence evidence_label @ b) \<and>
   (\<forall>a b. scoringPrompt rl p = a @ endFence evidence_label @ b \<longrightarrow> b = [])"
proof -
  let ?head = "lit ''ROLE: '' @ Sanitize (Spec_Title (Role_Spec rl)) @ [10] @ lit ''RUBRIC:'' @ [10] @
     concat (map weight_line (Competencies (Role_Rubric rl))) @ lit ''CANDIDATE COMPETENCIES:''"
  have w: "evidence.unfenced (concat (map weight_line cs) @ s) \<longleftrightarrow> evidence.unfenced s" for cs s
    by (induction cs) (simp_all add: unfenced_weight)
  have e: "evidence.unfenced (concat (map evidence_line cs))" for cs
    by (induction cs) (simp_all add: unfenced_evidence)
  have "evidence.unfenced ?head" by (simp add: w evidence.unfenced_Cons evidence.unfenced_sep)
  moreover have "scoringPrompt rl p = ?head @ 10 # Fence evidence_label (concat (map evidence_line (TP_Competencies p))) @ []"
    by (simp add: scoringPrompt_def)
  ultimately show ?thesis using evidence.fenced_once [OF _ e, of ?head "[]"] by simp
qed

subsection \<open>The roles shown to a candidate\<close>

lemma evaluateRoleFit_ok:
  "evaluateRoleFit cand signals rl = Some rf \<longleftrightarrow> logisticsClear cand rl \<and>
     \<not> ViolatesDealBreaker (DealBreakers (Cand_Intake cand)) (dealbreaker_text rl) \<and>
     (\<forall>k \<in> set (signalNames (rubricSignals rl)). \<not> is_protected k) \<and>
     MustHavesMet (ComputeFit (rubricSignals rl) signals) \<and> rf = \<lparr>RF_Role = rl, RF_Fit = ComputeFit (rubricSignals rl) signals\<rparr>"
  by (auto simp: evaluateRoleFit_def Let_def EnsureBiasSafe_iff [symmetric] isl_def old.unit.exhaust
      split: if_splits) (metis old.unit.exhaust sum.exhaust_sel)+

lemma rankRoleFits_set:
  "set (rankRoleFits cand signals opens) = {rf. \<exists>rl \<in> set opens. evaluateRoleFit cand signals rl = Some rf}"
  by (auto simp: rankRoleFits_def List.map_filter_def image_iff) (metis option.sel)

interpretation role_ranking: weak_order better_fit "{rf. Fit_Score (RF_Fit rf) \<noteq> NaN}"
proof
  fix a b assume "a \<in> {rf. Fit_Score (RF_Fit rf) \<noteq> NaN}" "b \<in> {rf. Fit_Score (RF_Fit rf) \<noteq> NaN}" "better_fit a b"
  then show "\<not> better_fit b a" using flt_asym by (auto simp: better_fit_def)
next
  fix a b c assume "a \<in> {rf. Fit_Score (RF_Fit rf) \<noteq> NaN}" "b \<in> {rf. Fit_Score (RF_Fit rf) \<noteq> NaN}"
    "c \<in> {rf. Fit_Score (RF_Fit rf) \<noteq> NaN}" "\<not> better_fit a b" "\<not> better_fit b c"
  then show "\<not> better_fit a c" using flt_negtrans [of "Fit_Score (RF_Fit c)" "Fit_Score (RF_Fit b)" "Fit_Score (RF_Fit a)"]
    by (simp add: better_fit_def)
qed

subsection \<open>The cache is invisible\<close>

text \<open>
  The specification: a text is sent to the provider until it was embedded once; from then on that first answer is
  remembered. Its state is the list of the embedded texts with their answers.
\<close>

definition embed_once :: "'w Embedder \<Rightarrow> gostr \<Rightarrow> ('w \<times> (gostr \<times> rat list) list, rat list) io" where
  "embed_once inner text = (\<lambda>(w, memo). case map_of memo text of
       Some v \<Rightarrow> (Inr v, (w, memo))
     | None \<Rightarrow> (case inner text w of
         (Inl err, w') \<Rightarrow> (Inl err, (w', memo)) | (Inr v, w') \<Rightarrow> (Inr v, (w', (text, v) # memo))))"

definition cache_of :: "(gostr \<Rightarrow> 'h) \<Rightarrow> gostr set \<Rightarrow> ('h \<times> rat list) list \<Rightarrow> (gostr \<times> rat list) list \<Rightarrow> bool" where
  "cache_of hashText T cache memo \<longleftrightarrow> (\<forall>t \<in> T. map_of cache (hashText t) = map_of memo t)"

lemma cached_step:
  assumes "inj_on hashText T" and "t \<in> T" and "cache_of hashText T cache memo"
  shows "\<exists>cache' memo' w' r. CachedEmbedder_Embed hashText inner t (w, cache) = (r, (w', cache')) \<and>
    embed_once inner t (w, memo) = (r, (w', memo')) \<and> cache_of hashText T cache' memo'"
proof (cases "map_of memo t")
  case (Some v)
  then show ?thesis using assms(2,3) by (simp add: CachedEmbedder_Embed_def embed_once_def cache_of_def)
next
  case None
  obtain r w' where r: "inner t w = (r, w')" by fastforce
  have n: "map_of cache (hashText t) = None" using None assms(2,3) by (simp add: cache_of_def)
  show ?thesis
  proof (cases r)
    case (Inl e)
    then show ?thesis using None n r assms(3) by (simp add: CachedEmbedder_Embed_def embed_once_def)
  next
    case (Inr v)
    have "hashText t' \<noteq> hashText t" if "t' \<in> T" "t' \<noteq> t" for t' using assms(1,2) that by (meson inj_onD)
    then have "cache_of hashText T (AList.update (hashText t) v cache) ((t, v) # memo)"
      using assms(3) by (auto simp: cache_of_def update_conv')
    then show ?thesis using None n r Inr by (simp add: CachedEmbedder_Embed_def embed_once_def)
  qed
qed

text \<open>
  C25: The cache of embeddings refines the provider. For any sequence of texts of which no two different ones
  have the same hash, starting from an empty cache, the cached embedder answers every call as the specification that
  sends a text to the provider until it succeeds once and then remembers that answer, and it makes the same calls to
  the provider, whatever the provider answers and however its answers change over time.
\<close>

theorem embed_cache_refines:
  assumes "inj_on hashText (set ts)"
  shows "\<exists>rs w' cache' memo'. io_map (\<lambda>t. io_try (CachedEmbedder_Embed hashText inner t)) ts (w, []) = (Inr rs, (w', cache')) \<and>
    io_map (\<lambda>t. io_try (embed_once inner t)) ts (w, []) = (Inr rs, (w', memo')) \<and>
    (\<forall>t \<in> set ts. map_of cache' (hashText t) = map_of memo' t)"
proof -
  have "\<exists>rs w' cache' memo'. io_map (\<lambda>t. io_try (CachedEmbedder_Embed hashText inner t)) us (w, cache) = (Inr rs, (w', cache')) \<and>
      io_map (\<lambda>t. io_try (embed_once inner t)) us (w, memo) = (Inr rs, (w', memo')) \<and> cache_of hashText (set ts) cache' memo'"
    if "cache_of hashText (set ts) cache memo" "set us \<subseteq> set ts" for us cache memo
    using that
  proof (induction us arbitrary: w cache memo)
    case (Cons t us)
    from Cons.prems(2) have "t \<in> set ts" by simp
    from cached_step [OF assms this Cons.prems(1), of inner w] obtain cache1 memo1 w1 r where
      s: "CachedEmbedder_Embed hashText inner t (w, cache) = (r, (w1, cache1))" "embed_once inner t (w, memo) = (r, (w1, memo1))"
        "cache_of hashText (set ts) cache1 memo1" by blast
    from Cons.IH [OF s(3), of w1] Cons.prems(2) s(1,2) show ?case by (force simp: io_simps)
  qed (simp add: io_simps)
  from this [of "[]" "[]" ts] show ?thesis by (simp add: cache_of_def)
qed

lemma embed_cache_refines_witness:
  "\<exists>rs cache'. io_map (\<lambda>t. io_try (CachedEmbedder_Embed length (\<lambda>t n. (Inr [of_nat n], Suc n)) t)) [[97], [98, 99], [97]] (4 :: nat, []) =
     (Inr rs, (6, cache')) \<and> rs = [Inr [4], Inr [5], Inr [4]]"
proof -
  let ?inner = "\<lambda>t n. (Inr [of_nat n] :: rat list res, Suc n)" and ?ts = "[[97], [98, 99], [97]] :: gostr list"
  have "inj_on (length :: gostr \<Rightarrow> nat) (set ?ts)" by auto
  from embed_cache_refines [OF this, of ?inner 4] obtain rs w' cache' memo' where
    "io_map (\<lambda>t. io_try (CachedEmbedder_Embed length ?inner t)) ?ts (4, []) = (Inr rs, (w', cache'))"
    "io_map (\<lambda>t. io_try (embed_once ?inner t)) ?ts (4, []) = (Inr rs, (w', memo'))" by blast
  moreover have "io_map (\<lambda>t. io_try (embed_once ?inner t)) ?ts (4, []) =
      (Inr [Inr [4], Inr [5], Inr [4]], (6, [([98, 99], [5]), ([97], [4])]))"
    by (simp add: io_simps embed_once_def)
  ultimately show ?thesis by auto
qed

end
