(* ===== verification/Agent_Runner.thy ===== *)
theory Agent_Runner
  imports LLM Fences
begin

section \<open>The candidate agent\<close>

text \<open>
  \<open>internal/app/candidateagent/runner.go\<close>: the agent scans the open roles on a candidate's behalf and
  applies where the verified profile honestly fits, and the wake-up view that tells the candidate what
  it did. The lemmas show what an application of the agent rests on, that every one of them is in the
  audit trail, and that the agent touches nothing else. \<open>%q\<close> of \<open>fmt\<close> is a field of the runner.
\<close>

definition defaultScanLimit :: int where "defaultScanLimit = 20"
definition defaultMinFit :: f64 where "defaultMinFit = f64_of (6 / 10)"
definition insightWindow :: int where "insightWindow = 50"

record 'w AgentRunner =
  ag_candidates :: "'w CandidateRepository"
  ag_profiles :: "'w TalentProfileRepository"
  ag_roles :: "'w RoleRepository"
  ag_apps :: "'w ApplicationRepository"
  ag_llm :: "'w LLMClient"
  ag_minFit :: f64
  ag_audit :: "('w AuditRepository \<times> 'w Clock) option"
  ag_screenings :: "'w InterviewRepository option"
  ag_interest :: "'w MatchRepository option"
  ag_prompts :: registry
  ag_newID :: "'w IDSource"
  ag_quote :: "gostr \<Rightarrow> gostr"

record llmAssessment =
  as_fit_score :: f64
  as_apply :: bool
  as_tailored_summary :: gostr

definition zero_llmAssessment :: llmAssessment where
  "zero_llmAssessment = \<lparr>as_fit_score = Fin 0, as_apply = False, as_tailored_summary = []\<rparr>"

definition dec_llmAssessment :: "llmAssessment decoder" where
  "dec_llmAssessment = dec_struct
     [(lit ''fit_score'', \<lambda>v r. map_option (\<lambda>x. r\<lparr>as_fit_score := x\<rparr>) (dec_float v (as_fit_score r))),
      (lit ''apply'', \<lambda>v r. map_option (\<lambda>x. r\<lparr>as_apply := x\<rparr>) (dec_bool v (as_apply r))),
      (lit ''tailored_summary'', \<lambda>v r. map_option (\<lambda>x. r\<lparr>as_tailored_summary := x\<rparr>) (dec_string v (as_tailored_summary r)))]"

definition zero_view :: WakeUpView where
  "zero_view = \<lparr>NewMatches = 0, ApplicationsSubmitted = 0, ScreeningsCompleted = 0, EmployersInterested = 0, Highlights = []\<rparr>"

subsection \<open>What is read from a role and a profile\<close>

text \<open>The must-haves are gated on the profile, not by the requirements.\<close>

definition agent_requirementsFor :: "Role \<Rightarrow> Requirements" where
  "agent_requirementsFor rl = NewRequirements (Spec_Location (Role_Spec rl)) (High (Spec_SalaryBand (Role_Spec rl)))
     (Currency (Spec_SalaryBand (Role_Spec rl))) []"

definition profileCompetencyNames :: "TalentProfile \<Rightarrow> gostr list" where
  "profileCompetencyNames p = map PC_Name (TP_Competencies p)"

definition roleCompetencyNames :: "Role \<Rightarrow> gostr list" where
  "roleCompetencyNames rl = map Comp_Name (Competencies (Role_Rubric rl))"

definition profileCoversMustHaves :: "TalentProfile \<Rightarrow> Role \<Rightarrow> bool" where
  "profileCoversMustHaves profile rl \<longleftrightarrow>
     (let cand = map (\<lambda>c. \<lparr>CS_Name = PC_Name c, CS_Level = PC_Level c\<rparr>) (TP_Competencies profile);
          rubric = map (\<lambda>c. \<lparr>RS_Name = Comp_Name c, RS_Weight = Comp_Weight c, RS_MustHave = Comp_MustHave c\<rparr>)
            (Competencies (Role_Rubric rl))
      in CoversMustHaves rubric cand)"

definition eligible :: "Candidate \<Rightarrow> TalentProfile \<Rightarrow> Role \<Rightarrow> bool" where
  "eligible cand profile rl \<longleftrightarrow>
     (if ScreenLogistics (agent_requirementsFor rl) (Cand_ID cand) (Cand_Location cand) (SalaryFloor (Cand_Intake cand))
          (SalaryCurrency (Cand_Intake cand)) \<noteq> [] then False
      else if ViolatesDealBreaker (DealBreakers (Cand_Intake cand))
          (Spec_Title (Role_Spec rl) @ lit '' '' @ Spec_Availability (Role_Spec rl) @ lit '' '' @
           strings_Join (Spec_Responsibilities (Role_Spec rl)) (lit '' '')) then False
      else profileCoversMustHaves profile rl)"

definition profile_label :: gostr where "profile_label = lit ''VERIFIED_PROFILE''"

definition profile_line :: "ProfileCompetency \<Rightarrow> gostr" where
  "profile_line c = lit ''- '' @ Sanitize (PC_Name c) @ lit '' (level '' @ fmt_fixed 1 (PC_Level c) @ lit ''): '' @
     Sanitize (PC_EvidenceQuote c) @ [10]"

definition assessPrompt :: "Role \<Rightarrow> TalentProfile \<Rightarrow> gostr" where
  "assessPrompt rl profile = lit ''ROLE: '' @ Sanitize (Spec_Title (Role_Spec rl)) @ [10] @ lit ''RUBRIC:'' @ [10] @
     concat (map (\<lambda>c. lit ''- '' @ Sanitize (Comp_Name c) @ [10]) (Competencies (Role_Rubric rl))) @
     lit ''VERIFIED PROFILE COMPETENCIES:'' @ [10] @
     Fence profile_label (concat (map profile_line (TP_Competencies profile))) @ [10] @ lit ''Decide and draft.''"

subsection \<open>One role\<close>

definition assess :: "'w AgentRunner \<Rightarrow> Role \<Rightarrow> TalentProfile \<Rightarrow> ('w, llmAssessment) io" where
  "assess r rl profile =
     io_bind (io_lift (prompts_Get (ag_prompts r) IDAgentAssess)) (\<lambda>p.
     DecodeJSON dec_llmAssessment zero_llmAssessment (ag_llm r) (Prompt_Request p (assessPrompt rl profile))
       DefaultLLMAttempts ''agent: assessment'')"

definition submission_snapshot :: "ID \<Rightarrow> gostr" where
  "submission_snapshot roleID = json_Marshal (JObj [(''role_id'', JStr roleID), (''autonomous'', JBool True)])"

definition recordSubmission :: "'w AgentRunner \<Rightarrow> ID \<Rightarrow> ID \<Rightarrow> ID \<Rightarrow> ID \<Rightarrow> ('w, unit) io" where
  "recordSubmission r candidateID applicationID roleID ownerID = (case ag_audit r of None \<Rightarrow> io_ret ()
   | Some (aud, now) \<Rightarrow>
     io_bind (io_of now) (\<lambda>t.
     io_bind (io_of (ag_newID r)) (\<lambda>newid.
     case NewAuditEntry newid candidateID ActionAgentSubmit (lit ''application'') applicationID []
         (submission_snapshot roleID) t of
       Inl err \<Rightarrow> io_ret ()
     | Inr entry \<Rightarrow>
         io_bind (io_try (Audit_Append aud (entry\<lparr>OwnerID := ownerID\<rparr>))) (\<lambda>u. io_ret ()))))"

definition consider_role :: "'w AgentRunner \<Rightarrow> ID \<Rightarrow> TalentProfile \<Rightarrow> Role \<Rightarrow> ('w, bool \<times> gostr) io" where
  "consider_role r candidateID profile rl =
     io_bind (assess r rl profile) (\<lambda>a.
     if \<not> as_apply a \<or> flt (as_fit_score a) (ag_minFit r) then io_ret (False, [])
     else let grounding = CheckGrounding (as_tailored_summary a) (profileCompetencyNames profile) (roleCompetencyNames rl)
       in if \<not> Grounded grounding
          then io_ret (False, lit ''Skipped '' @ ag_quote r (Role_Title rl) @
            lit '': the drafted summary referenced unverified skills ('' @ strings_Join (Fabricated grounding) (lit '', '') @ lit '').'')
          else io_bind (io_of (ag_newID r)) (\<lambda>newid.
            case NewAgentApplication newid (Role_ID rl) candidateID (TP_ID profile) (as_tailored_summary a) of
              Inl err \<Rightarrow> if KindOf err = KindInvalid then io_ret (False, []) else io_fail err
            | Inr application \<Rightarrow>
                io_bind (io_lift (Submit application)) (\<lambda>application.
                io_bind (Apps_Create (ag_apps r) application) (\<lambda>u.
                io_bind (recordSubmission r candidateID (App_ID application) (Role_ID rl) (Role_EmployerID rl)) (\<lambda>u.
                io_ret (True, lit ''Applied to '' @ ag_quote r (Role_Title rl) @ lit '' on your behalf.''))))))"

subsection \<open>A run\<close>

text \<open>The loop over the open roles, on the view so far.\<close>

fun scan_loop :: "'w AgentRunner \<Rightarrow> ID \<Rightarrow> Candidate \<Rightarrow> TalentProfile \<Rightarrow> Role list \<Rightarrow> WakeUpView \<Rightarrow> ('w, WakeUpView) io" where
  "scan_loop r candidateID cand profile [] view = io_ret view"
| "scan_loop r candidateID cand profile (rl # rls) view =
     (if \<not> eligible cand profile rl then scan_loop r candidateID cand profile rls view
      else let view = view\<lparr>NewMatches := NewMatches view + 1\<rparr> in
        io_bind (consider_role r candidateID profile rl) (\<lambda>(applied, note_text).
        let view = (if applied then view\<lparr>ApplicationsSubmitted := ApplicationsSubmitted view + 1\<rparr> else view);
            view = (if note_text \<noteq> [] then view\<lparr>Highlights := Highlights view @ [note_text]\<rparr> else view)
        in scan_loop r candidateID cand profile rls view))"

definition scanRoles :: "'w AgentRunner \<Rightarrow> ID \<Rightarrow> Candidate \<Rightarrow> TalentProfile \<Rightarrow> Role list \<Rightarrow> ('w, WakeUpView) io" where
  "scanRoles r candidateID cand profile rls = scan_loop r candidateID cand profile rls zero_view"

text \<open>A reading that fails leaves its count at zero.\<close>

definition enrichInsights :: "'w AgentRunner \<Rightarrow> ID \<Rightarrow> WakeUpView \<Rightarrow> ('w, WakeUpView) io" where
  "enrichInsights r candidateID view =
     io_bind (case ag_screenings r of None \<Rightarrow> io_ret view
       | Some repo \<Rightarrow> io_bind (io_try (Interviews_ByCandidate repo candidateID (NewPage 1 insightWindow))) (\<lambda>x.
           io_ret (case x of Inl err \<Rightarrow> view
             | Inr (ivs, tot) \<Rightarrow> view\<lparr>ScreeningsCompleted := ScreeningsCompleted view +
                 int (length (filter (\<lambda>iv. Report iv \<noteq> None) ivs))\<rparr>))) (\<lambda>view.
     case ag_interest r of None \<Rightarrow> io_ret view
       | Some repo \<Rightarrow> io_bind (io_try (Matches_ForCandidate repo candidateID (NewPage 1 1))) (\<lambda>x.
           io_ret (case x of Inl err \<Rightarrow> view | Inr (ms, tot) \<Rightarrow> view\<lparr>EmployersInterested := tot\<rparr>)))"

definition wakeUpInputs :: "'w AgentRunner \<Rightarrow> ID \<Rightarrow> ('w, (Candidate \<times> TalentProfile) option) io" where
  "wakeUpInputs r candidateID =
     io_bind (Candidates_ByID (ag_candidates r) candidateID) (\<lambda>cand.
     io_bind (io_try (Profiles_ByCandidateID (ag_profiles r) candidateID)) (\<lambda>x. case x of
       Inl err \<Rightarrow> if KindOf err = KindNotFound then io_ret None else io_fail err
     | Inr profile \<Rightarrow> io_ret (Some (cand, profile))))"

definition Run :: "'w AgentRunner \<Rightarrow> ID \<Rightarrow> int \<Rightarrow> ('w, WakeUpView) io" where
  "Run r candidateID scanLimit =
     (let scanLimit = (if scanLimit \<le> 0 then defaultScanLimit else scanLimit) in
     io_bind (Candidates_ByID (ag_candidates r) candidateID) (\<lambda>cand.
     io_bind (io_try (Profiles_ByCandidateID (ag_profiles r) candidateID)) (\<lambda>x. case x of
       Inl err \<Rightarrow> if KindOf err = KindNotFound then io_ret zero_view else io_fail err
     | Inr profile \<Rightarrow>
         io_bind (Roles_ListOpen (ag_roles r) (NewPage 1 scanLimit)) (\<lambda>(rls, tot).
         io_bind (scanRoles r candidateID cand profile rls) (\<lambda>view.
         enrichInsights r candidateID view)))))"

definition countEligibleOpenRoles :: "'w AgentRunner \<Rightarrow> Candidate \<Rightarrow> TalentProfile \<Rightarrow> ('w, int) io" where
  "countEligibleOpenRoles r cand profile =
     io_bind (Roles_ListOpen (ag_roles r) (NewPage 1 defaultScanLimit)) (\<lambda>(rls, tot).
     io_ret (int (length (filter (eligible cand profile) rls))))"

definition countSubmittedAgentApplications :: "'w AgentRunner \<Rightarrow> ID \<Rightarrow> ('w, int) io" where
  "countSubmittedAgentApplications r candidateID =
     io_bind (io_try (Apps_ByCandidate (ag_apps r) candidateID (NewPage 1 defaultScanLimit))) (\<lambda>x.
     io_ret (case x of Inl err \<Rightarrow> 0
       | Inr (apps, tot) \<Rightarrow> int (length (filter (\<lambda>a. App_Source a = SourceAgent \<and> App_Status a = StatusSubmitted) apps))))"

definition WakeUpView_of :: "'w AgentRunner \<Rightarrow> ID \<Rightarrow> ('w, WakeUpView) io" where
  "WakeUpView_of r candidateID =
     io_bind (wakeUpInputs r candidateID) (\<lambda>x. case x of None \<Rightarrow> io_ret zero_view
     | Some (cand, profile) \<Rightarrow>
         io_bind (countEligibleOpenRoles r cand profile) (\<lambda>newMatches.
         io_bind (countSubmittedAgentApplications r candidateID) (\<lambda>submitted.
         enrichInsights r candidateID (zero_view\<lparr>NewMatches := newMatches, ApplicationsSubmitted := submitted\<rparr>))))"

subsection \<open>On the in-memory stack\<close>

definition memory_runner :: "(Role list \<Rightarrow> Role list) \<Rightarrow> ((Role \<Rightarrow> Role \<Rightarrow> bool) \<Rightarrow> Role list \<Rightarrow> Role list) \<Rightarrow>
    (Interview list \<Rightarrow> Interview list) \<Rightarrow> (Match list \<Rightarrow> Match list) \<Rightarrow> World LLMClient \<Rightarrow> registry \<Rightarrow>
    (gostr \<Rightarrow> gostr) \<Rightarrow> World AgentRunner" where
  "memory_runner itr srt iti itm llm reg q = \<lparr>ag_candidates = memory_candidates, ag_profiles = memory_profiles,
     ag_roles = memory_roles itr srt, ag_apps = memory_apps, ag_llm = llm, ag_minFit = defaultMinFit,
     ag_audit = Some (memory_audit, World_now), ag_screenings = Some (memory_interviews iti),
     ag_interest = Some (memory_matches itm), ag_prompts = reg, ag_newID = World_newID, ag_quote = q\<rparr>"

lemma memory_runner_sel [simp]:
  "ag_candidates (memory_runner itr srt iti itm llm reg q) = memory_candidates"
  "ag_profiles (memory_runner itr srt iti itm llm reg q) = memory_profiles"
  "ag_roles (memory_runner itr srt iti itm llm reg q) = memory_roles itr srt"
  "ag_apps (memory_runner itr srt iti itm llm reg q) = memory_apps"
  "ag_llm (memory_runner itr srt iti itm llm reg q) = llm"
  "ag_audit (memory_runner itr srt iti itm llm reg q) = Some (memory_audit, World_now)"
  "ag_screenings (memory_runner itr srt iti itm llm reg q) = Some (memory_interviews iti)"
  "ag_interest (memory_runner itr srt iti itm llm reg q) = Some (memory_matches itm)"
  "ag_newID (memory_runner itr srt iti itm llm reg q) = World_newID"
  "Matches_ForCandidate (memory_matches itm) i pg = at_matches (MatchRepo_ForCandidate itm i pg)"
  by (simp_all add: memory_runner_def memory_matches_def)

definition add_app :: "Application \<Rightarrow> ApplicationRepo \<Rightarrow> ApplicationRepo" where
  "add_app a r = r\<lparr>ar_byID := AList.update (App_ID a) a (ar_byID r), ar_order := ar_order r @ [App_ID a]\<rparr>"

text \<open>What an application of the agent rests on, and its entry in the audit trail.\<close>

definition honest :: "Candidate \<Rightarrow> TalentProfile \<Rightarrow> Role \<Rightarrow> ID \<Rightarrow> Application \<Rightarrow> bool" where
  "honest c p rl candidateID a \<longleftrightarrow> eligible c p rl \<and> application_inv a \<and> App_Source a = SourceAgent \<and>
     App_Status a = StatusSubmitted \<and> App_RoleID a = Role_ID rl \<and> App_CandidateID a = candidateID \<and> App_ProfileID a = TP_ID p \<and>
     Grounded (CheckGrounding (TailoredSummary a) (profileCompetencyNames p) (roleCompetencyNames rl))"

definition recorded_by :: "ID \<Rightarrow> Role \<Rightarrow> Application \<Rightarrow> AuditEntry \<Rightarrow> bool" where
  "recorded_by candidateID rl a e \<longleftrightarrow> ActorUserID e = candidateID \<and> Aud_Action e = ActionAgentSubmit \<and>
     EntityID e = App_ID a \<and> OwnerID e = Role_EmployerID rl \<and> AfterJSON e = submission_snapshot (Role_ID rl)"

definition agent_did :: "World \<Rightarrow> (Application \<times> AuditEntry) list \<Rightarrow> World \<Rightarrow> bool" where
  "agent_did w new w' \<longleftrightarrow> w_apps w' = fold add_app (map fst new) (w_apps w) \<and> w_audit w' = w_audit w @ map snd new \<and>
     stores w' = stores (w\<lparr>w_apps := w_apps w', w_audit := w_audit w'\<rparr>)"

lemma agent_did_Nil [simp]: "agent_did w [] w' \<longleftrightarrow> stores w' = stores w"
  by (auto simp: agent_did_def stores_eq_iff)

lemma agent_did_trans: "agent_did w xs u \<Longrightarrow> agent_did u ys v \<Longrightarrow> agent_did w (xs @ ys) v"
  by (simp add: agent_did_def stores_eq_iff)

lemma agent_did_parts: "agent_did w new w' \<Longrightarrow> w_roles w' = w_roles w \<and> w_candidates w' = w_candidates w \<and> w_profiles w' = w_profiles w"
  by (simp add: agent_did_def stores_eq_iff)

lemma assess_external: "outside_llm llm \<Longrightarrow> external (assess (memory_runner itr srt iti itm llm reg q) rl p)"
  unfolding assess_def memory_runner_sel external_def
  by (intro io_frameI io_keep keeps_external DecodeJSON_external)

lemma recordSubmission_memory:
  assumes "\<not> ID_IsZero candidateID"
  shows "\<exists>e v. recordSubmission (memory_runner itr srt iti itm llm reg q) candidateID i (Role_ID rl) (Role_EmployerID rl) w = (Inr (), v) \<and>
    w_audit v = w_audit w @ [e] \<and> stores v = stores (w\<lparr>w_audit := w_audit v\<rparr>) \<and>
    (\<forall>a. App_ID a = i \<longrightarrow> recorded_by candidateID rl a e)"
proof -
  obtain t w1 where t: "World_now w = (t, w1)" by fastforce
  obtain n w2 where n: "World_newID w1 = (n, w2)" by fastforce
  have s: "stores w2 = stores w" using stores_now [OF t] stores_newID [OF n] by simp
  have ok: "strings_TrimSpace ActionAgentSubmit \<noteq> []" "strings_TrimSpace (lit ''application'') \<noteq> []" by code_simp+
  obtain e where e: "NewAuditEntry n candidateID ActionAgentSubmit (lit ''application'') i [] (submission_snapshot (Role_ID rl)) t = Inr e"
    using assms ok by (simp add: NewAuditEntry_def del: lit_simps)
  note es = NewAuditEntry_simps [OF e]
  let ?e = "e\<lparr>OwnerID := Role_EmployerID rl\<rparr>"
  have "recordSubmission (memory_runner itr srt iti itm llm reg q) candidateID i (Role_ID rl) (Role_EmployerID rl) w =
      (Inr (), w2\<lparr>w_audit := w_audit w2 @ [?e]\<rparr>)"
    using t n e by (simp add: recordSubmission_def io_simps AuditRepo_Append_def del: lit_simps)
  then show ?thesis using s es
    by (intro exI [of _ ?e] exI [of _ "w2\<lparr>w_audit := w_audit w2 @ [?e]\<rparr>"]) (auto simp: recorded_by_def stores_eq_iff)
qed

lemma consider_effect:
  assumes "outside_llm llm" and el: "eligible c p rl"
    and run: "consider_role (memory_runner itr srt iti itm llm reg q) candidateID p rl w = (r, w')"
  shows "(stores w' = stores w \<and> (\<forall>n. r \<noteq> Inr (True, n))) \<or>
    (\<exists>a e n. r = Inr (True, n) \<and> agent_did w [(a, e)] w' \<and> honest c p rl candidateID a \<and> recorded_by candidateID rl a e)"
proof -
  let ?s = "memory_runner itr srt iti itm llm reg q"
  obtain d v where d: "assess ?s rl p w = (d, v)" by fastforce
  have v: "stores v = stores w" by (rule externalD [OF assess_external [OF assms(1)] d])
  show ?thesis
  proof (cases d)
    case (Inl e)
    then have "consider_role ?s candidateID p rl w = (Inl e, v)" using d by (simp add: consider_role_def io_simps)
    with run v show ?thesis by auto
  next
    case (Inr as)
    let ?g = "CheckGrounding (as_tailored_summary as) (profileCompetencyNames p) (roleCompetencyNames rl)"
    show ?thesis
    proof (cases "as_apply as \<and> \<not> flt (as_fit_score as) (ag_minFit ?s) \<and> Grounded ?g")
      case False
      then show ?thesis using run d v Inr by (auto simp: consider_role_def io_simps Let_def split: if_splits)
    next
      case go: True
      obtain n v1 where n: "World_newID v = (n, v1)" by fastforce
      have v1: "stores v1 = stores w" using stores_newID [OF n] v by simp
      show ?thesis
      proof (cases "NewAgentApplication n (Role_ID rl) candidateID (TP_ID p) (as_tailored_summary as)")
        case (Inl e)
        then show ?thesis using run d v1 Inr go n by (auto simp: consider_role_def io_simps Let_def split: if_splits)
      next
        case app: (Inr a)
        note a = NewAgentApplication_inv [OF app]
        let ?a = "a\<lparr>App_Status := StatusSubmitted\<rparr>"
        have sub: "Submit a = Inr ?a" using a by (simp add: Submit_def)
        have sum: "TailoredSummary a = as_tailored_summary as" using app by (auto simp: NewAgentApplication_def split: if_splits sum.splits)
        have inv: "application_inv ?a" using application_step_inv [OF step_submit [OF sub]] a by simp
        have cand: "\<not> ID_IsZero candidateID" using a by (auto simp: application_inv_def)
        show ?thesis
        proof (cases "map_of (ar_byID (w_apps v1)) (App_ID a)")
          case (Some old)
          then have "consider_role ?s candidateID p rl w = (Inl (Conflict ''memory: application already exists''), v1)"
            using d Inr go n app sub
            by (simp add: consider_role_def io_simps Let_def ApplicationRepo_Create_def memory_apps_def)
          then show ?thesis using run v1 by auto
        next
          case None
          let ?v = "v1\<lparr>w_apps := add_app ?a (w_apps v1)\<rparr>"
          obtain e v2 where e: "recordSubmission ?s candidateID (App_ID a) (Role_ID rl) (Role_EmployerID rl) ?v = (Inr (), v2)"
              "w_audit v2 = w_audit ?v @ [e]" "stores v2 = stores (?v\<lparr>w_audit := w_audit v2\<rparr>)"
              "\<forall>b. App_ID b = App_ID a \<longrightarrow> recorded_by candidateID rl b e"
            using recordSubmission_memory [OF cand] by blast
          have "consider_role ?s candidateID p rl w = (Inr (True, lit ''Applied to '' @ ag_quote ?s (Role_Title rl) @ lit '' on your behalf.''), v2)"
            using d Inr go n app sub None e(1)
            by (simp add: consider_role_def io_simps Let_def ApplicationRepo_Create_def memory_apps_def add_app_def del: lit_simps)
          moreover have "agent_did w [(?a, e)] v2" using e(2,3) v1 by (simp add: agent_did_def stores_eq_iff)
          moreover have "honest c p rl candidateID ?a" using inv a el go sum by (simp add: honest_def)
          moreover have "recorded_by candidateID rl ?a e" using e(4) by simp
          ultimately show ?thesis using run by auto
        qed
      qed
    qed
  qed
qed

lemma scan_loop_effect:
  assumes "outside_llm llm" and "scan_loop (memory_runner itr srt iti itm llm reg q) candidateID c p rls view w = (r, w')"
  shows "\<exists>new. agent_did w new w' \<and> (\<forall>(a, e) \<in> set new. \<exists>rl \<in> set rls. honest c p rl candidateID a \<and> recorded_by candidateID rl a e) \<and>
    (\<forall>view'. r = Inr view' \<longrightarrow> ApplicationsSubmitted view' = ApplicationsSubmitted view + int (length new))"
  using assms(2)
proof (induction rls arbitrary: view w)
  case Nil
  then show ?case by (intro exI [of _ "[]"]) (auto simp: io_simps)
next
  case (Cons rl rls)
  let ?s = "memory_runner itr srt iti itm llm reg q"
  show ?case
  proof (cases "eligible c p rl")
    case False
    with Cons.prems have "scan_loop ?s candidateID c p rls view w = (r, w')" by simp
    from Cons.IH [OF this] show ?thesis by fastforce
  next
    case True
    obtain d v where d: "consider_role ?s candidateID p rl w = (d, v)" by fastforce
    note eff = consider_effect [OF assms(1) True d]
    show ?thesis
    proof (cases d)
      case (Inl e)
      then have "r = Inl e" "w' = v" using Cons.prems True d by (auto simp: io_simps Let_def)
      then show ?thesis using eff Inl by (intro exI [of _ "[]"]) auto
    next
      case (Inr x)
      obtain applied note_text where x: "x = (applied, note_text)" by fastforce
      obtain view2 where l: "scan_loop ?s candidateID c p rls view2 v = (r, w')"
        and v2: "ApplicationsSubmitted view2 = ApplicationsSubmitted view + (if applied then 1 else 0)"
        using Cons.prems True d Inr x by (auto simp: io_simps Let_def split: if_splits)
      from Cons.IH [OF l] obtain new where new: "agent_did v new w'"
        "\<forall>(a, e) \<in> set new. \<exists>rl \<in> set rls. honest c p rl candidateID a \<and> recorded_by candidateID rl a e"
        "\<forall>view'. r = Inr view' \<longrightarrow> ApplicationsSubmitted view' = ApplicationsSubmitted view2 + int (length new)" by blast
      show ?thesis
      proof (cases applied)
        case False
        then have "agent_did w [] v" using eff Inr x by auto
        from agent_did_trans [OF this new(1)] have "agent_did w new w'" by simp
        moreover have "\<forall>(a, e) \<in> set new. \<exists>rl \<in> set (rl # rls). honest c p rl candidateID a \<and> recorded_by candidateID rl a e"
          using new(2) by fastforce
        ultimately show ?thesis using new(3) v2 False by (intro exI [of _ new]) simp
      next
        case True
        then obtain a e where a: "agent_did w [(a, e)] v" "honest c p rl candidateID a" "recorded_by candidateID rl a e"
          using eff Inr x by auto
        from agent_did_trans [OF a(1) new(1)] have "agent_did w ((a, e) # new) w'" by simp
        moreover have "\<forall>(a, e) \<in> set ((a, e) # new). \<exists>rl \<in> set (rl # rls). honest c p rl candidateID a \<and> recorded_by candidateID rl a e"
          using new(2) a by fastforce
        ultimately show ?thesis using new(3) v2 True by (intro exI [of _ "(a, e) # new"]) simp
      qed
    qed
  qed
qed

lemma enrich_memory:
  "\<exists>view'. enrichInsights (memory_runner itr srt iti itm llm reg q) candidateID view w = (Inr view', w) \<and>
    ApplicationsSubmitted view' = ApplicationsSubmitted view"
proof -
  let ?s = "memory_runner itr srt iti itm llm reg q"
  obtain x where x: "at_interviews (InterviewRepo_ByCandidate iti candidateID (NewPage 1 insightWindow)) w = (x, w)"
    using memory_lists_pure(4) [of iti candidateID "NewPage 1 insightWindow" w] by (metis prod.collapse)
  obtain y where y: "at_matches (MatchRepo_ForCandidate itm candidateID (NewPage 1 1)) w = (y, w)"
    by (simp add: io_simps MatchRepo_ForCandidate_def MatchRepo_filter_def Let_def)
  have "enrichInsights ?s candidateID view w =
      (Inr (let view = (case x of Inl err \<Rightarrow> view | Inr (ivs, tot) \<Rightarrow> view\<lparr>ScreeningsCompleted := ScreeningsCompleted view +
                 int (length (filter (\<lambda>iv. Report iv \<noteq> None) ivs))\<rparr>)
        in case y of Inl err \<Rightarrow> view | Inr (ms, tot) \<Rightarrow> view\<lparr>EmployersInterested := tot\<rparr>), w)"
    unfolding enrichInsights_def memory_runner_sel option.case memory_sel
    by (simp add: io_apply(1-6) x y Let_def)
  then show ?thesis by (auto simp: Let_def split: sum.splits)
qed

text \<open>Who is scanned: a candidate with a profile, and stored roles that are not closed.\<close>

lemma open_roles:
  assumes "\<forall>rs. set (itr rs) \<subseteq> set rs" and "\<forall>less rs. set (srt less rs) \<subseteq> set rs"
    and "at_roles (RoleRepo_ListOpen itr srt pg) w = (Inr (rls, tot), w')" and "rl \<in> set rls"
  shows "rl \<in> snd ` set (w_roles w) \<and> Role_Status rl \<noteq> RoleClosed"
proof -
  let ?all = "srt newer_role (filter (\<lambda>rl. Role_Status rl \<noteq> RoleClosed) (itr (map snd (w_roles w))))"
  have "page_slice ?all pg = Some rls"
    using assms(3) by (auto simp: io_simps RoleRepo_ListOpen_def Let_def page_result_def split: option.splits)
  then have "rl \<in> set ?all" using assms(4) by (auto simp: page_slice_def go_slice_def Let_def split: if_splits dest: in_set_takeD in_set_dropD)
  then have "rl \<in> set (filter (\<lambda>rl. Role_Status rl \<noteq> RoleClosed) (itr (map snd (w_roles w))))" using assms(2) by blast
  then show ?thesis using assms(1) by force
qed

text \<open>
  C27: The candidate agent acts honestly and on the record. Whatever the model answers, a run changes
  nothing but the applications and the audit trail. Every application it adds is a submitted agent
  application of that candidate, resting on the candidate's stored profile, for a stored role that is
  not closed, whose logistics, deal-breakers and must-haves the candidate meets, with a summary that
  claims no skill of the role the profile does not show; each has its own audit entry, owned by the
  employer of the role; and the view of a successful run counts exactly these applications.
\<close>

theorem agent_honest:
  assumes "outside_llm llm" and "ks_inv TP_ID TP_CandidateID (w_profiles w)"
    and "\<forall>rs. set (itr rs) \<subseteq> set rs" and "\<forall>less rs. set (srt less rs) \<subseteq> set rs"
    and "Run (memory_runner itr srt iti itm llm reg q) candidateID scanLimit w = (r, w')"
  shows "\<exists>new. agent_did w new w' \<and> (\<forall>view. r = Inr view \<longrightarrow> ApplicationsSubmitted view = int (length new)) \<and>
    (\<forall>(a, e) \<in> set new. \<exists>c p rl. map_of (ks_byID (w_candidates w)) candidateID = Some c \<and>
       map_of (ks_byID (w_profiles w)) (TP_ID p) = Some p \<and> TP_CandidateID p = candidateID \<and>
       rl \<in> snd ` set (w_roles w) \<and> Role_Status rl \<noteq> RoleClosed \<and>
       honest c p rl candidateID a \<and> recorded_by candidateID rl a e)"
proof -
  let ?s = "memory_runner itr srt iti itm llm reg q" and ?pg = "NewPage 1 (if scanLimit \<le> 0 then defaultScanLimit else scanLimit)"
  have none: ?thesis if "stores w' = stores w" "\<forall>view. r = Inr view \<longrightarrow> ApplicationsSubmitted view = 0"
    using that by (intro exI [of _ "[]"]) simp
  obtain x where x: "at_profiles (TalentProfileRepo_ByCandidateID candidateID) w = (x, w)"
    using memory_reads_pure(6) [of candidateID w] by (metis prod.collapse)
  obtain y where y: "at_roles (RoleRepo_ListOpen itr srt ?pg) w = (y, w)"
    using memory_lists_pure(1) [of itr srt ?pg w] by (metis prod.collapse)
  show ?thesis
  proof (cases "map_of (ks_byID (w_candidates w)) candidateID")
    case None
    then show ?thesis using assms(5)
      by (intro none) (auto simp: Run_def Let_def io_simps CandidateRepo_ByID_def ks_get_def)
  next
    case (Some c)
    then have c: "at_candidates (CandidateRepo_ByID candidateID) w = (Inr c, w)" by (simp add: memory_reads)
    show ?thesis
    proof (cases "\<exists>p rls tot. x = Inr p \<and> y = Inr (rls, tot)")
      case False
      have "Run ?s candidateID scanLimit w = (case x of Inl err \<Rightarrow> if KindOf err = KindNotFound then (Inr zero_view, w) else (Inl err, w)
          | Inr p \<Rightarrow> (case y of Inl err \<Rightarrow> (Inl err, w) | Inr z \<Rightarrow> (r, w')))"
        using False x y c by (auto simp: Run_def Let_def io_apply(1-6) split: sum.splits)
      then show ?thesis using assms(5) False
        by (intro none) (auto simp: zero_view_def split: sum.splits if_splits)
    next
      case True
      then obtain p rls tot where p: "x = Inr p" and rls: "y = Inr (rls, tot)" by blast
      obtain d v where d: "scanRoles ?s candidateID c p rls w = (d, v)" by fastforce
      from scan_loop_effect [OF assms(1) d [unfolded scanRoles_def]] obtain new where new: "agent_did w new v"
        "\<forall>(a, e) \<in> set new. \<exists>rl \<in> set rls. honest c p rl candidateID a \<and> recorded_by candidateID rl a e"
        "\<forall>view. d = Inr view \<longrightarrow> ApplicationsSubmitted view = int (length new)" by (auto simp: zero_view_def)
      have "w' = v \<and> (\<forall>view. r = Inr view \<longrightarrow> ApplicationsSubmitted view = int (length new))"
      proof (cases d)
        case (Inl e)
        then have "Run ?s candidateID scanLimit w = (Inl e, v)" using c x y p rls d by (simp add: Run_def Let_def io_apply(1-6))
        with assms(5) show ?thesis by auto
      next
        case (Inr view)
        from enrich_memory [of itr srt iti itm llm reg q candidateID view v] obtain view' where
          e: "enrichInsights ?s candidateID view v = (Inr view', v)" "ApplicationsSubmitted view' = ApplicationsSubmitted view" by blast
        have "Run ?s candidateID scanLimit w = (Inr view', v)" using c x y p rls d Inr e(1) by (simp add: Run_def Let_def io_apply(1-6))
        with assms(5) new(3) Inr e(2) show ?thesis by auto
      qed
      moreover from profile_of [OF assms(2)] x p have
        "TP_CandidateID p = candidateID" "map_of (ks_byID (w_profiles w)) (TP_ID p) = Some p" by blast+
      moreover from open_roles [OF assms(3,4)] y rls have
        "rl \<in> snd ` set (w_roles w) \<and> Role_Status rl \<noteq> RoleClosed" if "rl \<in> set rls" for rl using that by blast
      ultimately show ?thesis using new(1,2) Some by (intro exI [of _ new]) fastforce
    qed
  qed
qed

definition sample_drafter :: "World LLMClient" where
  "sample_drafter = replying (\<lambda>r. json_Marshal (JObj
     [(''fit_score'', JInt 1), (''apply'', JBool True), (''tailored_summary'', JStr (lit ''I wrote SQL reports''))]))"

lemma agent_honest_witness:
  "\<exists>view w' a e. Run (memory_runner id (\<lambda>less xs. xs) id id sample_drafter sample_registry id) [67] 0 sample_pool = (Inr view, w') \<and>
     agent_did sample_pool [(a, e)] w' \<and> App_CandidateID a = [67] \<and> OwnerID e = [69]"
proof -
  let ?run = "Run (memory_runner id (\<lambda>less xs. xs) id id sample_drafter sample_registry id) [67] 0 sample_pool"
  have "case fst ?run of Inl e \<Rightarrow> False | Inr view \<Rightarrow> ApplicationsSubmitted view = 1" by code_simp
  from run_ok [OF this] obtain view w' where r: "?run = (Inr view, w')" "ApplicationsSubmitted view = 1" by blast
  have "outside_llm sample_drafter" by (simp add: sample_drafter_def replying_outside)
  moreover have "\<forall>rs. set (id rs :: Role list) \<subseteq> set rs" "\<forall>(less :: Role \<Rightarrow> Role \<Rightarrow> bool) rs. set rs \<subseteq> set rs" by simp_all
  ultimately obtain new where new: "agent_did sample_pool new w'" "int (length new) = 1"
    "\<forall>(a, e) \<in> set new. \<exists>c p rl. rl \<in> snd ` set (w_roles sample_pool) \<and> honest c p rl [67] a \<and> recorded_by [67] rl a e"
    using agent_honest [OF _ sample_pool_inv(1) _ _ r(1)] r(2) by fastforce
  from new(2) obtain a e where "new = [(a, e)]" by (cases new) auto
  with new r(1) show ?thesis by (auto simp: honest_def recorded_by_def sample_pool_def sample_role_def)
qed

subsection \<open>What the model is shown\<close>

interpretation profile: fence_label profile_label
  by unfold_locales (simp_all add: profile_label_def)

lemma unfenced_profile_line: "profile.unfenced (profile_line c @ s) \<longleftrightarrow> profile.unfenced s"
proof -
  let ?u = "lit ''level '' @ fmt_fixed 1 (PC_Level c)"
  have "91 \<notin> set ?u" using not_in_ranges [OF fmt_fixed_set] by simp
  from profile.unfenced_item [OF this, of "PC_Name c" "lit '': '' @ Sanitize (PC_EvidenceQuote c) @ 10 # s"]
  show ?thesis by (simp add: profile_line_def profile.unfenced_Cons profile.unfenced_field)
qed

lemma assessPrompt_fence:
  "(\<exists>a b. assessPrompt rl p = a @ endFence profile_label @ b) \<and>
   (\<forall>a b. assessPrompt rl p = a @ endFence profile_label @ b \<longrightarrow> b = 10 # lit ''Decide and draft.'')"
proof -
  let ?head = "lit ''ROLE: '' @ Sanitize (Spec_Title (Role_Spec rl)) @ [10] @ lit ''RUBRIC:'' @ [10] @
     concat (map (\<lambda>c. lit ''- '' @ Sanitize (Comp_Name c) @ [10]) (Competencies (Role_Rubric rl))) @
     lit ''VERIFIED PROFILE COMPETENCIES:''" and ?tail = "10 # lit ''Decide and draft.''"
  have w: "profile.unfenced (concat (map (\<lambda>c. lit ''- '' @ Sanitize (Comp_Name c) @ [10]) cs) @ s) \<longleftrightarrow> profile.unfenced s" for cs s
    by (induction cs) (simp_all add: profile.unfenced_Cons profile.unfenced_sep)
  have e: "profile.unfenced (concat (map profile_line cs))" for cs
    by (induction cs) (simp_all add: unfenced_profile_line)
  have "profile.unfenced ?head" by (simp add: w [simplified] profile.unfenced_Cons profile.unfenced_sep)
  moreover have "profile.unfenced ?tail" by (rule profile.unfenced_own) simp
  moreover have "assessPrompt rl p = ?head @ 10 # Fence profile_label (concat (map profile_line (TP_Competencies p))) @ ?tail"
    by (simp add: assessPrompt_def)
  ultimately show ?thesis using profile.fenced_once [OF _ e, of ?head ?tail] by simp
qed

end
