(* ===== verification/AI_Calls.thy ===== *)
theory AI_Calls
  imports LLM Guard Go_Sort
begin

section \<open>Records of model calls: spend and quality\<close>

text \<open>
  \<open>internal/app\<close>: the redacted record of a model call (\<open>aiaudit.go\<close>), the spend tracker with its budget
  and its alerts (\<open>cost.go\<close>) and the summary of a window of records (\<open>aiquality.go\<close>). The lemmas show
  that a spent budget stays spent, that every threshold alerts at most once, and that the summary is a
  function of the multiset of the records. The map of the fired thresholds is the list of its keys; the
  alert callback is the list of the alerts it received.
\<close>

record AICallRecord =
  Operation :: gostr
  Rec_PromptID :: gostr
  Rec_PromptVersion :: gostr
  Rec_Model :: gostr
  Latency :: duration
  PromptChars :: int
  ResponseChars :: int
  Failed :: bool
  JSONFailure :: bool
  Refusal :: bool
  GuardrailTrips :: "string list"
  Rec_At :: time

subsection \<open>The price of a call\<close>

definition charsPerToken :: f64 where "charsPerToken = Fin 4"

record ModelPricing =
  InputPerMillionUSD :: f64
  OutputPerMillionUSD :: f64

definition pricingFor :: "gostr \<Rightarrow> ModelPricing" where
  "pricingFor model =
     (if model = [] \<or> model = lit ''dev'' then \<lparr>InputPerMillionUSD = Fin 0, OutputPerMillionUSD = Fin 0\<rparr>
      else if strings_HasPrefix model (lit ''text-embedding-3-large'')
        then \<lparr>InputPerMillionUSD = f64_of (13 / 100), OutputPerMillionUSD = Fin 0\<rparr>
      else if strings_HasPrefix model (lit ''text-embedding'')
        then \<lparr>InputPerMillionUSD = f64_of (2 / 100), OutputPerMillionUSD = Fin 0\<rparr>
      else if strings_HasPrefix model (lit ''claude-fable'') \<or> strings_HasPrefix model (lit ''claude-mythos'')
        then \<lparr>InputPerMillionUSD = Fin 10, OutputPerMillionUSD = Fin 50\<rparr>
      else if strings_HasPrefix model (lit ''claude-opus'') then \<lparr>InputPerMillionUSD = Fin 5, OutputPerMillionUSD = Fin 25\<rparr>
      else if strings_HasPrefix model (lit ''claude-sonnet'') then \<lparr>InputPerMillionUSD = Fin 3, OutputPerMillionUSD = Fin 15\<rparr>
      else if strings_HasPrefix model (lit ''claude-haiku'') then \<lparr>InputPerMillionUSD = Fin 1, OutputPerMillionUSD = Fin 5\<rparr>
      else \<lparr>InputPerMillionUSD = Fin 5, OutputPerMillionUSD = Fin 25\<rparr>)"

definition EstimateCallCostUSD :: "AICallRecord \<Rightarrow> f64" where
  "EstimateCallCostUSD rec =
     (let p = pricingFor (Rec_Model rec);
          inputTokens = fdiv (f64_of (of_int (PromptChars rec))) charsPerToken;
          outputTokens = fdiv (f64_of (of_int (ResponseChars rec))) charsPerToken
      in fadd (fmul (fdiv inputTokens (Fin 1000000)) (InputPerMillionUSD p))
              (fmul (fdiv outputTokens (Fin 1000000)) (OutputPerMillionUSD p)))"

subsection \<open>The spend tracker\<close>

record CostAlert =
  Alert_SpentUSD :: f64
  Alert_BudgetUSD :: f64
  Fraction :: f64
  Exceeded :: bool

record CostTracker =
  budgetUSD :: f64
  spentUSD :: f64
  thresholds :: "f64 list"
  fired :: "f64 list"
  alerts :: "CostAlert list"

definition NewCostTracker :: "f64 \<Rightarrow> f64 list \<Rightarrow> CostTracker" where
  "NewCostTracker budget ths =
     \<lparr>budgetUSD = budget, spentUSD = Fin 0,
      thresholds = stable_sort flt (if ths = [] then [Fin (1 / 2), f64_of (8 / 10), Fin 1] else ths),
      fired = [], alerts = []\<rparr>"

fun fire :: "f64 \<Rightarrow> f64 \<Rightarrow> f64 list \<Rightarrow> CostTracker \<Rightarrow> CostTracker" where
  "fire now_spent fraction [] c = c"
| "fire now_spent fraction (t # ts) c = fire now_spent fraction ts
     (if fle t fraction \<and> t \<notin> set (fired c)
      then c\<lparr>fired := fired c @ [t], alerts := alerts c @ [\<lparr>Alert_SpentUSD = now_spent, Alert_BudgetUSD = budgetUSD c,
        Fraction = fraction, Exceeded = fle (Fin 1) fraction\<rparr>]\<rparr>
      else c)"

definition CostTracker_Record :: "AICallRecord \<Rightarrow> CostTracker \<Rightarrow> CostTracker" where
  "CostTracker_Record rec c =
     (let cost = EstimateCallCostUSD rec
      in if fle cost (Fin 0) then c
         else let c = c\<lparr>spentUSD := fadd (spentUSD c) cost\<rparr>
           in if flt (Fin 0) (budgetUSD c)
              then fire (spentUSD c) (fdiv (spentUSD c) (budgetUSD c)) (thresholds c) c else c)"

definition WithinBudget :: "CostTracker \<Rightarrow> bool" where
  "WithinBudget c \<longleftrightarrow> (if fle (budgetUSD c) (Fin 0) then True else flt (spentUSD c) (budgetUSD c))"

subsection \<open>The quality of a window\<close>

record OperationStats =
  Op_Calls :: int
  Op_Failed :: int
  Op_FailureRate :: f64
  Op_JSONFailures :: int
  Op_JSONFailureRate :: f64
  Op_Refusals :: int
  Op_RefusalRate :: f64
  Op_GuardrailTrips :: int
  Op_TripsByCategory :: "(string \<times> int) list"
  Op_P95Latency :: duration

record AIQualityStats =
  TotalCalls :: int
  FailedCalls :: int
  FailureRate :: f64
  JSONFailures :: int
  JSONFailureRate :: f64
  Refusals :: int
  RefusalRate :: f64
  Stats_GuardrailTrips :: int
  TripsByCategory :: "(string \<times> int) list"
  P50Latency :: duration
  P95Latency :: duration
  InputChars :: int
  OutputChars :: int
  ByOperation :: "(gostr \<times> OperationStats) list"

definition ratio :: "int \<Rightarrow> int \<Rightarrow> f64" where
  "ratio n whole = (if whole = 0 then Fin 0 else fdiv (f64_of (of_int n)) (f64_of (of_int whole)))"

definition int_ceil :: "f64 \<Rightarrow> int" where
  "int_ceil x = (case x of Fin q \<Rightarrow> \<lceil>q\<rceil> | _ \<Rightarrow> - (2 ^ 63))"

definition percentile :: "duration list \<Rightarrow> f64 \<Rightarrow> duration" where
  "percentile durations p =
     (let n = int (length durations)
      in if n = 0 then 0
         else let sorted_durations = sort durations;
                  rank = int_ceil (fmul p (f64_of (of_int n))) - 1;
                  rank = min (max rank 0) (n - 1)
           in sorted_durations ! nat rank)"

text \<open>A map from strings to counters: reading a missing key is zero.\<close>

definition count_of :: "('k \<times> int) list \<Rightarrow> 'k \<Rightarrow> int" where
  "count_of m k = (case map_of m k of None \<Rightarrow> 0 | Some n \<Rightarrow> n)"

definition bump :: "'k \<Rightarrow> int \<Rightarrow> ('k \<times> int) list \<Rightarrow> ('k \<times> int) list" where
  "bump k n m = AList.update k (count_of m k + n) m"

text \<open>The accumulators of the loop: the summary so far, all latencies and the maps per operation.\<close>

record accumulated =
  acc_stats :: AIQualityStats
  acc_latencies :: "duration list"
  perOp :: "(gostr \<times> duration list) list"
  perOpFailed :: "(gostr \<times> int) list"
  perOpJSONFailures :: "(gostr \<times> int) list"
  perOpRefusals :: "(gostr \<times> int) list"
  perOpGuardrailTrips :: "(gostr \<times> int) list"
  perOpCategories :: "(gostr \<times> (string \<times> int) list) list"

definition zero_stats :: AIQualityStats where
  "zero_stats = \<lparr>TotalCalls = 0, FailedCalls = 0, FailureRate = Fin 0, JSONFailures = 0, JSONFailureRate = Fin 0,
     Refusals = 0, RefusalRate = Fin 0, Stats_GuardrailTrips = 0, TripsByCategory = [], P50Latency = 0, P95Latency = 0,
     InputChars = 0, OutputChars = 0, ByOperation = []\<rparr>"

definition zero_acc :: accumulated where
  "zero_acc = \<lparr>acc_stats = zero_stats, acc_latencies = [], perOp = [], perOpFailed = [], perOpJSONFailures = [],
     perOpRefusals = [], perOpGuardrailTrips = [], perOpCategories = []\<rparr>"

definition map_get :: "('k \<times> 'v list) list \<Rightarrow> 'k \<Rightarrow> 'v list" where
  "map_get m k = (case map_of m k of None \<Rightarrow> [] | Some xs \<Rightarrow> xs)"

definition accumulateRecord :: "AICallRecord \<Rightarrow> accumulated \<Rightarrow> accumulated" where
  "accumulateRecord rec a =
     (let op = Operation rec; s = acc_stats a;
          s = s\<lparr>TotalCalls := TotalCalls s + 1, InputChars := InputChars s + PromptChars rec,
                OutputChars := OutputChars s + ResponseChars rec\<rparr>;
          a = a\<lparr>acc_latencies := acc_latencies a @ [Latency rec],
                perOp := AList.update op (map_get (perOp a) op @ [Latency rec]) (perOp a)\<rparr>;
          s = (if Failed rec then s\<lparr>FailedCalls := FailedCalls s + 1\<rparr> else s);
          a = (if Failed rec then a\<lparr>perOpFailed := bump op 1 (perOpFailed a)\<rparr> else a);
          s = (if JSONFailure rec then s\<lparr>JSONFailures := JSONFailures s + 1\<rparr> else s);
          a = (if JSONFailure rec then a\<lparr>perOpJSONFailures := bump op 1 (perOpJSONFailures a)\<rparr> else a);
          s = (if Refusal rec then s\<lparr>Refusals := Refusals s + 1\<rparr> else s);
          a = (if Refusal rec then a\<lparr>perOpRefusals := bump op 1 (perOpRefusals a)\<rparr> else a);
          trips = GuardrailTrips rec; n = int (length trips);
          s = (if trips \<noteq> [] then s\<lparr>Stats_GuardrailTrips := Stats_GuardrailTrips s + n,
                TripsByCategory := fold (\<lambda>cat. bump cat 1) trips (TripsByCategory s)\<rparr> else s);
          a = (if trips \<noteq> [] then a\<lparr>perOpGuardrailTrips := bump op n (perOpGuardrailTrips a),
                perOpCategories := AList.update op (fold (\<lambda>cat. bump cat 1) trips (map_get (perOpCategories a) op)) (perOpCategories a)\<rparr>
               else a)
      in a\<lparr>acc_stats := s\<rparr>)"

definition buildOperationStats :: "accumulated \<Rightarrow> gostr \<Rightarrow> duration list \<Rightarrow> OperationStats" where
  "buildOperationStats a op lat =
     (let calls = int (length lat)
      in \<lparr>Op_Calls = calls, Op_Failed = count_of (perOpFailed a) op, Op_FailureRate = ratio (count_of (perOpFailed a) op) calls,
          Op_JSONFailures = count_of (perOpJSONFailures a) op, Op_JSONFailureRate = ratio (count_of (perOpJSONFailures a) op) calls,
          Op_Refusals = count_of (perOpRefusals a) op, Op_RefusalRate = ratio (count_of (perOpRefusals a) op) calls,
          Op_GuardrailTrips = count_of (perOpGuardrailTrips a) op, Op_TripsByCategory = map_get (perOpCategories a) op,
          Op_P95Latency = percentile lat (f64_of (95 / 100))\<rparr>)"

definition SummarizeAIQuality :: "AICallRecord list \<Rightarrow> AIQualityStats" where
  "SummarizeAIQuality records =
     (if records = [] then zero_stats
      else let a = fold accumulateRecord records zero_acc; s = acc_stats a
        in s\<lparr>FailureRate := ratio (FailedCalls s) (TotalCalls s),
             JSONFailureRate := ratio (JSONFailures s) (TotalCalls s),
             RefusalRate := ratio (Refusals s) (TotalCalls s),
             P50Latency := percentile (acc_latencies a) (Fin (1 / 2)),
             P95Latency := percentile (acc_latencies a) (f64_of (95 / 100)),
             ByOperation := map (\<lambda>(op, lat). (op, buildOperationStats a op lat)) (perOp a)\<rparr>)"

definition refusal_phrases :: "string list" where
  "refusal_phrases = [''i'' @ [CHR 0x27] @ ''m sorry'', ''i am sorry'', ''i cannot'', ''i can'' @ [CHR 0x27] @ ''t'', ''i am not able'',
     ''i'' @ [CHR 0x27] @ ''m not able'', ''i will not'', ''i won'' @ [CHR 0x27] @ ''t'', ''i cannot assist'', ''i can'' @ [CHR 0x27] @ ''t assist'',
     ''i am unable to'', ''i'' @ [CHR 0x27] @ ''m unable to'', ''i refuse'', ''i do not'', ''i don'' @ [CHR 0x27] @ ''t'']"

definition LooksLikeRefusal :: "gostr \<Rightarrow> bool" where
  "LooksLikeRefusal text \<longleftrightarrow> list_ex (\<lambda>phrase. strings_Contains (strings_ToLower text) (lit phrase)) refusal_phrases"

text \<open>Decoding into \<open>any\<close> fails on a number that overflows \<open>float64\<close>.\<close>

fun dec_any_ok :: "jval \<Rightarrow> bool" where
  "dec_any_ok (VNum n) \<longleftrightarrow> (case f64_of (number_value n) of Fin q \<Rightarrow> True | _ \<Rightarrow> False)"
| "dec_any_ok (VArr vs) \<longleftrightarrow> list_all dec_any_ok vs"
| "dec_any_ok (VObj kvs) \<longleftrightarrow> list_all (\<lambda>(k, v). dec_any_ok v) kvs"
| "dec_any_ok v \<longleftrightarrow> True"

definition IsValidJSON :: "gostr \<Rightarrow> bool" where
  "IsValidJSON s \<longleftrightarrow> (case json_parse s of None \<Rightarrow> False | Some v \<Rightarrow> dec_any_ok v)"

subsection \<open>Spending is monotone\<close>

lemma f64_of_mono: "p \<le> q \<Longrightarrow> fle (f64_of p) (f64_of q)"
proof -
  assume "p \<le> q"
  then have "fl p \<le> fl q" by (rule fl_mono)
  moreover have "0 \<le> q \<Longrightarrow> 0 \<le> fl q" "q \<le> 0 \<Longrightarrow> fl q \<le> 0" "0 \<le> p \<Longrightarrow> 0 \<le> fl p" "p \<le> 0 \<Longrightarrow> fl p \<le> 0"
    using fl_mono [of 0 q] fl_mono [of q 0] fl_mono [of 0 p] fl_mono [of p 0] by simp_all
  ultimately show ?thesis by (auto simp: f64_of_def Let_def huge_iff fle_def abs_le_iff abs_if split: if_splits)
qed

lemma fle_trans: "fle a b \<Longrightarrow> fle b c \<Longrightarrow> fle a c"
  by (cases a; cases b; cases c) (auto simp: fle_def)

text \<open>Sizes as they occur: non-negative and exactly representable.\<close>

definition sized :: "AICallRecord \<Rightarrow> bool" where
  "sized rec \<longleftrightarrow> 0 \<le> PromptChars rec \<and> PromptChars rec \<le> 2 ^ 53 \<and> 0 \<le> ResponseChars rec \<and> ResponseChars rec \<le> 2 ^ 53"

lemma f64_of_small: "0 \<le> q \<Longrightarrow> q \<le> of_int n \<Longrightarrow> n \<le> 2 ^ 53 \<Longrightarrow> \<exists>r. f64_of q = Fin r \<and> 0 \<le> r \<and> r \<le> of_int n"
proof -
  assume a: "0 \<le> q" "q \<le> of_int n" "n \<le> 2 ^ 53"
  then have "0 \<le> n" by (metis le_less_trans not_le of_int_less_0_iff order_trans)
  with a show ?thesis using f64_of_between [of 0 q n] fl_bounds_int [of 0 q n] by simp
qed

lemma price_small: "\<exists>p q. InputPerMillionUSD (pricingFor m) = Fin p \<and> 0 \<le> p \<and> p \<le> 10 \<and>
    OutputPerMillionUSD (pricingFor m) = Fin q \<and> 0 \<le> q \<and> q \<le> 50"
proof -
  obtain a where "f64_of (13 / 100) = Fin a" "0 \<le> a" "a \<le> 1" using f64_of_small [of "13 / 100" 1] by auto
  moreover obtain b where "f64_of (2 / 100) = Fin b" "0 \<le> b" "b \<le> 1" using f64_of_small [of "2 / 100" 1] by auto
  ultimately show ?thesis by (auto simp: pricingFor_def)
qed

lemma tokens_small:
  assumes "0 \<le> n" and "n \<le> 2 ^ 53" and "0 \<le> p" and "p \<le> 50"
  shows "\<exists>r. fmul (fdiv (fdiv (f64_of (of_int n)) charsPerToken) (Fin 1000000)) (Fin p) = Fin r \<and> 0 \<le> r \<and> r \<le> 2 ^ 52"
proof -
  have n: "f64_of (of_int n) = Fin (of_int n)" using f64_of_int [of n] assms by simp
  have "(of_int n :: rat) \<le> of_int (2 ^ 53)" using assms(2) by (simp only: of_int_le_iff)
  then have n4: "of_int n / (4 :: rat) \<le> of_int (2 ^ 51)" by simp
  obtain a where a: "f64_of (of_int n / 4) = Fin a" "0 \<le> a" "a \<le> of_int (2 ^ 51)"
    using f64_of_small [OF _ n4] assms(1) by auto
  have "a / 1000000 \<le> of_int (2 ^ 32)" using a(3) by simp
  then obtain b where b: "f64_of (a / 1000000) = Fin b" "0 \<le> b" "b \<le> of_int (2 ^ 32)"
    using f64_of_small [of "a / 1000000" "2 ^ 32"] a(2) by auto
  have "b * p \<le> of_int (2 ^ 32) * 50" using b(2,3) assms(3,4) by (intro mult_mono) auto
  then have "b * p \<le> of_int (2 ^ 52)" by simp
  then obtain c where "f64_of (b * p) = Fin c" "0 \<le> c" "c \<le> of_int (2 ^ 52)"
    using f64_of_small [of "b * p" "2 ^ 52"] b(2) assms(3) by auto
  then show ?thesis using n a(1) b(1) by (simp add: charsPerToken_def)
qed

lemma cost_finite: "sized rec \<Longrightarrow> \<exists>r. EstimateCallCostUSD rec = Fin r \<and> 0 \<le> r"
proof -
  assume s: "sized rec"
  obtain p q where p: "InputPerMillionUSD (pricingFor (Rec_Model rec)) = Fin p" "0 \<le> p" "p \<le> 10"
    "OutputPerMillionUSD (pricingFor (Rec_Model rec)) = Fin q" "0 \<le> q" "q \<le> 50" using price_small by blast
  obtain a where a: "fmul (fdiv (fdiv (f64_of (of_int (PromptChars rec))) charsPerToken) (Fin 1000000)) (Fin p) = Fin a"
    "0 \<le> a" "a \<le> 2 ^ 52" using tokens_small [of "PromptChars rec" p] s p by (auto simp: sized_def)
  obtain b where b: "fmul (fdiv (fdiv (f64_of (of_int (ResponseChars rec))) charsPerToken) (Fin 1000000)) (Fin q) = Fin b"
    "0 \<le> b" "b \<le> 2 ^ 52" using tokens_small [of "ResponseChars rec" q] s p by (auto simp: sized_def)
  have "a + b \<le> of_int (2 ^ 53)" using a(3) b(3) by simp
  then obtain c where "f64_of (a + b) = Fin c" "0 \<le> c" using f64_of_small [of "a + b" "2 ^ 53"] a(2) b(2) by auto
  then show ?thesis using p a(1) b(1) by (simp add: EstimateCallCostUSD_def Let_def)
qed

lemma fle_fadd:
  assumes "fle (Fin 0) x" and "is_f64 x" and "0 \<le> r"
  shows "fle x (fadd x (Fin r))"
proof (cases x)
  case (Fin a)
  then have "f64_of a = Fin a" using assms(2) by (simp add: f64_of_def)
  then show ?thesis using f64_of_mono [of a "a + r"] assms(3) Fin by simp
qed (use assms in \<open>auto simp: fle_def\<close>)

lemma flt_not_fle: "flt x y \<Longrightarrow> \<not> fle y x"
  by (cases x; cases y) (auto simp: fle_def)

lemma f64_of_nonneg: "0 \<le> q \<Longrightarrow> f64_of q = PInf \<or> (\<exists>r. f64_of q = Fin r \<and> 0 \<le> r)"
  using f64_of_mono [of 0 q] by (cases "f64_of q") (auto simp: fle_def)

lemma fle_fdiv:
  assumes "fle (Fin 0) x" and "fle x y" and "0 < b"
  shows "fle (fdiv x (Fin b)) (fdiv y (Fin b))"
proof (cases "\<exists>a c. x = Fin a \<and> y = Fin c")
  case True
  then obtain a c where "x = Fin a" "y = Fin c" by blast
  with assms show ?thesis using f64_of_mono [of "a / b" "c / b"] by (simp add: divide_right_mono)
next
  case False
  with assms have y: "y = PInf" and x: "x = PInf \<or> (\<exists>a. x = Fin a \<and> 0 \<le> a)"
    by (cases x; cases y; auto simp: fle_def)+
  have "fdiv y (Fin b) = PInf" using y assms(3) by (simp add: finf_def)
  moreover have "fdiv x (Fin b) = PInf \<or> (\<exists>r. fdiv x (Fin b) = Fin r)"
    using x
  proof
    assume "\<exists>a. x = Fin a \<and> 0 \<le> a"
    then obtain a where a: "x = Fin a" "0 \<le> a / b" using assms(3) by auto
    from f64_of_nonneg [OF a(2)] a(1) assms(3) show ?thesis by auto
  qed (use assms(3) in \<open>simp add: finf_def\<close>)
  ultimately show ?thesis by (auto simp: fle_def)
qed

subsection \<open>Alerts\<close>

definition crossed :: "CostTracker \<Rightarrow> f64 set" where
  "crossed c = {t \<in> set (thresholds c). fle t (fdiv (spentUSD c) (budgetUSD c))}"

definition tracker_inv :: "CostTracker \<Rightarrow> bool" where
  "tracker_inv c \<longleftrightarrow> (\<exists>b. budgetUSD c = Fin b \<and> 0 < b) \<and> fle (Fin 0) (spentUSD c) \<and> is_f64 (spentUSD c) \<and>
     distinct (fired c) \<and> set (fired c) = crossed c \<and> length (alerts c) = length (fired c)"

lemma fire_effect:
  "set (fired (fire sp fr ts c)) = set (fired c) \<union> {t \<in> set ts. fle t fr} \<and>
   (distinct (fired c) \<longrightarrow> distinct (fired (fire sp fr ts c))) \<and>
   length (alerts (fire sp fr ts c)) + length (fired c) = length (alerts c) + length (fired (fire sp fr ts c)) \<and>
   budgetUSD (fire sp fr ts c) = budgetUSD c \<and> spentUSD (fire sp fr ts c) = spentUSD c \<and> thresholds (fire sp fr ts c) = thresholds c"
  by (induction sp fr ts c rule: fire.induct) auto

lemma Record_inv:
  assumes "tracker_inv c" and "sized rec"
  shows "tracker_inv (CostTracker_Record rec c) \<and> fle (spentUSD c) (spentUSD (CostTracker_Record rec c)) \<and>
    thresholds (CostTracker_Record rec c) = thresholds c \<and> budgetUSD (CostTracker_Record rec c) = budgetUSD c"
proof -
  obtain r where r: "EstimateCallCostUSD rec = Fin r" "0 \<le> r" using cost_finite [OF assms(2)] by blast
  obtain b where b: "budgetUSD c = Fin b" "0 < b" using assms(1) by (auto simp: tracker_inv_def)
  have refl: "fle (spentUSD c) (spentUSD c)" using assms(1) by (cases "spentUSD c") (auto simp: tracker_inv_def fle_def)
  show ?thesis
  proof (cases "r = 0")
    case True
    then show ?thesis using assms(1) r refl by (simp add: CostTracker_Record_def)
  next
    case False
    let ?sp = "fadd (spentUSD c) (Fin r)" and ?fr = "fdiv (fadd (spentUSD c) (Fin r)) (Fin b)"
    let ?c = "c\<lparr>spentUSD := ?sp\<rparr>"
    have run: "CostTracker_Record rec c = fire ?sp ?fr (thresholds c) ?c"
      using r b False by (simp add: CostTracker_Record_def Let_def)
    note e = fire_effect [of ?sp ?fr "thresholds c" ?c]
    have up: "fle (spentUSD c) ?sp" using fle_fadd [of "spentUSD c" r] assms(1) r(2) by (simp add: tracker_inv_def)
    then have "fle (fdiv (spentUSD c) (Fin b)) ?fr" using fle_fdiv b(2) assms(1) by (simp add: tracker_inv_def)
    then have "crossed c \<subseteq> {t \<in> set (thresholds c). fle t ?fr}" using b(1) fle_trans by (auto simp: crossed_def)
    then have "set (fired c) \<union> {t \<in> set (thresholds c). fle t ?fr} = {t \<in> set (thresholds c). fle t ?fr}"
      using assms(1) by (auto simp: tracker_inv_def)
    moreover have "fle (Fin 0) ?sp" using fle_trans [OF _ up] assms(1) by (simp add: tracker_inv_def)
    moreover have "is_f64 ?sp" using assms(1) by (cases "spentUSD c") (auto simp: tracker_inv_def)
    ultimately show ?thesis using e up assms(1) b by (simp add: run tracker_inv_def crossed_def)
  qed
qed

lemma Records_inv:
  assumes "tracker_inv c" and "\<forall>rec \<in> set recs. sized rec"
  shows "tracker_inv (fold CostTracker_Record recs c) \<and> fle (spentUSD c) (spentUSD (fold CostTracker_Record recs c)) \<and>
    thresholds (fold CostTracker_Record recs c) = thresholds c \<and> budgetUSD (fold CostTracker_Record recs c) = budgetUSD c"
  using assms
proof (induction recs arbitrary: c)
  case Nil
  then show ?case by (cases "spentUSD c") (auto simp: tracker_inv_def fle_def)
next
  case (Cons rec recs)
  from Record_inv [of c rec] Cons.prems have r: "tracker_inv (CostTracker_Record rec c)"
    "fle (spentUSD c) (spentUSD (CostTracker_Record rec c))" "thresholds (CostTracker_Record rec c) = thresholds c"
    "budgetUSD (CostTracker_Record rec c) = budgetUSD c" by auto
  from Cons.IH [OF r(1)] Cons.prems(2) r fle_trans show ?case by auto
qed

lemma exhausted_stays:
  assumes "tracker_inv c" and "\<forall>rec \<in> set recs. sized rec" and "\<not> WithinBudget c"
  shows "\<not> WithinBudget (fold CostTracker_Record recs c)"
proof -
  note k = Records_inv [OF assms(1,2)]
  obtain b where b: "budgetUSD c = Fin b" "0 < b" using assms(1) by (auto simp: tracker_inv_def)
  let ?s = "spentUSD c" and ?t = "spentUSD (fold CostTracker_Record recs c)"
  have "\<not> flt ?s (Fin b)" using assms(3) b by (simp add: WithinBudget_def split: if_splits)
  moreover have "fle ?s ?t" "fle (Fin 0) ?s" using k assms(1) by (simp_all add: tracker_inv_def)
  ultimately have "\<not> flt ?t (Fin b)" by (cases ?s; cases ?t) (auto simp: fle_def)
  then show ?thesis using k b by (simp add: WithinBudget_def)
qed

lemma NewCostTracker_inv:
  assumes "0 < b" and "\<forall>t \<in> set ths. flt (Fin 0) t"
  shows "tracker_inv (NewCostTracker (Fin b) ths)"
proof -
  have "f64_of (8 / 10) = Fin (fl (8 / 10))" using f64_of_between [of 0 "8 / 10" 1] by simp
  moreover have "(1 / 2 :: rat) = fl (1 / 2)" by code_simp
  then have "1 / 2 \<le> fl (8 / 10 :: rat)" using fl_mono [of "1 / 2" "8 / 10"] by simp
  ultimately have "\<forall>t \<in> set (thresholds (NewCostTracker (Fin b) ths)). flt (Fin 0) t"
    using assms(2) by (auto simp: NewCostTracker_def)
  then have "crossed (NewCostTracker (Fin b) ths) = {}" using assms(1) flt_not_fle
    by (auto simp: crossed_def NewCostTracker_def)
  then show ?thesis using assms(1) by (simp add: tracker_inv_def NewCostTracker_def)
qed

text \<open>
  Budget alerts are exact. After any calls of realistic size, the thresholds that have alerted are
  exactly the configured fractions of the budget that the spend has reached, each alerted once; the
  budget stays closed once it is spent, whatever is recorded later.
\<close>

lemma budget_alerts:
  assumes "0 < b" and "\<forall>t \<in> set ths. flt (Fin 0) t" and "\<forall>rec \<in> set (recs @ later). sized rec"
    and "c = fold CostTracker_Record recs (NewCostTracker (Fin b) ths)"
  shows "distinct (fired c) \<and> set (fired c) = {t \<in> set (thresholds (NewCostTracker (Fin b) ths)). fle t (fdiv (spentUSD c) (Fin b))} \<and>
    length (alerts c) = length (fired c) \<and> (\<not> WithinBudget c \<longrightarrow> \<not> WithinBudget (fold CostTracker_Record later c))"
proof -
  note n = NewCostTracker_inv [OF assms(1,2)]
  from Records_inv [OF n, of recs] assms(3,4) have c: "tracker_inv c" "budgetUSD c = Fin b"
    "thresholds c = thresholds (NewCostTracker (Fin b) ths)" by (auto simp: NewCostTracker_def)
  then show ?thesis using exhausted_stays [OF c(1), of later] assms(3) by (auto simp: tracker_inv_def crossed_def)
qed

definition sample_call :: "int \<Rightarrow> AICallRecord" where
  "sample_call n = \<lparr>Operation = lit ''cv_extract'', Rec_PromptID = lit ''cv_extract'', Rec_PromptVersion = lit ''v1'',
     Rec_Model = lit ''claude-opus-4'', Latency = 0, PromptChars = n, ResponseChars = 0, Failed = False,
     JSONFailure = False, Refusal = False, GuardrailTrips = [], Rec_At = 0\<rparr>"

lemma budget_alerts_witness:
  "length (alerts (fold CostTracker_Record [sample_call 4000000, sample_call 4000000] (NewCostTracker (Fin 10) []))) = 3 \<and>
   \<not> WithinBudget (fold CostTracker_Record [sample_call 4]
      (fold CostTracker_Record [sample_call 4000000, sample_call 4000000] (NewCostTracker (Fin 10) [])))"
proof -
  let ?c = "fold CostTracker_Record [sample_call 4000000, sample_call 4000000] (NewCostTracker (Fin 10) [])"
  have sized: "\<forall>rec \<in> set ([sample_call 4000000, sample_call 4000000] @ [sample_call 4]). sized rec"
    by (simp add: sample_call_def sized_def)
  have "length (fired ?c) = 3 \<and> \<not> WithinBudget ?c" by code_simp
  with budget_alerts [OF _ _ sized refl, of 10 "[]"] show ?thesis by simp
qed

subsection \<open>The volume of a window\<close>

lemma accumulateRecord_calls: "TotalCalls (acc_stats (accumulateRecord rec a)) = TotalCalls (acc_stats a) + 1"
  by (simp add: accumulateRecord_def Let_def)

lemma Summarize_calls: "TotalCalls (SummarizeAIQuality rs) = int (length rs)"
proof -
  have "TotalCalls (acc_stats (fold accumulateRecord rs a)) = TotalCalls (acc_stats a) + int (length rs)" for a
    by (induction rs arbitrary: a) (simp_all add: accumulateRecord_calls)
  from this [of zero_acc] show ?thesis by (simp add: SummarizeAIQuality_def Let_def zero_acc_def zero_stats_def)
qed

text \<open>A percentile is one of the latencies.\<close>

lemma percentile_mem: "ds \<noteq> [] \<Longrightarrow> percentile ds p \<in> set ds"
proof -
  assume "ds \<noteq> []"
  let ?r = "min (max (int_ceil (fmul p (f64_of (of_int (int (length ds))))) - 1) 0) (int (length ds) - 1)"
  have "nat ?r < length (sort ds)" using \<open>ds \<noteq> []\<close> by (cases ds) auto
  then have "sort ds ! nat ?r \<in> set (sort ds)" by (rule nth_mem)
  then show ?thesis using \<open>ds \<noteq> []\<close> by (simp add: percentile_def Let_def)
qed

end
