(* ===== verification/Go_Time.thy ===== *)
theory Go_Time
  imports Go_Prelude
begin

section \<open>Durations as floating-point numbers\<close>

text \<open>
  \<open>Duration.Seconds\<close> and \<open>Duration.Hours\<close> of the package \<open>time\<close>: the whole units plus the fraction, each
  rounded. \<open>int_of_f64\<close> is the conversion of a float to an integer, which truncates; the value out of
  range is the one of amd64.
\<close>

definition duration_Seconds :: "duration \<Rightarrow> f64" where
  "duration_Seconds d = fadd (f64_of (of_int (d sdiv second))) (fdiv (f64_of (of_int (d smod second))) (Fin 1000000000))"

definition duration_Hours :: "duration \<Rightarrow> f64" where
  "duration_Hours d = fadd (f64_of (of_int (d sdiv hour))) (fdiv (f64_of (of_int (d smod hour))) (Fin 3600000000000))"

definition int_of_f64 :: "f64 \<Rightarrow> int" where
  "int_of_f64 x = (case x of
     Fin q \<Rightarrow> let n = (if 0 \<le> q then \<lfloor>q\<rfloor> else \<lceil>q\<rceil>) in if - (2 ^ 63) \<le> n \<and> n < 2 ^ 63 then n else - (2 ^ 63)
   | _ \<Rightarrow> - (2 ^ 63))"

end
