(* ===== verification/Role_Specs.thy ===== *)
theory Role_Specs
  imports LLM Guard
begin

section \<open>Role specifications\<close>

text \<open>
  \<open>internal/app/roles\<close>: a free-text hiring need becomes a stored draft role (\<open>generate.go\<close>), and roles are
  read, edited, archived and listed (\<open>edit.go\<close>). The lemmas show that only valid roles are stored, and
  that an archived role leaves the open pool but not the store.
\<close>

definition MaxFreeTextLen :: int where "MaxFreeTextLen = 8000"

record llmSalaryBand =
  lb_currency :: gostr
  lb_low :: f64
  lb_high :: f64

definition zero_llmSalaryBand :: llmSalaryBand where
  "zero_llmSalaryBand = \<lparr>lb_currency = [], lb_low = Fin 0, lb_high = Fin 0\<rparr>"

definition dec_llmSalaryBand :: "llmSalaryBand decoder" where
  "dec_llmSalaryBand = dec_struct
     [(lit ''currency'', \<lambda>v r. map_option (\<lambda>x. r\<lparr>lb_currency := x\<rparr>) (dec_string v (lb_currency r))),
      (lit ''low'', \<lambda>v r. map_option (\<lambda>x. r\<lparr>lb_low := x\<rparr>) (dec_float v (lb_low r))),
      (lit ''high'', \<lambda>v r. map_option (\<lambda>x. r\<lparr>lb_high := x\<rparr>) (dec_float v (lb_high r)))]"

record llmRubricItem =
  lr_name :: gostr
  lr_weight :: f64
  lr_must_have :: bool

definition zero_llmRubricItem :: llmRubricItem where
  "zero_llmRubricItem = \<lparr>lr_name = [], lr_weight = Fin 0, lr_must_have = False\<rparr>"

definition dec_llmRubricItem :: "llmRubricItem decoder" where
  "dec_llmRubricItem = dec_struct
     [(lit ''name'', \<lambda>v r. map_option (\<lambda>x. r\<lparr>lr_name := x\<rparr>) (dec_string v (lr_name r))),
      (lit ''weight'', \<lambda>v r. map_option (\<lambda>x. r\<lparr>lr_weight := x\<rparr>) (dec_float v (lr_weight r))),
      (lit ''must_have'', \<lambda>v r. map_option (\<lambda>x. r\<lparr>lr_must_have := x\<rparr>) (dec_bool v (lr_must_have r)))]"

record llmRoleSpec =
  ls_title :: gostr
  ls_location :: gostr
  ls_seniority :: gostr
  ls_availability :: gostr
  ls_responsibilities :: "gostr list"
  ls_must_haves :: "gostr list"
  ls_nice_to_haves :: "gostr list"
  ls_salary_band :: llmSalaryBand
  ls_rubric :: "llmRubricItem list"

definition zero_llmRoleSpec :: llmRoleSpec where
  "zero_llmRoleSpec = \<lparr>ls_title = [], ls_location = [], ls_seniority = [], ls_availability = [], ls_responsibilities = [],
     ls_must_haves = [], ls_nice_to_haves = [], ls_salary_band = zero_llmSalaryBand, ls_rubric = []\<rparr>"

definition dec_llmRoleSpec :: "llmRoleSpec decoder" where
  "dec_llmRoleSpec = dec_struct
     [(lit ''title'', \<lambda>v r. map_option (\<lambda>x. r\<lparr>ls_title := x\<rparr>) (dec_string v (ls_title r))),
      (lit ''location'', \<lambda>v r. map_option (\<lambda>x. r\<lparr>ls_location := x\<rparr>) (dec_string v (ls_location r))),
      (lit ''seniority'', \<lambda>v r. map_option (\<lambda>x. r\<lparr>ls_seniority := x\<rparr>) (dec_string v (ls_seniority r))),
      (lit ''availability'', \<lambda>v r. map_option (\<lambda>x. r\<lparr>ls_availability := x\<rparr>) (dec_string v (ls_availability r))),
      (lit ''responsibilities'', \<lambda>v r. map_option (\<lambda>x. r\<lparr>ls_responsibilities := x\<rparr>) (dec_slice dec_string [] v (ls_responsibilities r))),
      (lit ''must_haves'', \<lambda>v r. map_option (\<lambda>x. r\<lparr>ls_must_haves := x\<rparr>) (dec_slice dec_string [] v (ls_must_haves r))),
      (lit ''nice_to_haves'', \<lambda>v r. map_option (\<lambda>x. r\<lparr>ls_nice_to_haves := x\<rparr>) (dec_slice dec_string [] v (ls_nice_to_haves r))),
      (lit ''salary_band'', \<lambda>v r. map_option (\<lambda>x. r\<lparr>ls_salary_band := x\<rparr>) (dec_llmSalaryBand v (ls_salary_band r))),
      (lit ''rubric'', \<lambda>v r. map_option (\<lambda>x. r\<lparr>ls_rubric := x\<rparr>) (dec_slice dec_llmRubricItem zero_llmRubricItem v (ls_rubric r)))]"

definition toDomain :: "llmRoleSpec \<Rightarrow> RoleSpec \<times> Rubric" where
  "toDomain p =
     (let sen = (case ParseSeniority (ls_seniority p) of Inl err \<Rightarrow> SeniorityMid | Inr s \<Rightarrow> s);
          band = ls_salary_band p;
          spec = \<lparr>Spec_Title = Sanitize (ls_title p), Spec_Location = Sanitize (ls_location p), Spec_Seniority = sen,
            Spec_Availability = ls_availability p, Spec_Responsibilities = ls_responsibilities p, Spec_MustHaves = ls_must_haves p,
            Spec_NiceToHaves = ls_nice_to_haves p,
            Spec_SalaryBand = \<lparr>Currency = lb_currency band, Low = lb_low band, High = lb_high band\<rparr>\<rparr>;
          comps = map (\<lambda>c. \<lparr>Comp_Name = Sanitize (lr_name c), Comp_Weight = lr_weight c, Comp_MustHave = lr_must_have c\<rparr>) (ls_rubric p)
      in (spec, Rubric_Normalize \<lparr>Competencies = comps\<rparr>))"

subsection \<open>Generating\<close>

record 'w SpecGenerator =
  sg_llm :: "'w LLMClient"
  sg_roles :: "'w RoleRepository"
  sg_embedder :: "'w Embedder option"
  sg_now :: "'w Clock"
  sg_prompts :: registry
  sg_newID :: "'w IDSource"

definition embed_role :: "'w Embedder option \<Rightarrow> Role \<Rightarrow> ('w, Role) io" where
  "embed_role embedder r = (case embedder of None \<Rightarrow> io_ret r
     | Some emb \<Rightarrow> io_bind (emb (Role_EmbeddingText r)) (\<lambda>embedding. io_ret (r\<lparr>Role_Embedding := embedding\<rparr>)))"

definition Generate :: "'w SpecGenerator \<Rightarrow> ID \<Rightarrow> gostr \<Rightarrow> ('w, Role) io" where
  "Generate g employerID freeText =
     io_bind (io_guard (ID_IsZero employerID) (Invalid ''roles: employer id is required'')) (\<lambda>u.
     io_bind (io_guard (strings_TrimSpace freeText = []) (Invalid ''roles: hiring need text is required'')) (\<lambda>u.
     io_bind (io_guard (MaxFreeTextLen < rune_count freeText)
       (Invalidf ''roles: hiring need text exceeds %d characters'' [AInt MaxFreeTextLen])) (\<lambda>u.
     io_bind (io_lift (prompts_Get (sg_prompts g) IDRoleSpec)) (\<lambda>p.
     io_bind (DecodeJSON dec_llmRoleSpec zero_llmRoleSpec (sg_llm g)
       (Prompt_Request p (FenceUntrusted (lit ''HIRING_NEED'') freeText)) DefaultLLMAttempts ''roles: role-spec generation'') (\<lambda>parsed.
     case toDomain parsed of (spec, rubric) \<Rightarrow>
     io_bind (io_of (sg_now g)) (\<lambda>now.
     io_bind (io_of (sg_newID g)) (\<lambda>newid.
     io_bind (io_lift (NewRole newid employerID spec rubric now)) (\<lambda>r.
     io_bind (embed_role (sg_embedder g) r) (\<lambda>r.
     io_bind (Roles_Create (sg_roles g) r) (\<lambda>u. io_ret r))))))))))"

subsection \<open>Editing\<close>

record 'w SpecEditor =
  se_roles :: "'w RoleRepository"
  se_embedder :: "'w Embedder option"

definition SpecEditor_Get :: "'w SpecEditor \<Rightarrow> ID \<Rightarrow> ('w, Role) io" where
  "SpecEditor_Get e roleID =
     io_bind (io_guard (ID_IsZero roleID) (Invalid ''roles: role id is required'')) (\<lambda>u. Roles_ByID (se_roles e) roleID)"

definition SpecEditor_Update :: "'w SpecEditor \<Rightarrow> ID \<Rightarrow> RoleSpec \<Rightarrow> Rubric \<Rightarrow> ('w, Role) io" where
  "SpecEditor_Update e roleID spec rubric =
     io_bind (io_guard (ID_IsZero roleID) (Invalid ''roles: role id is required'')) (\<lambda>u.
     io_bind (Roles_ByID (se_roles e) roleID) (\<lambda>r.
     io_bind (io_lift (Role_Revise r spec (Rubric_Normalize rubric))) (\<lambda>r.
     io_bind (embed_role (se_embedder e) r) (\<lambda>r.
     io_bind (Roles_Update (se_roles e) r) (\<lambda>u. io_ret r)))))"

definition SpecEditor_Delete :: "'w SpecEditor \<Rightarrow> ID \<Rightarrow> ('w, unit) io" where
  "SpecEditor_Delete e roleID =
     io_bind (io_guard (ID_IsZero roleID) (Invalid ''roles: role id is required'')) (\<lambda>u.
     io_bind (Roles_ByID (se_roles e) roleID) (\<lambda>r. Roles_Update (se_roles e) (Role_Close r)))"

definition SpecEditor_List :: "'w SpecEditor \<Rightarrow> ID \<Rightarrow> Page \<Rightarrow> ('w, Role list \<times> int) io" where
  "SpecEditor_List e employerID page =
     io_bind (io_guard (ID_IsZero employerID) (Invalid ''roles: employer id is required'')) (\<lambda>u.
     Roles_ListByEmployer (se_roles e) employerID page)"

definition SpecEditor_ListOpen :: "'w SpecEditor \<Rightarrow> Page \<Rightarrow> ('w, Role list \<times> int) io" where
  "SpecEditor_ListOpen e page = Roles_ListOpen (se_roles e) page"

subsection \<open>What is stored\<close>

definition memory_editor :: "(Role list \<Rightarrow> Role list) \<Rightarrow> ((Role \<Rightarrow> Role \<Rightarrow> bool) \<Rightarrow> Role list \<Rightarrow> Role list) \<Rightarrow>
    World Embedder option \<Rightarrow> World SpecEditor" where
  "memory_editor itr srt emb = \<lparr>se_roles = memory_roles itr srt, se_embedder = emb\<rparr>"

text \<open>Embedding changes nothing but the embedding.\<close>

lemma embed_role_ok: "embed_role emb r w = (Inr r', w') \<Longrightarrow> r' = r\<lparr>Role_Embedding := Role_Embedding r'\<rparr>"
  by (auto simp: embed_role_def io_ok split: option.splits)

lemma role_inv_embedding: "role_inv (r\<lparr>Role_Embedding := e\<rparr>) \<longleftrightarrow> role_inv r"
  by (simp add: role_inv_def)

lemma Generate_valid:
  assumes "Generate g employerID freeText w = (Inr r, w')"
  shows "role_inv r \<and> Role_Status r = RoleDraft \<and> \<not> ID_IsZero employerID"
proof -
  from assms obtain i spec rub now q v v' where n: "NewRole i employerID spec rub now = Inr q"
    and e: "embed_role (sg_embedder g) q v = (Inr r, v')" and z: "\<not> ID_IsZero employerID"
    by (auto simp: Generate_def io_ok_iffs io_bind_ok io_cases_ok)
  from embed_role_ok [OF e] obtain x where r: "r = q\<lparr>Role_Embedding := x\<rparr>" by blast
  from NewRole_inv [OF n] z show ?thesis by (simp add: r role_inv_embedding)
qed

text \<open>Archiving keeps the role in the store and out of the open pool.\<close>

lemma archived:
  assumes "map_of (w_roles w) i = Some rl" and "Role_ID rl = i" and "\<not> ID_IsZero i"
  shows "SpecEditor_Delete (memory_editor itr srt emb) i w =
    (Inr (), w\<lparr>w_roles := AList.update i (Role_Close rl) (w_roles w)\<rparr>) \<and> Role_Status (Role_Close rl) = RoleClosed"
  using assms by (simp add: SpecEditor_Delete_def memory_editor_def io_simps RoleRepo_ByID_def RoleRepo_Update_def Role_Close_def)

end
