(* ===== verification/Access.thy ===== *)
theory Access
  imports Session
begin

section \<open>Authentication and authorization of requests\<close>

text \<open>
  \<open>internal/adapters/inbound/grpc\<close>: the interceptor that turns a bearer token into the principal of a
  request, the guards the handlers call first (\<open>auth_interceptor.go\<close>) and the status of an error
  (\<open>mapping.go\<close>). A request context is the principal in it, if any; the incoming metadata is the list of
  its \<open>authorization\<close> values, if there is any metadata. The lemmas say exactly whom each guard lets pass.
\<close>

subsection \<open>Status\<close>

datatype code = InvalidArgument | NotFoundCode | AlreadyExists | Unauthenticated | PermissionDenied |
  ResourceExhausted | InternalCode | Unimplemented | Canceled

text \<open>The message of a status is the text of an error, or a literal.\<close>

datatype message = ErrorText go_error | Literal string

record Status =
  St_Code :: code
  St_Message :: message

definition status_Error :: "code \<Rightarrow> message \<Rightarrow> Status" where
  "status_Error c m = \<lparr>St_Code = c, St_Message = m\<rparr>"

definition errToStatus :: "go_error \<Rightarrow> Status" where
  "errToStatus err = (case KindOf err of
     KindInvalid \<Rightarrow> status_Error InvalidArgument (ErrorText err)
   | KindNotFound \<Rightarrow> status_Error NotFoundCode (ErrorText err)
   | KindConflict \<Rightarrow> status_Error AlreadyExists (ErrorText err)
   | KindUnauthorized \<Rightarrow> status_Error Unauthenticated (ErrorText err)
   | KindForbidden \<Rightarrow> status_Error PermissionDenied (ErrorText err)
   | KindTooManyRequests \<Rightarrow> status_Error ResourceExhausted (ErrorText err)
   | _ \<Rightarrow> status_Error InternalCode (Literal ''internal error''))"

text \<open>
  A remote call answers a status or a response. A handler whose every error goes through
  \<open>errToStatus\<close> is the call that \<open>rpc\<close> makes of its body.
\<close>

type_synonym ('w, 'a) rpc = "'w \<Rightarrow> (Status + 'a) \<times> 'w"

definition rpc :: "('w, 'a) io \<Rightarrow> ('w, 'a) rpc" where
  "rpc m = (\<lambda>w. case m w of (r, w') \<Rightarrow> (map_sum errToStatus id r, w'))"

subsection \<open>Authentication\<close>

definition bearerPrefix :: gostr where "bearerPrefix = lit ''bearer ''"

text \<open>Text that folds to the prefix is ASCII, so its first seven bytes are its first seven runes.\<close>

definition is_bearer :: "gostr \<Rightarrow> bool" where
  "is_bearer v \<longleftrightarrow> byte_len bearerPrefix < byte_len v \<and> strings_EqualFold (take 7 v) bearerPrefix"

definition bearerFromContext :: "gostr list option \<Rightarrow> gostr option" where
  "bearerFromContext md = (case md of None \<Rightarrow> None
     | Some values \<Rightarrow> map_option (\<lambda>v. strings_TrimSpace (drop 7 v)) (find is_bearer values))"

text \<open>The interceptor: the principal that the handler will see, or a refusal.\<close>

definition auth_interceptor :: "'w TokenService \<Rightarrow> gostr list option \<Rightarrow> (Principal option \<Rightarrow> ('w, 'a) rpc) \<Rightarrow> ('w, 'a) rpc" where
  "auth_interceptor verifier md handler = (case bearerFromContext md of
     None \<Rightarrow> handler None
   | Some raw \<Rightarrow> (\<lambda>w. case VerifyAccess verifier raw w of
       (Inl err, w') \<Rightarrow> (Inl (status_Error Unauthenticated (Literal ''auth: invalid or expired access token'')), w')
     | (Inr pri, w') \<Rightarrow> handler (Some pri) w'))"

subsection \<open>Guards\<close>

definition RequireAuth :: "Principal option \<Rightarrow> Principal res" where
  "RequireAuth ctx = (case ctx of None \<Rightarrow> Inl (Unauthorized ''auth: authentication required'') | Some p \<Rightarrow> Inr p)"

definition RequireRole :: "Principal option \<Rightarrow> role list \<Rightarrow> Principal res" where
  "RequireRole ctx allowed = res_bind (RequireAuth ctx) (\<lambda>p.
     if \<exists>r \<in> set allowed. Pri_Role p = Role_String r then Inr p
     else Inl (Forbidden ''auth: insufficient permissions for this operation''))"

definition principalHasPermission :: "Principal \<Rightarrow> Permission \<Rightarrow> bool" where
  "principalHasPermission p perm = (case ParseRole (Pri_Role p) of Inl err \<Rightarrow> False | Inr r \<Rightarrow> Can r perm)"

definition RequirePermission :: "Principal option \<Rightarrow> Permission \<Rightarrow> Principal res" where
  "RequirePermission ctx perm = res_bind (RequireAuth ctx) (\<lambda>p.
     if \<not> principalHasPermission p perm then Inl (Forbidden (''auth: missing permission '' @ perm)) else Inr p)"

definition requireSelfCandidate :: "Principal option \<Rightarrow> ID \<Rightarrow> Permission \<Rightarrow> unit res" where
  "requireSelfCandidate ctx candidateID perm = res_bind (RequirePermission ctx perm) (\<lambda>p.
     if Pri_Role p \<noteq> Role_String RoleCandidate then Inl (Forbidden ''auth: candidates may only act on their own data'')
     else if Pri_UserID p \<noteq> candidateID then Inl (Forbidden ''auth: candidates may only act on their own data'')
     else Inr ())"

definition requireSelfEmployer :: "Principal option \<Rightarrow> ID \<Rightarrow> Permission \<Rightarrow> unit res" where
  "requireSelfEmployer ctx employerID perm = res_bind (RequirePermission ctx perm) (\<lambda>p.
     if \<not> (Pri_Role p = Role_String RoleEmployer \<or> Pri_Role p = Role_String RoleRecruiter)
       then Inl (Forbidden ''auth: may only act within your own employer scope'')
     else if Pri_UserID p \<noteq> employerID then Inl (Forbidden ''auth: may only act within your own employer scope'')
     else Inr ())"

definition requireSelfCandidateOrReviewer :: "Principal option \<Rightarrow> ID \<Rightarrow> unit res" where
  "requireSelfCandidateOrReviewer ctx candidateID = res_bind (RequireAuth ctx) (\<lambda>p.
     if (Pri_Role p = Role_String RoleEmployer \<or> Pri_Role p = Role_String RoleRecruiter) \<and>
          principalHasPermission p PermViewProfile then Inr ()
     else if Pri_Role p = Role_String RoleCandidate \<and> Pri_UserID p = candidateID \<and>
          principalHasPermission p PermViewProfile then Inr ()
     else Inl (Forbidden ''auth: not permitted to view this profile''))"

subsection \<open>Whom the guards let pass\<close>

named_theorems guards \<open>the guards, by whom they let pass\<close>

lemma Role_String_inject [simp]: "Role_String a = Role_String b \<longleftrightarrow> a = b"
  by (cases a; cases b) simp_all

lemma RequireAuth_ok [guards]: "RequireAuth ctx = Inr p \<longleftrightarrow> ctx = Some p"
  by (auto simp: RequireAuth_def split: option.splits)

lemma RequireRole_ok [guards]:
  "RequireRole ctx allowed = Inr p \<longleftrightarrow> ctx = Some p \<and> (\<exists>r \<in> set allowed. Pri_Role p = Role_String r)"
  by (auto simp: RequireRole_def RequireAuth_def split: option.splits)

lemma RequirePermission_ok [guards]:
  "RequirePermission ctx perm = Inr p \<longleftrightarrow> ctx = Some p \<and> principalHasPermission p perm"
  by (auto simp: RequirePermission_def RequireAuth_def split: option.splits)

text \<open>The role named by a principal, read as the matrix reads it.\<close>

lemma principalHasPermission_role: "Role_Valid r \<Longrightarrow> principalHasPermission \<lparr>Pri_UserID = i, Pri_Role = Role_String r\<rparr> perm = Can r perm"
  by (simp add: principalHasPermission_def ParseRole_String)

lemma Principal_eq: "(p :: Principal) = \<lparr>Pri_UserID = i, Pri_Role = r\<rparr> \<longleftrightarrow> Pri_UserID p = i \<and> Pri_Role p = r"
  by (cases p) simp

lemma requireSelfCandidate_ok [guards]:
  "requireSelfCandidate ctx c perm = Inr u \<longleftrightarrow> ctx = Some \<lparr>Pri_UserID = c, Pri_Role = Role_String RoleCandidate\<rparr> \<and> Can RoleCandidate perm"
proof -
  have "principalHasPermission p perm = Can RoleCandidate perm" if "Pri_Role p = Role_String RoleCandidate" for p
    using that ParseRole_String [of RoleCandidate] by (simp add: principalHasPermission_def)
  then show ?thesis
    by (auto simp: requireSelfCandidate_def RequirePermission_def RequireAuth_def Principal_eq simp del: Role_String.simps split: option.splits)
qed

lemma requireSelfEmployer_ok [guards]:
  "requireSelfEmployer ctx e perm = Inr u \<longleftrightarrow>
     (\<exists>r \<in> {RoleEmployer, RoleRecruiter}. ctx = Some \<lparr>Pri_UserID = e, Pri_Role = Role_String r\<rparr> \<and> Can r perm)"
proof -
  have "principalHasPermission p perm = Can r perm" if "Pri_Role p = Role_String r" "Role_Valid r" for p r
    using that ParseRole_String [of r] by (simp add: principalHasPermission_def)
  from this [of _ RoleEmployer] this [of _ RoleRecruiter] show ?thesis
    by (auto simp: requireSelfEmployer_def RequirePermission_def RequireAuth_def Principal_eq simp del: Role_String.simps split: option.splits)
qed

lemma requireSelfCandidateOrReviewer_ok [guards]:
  "requireSelfCandidateOrReviewer ctx c = Inr u \<longleftrightarrow>
     (\<exists>p. ctx = Some p \<and> (Pri_Role p = Role_String RoleEmployer \<or> Pri_Role p = Role_String RoleRecruiter \<or>
        p = \<lparr>Pri_UserID = c, Pri_Role = Role_String RoleCandidate\<rparr>))"
proof -
  have "principalHasPermission p PermViewProfile"
    if "Pri_Role p = Role_String r" "r \<in> {RoleEmployer, RoleRecruiter, RoleCandidate}" for p r
    using that ParseRole_String [of r] by (auto simp: principalHasPermission_def Can_simps)
  from this [of _ RoleEmployer] this [of _ RoleRecruiter] this [of _ RoleCandidate] show ?thesis
    by (auto simp: requireSelfCandidateOrReviewer_def RequireAuth_def Principal_eq simp del: Role_String.simps split: option.splits)
qed

text \<open>A platform operator is nobody's candidate or employer.\<close>

lemma admin_is_not_self:
  assumes "Pri_Role p = Role_String RoleAdmin"
  shows "requireSelfCandidate (Some p) c perm \<noteq> Inr u" and "requireSelfEmployer (Some p) e perm \<noteq> Inr u"
  using assms by (auto simp: guards)

subsection \<open>What an answer reveals\<close>

lemma rpc_Inr: "rpc m w = (Inr a, w') \<longleftrightarrow> m w = (Inr a, w')"
  by (cases "m w"; cases "fst (m w)") (auto simp: rpc_def)

lemma rpc_Inl: "rpc m w = (Inl st, w') \<longleftrightarrow> (\<exists>e. m w = (Inl e, w') \<and> st = errToStatus e)"
  by (cases "m w"; cases "fst (m w)") (auto simp: rpc_def)

lemma rpc_world: "snd (rpc m w) = snd (m w)"
  by (simp add: rpc_def split: prod.splits)

lemma errToStatus_code:
  "St_Code (errToStatus e) = InternalCode \<longleftrightarrow> KindOf e = KindInternal"
  "St_Code (errToStatus e) = Unauthenticated \<longleftrightarrow> KindOf e = KindUnauthorized"
  "St_Code (errToStatus e) = PermissionDenied \<longleftrightarrow> KindOf e = KindForbidden"
  by (auto simp: errToStatus_def status_Error_def split: kind.splits)

text \<open>An internal error shows the caller nothing of itself.\<close>

lemma internal_errors_opaque:
  "St_Code (errToStatus e) = InternalCode \<Longrightarrow> errToStatus e = \<lparr>St_Code = InternalCode, St_Message = Literal ''internal error''\<rparr>"
  by (auto simp: errToStatus_def status_Error_def split: kind.splits)

text \<open>A token is verified before the handler runs; a request with a bad one never reaches it.\<close>

lemma auth_interceptor_bad_token:
  assumes "bearerFromContext md = Some raw" and "VerifyAccess verifier raw w = (Inl e, w')"
  shows "auth_interceptor verifier md handler w =
    (Inl \<lparr>St_Code = Unauthenticated, St_Message = Literal ''auth: invalid or expired access token''\<rparr>, w')"
  using assms by (simp add: auth_interceptor_def status_Error_def)

lemma auth_interceptor_cases:
  obtains (refused) raw e w' where "bearerFromContext md = Some raw" "VerifyAccess verifier raw w = (Inl e, w')"
    "auth_interceptor verifier md handler w = (Inl \<lparr>St_Code = Unauthenticated, St_Message = Literal ''auth: invalid or expired access token''\<rparr>, w')"
  | (anonymous) "bearerFromContext md = None" "auth_interceptor verifier md handler w = handler None w"
  | (known) raw p w' where "bearerFromContext md = Some raw" "VerifyAccess verifier raw w = (Inr p, w')"
    "auth_interceptor verifier md handler w = handler (Some p) w'"
proof (cases "bearerFromContext md")
  case None
  then show ?thesis by (intro anonymous) (simp_all add: auth_interceptor_def)
next
  case (Some raw)
  obtain r w' where v: "VerifyAccess verifier raw w = (r, w')" by (cases "VerifyAccess verifier raw w")
  show ?thesis
  proof (cases r)
    case (Inl e)
    then show ?thesis using Some v by (intro refused) (simp_all add: auth_interceptor_def status_Error_def)
  next
    case (Inr p)
    then show ?thesis using Some v by (intro known) (simp_all add: auth_interceptor_def)
  qed
qed

lemma bearer_example: "bearerFromContext (Some [lit ''Basic abc'', lit ''BEARER  tok '']) = Some (lit ''tok'')"
  by code_simp

end
