(* ===== verification/Messages.thy ===== *)
theory Messages
  imports Shortlist Interviewer Agent_Runner Reviews Session Go_Time
begin

section \<open>Messages of the remote interface\<close>

text \<open>
  The protobuf messages of \<open>internal/gen/caliber/v1\<close> that the handlers read and build, and the mapping
  between them and the domain (\<open>internal/adapters/inbound/grpc/mapping.go\<close> and the mapping functions at the
  end of the handler files). An enum of a message is an open set of 32-bit numbers; a message field that is
  itself a message can be absent. The lemmas are the round trips of the mapping.
\<close>

definition wrap32 :: "int \<Rightarrow> int" where
  "wrap32 x = (x + 2 ^ 31) mod 2 ^ 32 - 2 ^ 31"

lemma wrap32_id: "- (2 ^ 31) \<le> x \<Longrightarrow> x < 2 ^ 31 \<Longrightarrow> wrap32 x = x"
  by (simp add: wrap32_def)

subsection \<open>Roles\<close>

record pb_SalaryBand =
  psb_Currency :: gostr
  psb_Low :: f64
  psb_High :: f64

record pb_RoleSpec =
  prs_Title :: gostr
  prs_Location :: gostr
  prs_Seniority :: int
  prs_Availability :: gostr
  prs_Responsibilities :: "gostr list"
  prs_MustHaves :: "gostr list"
  prs_NiceToHaves :: "gostr list"
  prs_SalaryBand :: "pb_SalaryBand option"

record pb_Competency =
  pc_Name :: gostr
  pc_Weight :: f64
  pc_MustHave :: bool

record pb_Rubric =
  pb_Competencies :: "pb_Competency list"

record pb_Role =
  pr_Id :: gostr
  pr_EmployerId :: gostr
  pr_Title :: gostr
  pr_Status :: int
  pr_Spec :: pb_RoleSpec
  pr_Rubric :: pb_Rubric
  pr_CreatedAt :: time

fun seniorityToProto :: "seniority \<Rightarrow> int" where
  "seniorityToProto SeniorityJunior = 1"
| "seniorityToProto SeniorityMid = 2"
| "seniorityToProto SenioritySenior = 3"
| "seniorityToProto SeniorityLead = 4"
| "seniorityToProto SeniorityUnspecified = 0"

definition seniorityFromProto :: "int \<Rightarrow> seniority" where
  "seniorityFromProto s = (if s = 1 then SeniorityJunior else if s = 2 then SeniorityMid else if s = 3 then SenioritySenior
     else if s = 4 then SeniorityLead else SeniorityUnspecified)"

fun roleStatusToProto :: "role_status \<Rightarrow> int" where
  "roleStatusToProto RoleDraft = 1"
| "roleStatusToProto RoleOpen = 2"
| "roleStatusToProto RoleClosed = 3"
| "roleStatusToProto RoleStatusUnspecified = 0"

definition specToProto :: "RoleSpec \<Rightarrow> pb_RoleSpec" where
  "specToProto s = \<lparr>prs_Title = Spec_Title s, prs_Location = Spec_Location s, prs_Seniority = seniorityToProto (Spec_Seniority s),
     prs_Availability = Spec_Availability s, prs_Responsibilities = Spec_Responsibilities s, prs_MustHaves = Spec_MustHaves s,
     prs_NiceToHaves = Spec_NiceToHaves s,
     prs_SalaryBand = Some \<lparr>psb_Currency = Currency (Spec_SalaryBand s), psb_Low = Low (Spec_SalaryBand s),
       psb_High = High (Spec_SalaryBand s)\<rparr>\<rparr>"

definition rubricToProto :: "Rubric \<Rightarrow> pb_Rubric" where
  "rubricToProto r = \<lparr>pb_Competencies = map (\<lambda>c. \<lparr>pc_Name = Comp_Name c, pc_Weight = Comp_Weight c, pc_MustHave = Comp_MustHave c\<rparr>)
     (Competencies r)\<rparr>"

definition roleToProto :: "Role \<Rightarrow> pb_Role" where
  "roleToProto r = \<lparr>pr_Id = Role_ID r, pr_EmployerId = Role_EmployerID r, pr_Title = Role_Title r,
     pr_Status = roleStatusToProto (Role_Status r), pr_Spec = specToProto (Role_Spec r), pr_Rubric = rubricToProto (Role_Rubric r),
     pr_CreatedAt = Role_CreatedAt r\<rparr>"

text \<open>The getters of an absent message read zero values.\<close>

definition zero_pb_RoleSpec :: pb_RoleSpec where
  "zero_pb_RoleSpec = \<lparr>prs_Title = [], prs_Location = [], prs_Seniority = 0, prs_Availability = [], prs_Responsibilities = [],
     prs_MustHaves = [], prs_NiceToHaves = [], prs_SalaryBand = None\<rparr>"

definition specFromProto :: "pb_RoleSpec option \<Rightarrow> RoleSpec" where
  "specFromProto q =
     (let p = (case q of None \<Rightarrow> zero_pb_RoleSpec | Some p \<Rightarrow> p);
          band = (case prs_SalaryBand p of None \<Rightarrow> \<lparr>Currency = [], Low = Fin 0, High = Fin 0\<rparr>
            | Some sb \<Rightarrow> \<lparr>Currency = psb_Currency sb, Low = psb_Low sb, High = psb_High sb\<rparr>)
      in \<lparr>Spec_Title = prs_Title p, Spec_Location = prs_Location p, Spec_Seniority = seniorityFromProto (prs_Seniority p),
          Spec_Availability = prs_Availability p, Spec_Responsibilities = prs_Responsibilities p, Spec_MustHaves = prs_MustHaves p,
          Spec_NiceToHaves = prs_NiceToHaves p, Spec_SalaryBand = band\<rparr>)"

definition rubricFromProto :: "pb_Rubric option \<Rightarrow> Rubric" where
  "rubricFromProto q = \<lparr>Competencies = map (\<lambda>c. \<lparr>Comp_Name = pc_Name c, Comp_Weight = pc_Weight c, Comp_MustHave = pc_MustHave c\<rparr>)
     (case q of None \<Rightarrow> [] | Some p \<Rightarrow> pb_Competencies p)\<rparr>"

subsection \<open>Pages\<close>

record pb_PageRequest =
  pq_Page :: int
  pq_PageSize :: int

record pb_PageResponse =
  pp_Page :: int
  pp_PageSize :: int
  pp_TotalItems :: int
  pp_TotalPages :: int

definition pageFromProto :: "pb_PageRequest option \<Rightarrow> Page" where
  "pageFromProto q = (case q of None \<Rightarrow> NewPage (max 0 1) 0 | Some p \<Rightarrow> NewPage (max (pq_Page p) 1) (pq_PageSize p))"

definition pageResponseToProto :: "Page \<Rightarrow> int \<Rightarrow> pb_PageResponse" where
  "pageResponseToProto page tot =
     (let sz = Limit page;
          totalPages = (if 0 < sz then wrap32 (wrap64 (wrap64 (tot + sz) - 1) sdiv sz) else 0)
      in \<lparr>pp_Page = wrap32 (Number page), pp_PageSize = wrap32 sz, pp_TotalItems = tot, pp_TotalPages = totalPages\<rparr>)"

definition defaultShortlistLimit :: int where "defaultShortlistLimit = 20"

definition pageLimit :: "pb_PageRequest option \<Rightarrow> int" where
  "pageLimit q = (let n = (case q of None \<Rightarrow> 0 | Some p \<Rightarrow> pq_PageSize p) in if 0 < n then n else defaultShortlistLimit)"

subsection \<open>Matches\<close>

fun confidenceToProto :: "confidence \<Rightarrow> int" where
  "confidenceToProto ConfidenceLow = 1"
| "confidenceToProto ConfidenceMedium = 2"
| "confidenceToProto ConfidenceHigh = 3"
| "confidenceToProto ConfidenceUnspecified = 0"

record pb_MatchBreakdownItem =
  pbi_Competency :: gostr
  pbi_Score :: f64
  pbi_Evidence :: gostr

record pb_Match =
  pm_Id :: gostr
  pm_RoleId :: gostr
  pm_CandidateId :: gostr
  pm_OverallScore :: f64
  pm_Confidence :: int
  pm_Breakdown :: "pb_MatchBreakdownItem list"
  pm_Rationale :: gostr
  pm_WatchOuts :: "gostr list"
  pm_ThinEvidence :: bool

record pb_CandidateExclusion =
  pce_CandidateId :: gostr
  pce_Gate :: string
  pce_Reason :: "string \<times> fmtarg list"

record pb_Shortlist =
  psl_Matches :: "pb_Match list"
  psl_PoolDepth :: int
  psl_Exclusions :: "pb_CandidateExclusion list"
  psl_Page :: "pb_PageResponse option"

definition matchToProto :: "Match \<Rightarrow> pb_Match" where
  "matchToProto m = \<lparr>pm_Id = Match_ID m, pm_RoleId = Match_RoleID m, pm_CandidateId = Match_CandidateID m,
     pm_OverallScore = OverallScore m, pm_Confidence = confidenceToProto (Match_Confidence m),
     pm_Breakdown = map (\<lambda>b. \<lparr>pbi_Competency = BD_Competency b, pbi_Score = BD_Score b, pbi_Evidence = BD_Evidence b\<rparr>) (Breakdown m),
     pm_Rationale = Rationale m, pm_WatchOuts = WatchOuts m, pm_ThinEvidence = ThinEvidence m\<rparr>"

definition exclusionToProto :: "Exclusion \<Rightarrow> pb_CandidateExclusion" where
  "exclusionToProto e = \<lparr>pce_CandidateId = Ex_CandidateID e, pce_Gate = Ex_Gate e, pce_Reason = Ex_Reason e\<rparr>"

definition shortlistToProto :: "ShortlistResult \<Rightarrow> pb_Shortlist" where
  "shortlistToProto r = \<lparr>psl_Matches = map matchToProto (Matches r), psl_PoolDepth = wrap32 (PoolDepth r),
     psl_Exclusions = map exclusionToProto (Exclusions r), psl_Page = None\<rparr>"

subsection \<open>Interviews\<close>

record pb_CompetencyScore =
  pcs_Competency :: gostr
  pcs_Score :: f64
  pcs_Evidence :: gostr

record pb_ReportCard =
  prc_InterviewId :: gostr
  prc_RoleId :: gostr
  prc_CandidateId :: gostr
  prc_Verdict :: int
  prc_Confidence :: int
  prc_Scores :: "pb_CompetencyScore list"
  prc_RecommendedNextStep :: gostr

record pb_InterviewQuestion =
  piq_InterviewId :: gostr
  piq_Ordinal :: int
  piq_Text :: gostr
  piq_CompetencyTag :: gostr

datatype interview_event = StatusEvent string string | QuestionEvent pb_InterviewQuestion | ReportEvent pb_ReportCard

fun verdictToProto :: "verdict \<Rightarrow> int" where
  "verdictToProto VerdictAdvance = 1"
| "verdictToProto VerdictHold = 2"
| "verdictToProto VerdictDecline = 3"
| "verdictToProto VerdictUnspecified = 0"

definition interviewModeFromProto :: "int \<Rightarrow> interview_mode" where
  "interviewModeFromProto m = (if m = 2 then ModeVoice else ModeText)"

definition reportCardToProto :: "ReportCard \<Rightarrow> pb_ReportCard" where
  "reportCardToProto rcard = \<lparr>prc_InterviewId = RC_InterviewID rcard, prc_RoleId = RC_RoleID rcard, prc_CandidateId = RC_CandidateID rcard,
     prc_Verdict = verdictToProto (Verdict rcard), prc_Confidence = confidenceToProto (RC_Confidence rcard),
     prc_Scores = map (\<lambda>sc. \<lparr>pcs_Competency = Sc_Competency sc, pcs_Score = Sc_Score sc, pcs_Evidence = Sc_Evidence sc\<rparr>) (Scores rcard),
     prc_RecommendedNextStep = RecommendedNextStep rcard\<rparr>"

definition questionEvent :: "ID \<Rightarrow> PendingQuestion \<Rightarrow> interview_event" where
  "questionEvent i q = QuestionEvent \<lparr>piq_InterviewId = i, piq_Ordinal = wrap32 (PQ_Ordinal q), piq_Text = PQ_Text q,
     piq_CompetencyTag = PQ_CompetencyTag q\<rparr>"

definition statusEvent :: "string \<Rightarrow> string \<Rightarrow> interview_event" where
  "statusEvent state msg = StatusEvent state msg"

definition reportEvent :: "ReportCard \<Rightarrow> interview_event" where
  "reportEvent rcard = ReportEvent (reportCardToProto rcard)"

subsection \<open>Profiles, applications, contests, audit entries, accounts\<close>

record pb_ProfileCompetency =
  ppc_Name :: gostr
  ppc_Level :: f64
  ppc_EvidenceQuote :: gostr
  ppc_SourceSpan :: gostr

record pb_TalentProfile =
  ptp_Id :: gostr
  ptp_CandidateId :: gostr
  ptp_Summary :: gostr
  ptp_Competencies :: "pb_ProfileCompetency list"
  ptp_PassportStatus :: int

record pb_CandidateIntake =
  pci_TargetTitles :: "gostr list"
  pci_Location :: gostr
  pci_SalaryFloor :: f64
  pci_DealBreakers :: "gostr list"

fun passportStatusToProto :: "passport_status \<Rightarrow> int" where
  "passportStatusToProto PassportCVOnly = 1"
| "passportStatusToProto PassportScreened = 2"
| "passportStatusToProto PassportVerified = 3"
| "passportStatusToProto PassportUnset = 0"

definition talentProfileToProto :: "TalentProfile \<Rightarrow> pb_TalentProfile" where
  "talentProfileToProto p = \<lparr>ptp_Id = TP_ID p, ptp_CandidateId = TP_CandidateID p, ptp_Summary = TP_Summary p,
     ptp_Competencies = map (\<lambda>c. \<lparr>ppc_Name = PC_Name c, ppc_Level = PC_Level c, ppc_EvidenceQuote = PC_EvidenceQuote c,
       ppc_SourceSpan = PC_SourceSpan c\<rparr>) (TP_Competencies p),
     ptp_PassportStatus = passportStatusToProto (TP_PassportStatus p)\<rparr>"

definition intakeFromProto :: "pb_CandidateIntake option \<Rightarrow> CandidateIntake" where
  "intakeFromProto q = (case q of
     None \<Rightarrow> \<lparr>TargetTitles = [], Intake_Location = [], SalaryFloor = Fin 0, SalaryCurrency = [], DealBreakers = []\<rparr>
   | Some p \<Rightarrow> \<lparr>TargetTitles = pci_TargetTitles p, Intake_Location = pci_Location p, SalaryFloor = pci_SalaryFloor p,
       SalaryCurrency = [], DealBreakers = pci_DealBreakers p\<rparr>)"

record pb_Application =
  pa_Id :: gostr
  pa_RoleId :: gostr
  pa_CandidateId :: gostr
  pa_Source :: int
  pa_TailoredSummary :: gostr
  pa_Status :: int

fun appSourceToProto :: "app_source \<Rightarrow> int" where
  "appSourceToProto SourceManual = 1"
| "appSourceToProto SourceAgent = 2"
| "appSourceToProto SourceUnknown = 0"

fun appStatusToProto :: "app_status \<Rightarrow> int" where
  "appStatusToProto StatusDrafted = 1"
| "appStatusToProto StatusSubmitted = 2"
| "appStatusToProto StatusScreening = 3"
| "appStatusToProto StatusScreened = 4"
| "appStatusToProto StatusUnknown = 0"

definition applicationToProto :: "Application \<Rightarrow> pb_Application" where
  "applicationToProto a = \<lparr>pa_Id = App_ID a, pa_RoleId = App_RoleID a, pa_CandidateId = App_CandidateID a,
     pa_Source = appSourceToProto (App_Source a), pa_TailoredSummary = TailoredSummary a, pa_Status = appStatusToProto (App_Status a)\<rparr>"

record pb_WakeUpView =
  pw_NewMatches :: int
  pw_ApplicationsSubmitted :: int
  pw_ScreeningsCompleted :: int
  pw_EmployersInterested :: int
  pw_Highlights :: "gostr list"

definition wakeUpToProto :: "WakeUpView \<Rightarrow> pb_WakeUpView" where
  "wakeUpToProto v = \<lparr>pw_NewMatches = wrap32 (NewMatches v), pw_ApplicationsSubmitted = wrap32 (ApplicationsSubmitted v),
     pw_ScreeningsCompleted = wrap32 (ScreeningsCompleted v), pw_EmployersInterested = wrap32 (EmployersInterested v),
     pw_Highlights = Highlights v\<rparr>"

record pb_Contest =
  pct_Id :: gostr
  pct_CandidateId :: gostr
  pct_Subject :: int
  pct_SubjectId :: gostr
  pct_Reason :: gostr
  pct_Status :: int
  pct_Resolution :: gostr
  pct_CreatedAt :: time
  pct_ResolvedAt :: "time option"

definition subjectFromProto :: "int \<Rightarrow> subject res" where
  "subjectFromProto s = (if s = 1 then Inr SubjectMatch else if s = 2 then Inr SubjectReportCard
     else Inl (Invalid ''contest: a valid subject is required''))"

fun subjectToProto :: "subject \<Rightarrow> int" where
  "subjectToProto SubjectMatch = 1"
| "subjectToProto SubjectReportCard = 2"
| "subjectToProto SubjectUnspecified = 0"

fun statusToProto :: "contest_status \<Rightarrow> int" where
  "statusToProto StatusUpheld = 2"
| "statusToProto StatusDismissed = 3"
| "statusToProto StatusOpen = 1"

definition contestToProto :: "Contest \<Rightarrow> pb_Contest" where
  "contestToProto c = \<lparr>pct_Id = Con_ID c, pct_CandidateId = Con_CandidateID c, pct_Subject = subjectToProto (Con_Subject c),
     pct_SubjectId = Con_SubjectID c, pct_Reason = Con_Reason c, pct_Status = statusToProto (Con_Status c),
     pct_Resolution = Resolution c, pct_CreatedAt = Con_CreatedAt c,
     pct_ResolvedAt = (if \<not> time_IsZero (ResolvedAt c) then Some (ResolvedAt c) else None)\<rparr>"

record pb_AuditEntry =
  pae_Id :: gostr
  pae_ActorUserId :: gostr
  pae_Action :: gostr
  pae_Entity :: gostr
  pae_EntityId :: gostr
  pae_BeforeJson :: gostr
  pae_AfterJson :: gostr
  pae_Timestamp :: time

definition auditEntryToProto :: "AuditEntry \<Rightarrow> pb_AuditEntry" where
  "auditEntryToProto e = \<lparr>pae_Id = Aud_ID e, pae_ActorUserId = ActorUserID e, pae_Action = Aud_Action e, pae_Entity = Entity e,
     pae_EntityId = EntityID e, pae_BeforeJson = BeforeJSON e, pae_AfterJson = AfterJSON e, pae_Timestamp = Timestamp e\<rparr>"

record pb_User =
  pu_Id :: gostr
  pu_Email :: gostr
  pu_Role :: int
  pu_Name :: gostr
  pu_CreatedAt :: time

record pb_TokenPair =
  ptk_AccessToken :: gostr
  ptk_RefreshToken :: gostr
  ptk_AccessExpiresIn :: int

definition userRoleFromProto :: "int \<Rightarrow> role res" where
  "userRoleFromProto r = (if r = 1 then Inr RoleEmployer else if r = 2 then Inr RoleRecruiter else if r = 3 then Inr RoleCandidate
     else if r = 4 then Inr RoleAdmin else Inl (Invalid ''identity: a valid role is required''))"

fun userRoleToProto :: "role \<Rightarrow> int" where
  "userRoleToProto RoleEmployer = 1"
| "userRoleToProto RoleRecruiter = 2"
| "userRoleToProto RoleCandidate = 3"
| "userRoleToProto RoleAdmin = 4"
| "userRoleToProto RoleUnspecified = 0"

definition userToProto :: "User \<Rightarrow> pb_User" where
  "userToProto u = \<lparr>pu_Id = User_ID u, pu_Email = User_Email u, pu_Role = userRoleToProto (User_Role u), pu_Name = User_Name u,
     pu_CreatedAt = User_CreatedAt u\<rparr>"

definition tokenPairToProto :: "Session \<Rightarrow> pb_TokenPair" where
  "tokenPairToProto ses = \<lparr>ptk_AccessToken = AT_Token (Ses_Access ses), ptk_RefreshToken = RT_Token (Ses_Refresh ses),
     ptk_AccessExpiresIn = int_of_f64 (duration_Seconds (AT_ExpiresIn (Ses_Access ses)))\<rparr>"

subsection \<open>Round trips\<close>

text \<open>What a client edits and sends back is what it was shown.\<close>

lemma seniority_roundtrip [simp]: "seniorityFromProto (seniorityToProto s) = s"
  by (cases s) (simp_all add: seniorityFromProto_def)

lemma spec_roundtrip: "specFromProto (Some (specToProto s)) = s"
  by (cases s) (simp add: specFromProto_def specToProto_def)

lemma rubric_roundtrip: "rubricFromProto (Some (rubricToProto r)) = r"
  by (cases r) (auto simp: rubricFromProto_def rubricToProto_def comp_def intro!: map_idI)

lemma userRole_roundtrip: "Role_Valid r \<Longrightarrow> userRoleFromProto (userRoleToProto r) = Inr r"
  by (cases r) (simp_all add: userRoleFromProto_def)

lemma subject_roundtrip: "s \<noteq> SubjectUnspecified \<Longrightarrow> subjectFromProto (subjectToProto s) = Inr s"
  by (cases s) (simp_all add: subjectFromProto_def)

text \<open>An intake sent over the interface has no currency: the floor of a candidate is compared without one.\<close>

lemma intake_has_no_currency: "SalaryCurrency (intakeFromProto q) = []"
  by (simp add: intakeFromProto_def split: option.splits)

text \<open>Every page request gives a page within the bounds.\<close>

lemma pageFromProto_ok: "(\<And>p. q = Some p \<Longrightarrow> pq_Page p < 2 ^ 31) \<Longrightarrow> page_ok (pageFromProto q)"
  by (auto simp: pageFromProto_def intro!: NewPage_ok split: option.splits)

lemma pageResponse_sizes:
  assumes "page_ok p" and "Number p < 2 ^ 31"
  shows "pp_Page (pageResponseToProto p n) = Number p" and "pp_PageSize (pageResponseToProto p n) = Size p"
  using assms by (simp_all add: pageResponseToProto_def Let_def Limit_def page_ok_def MaxPageSize_def wrap32_id)

end
