(* ===== verification/API_Hiring.thy ===== *)
theory API_Hiring
  imports Access Messages Role_Specs
begin

section \<open>Handlers of the hiring side\<close>

text \<open>
  The role and matching servers of \<open>internal/adapters/inbound/grpc\<close> (\<open>role.go\<close>, \<open>match.go\<close>). A handler takes
  the principal of its context and the fields of its request; its body fails with domain errors, which
  \<open>rpc\<close> turns into statuses. The lemmas say what a successful call has checked.
\<close>

subsection \<open>Roles\<close>

record 'w RoleServer =
  ro_gen :: "'w SpecGenerator"
  ro_editor :: "'w SpecEditor"
  ro_counter :: "(ID \<Rightarrow> ('w, int) io) option"

definition GenerateRoleSpec :: "'w RoleServer \<Rightarrow> Principal option \<Rightarrow> gostr \<Rightarrow> gostr \<Rightarrow> ('w, pb_Role \<times> int) rpc" where
  "GenerateRoleSpec s ctx employerId freeText = rpc (
     io_bind (io_lift (requireSelfEmployer ctx employerId PermManageRoles)) (\<lambda>u.
     io_bind (Generate (ro_gen s) employerId freeText) (\<lambda>r.
     case ro_counter s of None \<Rightarrow> io_ret (roleToProto r, 0)
     | Some CountAvailable_of \<Rightarrow> io_bind (io_try (CountAvailable_of (Role_ID r))) (\<lambda>n.
         io_ret (roleToProto r, case n of Inl cerr \<Rightarrow> 0 | Inr n \<Rightarrow> wrap32 n)))))"

definition GetRole :: "'w RoleServer \<Rightarrow> Principal option \<Rightarrow> gostr \<Rightarrow> ('w, pb_Role) rpc" where
  "GetRole s ctx roleId = rpc (
     io_bind (io_lift (RequireAuth ctx)) (\<lambda>p.
     io_bind (SpecEditor_Get (ro_editor s) roleId) (\<lambda>r. io_ret (roleToProto r))))"

definition UpdateRoleSpec :: "'w RoleServer \<Rightarrow> Principal option \<Rightarrow> gostr \<Rightarrow> pb_RoleSpec option \<Rightarrow> pb_Rubric option \<Rightarrow> ('w, pb_Role) rpc" where
  "UpdateRoleSpec s ctx roleId spec rubric = rpc (
     io_bind (io_lift (RequirePermission ctx PermManageRoles)) (\<lambda>p.
     io_bind (SpecEditor_Get (ro_editor s) roleId) (\<lambda>existing.
     io_bind (io_guard (Role_EmployerID existing \<noteq> Pri_UserID p) (Forbidden ''auth: may only edit your own roles'')) (\<lambda>u.
     io_bind (SpecEditor_Update (ro_editor s) roleId (specFromProto spec) (rubricFromProto rubric)) (\<lambda>r.
     io_ret (roleToProto r))))))"

definition DeleteRole :: "'w RoleServer \<Rightarrow> Principal option \<Rightarrow> gostr \<Rightarrow> ('w, unit) rpc" where
  "DeleteRole s ctx roleId = rpc (
     io_bind (io_lift (RequirePermission ctx PermManageRoles)) (\<lambda>p.
     io_bind (SpecEditor_Get (ro_editor s) roleId) (\<lambda>existing.
     io_bind (io_guard (Role_EmployerID existing \<noteq> Pri_UserID p) (Forbidden ''auth: may only delete your own roles'')) (\<lambda>u.
     SpecEditor_Delete (ro_editor s) roleId))))"

definition requireOpenRoleListAccess :: "Principal option \<Rightarrow> Principal res" where
  "requireOpenRoleListAccess ctx = RequirePermission ctx PermScreenSelf"

definition ListRoles :: "'w RoleServer \<Rightarrow> Principal option \<Rightarrow> gostr \<Rightarrow> pb_PageRequest option \<Rightarrow> ('w, pb_Role list \<times> pb_PageResponse) rpc" where
  "ListRoles s ctx employerId pg = rpc (
     let page = pageFromProto pg in
     io_bind (if employerId = []
       then io_bind (io_lift (requireOpenRoleListAccess ctx)) (\<lambda>p. SpecEditor_ListOpen (ro_editor s) page)
       else io_bind (io_lift (requireSelfEmployer ctx employerId PermManageRoles)) (\<lambda>u.
            SpecEditor_List (ro_editor s) employerId page)) (\<lambda>(rls, tot).
     io_ret (map roleToProto rls, pageResponseToProto page tot)))"

subsection \<open>Matching\<close>

record 'w MatchServer =
  mt_shortlister :: "'w Shortlister"
  mt_refiner :: "'w Refiner"
  mt_rejections :: "'w RejectionRecorder"

definition paged_shortlist :: "pb_PageRequest option \<Rightarrow> ShortlistResult \<Rightarrow> pb_Shortlist" where
  "paged_shortlist pg r = (shortlistToProto r)\<lparr>psl_Page := Some (pageResponseToProto (pageFromProto pg) (PoolDepth r))\<rparr>"

definition MatchServer_GenerateShortlist :: "'w MatchServer \<Rightarrow> Principal option \<Rightarrow> gostr \<Rightarrow> pb_PageRequest option \<Rightarrow> ('w, pb_Shortlist) rpc" where
  "MatchServer_GenerateShortlist s ctx roleId pg = rpc (
     io_bind (io_lift (RequirePermission ctx PermViewShortlist)) (\<lambda>p.
     io_bind (GenerateShortlist (mt_shortlister s) roleId (Pri_UserID p) (pageLimit pg)) (\<lambda>r.
     io_ret (paged_shortlist pg r))))"

definition RefineShortlist :: "'w MatchServer \<Rightarrow> Principal option \<Rightarrow> gostr \<Rightarrow> pb_RoleSpec option \<Rightarrow> pb_Rubric option \<Rightarrow>
    pb_PageRequest option \<Rightarrow> ('w, pb_Shortlist) rpc" where
  "RefineShortlist s ctx roleId spec rubric pg = rpc (
     io_bind (io_lift (RequirePermission ctx PermViewShortlist)) (\<lambda>p.
     io_bind (Refine (mt_refiner s) roleId (Pri_UserID p) (specFromProto spec) (rubricFromProto rubric) (pageLimit pg)) (\<lambda>r.
     io_ret (paged_shortlist pg r))))"

definition RecordRejection :: "'w MatchServer \<Rightarrow> Principal option \<Rightarrow> gostr \<Rightarrow> gostr \<Rightarrow> gostr \<Rightarrow> bool \<Rightarrow> ('w, gostr) rpc" where
  "RecordRejection s ctx roleId candidateId reason humanApproved = rpc (
     io_bind (io_lift (RequirePermission ctx PermRecordDecision)) (\<lambda>p.
     RejectionRecorder_Record (mt_rejections s) (Pri_UserID p) roleId candidateId reason humanApproved))"

subsection \<open>What a call has checked\<close>

text \<open>A failed guard ends a handler with its status and an untouched world.\<close>

lemma rpc_guard: "P = Inl e \<Longrightarrow> rpc (io_bind (io_lift P) f) w = (Inl (errToStatus e), w)"
  by (simp add: rpc_def io_simps)

lemma rpc_guarded: "rpc (io_bind (io_lift P) f) w = (Inr a, w') \<Longrightarrow> \<exists>p. P = Inr p \<and> f p w = (Inr a, w')"
  by (simp add: rpc_Inr io_ok_iffs io_bind_ok)

lemma UpdateRoleSpec_owner:
  assumes "UpdateRoleSpec s ctx i spec rubric w = (Inr r, w')"
  obtains p rl v where "ctx = Some p" "principalHasPermission p PermManageRoles"
    "SpecEditor_Get (ro_editor s) i w = (Inr rl, v)" "Role_EmployerID rl = Pri_UserID p"
  using assms unfolding UpdateRoleSpec_def by (auto simp: rpc_Inr io_ok_iffs io_bind_ok guards)

lemma GenerateRoleSpec_self:
  assumes "GenerateRoleSpec s ctx e txt w = (Inr r, w')"
  shows "\<exists>g \<in> {RoleEmployer, RoleRecruiter}. ctx = Some \<lparr>Pri_UserID = e, Pri_Role = Role_String g\<rparr>"
  using assms unfolding GenerateRoleSpec_def by (auto simp: rpc_Inr io_ok_iffs io_bind_ok guards)

end
