(* ===== verification/API_Candidate.thy ===== *)
theory API_Candidate
  imports Access Messages CV_Text Profile_Builder Privacy
begin

section \<open>Handlers of the candidate side\<close>

text \<open>
  \<open>internal/adapters/inbound/grpc\<close>: profiles (\<open>talent.go\<close>), screening interviews with the broker that feeds
  their streams (\<open>interview.go\<close>), the candidate's agent (\<open>candidateagent.go\<close>) and the rights over one's data
  (\<open>privacy.go\<close>). The lemmas show that the broker is a bounded queue per interview that never blocks a
  publisher, and what the handlers let through. The rendering of an export as JSON is a parameter (floats).
\<close>

subsection \<open>Profiles\<close>

definition maxCVFileBytes :: int where "maxCVFileBytes = 10 * 1048576"
definition maxTargetTitles :: int where "maxTargetTitles = 20"
definition maxIntakeFieldLen :: int where "maxIntakeFieldLen = 200"
definition maxDealBreakers :: int where "maxDealBreakers = 50"
definition maxDealBreakerLen :: int where "maxDealBreakerLen = 500"

record 'w TalentServer =
  ta_builder :: "'w ProfileBuilder"
  ta_readers :: readers

definition validateIntake :: "pb_CandidateIntake option \<Rightarrow> unit res" where
  "validateIntake q = (case q of None \<Rightarrow> Inr ()
   | Some p \<Rightarrow>
       if maxTargetTitles < int (length (pci_TargetTitles p))
         then Inl (Invalidf ''talent: at most %d target titles are allowed'' [AInt maxTargetTitles])
       else if \<exists>t \<in> set (pci_TargetTitles p). maxIntakeFieldLen < rune_count t
         then Inl (Invalidf ''talent: a target title exceeds the %d character limit'' [AInt maxIntakeFieldLen])
       else if maxIntakeFieldLen < rune_count (pci_Location p)
         then Inl (Invalidf ''talent: location exceeds the %d character limit'' [AInt maxIntakeFieldLen])
       else if maxDealBreakers < int (length (pci_DealBreakers p))
         then Inl (Invalidf ''talent: at most %d deal-breakers are allowed'' [AInt maxDealBreakers])
       else if \<exists>d \<in> set (pci_DealBreakers p). maxDealBreakerLen < rune_count d
         then Inl (Invalidf ''talent: a deal-breaker exceeds the %d character limit'' [AInt maxDealBreakerLen])
       else Inr ())"

record pb_CreateProfileFromCVRequest =
  pcv_CandidateId :: gostr
  pcv_CvText :: gostr
  pcv_CvFile :: "int list"
  pcv_CvFilename :: gostr
  pcv_Intake :: "pb_CandidateIntake option"

definition resolveCVText :: "readers \<Rightarrow> pb_CreateProfileFromCVRequest \<Rightarrow> gostr res" where
  "resolveCVText rd req =
     (let file = pcv_CvFile req
      in if file = [] then Inr (pcv_CvText req)
         else if maxCVFileBytes < int (length file)
           then Inl (Invalidf ''talent: CV file exceeds the %d MiB limit'' [AInt (maxCVFileBytes div 1048576)])
         else Extract rd (pcv_CvFilename req) file)"

definition CreateProfileFromCV :: "'w TalentServer \<Rightarrow> Principal option \<Rightarrow> pb_CreateProfileFromCVRequest \<Rightarrow> ('w, pb_TalentProfile) rpc" where
  "CreateProfileFromCV s ctx req = rpc (
     io_bind (io_lift (requireSelfCandidate ctx (pcv_CandidateId req) PermManageProfile)) (\<lambda>u.
     io_bind (io_lift (validateIntake (pcv_Intake req))) (\<lambda>u.
     io_bind (io_lift (resolveCVText (ta_readers s) req)) (\<lambda>cvText.
     io_bind (CreateFromCV (ta_builder s) (pcv_CandidateId req) cvText (intakeFromProto (pcv_Intake req))) (\<lambda>profile.
     io_ret (talentProfileToProto profile))))))"

definition GetTalentProfile :: "'w TalentServer \<Rightarrow> Principal option \<Rightarrow> gostr \<Rightarrow> ('w, pb_TalentProfile) rpc" where
  "GetTalentProfile s ctx candidateId = rpc (
     io_bind (io_lift (requireSelfCandidateOrReviewer ctx candidateId)) (\<lambda>u.
     io_bind (GetProfile (ta_builder s) candidateId) (\<lambda>profile. io_ret (talentProfileToProto profile))))"

subsection \<open>The broker of interview streams\<close>

text \<open>A subscription is the buffered channel of one stream; tearing it down closes the channel.\<close>

record interviewBroker =
  br_channels :: "(ID \<times> interview_event list) list"
  br_capacity :: int

definition newInterviewBrokerWithCapacity :: "int \<Rightarrow> interviewBroker" where
  "newInterviewBrokerWithCapacity n = \<lparr>br_channels = [], br_capacity = (if n \<le> 0 then 4 else n)\<rparr>"

definition broker_subscribe :: "ID \<Rightarrow> interviewBroker \<Rightarrow> interviewBroker" where
  "broker_subscribe i b = b\<lparr>br_channels := AList.update i [] (br_channels b)\<rparr>"

definition broker_publish :: "ID \<Rightarrow> interview_event \<Rightarrow> interviewBroker \<Rightarrow> bool \<times> interviewBroker" where
  "broker_publish i msg b = (case map_of (br_channels b) i of None \<Rightarrow> (False, b)
     | Some q \<Rightarrow> if int (length q) < br_capacity b
         then (True, b\<lparr>br_channels := AList.update i (q @ [msg]) (br_channels b)\<rparr>) else (False, b))"

definition broker_receive :: "ID \<Rightarrow> interviewBroker \<Rightarrow> interview_event option \<times> interviewBroker" where
  "broker_receive i b = (case map_of (br_channels b) i of
     Some (m # q) \<Rightarrow> (Some m, b\<lparr>br_channels := AList.update i q (br_channels b)\<rparr>) | _ \<Rightarrow> (None, b))"

definition broker_unsubscribe :: "ID \<Rightarrow> interviewBroker \<Rightarrow> interviewBroker" where
  "broker_unsubscribe i b = b\<lparr>br_channels := AList.delete i (br_channels b)\<rparr>"

subsection \<open>Interviews\<close>

text \<open>The broker is reached through the world; a stream accepts an event or fails.\<close>

record 'w InterviewServer =
  iw_interviewer :: "'w Interviewer"
  iw_subscribe :: "ID \<Rightarrow> 'w \<Rightarrow> 'w"
  iw_publish :: "ID \<Rightarrow> interview_event \<Rightarrow> 'w \<Rightarrow> 'w"
  iw_unsubscribe :: "ID \<Rightarrow> 'w \<Rightarrow> 'w"

type_synonym 'w stream = "interview_event \<Rightarrow> ('w, unit) rpc"

definition rpc_bind :: "('w, 'a) rpc \<Rightarrow> ('a \<Rightarrow> ('w, 'b) rpc) \<Rightarrow> ('w, 'b) rpc" where
  "rpc_bind m f = (\<lambda>w. case m w of (Inl st, w') \<Rightarrow> (Inl st, w') | (Inr a, w') \<Rightarrow> f a w')"

text \<open>The forwarding loop over the messages its channel delivers until the call is canceled.\<close>

fun forward :: "'w stream \<Rightarrow> interview_event list \<Rightarrow> ('w, unit) rpc" where
  "forward send [] = (\<lambda>w. (Inl (status_Error Canceled (Literal ''context canceled'')), w))"
| "forward send (msg # msgs) = rpc_bind (send msg) (\<lambda>u.
     case msg of ReportEvent rcard \<Rightarrow> (\<lambda>w. (Inr (), w)) | _ \<Rightarrow> forward send msgs)"

definition StartInterview :: "'w InterviewServer \<Rightarrow> Principal option \<Rightarrow> gostr \<Rightarrow> gostr \<Rightarrow> int \<Rightarrow> 'w stream \<Rightarrow>
    interview_event list \<Rightarrow> ('w, unit) rpc" where
  "StartInterview s ctx roleId candidateId mode send delivered =
     rpc_bind (rpc (io_bind (io_lift (requireSelfCandidate ctx candidateId PermScreenSelf)) (\<lambda>u.
       io_bind (Start (iw_interviewer s) roleId candidateId (interviewModeFromProto mode)) (\<lambda>(iv, question).
       case question of None \<Rightarrow> io_fail (PlainErr ''panic: nil question'' [] []) | Some q \<Rightarrow> io_ret (iv, q))))) (\<lambda>(iv, q) w.
     case rpc_bind (send (statusEvent ''open'' ''interview opened'')) (\<lambda>u.
          rpc_bind (send (questionEvent (Iv_ID iv) q)) (\<lambda>u. forward send delivered)) (iw_subscribe s (Iv_ID iv) w) of
       (r, w') \<Rightarrow> (r, iw_unsubscribe s (Iv_ID iv) w'))"

definition SubmitAnswer :: "'w InterviewServer \<Rightarrow> Principal option \<Rightarrow> gostr \<Rightarrow> gostr \<Rightarrow> ('w, bool) rpc" where
  "SubmitAnswer s ctx interviewId answer = rpc (
     io_bind (io_lift (RequirePermission ctx PermScreenSelf)) (\<lambda>p.
     io_bind (CandidateForInterview (iw_interviewer s) interviewId) (\<lambda>owner.
     io_bind (io_guard (owner \<noteq> Pri_UserID p) (Forbidden ''auth: candidates may only answer their own interview'')) (\<lambda>u.
     io_bind (Interviewer_Answer (iw_interviewer s) interviewId answer) (\<lambda>(pending, report).
     io_bind (case report of Some rcard \<Rightarrow> io_do (iw_publish s interviewId (reportEvent rcard))
       | None \<Rightarrow> (case pending of Some q \<Rightarrow> io_do (iw_publish s interviewId (questionEvent interviewId q)) | None \<Rightarrow> io_ret ())) (\<lambda>u.
     io_ret True))))))"

definition authorizeReportCardAccess :: "'w InterviewServer \<Rightarrow> Principal \<Rightarrow> ID \<Rightarrow> ReportCard \<Rightarrow> ('w, unit) io" where
  "authorizeReportCardAccess s p interviewID rcard =
     (let denied = Forbidden ''auth: not permitted to view this report card'' in
     if Pri_Role p = Role_String RoleCandidate then
       (if Pri_UserID p = RC_CandidateID rcard \<and> principalHasPermission p PermViewReportCard then io_ret () else io_fail denied)
     else if Pri_Role p = Role_String RoleEmployer \<or> Pri_Role p = Role_String RoleRecruiter then
       (if \<not> principalHasPermission p PermViewReportCard then io_fail denied
        else io_bind (EmployerForInterview (iw_interviewer s) interviewID) (\<lambda>employerID.
             if Pri_UserID p = employerID then io_ret () else io_fail denied))
     else io_fail denied)"

definition GetReportCard :: "'w InterviewServer \<Rightarrow> Principal option \<Rightarrow> gostr \<Rightarrow> ('w, pb_ReportCard) rpc" where
  "GetReportCard s ctx interviewId = rpc (
     io_bind (io_lift (RequireAuth ctx)) (\<lambda>p.
     io_bind (Interviewer_Report (iw_interviewer s) interviewId) (\<lambda>rcard.
     io_bind (authorizeReportCardAccess s p interviewId rcard) (\<lambda>u.
     io_ret (reportCardToProto rcard)))))"

subsection \<open>The candidate's agent\<close>

text \<open>Without a task queue the agent runs within the call.\<close>

record 'w AgentServer =
  as_runner :: "'w AgentRunner"
  as_apps :: "'w ApplicationRepository"
  as_dispatch :: "(ID \<Rightarrow> ('w, gostr) io) option"

definition RunAgent :: "'w AgentServer \<Rightarrow> Principal option \<Rightarrow> gostr \<Rightarrow> ('w, gostr) rpc" where
  "RunAgent s ctx candidateId = rpc (
     io_bind (io_lift (requireSelfCandidate ctx candidateId PermRunAgent)) (\<lambda>u.
     case as_dispatch s of
       None \<Rightarrow> io_bind (Run (as_runner s) candidateId 0) (\<lambda>v. io_ret [])
     | Some dispatch \<Rightarrow> dispatch candidateId))"

definition TimeAdvance :: "'w AgentServer \<Rightarrow> Principal option \<Rightarrow> gostr \<Rightarrow> ('w, pb_WakeUpView) rpc" where
  "TimeAdvance s ctx candidateId = rpc (
     io_bind (io_lift (requireSelfCandidate ctx candidateId PermRunAgent)) (\<lambda>u.
     case as_dispatch s of
       None \<Rightarrow> io_bind (Run (as_runner s) candidateId 0) (\<lambda>v. io_ret (wakeUpToProto v))
     | Some dispatch \<Rightarrow>
         io_bind (dispatch candidateId) (\<lambda>task.
         io_bind (io_try (WakeUpView_of (as_runner s) candidateId)) (\<lambda>v.
         io_ret (wakeUpToProto (case v of Inl err \<Rightarrow> zero_view | Inr v \<Rightarrow> v))))))"

definition GetWakeUpView :: "'w AgentServer \<Rightarrow> Principal option \<Rightarrow> gostr \<Rightarrow> ('w, pb_WakeUpView) rpc" where
  "GetWakeUpView s ctx candidateId = rpc (
     io_bind (io_lift (requireSelfCandidate ctx candidateId PermRunAgent)) (\<lambda>u.
     io_bind (WakeUpView_of (as_runner s) candidateId) (\<lambda>v. io_ret (wakeUpToProto v))))"

definition ListApplications :: "'w AgentServer \<Rightarrow> Principal option \<Rightarrow> gostr \<Rightarrow> pb_PageRequest option \<Rightarrow>
    ('w, pb_Application list \<times> pb_PageResponse) rpc" where
  "ListApplications s ctx candidateId pg = rpc (
     io_bind (io_lift (requireSelfCandidate ctx candidateId PermRunAgent)) (\<lambda>u.
     let page = pageFromProto pg in
     io_bind (Apps_ByCandidate (as_apps s) candidateId page) (\<lambda>(apps, tot).
     io_ret (map applicationToProto apps, pageResponseToProto page tot))))"

subsection \<open>The rights over one's data\<close>

record 'w PrivacyServer =
  pv_exporter :: "'w Exporter"
  pv_eraser :: "'w Eraser option"
  pv_JSON :: "DataExport \<Rightarrow> gostr res"

text \<open>\<open>None\<close> is an export whose paging does not end.\<close>

definition ExportMyData :: "'w PrivacyServer \<Rightarrow> Principal option \<Rightarrow> 'w \<Rightarrow> ((Status + gostr) \<times> 'w) option" where
  "ExportMyData s ctx w = (case RequirePermission ctx PermManagePrivacy of
     Inl err \<Rightarrow> Some (Inl (errToStatus err), w)
   | Inr p \<Rightarrow> map_option (\<lambda>(r, w'). (case r of
       Inl err \<Rightarrow> Inl (errToStatus err)
     | Inr out \<Rightarrow> map_sum errToStatus id (pv_JSON s out), w')) (ExportCandidate (pv_exporter s) (Pri_UserID p) w))"

definition DeleteMyData :: "'w PrivacyServer \<Rightarrow> Principal option \<Rightarrow> ('w, unit) rpc" where
  "DeleteMyData s ctx = (case RequirePermission ctx PermManagePrivacy of
     Inl err \<Rightarrow> (\<lambda>w. (Inl (errToStatus err), w))
   | Inr p \<Rightarrow> (case pv_eraser s of
       None \<Rightarrow> (\<lambda>w. (Inl (status_Error Unimplemented (Literal ''privacy: data erasure is not available in this environment'')), w))
     | Some eraser \<Rightarrow> rpc (EraseCandidate eraser (Pri_UserID p))))"

subsection \<open>The broker never blocks and never grows beyond its capacity\<close>

definition broker_inv :: "interviewBroker \<Rightarrow> bool" where
  "broker_inv b \<longleftrightarrow> 0 < br_capacity b \<and> (\<forall>i q. map_of (br_channels b) i = Some q \<longrightarrow> int (length q) \<le> br_capacity b)"

lemma broker_new: "broker_inv (newInterviewBrokerWithCapacity n)"
  by (simp add: broker_inv_def newInterviewBrokerWithCapacity_def)

lemma broker_keeps:
  assumes "broker_inv b"
  shows "broker_inv (broker_subscribe i b)" and "broker_inv (snd (broker_publish i msg b))"
    and "broker_inv (snd (broker_receive i b))" and "broker_inv (broker_unsubscribe i b)"
  using assms by (auto simp: broker_inv_def broker_subscribe_def broker_publish_def broker_receive_def broker_unsubscribe_def
      update_conv' delete_conv' dest: spec [of _ i] split: option.splits list.splits if_splits)

text \<open>A stream reads exactly the accepted events, in the order of their publication.\<close>

lemma broker_publish_queue:
  "broker_publish i msg b = (True, b') \<Longrightarrow> \<exists>q. map_of (br_channels b) i = Some q \<and> map_of (br_channels b') i = Some (q @ [msg])"
  "broker_publish i msg b = (False, b') \<Longrightarrow> b' = b"
  by (auto simp: broker_publish_def update_conv' split: option.splits if_splits)

lemma broker_receive_queue:
  "map_of (br_channels b) i = Some (m # q) \<Longrightarrow> broker_receive i b = (Some m, b') \<Longrightarrow> map_of (br_channels b') i = Some q"
  by (auto simp: broker_receive_def update_conv')

text \<open>No stream sees the events of another interview.\<close>

lemma broker_others:
  assumes "j \<noteq> i"
  shows "map_of (br_channels (broker_subscribe i b)) j = map_of (br_channels b) j"
    and "map_of (br_channels (snd (broker_publish i msg b))) j = map_of (br_channels b) j"
    and "map_of (br_channels (broker_unsubscribe i b)) j = map_of (br_channels b) j"
  using assms by (auto simp: broker_subscribe_def broker_publish_def broker_unsubscribe_def update_conv' delete_conv'
      split: option.splits)

text \<open>An event for an interview without a stream is dropped, as is one for a full buffer.\<close>

lemma broker_drops:
  "map_of (br_channels b) i = None \<Longrightarrow> broker_publish i msg b = (False, b)"
  "map_of (br_channels b) i = Some q \<Longrightarrow> br_capacity b \<le> int (length q) \<Longrightarrow> broker_publish i msg b = (False, b)"
  by (simp_all add: broker_publish_def)

subsection \<open>What the handlers let through\<close>

text \<open>A stream ends with the report card: nothing is sent after it.\<close>

lemma forward_report:
  assumes "\<And>e w. send e w = (Inr (), f e w)" and "\<forall>m \<in> set ms. \<forall>rc. m \<noteq> ReportEvent rc"
  shows "forward send (ms @ ReportEvent rc # rest) w = (Inr (), fold f (ms @ [ReportEvent rc]) w)"
  using assms(2)
proof (induction ms arbitrary: w)
  case Nil
  then show ?case by (simp add: rpc_bind_def assms(1))
next
  case (Cons m ms)
  then show ?case by (cases m) (simp_all add: rpc_bind_def assms(1))
qed

text \<open>A report card is shown to its candidate or to the employer of its role, with the permission to view it.\<close>

lemma GetReportCard_private:
  assumes "GetReportCard s ctx i w = (Inr rc, w')"
  obtains p rcard v where "ctx = Some p" "principalHasPermission p PermViewReportCard"
    "Interviewer_Report (iw_interviewer s) i w = (Inr rcard, v)" "rc = reportCardToProto rcard"
    "Pri_UserID p = RC_CandidateID rcard \<or> EmployerForInterview (iw_interviewer s) i v = (Inr (Pri_UserID p), w')"
proof -
  from assms obtain p rcard v where p: "ctx = Some p" "Interviewer_Report (iw_interviewer s) i w = (Inr rcard, v)"
    "authorizeReportCardAccess s p i rcard v = (Inr (), w')" "rc = reportCardToProto rcard"
    unfolding GetReportCard_def by (auto simp: rpc_Inr io_ok_iffs io_bind_ok guards)
  from p(3) have "principalHasPermission p PermViewReportCard \<and>
      (Pri_UserID p = RC_CandidateID rcard \<or> EmployerForInterview (iw_interviewer s) i v = (Inr (Pri_UserID p), w'))"
    by (auto simp: authorizeReportCardAccess_def Let_def io_ok_iffs io_bind_ok io_cases_ok simp del: Role_String.simps split: if_splits)
  with p that show ?thesis by blast
qed

text \<open>An oversized intake is refused before anything else is read.\<close>

lemma validateIntake_ok:
  "validateIntake (Some p) = Inr u \<longleftrightarrow> int (length (pci_TargetTitles p)) \<le> maxTargetTitles \<and>
     (\<forall>t \<in> set (pci_TargetTitles p). rune_count t \<le> maxIntakeFieldLen) \<and> rune_count (pci_Location p) \<le> maxIntakeFieldLen \<and>
     int (length (pci_DealBreakers p)) \<le> maxDealBreakers \<and> (\<forall>d \<in> set (pci_DealBreakers p). rune_count d \<le> maxDealBreakerLen)"
  by (force simp: validateIntake_def not_le)

subsection \<open>The salary floor of a candidate\<close>

definition memory_talent :: "World LLMClient \<Rightarrow> World Embedder \<Rightarrow> registry \<Rightarrow> readers \<Rightarrow> World TalentServer" where
  "memory_talent llm emb reg rd = \<lparr>ta_builder = memory_builder llm emb reg, ta_readers = rd\<rparr>"

lemma no_currency_no_gate: "e \<in> set (ScreenLogistics r i loc salaryFloor []) \<Longrightarrow> Ex_Gate e \<noteq> GateSalaryFloor"
  by (auto simp: ScreenLogistics_def salaryFloorExceedsBand_def Let_def GateLocation_def GateSalaryFloor_def strings_TrimSpace_def
      split: if_splits)

lemma CreateProfileFromCV_runs:
  assumes "CreateProfileFromCV s ctx req w = (Inr pr, w')"
  shows "\<exists>cvText p. CreateFromCV (ta_builder s) (pcv_CandidateId req) cvText (intakeFromProto (pcv_Intake req)) w = (Inr p, w') \<and>
    ctx = Some \<lparr>Pri_UserID = pcv_CandidateId req, Pri_Role = Role_String RoleCandidate\<rparr>"
  using assms by (auto simp: CreateProfileFromCV_def rpc_Inr io_ok_iffs io_bind_ok guards simp del: Role_String.simps)

text \<open>
  C30: The salary floor of a candidate is never enforced. The intake of the remote interface carries no
  currency, and the salary gate only compares amounts in one currency: once a candidate has built a profile
  through the interface, the floor is stored, but no role of whatever band excludes that candidate for it.
\<close>

theorem salary_floor_unenforced:
  assumes "outside_llm llm" and "\<forall>t. external (emb t)" and "ks_inv TP_ID TP_CandidateID (w_profiles w)"
    and "ks_inv Cand_ID Cand_UserID (w_candidates w)"
    and "CreateProfileFromCV (memory_talent llm emb reg rd) ctx req w = (Inr pr, w')"
  shows "\<exists>c. map_of (ks_byID (w_candidates w')) (pcv_CandidateId req) = Some c \<and>
    SalaryFloor (Cand_Intake c) = SalaryFloor (intakeFromProto (pcv_Intake req)) \<and>
    (\<forall>r. \<forall>e \<in> set (ScreenLogistics r (Cand_ID c) (Cand_Location c) (SalaryFloor (Cand_Intake c)) (SalaryCurrency (Cand_Intake c))).
       Ex_Gate e \<noteq> GateSalaryFloor)"
proof -
  from CreateProfileFromCV_runs [OF assms(5)] obtain cvText p where
    "CreateFromCV (memory_builder llm emb reg) (pcv_CandidateId req) cvText (intakeFromProto (pcv_Intake req)) w = (Inr p, w')"
    by (auto simp: memory_talent_def)
  from CreateFromCV_ok [OF assms(1-4) this] obtain c where
    "map_of (ks_byID (w_candidates w')) (pcv_CandidateId req) = Some (taken_in (intakeFromProto (pcv_Intake req)) c)" by auto
  then show ?thesis by (intro exI [of _ "taken_in (intakeFromProto (pcv_Intake req)) c"])
    (auto simp: taken_in_def intake_has_no_currency dest: no_currency_no_gate)
qed

definition sample_upload :: pb_CreateProfileFromCVRequest where
  "sample_upload = \<lparr>pcv_CandidateId = [67], pcv_CvText = lit ''At Acme I wrote SQL reports daily.'', pcv_CvFile = [],
     pcv_CvFilename = [], pcv_Intake = Some \<lparr>pci_TargetTitles = [], pci_Location = [], pci_SalaryFloor = Fin 9000, pci_DealBreakers = []\<rparr>\<rparr>"

definition no_readers :: readers where
  "no_readers = \<lparr>utf8_text = (\<lambda>b. []), pdf_plain = (\<lambda>b. Inl (Invalid [])), docx_archive = (\<lambda>b. Inl (Invalid []))\<rparr>"

lemma salary_floor_unenforced_witness:
  "\<exists>pr w'. CreateProfileFromCV (memory_talent sample_extractor (\<lambda>t. io_ret []) sample_registry no_readers)
       (Some \<lparr>Pri_UserID = [67], Pri_Role = lit ''candidate''\<rparr>) sample_upload sample_pool = (Inr pr, w') \<and>
     (\<exists>c. map_of (ks_byID (w_candidates w')) [67] = Some c \<and> SalaryFloor (Cand_Intake c) = Fin 9000 \<and>
       (\<forall>e \<in> set (ScreenLogistics (NewRequirements [] (Fin 4000) (lit ''GHS'') []) [67] (Cand_Location c)
          (SalaryFloor (Cand_Intake c)) (SalaryCurrency (Cand_Intake c))). Ex_Gate e \<noteq> GateSalaryFloor))"
proof -
  let ?run = "CreateProfileFromCV (memory_talent sample_extractor (\<lambda>t. io_ret []) sample_registry no_readers)
       (Some \<lparr>Pri_UserID = [67], Pri_Role = lit ''candidate''\<rparr>) sample_upload sample_pool"
  let ?intake = "intakeFromProto (pcv_Intake sample_upload)"
  let ?build = "CreateFromCV (memory_builder sample_extractor (\<lambda>t. io_ret []) sample_registry) [67] (pcv_CvText sample_upload) ?intake sample_pool"
  have "requireSelfCandidate (Some \<lparr>Pri_UserID = [67], Pri_Role = lit ''candidate''\<rparr>) [67] PermManageProfile = Inr ()"
    "validateIntake (pcv_Intake sample_upload) = Inr ()" "resolveCVText no_readers sample_upload = Inr (pcv_CvText sample_upload)"
    "pcv_CandidateId sample_upload = [67]" by code_simp+
  then have "?run = rpc (io_bind (\<lambda>w. ?build) (\<lambda>p. io_ret (talentProfileToProto p))) sample_pool"
    by (simp add: CreateProfileFromCV_def memory_talent_def rpc_def io_simps)
  moreover have "case fst ?build of Inl e \<Rightarrow> False | Inr p \<Rightarrow> True" by code_simp
  ultimately obtain pr w' where r: "?run = (Inr pr, w')" by (auto simp: rpc_Inr io_simps dest: run_ok)
  have "outside_llm sample_extractor" by (simp add: sample_extractor_def replying_outside)
  moreover have "\<forall>t. external (io_ret [] :: (World, rat list) io)" by (auto intro: externalI simp: io_simps)
  ultimately obtain c where c: "map_of (ks_byID (w_candidates w')) [67] = Some c" "SalaryFloor (Cand_Intake c) = Fin 9000"
    "\<forall>r. \<forall>e \<in> set (ScreenLogistics r (Cand_ID c) (Cand_Location c) (SalaryFloor (Cand_Intake c)) (SalaryCurrency (Cand_Intake c))).
       Ex_Gate e \<noteq> GateSalaryFloor"
    using salary_floor_unenforced [OF _ _ sample_pool_inv r] by (auto simp: sample_upload_def intakeFromProto_def)
  have "\<forall>e \<in> set (ScreenLogistics q [67] loc f k). Ex_Gate e \<noteq> GateSalaryFloor"
    if "\<forall>e \<in> set (ScreenLogistics q i loc f k). Ex_Gate e \<noteq> GateSalaryFloor" for q i loc f k
    using that by (auto simp: ScreenLogistics_def)
  with r c show ?thesis by blast
qed

end
