(* ===== verification/API_Review.thy ===== *)
theory API_Review
  imports Access Messages Privacy
begin

section \<open>Handlers of contests, the audit trail and accounts\<close>

text \<open>
  \<open>internal/adapters/inbound/grpc\<close>: contests (\<open>contest.go\<close>), the audit log and its report (\<open>audit.go\<close>) and
  accounts (\<open>identity.go\<close>). The text of a time stamp and of a file name's time are parameters. The lemmas
  show that the report pages through exactly the caller's matching entries and always ends, and that a row of
  its CSV form reads back to the fields it was written from.
\<close>

subsection \<open>Contests\<close>

definition RaiseContest :: "'w ContestService \<Rightarrow> Principal option \<Rightarrow> int \<Rightarrow> gostr \<Rightarrow> gostr \<Rightarrow> ('w, pb_Contest) rpc" where
  "RaiseContest s ctx subj subjectId reason = rpc (
     io_bind (io_lift (RequirePermission ctx PermRaiseContest)) (\<lambda>p.
     io_bind (io_lift (subjectFromProto subj)) (\<lambda>sub.
     io_bind (Raise s (Pri_UserID p) subjectId sub reason) (\<lambda>c. io_ret (contestToProto c)))))"

definition ListMyContests :: "'w ContestService \<Rightarrow> Principal option \<Rightarrow> pb_PageRequest option \<Rightarrow>
    ('w, pb_Contest list \<times> pb_PageResponse) rpc" where
  "ListMyContests s ctx pg = rpc (
     io_bind (io_lift (RequirePermission ctx PermRaiseContest)) (\<lambda>p.
     let page = pageFromProto pg in
     io_bind (ListForCandidate s (Pri_UserID p) page) (\<lambda>(xs, tot).
     io_ret (map contestToProto xs, pageResponseToProto page tot))))"

definition ResolveContest :: "'w ContestService \<Rightarrow> Principal option \<Rightarrow> gostr \<Rightarrow> bool \<Rightarrow> gostr \<Rightarrow> ('w, pb_Contest) rpc" where
  "ResolveContest s ctx contestId uphold note_text = rpc (
     io_bind (io_lift (RequirePermission ctx PermResolveContest)) (\<lambda>p.
     io_bind (Resolve s (Pri_UserID p) contestId uphold note_text) (\<lambda>c. io_ret (contestToProto c))))"

subsection \<open>The audit log\<close>

definition auditOwnerScope :: "Principal \<Rightarrow> ID res" where
  "auditOwnerScope p = (if Pri_Role p = Role_String RoleAdmin then Inr []
     else if ID_IsZero (Pri_UserID p) then Inl (Unauthorized ''audit: authenticated principal has no user id'')
     else Inr (Pri_UserID p))"

definition ListAuditLog :: "'w AuditRepository \<Rightarrow> Principal option \<Rightarrow> gostr \<Rightarrow> gostr \<Rightarrow> pb_PageRequest option \<Rightarrow>
    ('w, pb_AuditEntry list \<times> pb_PageResponse) rpc" where
  "ListAuditLog repo ctx entity entityID pg = rpc (
     io_bind (io_lift (RequirePermission ctx PermReadAuditLog)) (\<lambda>p.
     io_bind (io_guard (entity = [] \<or> ID_IsZero entityID) (Invalid ''audit: entity and entity_id are required'')) (\<lambda>u.
     io_bind (io_lift (auditOwnerScope p)) (\<lambda>owner.
     let page = pageFromProto pg in
     io_bind (Audit_ListForOwner repo entity entityID owner page) (\<lambda>(entries, tot).
     io_ret (map auditEntryToProto entries, pageResponseToProto page tot))))))"

record pb_ExportAuditReportRequest =
  per_StartTime :: "time option"
  per_EndTime :: "time option"
  per_Actions :: "gostr list"
  per_Entities :: "gostr list"
  per_Format :: int

record pb_ExportAuditReportResponse =
  pex_Payload :: gostr
  pex_Filename :: gostr
  pex_ContentType :: string

definition exportFilterFromProto :: "pb_ExportAuditReportRequest \<Rightarrow> ReportFilter res" where
  "exportFilterFromProto req = (case (per_StartTime req, per_EndTime req) of
     (Some start, Some stop) \<Rightarrow>
       if stop < start then Inl (Invalid ''audit: end_time must be after start_time'')
       else Inr \<lparr>Filter_Start = start, Filter_End = stop, Filter_Actions = per_Actions req, Filter_Entities = per_Entities req\<rparr>
   | _ \<Rightarrow> Inl (Invalid ''audit: start_time and end_time are required''))"

definition maxReportEntries :: int where "maxReportEntries = 10000"
definition reportPageSize :: int where "reportPageSize = 100"

function collectReportEntries :: "'w AuditRepository \<Rightarrow> ReportFilter \<Rightarrow> ID \<Rightarrow> int \<Rightarrow> AuditEntry list \<Rightarrow> ('w, AuditEntry list) io" where
  "collectReportEntries repo f ownerID pageNum acc w =
     (case Audit_SearchForOwner repo f ownerID (NewPage pageNum reportPageSize) w of
        (Inl err, w') \<Rightarrow> (Inl err, w')
      | (Inr (batch, tot), w') \<Rightarrow>
          if maxReportEntries < int (length (acc @ batch))
            then (Inl (Invalidf ''audit: report exceeds %d rows; narrow the filter'' [AInt maxReportEntries]), w')
          else if batch = [] \<or> tot \<le> int (length (acc @ batch)) then (Inr (acc @ batch), w')
          else collectReportEntries repo f ownerID (pageNum + 1) (acc @ batch) w')"
  by pat_completeness auto

termination
  by (relation "measure (\<lambda>(repo, f, ownerID, pageNum, acc, w). nat (maxReportEntries + 1 - int (length acc)))")
    (auto simp: neq_Nil_conv)

declare collectReportEntries.simps [simp del]

text \<open>The CSV writer quotes a field with a comma, a quote, a line break, a leading space or the end-of-data mark.\<close>

definition fieldNeedsQuotes :: "gostr \<Rightarrow> bool" where
  "fieldNeedsQuotes field = (if field = [] then False else if field = [92, 46] then True
     else if set field \<inter> {10, 13, 34, 44} \<noteq> {} then True else unicode_IsSpace (hd field))"

definition csv_field :: "gostr \<Rightarrow> gostr" where
  "csv_field field = (if fieldNeedsQuotes field
     then [34] @ concat (map (\<lambda>c. if c = 34 then [34, 34] else [c]) field) @ [34] else field)"

definition csv_row :: "gostr list \<Rightarrow> gostr" where
  "csv_row fs = strings_Join (map csv_field fs) [44] @ [10]"

definition report_columns :: "string list" where
  "report_columns = [''id'', ''actor_user_id'', ''action'', ''entity'', ''entity_id'', ''before_json'', ''after_json'', ''timestamp'']"

definition marshalAuditCSV :: "(time \<Rightarrow> gostr) \<Rightarrow> AuditEntry list \<Rightarrow> gostr" where
  "marshalAuditCSV rfc3339 entries = csv_row (map lit report_columns) @
     concat (map (\<lambda>e. csv_row [Aud_ID e, ActorUserID e, Aud_Action e, Entity e, EntityID e, BeforeJSON e, AfterJSON e,
       rfc3339 (Timestamp e)]) entries)"

text \<open>A map is encoded with its keys in order.\<close>

definition marshalAuditJSON :: "(time \<Rightarrow> gostr) \<Rightarrow> AuditEntry list \<Rightarrow> gostr" where
  "marshalAuditJSON rfc3339 entries = json_Marshal (JArr (map (\<lambda>e. JObj
     [(''action'', JStr (Aud_Action e)), (''actor_user_id'', JStr (ActorUserID e)), (''after_json'', JStr (AfterJSON e)),
      (''before_json'', JStr (BeforeJSON e)), (''entity'', JStr (Entity e)), (''entity_id'', JStr (EntityID e)),
      (''id'', JStr (Aud_ID e)), (''timestamp'', JStr (rfc3339 (Timestamp e)))]) entries))"

record 'w AuditServer =
  ad_audit :: "'w AuditRepository"
  ad_rfc3339 :: "time \<Rightarrow> gostr"
  ad_stamp :: "time \<Rightarrow> gostr"
  ad_now :: "'w Clock"

definition reportFilename :: "'w AuditServer \<Rightarrow> gostr \<Rightarrow> gostr \<Rightarrow> ('w, gostr) io" where
  "reportFilename s pre ext = io_bind (io_of (ad_now s)) (\<lambda>now. io_ret (pre @ [45] @ ad_stamp s now @ [46] @ ext))"

definition renderReport :: "'w AuditServer \<Rightarrow> AuditEntry list \<Rightarrow> int \<Rightarrow> ('w, pb_ExportAuditReportResponse) io" where
  "renderReport s entries fmt =
     (if fmt = 2 then io_bind (reportFilename s (lit ''audit-report'') (lit ''csv'')) (\<lambda>fname.
        io_ret \<lparr>pex_Payload = marshalAuditCSV (ad_rfc3339 s) entries, pex_Filename = fname, pex_ContentType = ''text/csv''\<rparr>)
      else if fmt = 1 then io_bind (reportFilename s (lit ''audit-report'') (lit ''json'')) (\<lambda>fname.
        io_ret \<lparr>pex_Payload = marshalAuditJSON (ad_rfc3339 s) entries, pex_Filename = fname, pex_ContentType = ''application/json''\<rparr>)
      else io_fail (Invalid ''audit: format must be JSON or CSV''))"

definition ExportAuditReport :: "'w AuditServer \<Rightarrow> Principal option \<Rightarrow> pb_ExportAuditReportRequest \<Rightarrow>
    ('w, pb_ExportAuditReportResponse) rpc" where
  "ExportAuditReport s ctx req = rpc (
     io_bind (io_lift (RequirePermission ctx PermReadAuditLog)) (\<lambda>p.
     io_bind (io_lift (exportFilterFromProto req)) (\<lambda>f.
     io_bind (io_lift (auditOwnerScope p)) (\<lambda>owner.
     io_bind (collectReportEntries (ad_audit s) f owner 1 []) (\<lambda>entries.
     renderReport s entries (per_Format req))))))"

subsection \<open>Accounts\<close>

definition IdentityServer_Register :: "'w IdentityService \<Rightarrow> gostr \<Rightarrow> gostr \<Rightarrow> gostr \<Rightarrow> int \<Rightarrow> ('w, pb_User \<times> pb_TokenPair) rpc" where
  "IdentityServer_Register s email password nam r = rpc (
     io_bind (io_lift (userRoleFromProto r)) (\<lambda>rl.
     io_bind (Register s \<lparr>In_Email = email, In_Password = password, In_Name = nam, In_Role = rl\<rparr>) (\<lambda>ses.
     io_ret (userToProto (Ses_User ses), tokenPairToProto ses))))"

definition IdentityServer_Login :: "'w IdentityService \<Rightarrow> gostr \<Rightarrow> gostr \<Rightarrow> ('w, pb_User \<times> pb_TokenPair) rpc" where
  "IdentityServer_Login s email password = rpc (
     io_bind (Login s email password) (\<lambda>ses. io_ret (userToProto (Ses_User ses), tokenPairToProto ses)))"

definition IdentityServer_Refresh :: "'w IdentityService \<Rightarrow> gostr \<Rightarrow> ('w, pb_TokenPair) rpc" where
  "IdentityServer_Refresh s tok = rpc (io_bind (Refresh s tok) (\<lambda>ses. io_ret (tokenPairToProto ses)))"

definition IdentityServer_Logout :: "'w IdentityService \<Rightarrow> gostr \<Rightarrow> ('w, unit) rpc" where
  "IdentityServer_Logout s tok = rpc (Logout s tok)"

definition GetMe :: "'w IdentityService \<Rightarrow> Principal option \<Rightarrow> ('w, pb_User) rpc" where
  "GetMe s ctx = rpc (
     io_bind (io_lift (RequireAuth ctx)) (\<lambda>p.
     io_bind (Me s (Pri_UserID p)) (\<lambda>u. io_ret (userToProto u))))"

subsection \<open>The report is the caller's part of the trail\<close>

lemma auditOwnerScope_ok:
  "auditOwnerScope p = Inr owner \<longleftrightarrow> Pri_Role p = Role_String RoleAdmin \<and> owner = [] \<or>
     Pri_Role p \<noteq> Role_String RoleAdmin \<and> owner = Pri_UserID p \<and> \<not> ID_IsZero owner"
  by (auto simp: auditOwnerScope_def simp del: Role_String.simps)

definition report_of :: "ReportFilter \<Rightarrow> ID \<Rightarrow> World \<Rightarrow> AuditEntry list" where
  "report_of f ownerID w = filter (\<lambda>e. searchMatches e f ownerID) (rev (w_audit w))"

lemma serves_report:
  assumes "int (length (w_audit w)) < 2 ^ 62"
  shows "serves (\<lambda>p. Audit_SearchForOwner memory_audit f ownerID p) w (report_of f ownerID w)"
proof -
  have "int (length (report_of f ownerID w)) < 2 ^ 62"
    using assms length_filter_le [of "\<lambda>e. searchMatches e f ownerID" "rev (w_audit w)"] by (simp add: report_of_def)
  then show ?thesis
    by (simp add: serves_def memory_audit_def io_simps AuditRepo_SearchForOwner_def audit_paginate_def page_result_ok flip: report_of_def)
qed

text \<open>The loop over the pages returns all matching entries, or refuses a report that is too long.\<close>

lemma collectReportEntries_pages:
  assumes "serves (\<lambda>p. Audit_SearchForOwner repo f ownerID p) w xs" and "1 \<le> n" and "n \<le> 101"
    and "n = 1 \<or> (n - 1) * 100 < int (length xs)"
  shows "collectReportEntries repo f ownerID n (take (nat ((n - 1) * 100)) xs) w =
    (if int (length xs) \<le> maxReportEntries then Inr xs
     else Inl (Invalidf ''audit: report exceeds %d rows; narrow the filter'' [AInt maxReportEntries]), w)"
  using assms(2-4)
proof (induction "nat (102 - n)" arbitrary: n rule: less_induct)
  case less
  let ?acc = "take (nat ((n - 1) * 100)) xs" and ?batch = "take 100 (drop (nat ((n - 1) * 100)) xs)"
  have np: "NewPage n reportPageSize = \<lparr>Number = n, Size = 100\<rparr>"
    using less.prems by (simp add: NewPage_def reportPageSize_def MaxPageSize_def DefaultPageSize_def)
  have "page_ok \<lparr>Number = n, Size = 100\<rparr>" using less.prems by (simp add: page_ok_def MaxPageSize_def)
  then have rd: "Audit_SearchForOwner repo f ownerID (NewPage n reportPageSize) w = (Inr (?batch, int (length xs)), w)"
    using assms(1) by (simp add: serves_def np)
  have "nat (n * 100) = nat ((n - 1) * 100) + 100" using less.prems(1) by simp
  then have acc: "?acc @ ?batch = take (nat (n * 100)) xs" by (simp only: take_add)
  let ?all = "take (nat (n * 100)) xs"
  let ?long = "Inl (Invalidf ''audit: report exceeds %d rows; narrow the filter'' [AInt maxReportEntries])"
  have step: "collectReportEntries repo f ownerID n ?acc w =
      (if maxReportEntries < int (length ?all) then (?long, w)
       else if ?batch = [] \<or> int (length xs) \<le> int (length ?all) then (Inr ?all, w)
       else collectReportEntries repo f ownerID (n + 1) ?all w)"
    by (subst collectReportEntries.simps) (simp only: rd prod.case sum.case acc)
  show ?case
  proof (cases "int (length xs) \<le> n * 100")
    case True
    then have "?all = xs" by simp
    with step show ?thesis by (simp del: take_all_iff)
  next
    case False
    then have len: "int (length ?all) = n * 100" using less.prems(1) by simp
    show ?thesis
    proof (cases "n = 101")
      case True
      with len False show ?thesis unfolding step by (simp add: maxReportEntries_def)
    next
      case False': False
      have "collectReportEntries repo f ownerID (n + 1) (take (nat ((n + 1 - 1) * 100)) xs) w =
          (if int (length xs) \<le> maxReportEntries then Inr xs else ?long, w)"
        by (rule less.hyps) (use False False' less.prems in auto)
      moreover have "?batch \<noteq> []" using False less.prems(1) by auto
      ultimately show ?thesis using len False False' less.prems unfolding step by (simp add: maxReportEntries_def)
    qed
  qed
qed

lemma collectReportEntries_exact:
  assumes "int (length (w_audit w)) < 2 ^ 62"
  shows "collectReportEntries memory_audit f ownerID 1 [] w =
    (if int (length (report_of f ownerID w)) \<le> maxReportEntries then Inr (report_of f ownerID w)
     else Inl (Invalidf ''audit: report exceeds %d rows; narrow the filter'' [AInt maxReportEntries]), w)"
  using collectReportEntries_pages [OF serves_report [OF assms], of 1] by simp

text \<open>A reviewer's report holds that reviewer's entries, within the asked time span, and nothing else.\<close>

lemma report_scoped:
  assumes "e \<in> set (report_of f ownerID w)" and "\<not> ID_IsZero ownerID"
  shows "OwnerID e = ownerID \<and> e \<in> set (w_audit w) \<and>
    (time_IsZero (Timestamp e) \<or> Filter_Start f \<le> Timestamp e \<and> Timestamp e \<le> Filter_End f)"
  using assms by (auto simp: report_of_def searchMatches_def split: if_splits)

subsection \<open>Reading a row back\<close>

text \<open>A field as a CSV reader takes it: up to the separator, or up to the closing quote.\<close>

fun csv_unquote :: "gostr \<Rightarrow> gostr \<times> gostr" where
  "csv_unquote [] = ([], [])"
| "csv_unquote (c # s) = (if c \<noteq> 34 then apfst ((#) c) (csv_unquote s)
     else case s of [] \<Rightarrow> ([], []) | d # t \<Rightarrow> if d = 34 then apfst ((#) 34) (csv_unquote t) else ([], s))"

definition csv_read_field :: "gostr \<Rightarrow> gostr \<times> gostr" where
  "csv_read_field s = (if s \<noteq> [] \<and> hd s = 34 then csv_unquote (tl s)
     else (takeWhile (\<lambda>c. c \<notin> {10, 44}) s, dropWhile (\<lambda>c. c \<notin> {10, 44}) s))"

fun csv_read_row :: "nat \<Rightarrow> gostr \<Rightarrow> gostr list" where
  "csv_read_row 0 s = []"
| "csv_read_row (Suc n) s = (case csv_read_field s of (f, r) \<Rightarrow>
     if r \<noteq> [] \<and> hd r = 44 then f # csv_read_row n (tl r) else [f])"

lemma csv_unquote_quoted:
  "sep \<noteq> 34 \<Longrightarrow> csv_unquote (concat (map (\<lambda>c. if c = 34 then [34, 34] else [c]) f) @ 34 # sep # rest) = (f, sep # rest)"
  by (induction f) auto

lemma csv_read_field_back:
  assumes "sep \<in> {10, 44}"
  shows "csv_read_field (csv_field f @ sep # rest) = (f, sep # rest)"
proof (cases "fieldNeedsQuotes f")
  case True
  then show ?thesis using assms csv_unquote_quoted [of sep f rest] by (auto simp: csv_field_def csv_read_field_def)
next
  case False
  then have q: "34 \<notin> set f" "\<forall>c \<in> set f. c \<notin> {10, 44}" by (auto simp: fieldNeedsQuotes_def split: if_splits)
  then have f: "\<forall>c \<in> set f. c \<notin> {10, 44}" "f = [] \<or> hd f \<noteq> 34" by (auto dest: hd_in_set)
  then have "takeWhile (\<lambda>c. c \<notin> {10, 44}) (f @ sep # rest) = f" "dropWhile (\<lambda>c. c \<notin> {10, 44}) (f @ sep # rest) = sep # rest"
    using assms by (auto simp: takeWhile_append dropWhile_append)
  moreover have "hd (f @ sep # rest) \<noteq> 34" using f(2) assms by (cases f) auto
  ultimately show ?thesis using False by (simp add: csv_field_def csv_read_field_def)
qed

lemma strings_Join_Cons: "strings_Join (x # xs) sep = x @ (if xs = [] then [] else sep @ strings_Join xs sep)"
  by (cases xs) simp_all

lemma csv_row_roundtrip: "fs \<noteq> [] \<Longrightarrow> csv_read_row (length fs) (csv_row fs @ rest) = fs"
proof (induction fs)
  case (Cons f fs)
  show ?case
  proof (cases "fs = []")
    case True
    then show ?thesis using csv_read_field_back [of 10 f rest] by (simp add: csv_row_def)
  next
    case False
    have "csv_row (f # fs) @ rest = csv_field f @ 44 # (csv_row fs @ rest)"
      using False by (simp add: csv_row_def strings_Join_Cons)
    then show ?thesis using csv_read_field_back [of 44 f] Cons.IH [OF False] by simp
  qed
qed simp

end
