(* ===== verification/Dashboard.thy ===== *)
theory Dashboard
  imports Shortlist Go_Time
begin

section \<open>The Talent Radar\<close>

text \<open>
  \<open>internal/app/dashboard\<close>: the read models of the dashboard (\<open>aggregator.go\<close>), their TTL cache
  (\<open>cache.go\<close>) and the cached decorator (\<open>cached.go\<close>), both of which are a \<open>TalentRadar\<close> (\<open>radar.go\<close>). The
  iteration order of the family map and the sort are parameters, as is the quoting of \<open>%q\<close>. The loop over
  the matches of a role is \<open>partial_function\<close>: nothing but the repository decides when its pages end. The
  lemmas show that an alert rests on a strong fit, that the cache never serves a value past its time to
  live, and that the cached alert feed is cut at one page.
\<close>

definition baselineHours :: f64 where "baselineHours = Fin 504"
definition strongFitThreshold :: f64 where "strongFitThreshold = f64_of (7 / 10)"
definition alertRoleScanLimit :: int where "alertRoleScanLimit = 50"
definition alertCandidateScan :: int where "alertCandidateScan = 200"
definition timeToShortlistRoleScanLimit :: int where "timeToShortlistRoleScanLimit = 50"
definition fallbackCurrentHours :: f64 where "fallbackCurrentHours = Fin 2"
definition minCurrentHours :: f64 where "minCurrentHours = Fin 1"

definition AlertCandidateForRole :: gostr where "AlertCandidateForRole = lit ''candidate_for_role''"
definition AlertRoleForCandidate :: gostr where "AlertRoleForCandidate = lit ''role_for_candidate''"

record PoolCandidate =
  Pool_CandidateID :: ID
  Pool_Name :: gostr
  Pool_PassportStatus :: passport_status
  HeadlineScore :: f64

record SupplyDemandItem =
  RoleFamily :: gostr
  OpenRoles :: int
  AvailableCandidates :: int
  Gap :: int

record MatchAlert =
  Alert_ID :: ID
  Alert_Type :: gostr
  Alert_RoleID :: ID
  Alert_CandidateID :: ID
  Alert_Message :: gostr

record TimeToShortlist =
  BaselineHours :: f64
  CurrentHours :: f64
  ImprovementFactor :: f64

record 'w Aggregator =
  dg_candidates :: "'w CandidateRepository"
  dg_profiles :: "'w TalentProfileRepository"
  dg_users :: "'w UserRepository"
  dg_roles :: "'w RoleRepository"
  dg_matches :: "'w MatchRepository option"
  dg_families :: "(gostr \<times> int) list \<Rightarrow> (gostr \<times> int) list"
  dg_sort :: "(SupplyDemandItem \<Rightarrow> SupplyDemandItem \<Rightarrow> bool) \<Rightarrow> SupplyDemandItem list \<Rightarrow> SupplyDemandItem list"
  dg_quote :: "gostr \<Rightarrow> gostr"

subsection \<open>The pool\<close>

definition headlineScore :: "TalentProfile \<Rightarrow> f64" where
  "headlineScore p = (if TP_Competencies p = [] then Fin 0
     else fdiv (fdiv (fold (\<lambda>c sum_h. fadd sum_h (PC_Level c)) (TP_Competencies p) (Fin 0))
       (f64_of (of_nat (length (TP_Competencies p))))) (Fin 5))"

definition pool_row :: "'w Aggregator \<Rightarrow> Candidate \<Rightarrow> ('w, PoolCandidate) io" where
  "pool_row a c =
     io_bind (io_try (Users_ByID (dg_users a) (Cand_UserID c))) (\<lambda>u.
     io_bind (io_try (Profiles_ByCandidateID (dg_profiles a) (Cand_ID c))) (\<lambda>p.
     io_ret \<lparr>Pool_CandidateID = Cand_ID c, Pool_Name = (case u of Inl err \<Rightarrow> [] | Inr u \<Rightarrow> User_Name u),
       Pool_PassportStatus = (case p of Inl err \<Rightarrow> PassportUnset | Inr p \<Rightarrow> TP_PassportStatus p),
       HeadlineScore = (case p of Inl err \<Rightarrow> Fin 0 | Inr p \<Rightarrow> headlineScore p)\<rparr>))"

definition Pool :: "'w Aggregator \<Rightarrow> Page \<Rightarrow> ('w, PoolCandidate list \<times> int) io" where
  "Pool a page =
     io_bind (Candidates_List (dg_candidates a) page) (\<lambda>(cs, tot).
     io_bind (io_map (pool_row a) cs) (\<lambda>rows. io_ret (rows, tot)))"

subsection \<open>Supply and demand\<close>

definition family_count :: "Role list \<Rightarrow> (gostr \<times> int) list" where
  "family_count rls = fold (\<lambda>rl m. let k = Seniority_String (Spec_Seniority (Role_Spec rl))
     in AList.update k ((case map_of m k of None \<Rightarrow> 0 | Some n \<Rightarrow> n) + 1) m) rls []"

definition SupplyDemand :: "'w Aggregator \<Rightarrow> ('w, SupplyDemandItem list) io" where
  "SupplyDemand a =
     io_bind (Roles_ListOpen (dg_roles a) (NewPage 1 MaxPageSize)) (\<lambda>(rls, n).
     io_bind (Candidates_List (dg_candidates a) (NewPage 1 1)) (\<lambda>(cs, totalCandidates).
     io_ret (dg_sort a (\<lambda>x y. RoleFamily x < RoleFamily y)
       (map (\<lambda>(family, opened). \<lparr>RoleFamily = family, OpenRoles = opened, AvailableCandidates = totalCandidates,
          Gap = opened - totalCandidates\<rparr>) (dg_families a (family_count rls))))))"

subsection \<open>Alerts\<close>

definition alertID :: "gostr \<Rightarrow> ID \<Rightarrow> ID \<Rightarrow> ID" where
  "alertID alertType roleID candidateID = alertType @ [58] @ roleID @ [58] @ candidateID"

definition pct :: "f64 \<Rightarrow> int" where
  "pct sc = int_of_f64 (fadd (fmul sc (Fin 100)) (Fin (1 / 2)))"

definition candidateForRoleAlert :: "'w Aggregator \<Rightarrow> Candidate \<Rightarrow> gostr \<Rightarrow> Role \<Rightarrow> Fit \<Rightarrow> MatchAlert" where
  "candidateForRoleAlert a c nam rl fit = \<lparr>Alert_ID = alertID AlertCandidateForRole (Role_ID rl) (Cand_ID c),
     Alert_Type = AlertCandidateForRole, Alert_RoleID = Role_ID rl, Alert_CandidateID = Cand_ID c,
     Alert_Message = lit ''New strong candidate for '' @ dg_quote a (Spec_Title (Role_Spec rl)) @ lit '': '' @ nam @
       lit '' matches '' @ dec_int (pct (Fit_Score fit)) @ lit ''% on the rubric.''\<rparr>"

definition roleForCandidateAlert :: "'w Aggregator \<Rightarrow> Candidate \<Rightarrow> gostr \<Rightarrow> Role \<Rightarrow> Fit \<Rightarrow> MatchAlert" where
  "roleForCandidateAlert a c nam rl fit = \<lparr>Alert_ID = alertID AlertRoleForCandidate (Role_ID rl) (Cand_ID c),
     Alert_Type = AlertRoleForCandidate, Alert_RoleID = Role_ID rl, Alert_CandidateID = Cand_ID c,
     Alert_Message = lit ''New role fits '' @ nam @ lit '': '' @ dg_quote a (Spec_Title (Role_Spec rl)) @
       lit '' ('' @ dec_int (pct (Fit_Score fit)) @ lit ''% match).''\<rparr>"

definition candidateSignalsFrom :: "TalentProfile \<Rightarrow> CandidateSignal list" where
  "candidateSignalsFrom p = map (\<lambda>c. \<lparr>CS_Name = PC_Name c, CS_Level = PC_Level c\<rparr>) (TP_Competencies p)"

definition rubricSignalsFrom :: "Role \<Rightarrow> RubricSignal list" where
  "rubricSignalsFrom rl = map (\<lambda>c. \<lparr>RS_Name = Comp_Name c, RS_Weight = Comp_Weight c, RS_MustHave = Comp_MustHave c\<rparr>)
     (Competencies (Role_Rubric rl))"

definition signalNamesFrom :: "RubricSignal list \<Rightarrow> gostr list" where
  "signalNamesFrom rs = map RS_Name rs"

definition roleLogisticsClear :: "Candidate \<Rightarrow> Role \<Rightarrow> bool" where
  "roleLogisticsClear c rl \<longleftrightarrow>
     (let req = NewRequirements (Spec_Location (Role_Spec rl)) (High (Spec_SalaryBand (Role_Spec rl)))
            (Currency (Spec_SalaryBand (Role_Spec rl))) []
      in ScreenLogistics req (Cand_ID c) (Cand_Location c) (SalaryFloor (Cand_Intake c)) (SalaryCurrency (Cand_Intake c)) = [])"

definition strongFit :: "Candidate \<Rightarrow> CandidateSignal list \<Rightarrow> Role \<Rightarrow> Fit option" where
  "strongFit c signals rl =
     (if \<not> roleLogisticsClear c rl then None
      else let rubric = rubricSignalsFrom rl
        in if isl (EnsureBiasSafe (signalNamesFrom rubric)) then None
           else let fit = ComputeFit rubric signals
             in if \<not> MustHavesMet fit \<or> flt (Fit_Score fit) strongFitThreshold then None else Some fit)"

text \<open>The loop over the open roles: the alerts so far and the best role with its fit.\<close>

fun alert_loop :: "'w Aggregator \<Rightarrow> Candidate \<Rightarrow> gostr \<Rightarrow> CandidateSignal list \<Rightarrow> Role list \<Rightarrow> MatchAlert list \<Rightarrow>
    (Role \<times> Fit) option \<Rightarrow> MatchAlert list \<times> (Role \<times> Fit) option" where
  "alert_loop a c nam signals [] out best = (out, best)"
| "alert_loop a c nam signals (rl # rls) out best = (case strongFit c signals rl of
     None \<Rightarrow> alert_loop a c nam signals rls out best
   | Some fit \<Rightarrow> alert_loop a c nam signals rls (out @ [candidateForRoleAlert a c nam rl fit])
       (case best of None \<Rightarrow> Some (rl, fit)
        | Some (r, f) \<Rightarrow> if flt (Fit_Score f) (Fit_Score fit) then Some (rl, fit) else best))"

definition candidateAlerts :: "'w Aggregator \<Rightarrow> Candidate \<Rightarrow> gostr \<Rightarrow> TalentProfile \<Rightarrow> Role list \<Rightarrow> MatchAlert list" where
  "candidateAlerts a c nam profile opened =
     (case alert_loop a c nam (candidateSignalsFrom profile) opened [] None of
        (out, None) \<Rightarrow> out
      | (out, Some (rl, fit)) \<Rightarrow> out @ [roleForCandidateAlert a c nam rl fit])"

definition candidateName :: "'w Aggregator \<Rightarrow> Candidate \<Rightarrow> ('w, gostr) io" where
  "candidateName a c =
     io_bind (io_try (Users_ByID (dg_users a) (Cand_UserID c))) (\<lambda>u.
     io_ret (case u of Inr u \<Rightarrow> if strings_TrimSpace (User_Name u) \<noteq> [] then User_Name u else lit ''A candidate''
       | Inl err \<Rightarrow> lit ''A candidate''))"

definition candidate_feed :: "'w Aggregator \<Rightarrow> Role list \<Rightarrow> Candidate \<Rightarrow> ('w, MatchAlert list) io" where
  "candidate_feed a opened c =
     io_bind (io_try (Profiles_ByCandidateID (dg_profiles a) (Cand_ID c))) (\<lambda>p. case p of
       Inl err \<Rightarrow> io_ret []
     | Inr profile \<Rightarrow> io_bind (candidateName a c) (\<lambda>nam. io_ret (candidateAlerts a c nam profile opened)))"

definition collectAlerts :: "'w Aggregator \<Rightarrow> Candidate list \<Rightarrow> Role list \<Rightarrow> ('w, MatchAlert list) io" where
  "collectAlerts a cs opened = io_bind (io_map (candidate_feed a opened) cs) (\<lambda>xss. io_ret (concat xss))"

text \<open>A page of the alerts, with their number; an offset below zero would panic.\<close>

definition pageAlerts :: "MatchAlert list \<Rightarrow> Page \<Rightarrow> (MatchAlert list \<times> int) res" where
  "pageAlerts xs page = page_result xs page"

definition Alerts :: "'w Aggregator \<Rightarrow> Page \<Rightarrow> ('w, MatchAlert list \<times> int) io" where
  "Alerts a page =
     io_bind (Roles_ListOpen (dg_roles a) (NewPage 1 alertRoleScanLimit)) (\<lambda>(opened, n).
     io_bind (Candidates_List (dg_candidates a) (NewPage 1 alertCandidateScan)) (\<lambda>(cs, m).
     io_bind (collectAlerts a cs opened) (\<lambda>xs. io_lift (pageAlerts xs page))))"

subsection \<open>The time to a shortlist\<close>

definition earliest :: "Match list \<Rightarrow> time \<Rightarrow> time" where
  "earliest ms first_at = fold (\<lambda>m t. if time_IsZero (Match_CreatedAt m) then t
     else if time_IsZero t \<or> Match_CreatedAt m < t then Match_CreatedAt m else t) ms first_at"

partial_function (option) first_match_from :: "'w MatchRepository \<Rightarrow> ID \<Rightarrow> Page \<Rightarrow> time \<Rightarrow> 'w \<Rightarrow> ((time option) \<times> 'w) option" where
  "first_match_from repo roleID page first_at w =
     (case Matches_ByRole repo roleID page w of
        (Inl err, w') \<Rightarrow> Some (None, w')
      | (Inr (ms, tot), w') \<Rightarrow>
          let t = earliest ms first_at
          in if ms = [] \<or> tot \<le> wrap64 (Offset page + int (length ms)) then Some (if time_IsZero t then None else Some t, w')
             else first_match_from repo roleID (NewPage (wrap64 (Number page + 1)) MaxPageSize) t w')"

definition firstMatchCreatedAt :: "'w MatchRepository \<Rightarrow> ID \<Rightarrow> 'w \<Rightarrow> ((time option) \<times> 'w) option" where
  "firstMatchCreatedAt repo roleID = first_match_from repo roleID (NewPage 1 MaxPageSize) 0"

fun shortlist_hours :: "'w MatchRepository \<Rightarrow> Role list \<Rightarrow> f64 \<Rightarrow> int \<Rightarrow> 'w \<Rightarrow> ((f64 \<times> int) \<times> 'w) option" where
  "shortlist_hours repo [] sum_h counted w = Some ((sum_h, counted), w)"
| "shortlist_hours repo (rl # rls) sum_h counted w = (case firstMatchCreatedAt repo (Role_ID rl) w of
     None \<Rightarrow> None
   | Some (None, w') \<Rightarrow> shortlist_hours repo rls sum_h counted w'
   | Some (Some t, w') \<Rightarrow>
       if time_IsZero (Role_CreatedAt rl) \<or> t < Role_CreatedAt rl then shortlist_hours repo rls sum_h counted w'
       else shortlist_hours repo rls (fadd sum_h (duration_Hours (time_Sub t (Role_CreatedAt rl)))) (counted + 1) w')"

definition mean_hours :: "f64 \<Rightarrow> int \<Rightarrow> f64" where
  "mean_hours sum_h counted = (if counted = 0 then Fin 0
     else let current = fdiv sum_h (f64_of (of_int counted)) in if flt current minCurrentHours then minCurrentHours else current)"

definition computedTimeToShortlistHours :: "'w Aggregator \<Rightarrow> 'w \<Rightarrow> (f64 \<times> 'w) option" where
  "computedTimeToShortlistHours a w = (case dg_matches a of None \<Rightarrow> Some (Fin 0, w)
     | Some repo \<Rightarrow> (case Roles_ListOpen (dg_roles a) (NewPage 1 timeToShortlistRoleScanLimit) w of
         (Inl err, w') \<Rightarrow> Some (Fin 0, w')
       | (Inr (rls, n), w') \<Rightarrow> map_option (\<lambda>((sum_h, counted), w'). (mean_hours sum_h counted, w'))
           (shortlist_hours repo rls (Fin 0) 0 w')))"

definition TimeToShortlist_of :: "'w Aggregator \<Rightarrow> 'w \<Rightarrow> (TimeToShortlist \<times> 'w) option" where
  "TimeToShortlist_of a w = map_option (\<lambda>(current, w').
     let current = (if fle current (Fin 0) then fallbackCurrentHours else current)
     in (\<lparr>BaselineHours = baselineHours, CurrentHours = current, ImprovementFactor = fdiv baselineHours current\<rparr>, w'))
     (computedTimeToShortlistHours a w)"

subsection \<open>The interface and its cached implementation\<close>

record 'w TalentRadar =
  Radar_Pool :: "Page \<Rightarrow> ('w, PoolCandidate list \<times> int) io"
  Radar_SupplyDemand :: "('w, SupplyDemandItem list) io"
  Radar_Alerts :: "Page \<Rightarrow> ('w, MatchAlert list \<times> int) io"
  Radar_TimeToShortlist :: "'w \<Rightarrow> (TimeToShortlist \<times> 'w) option"

definition Aggregator_radar :: "'w Aggregator \<Rightarrow> 'w TalentRadar" where
  "Aggregator_radar a = \<lparr>Radar_Pool = Pool a, Radar_SupplyDemand = SupplyDemand a, Radar_Alerts = Alerts a,
     Radar_TimeToShortlist = TimeToShortlist_of a\<rparr>"

datatype snapshot = PoolSnapshot "PoolCandidate list" int | SupplySnapshot "SupplyDemandItem list" |
  AlertsSnapshot "MatchAlert list" | ShortlistSnapshot TimeToShortlist

record snapshotCache =
  sc_items :: "(gostr \<times> snapshot \<times> time) list"
  sc_ttl :: duration

definition DefaultCacheTTL :: duration where "DefaultCacheTTL = 30 * second"

definition newSnapshotCache :: "duration \<Rightarrow> snapshotCache" where
  "newSnapshotCache ttl = \<lparr>sc_items = [], sc_ttl = (if ttl \<le> 0 then DefaultCacheTTL else ttl)\<rparr>"

definition cache_get :: "time \<Rightarrow> gostr \<Rightarrow> snapshotCache \<Rightarrow> snapshot option" where
  "cache_get now key c = (case map_of (sc_items c) key of None \<Rightarrow> None
     | Some (v, expiry) \<Rightarrow> if expiry < now then None else Some v)"

definition cache_set :: "time \<Rightarrow> gostr \<Rightarrow> snapshot \<Rightarrow> snapshotCache \<Rightarrow> snapshotCache" where
  "cache_set now key v c = c\<lparr>sc_items := AList.update key (v, now + sc_ttl c) (sc_items c)\<rparr>"

definition invalidateAll :: "snapshotCache \<Rightarrow> snapshotCache" where
  "invalidateAll c = c\<lparr>sc_items := []\<rparr>"

text \<open>The clock is read for an entry that exists, and for every entry set.\<close>

record 'w CachedAggregator =
  ca_agg :: "'w TalentRadar"
  ca_now :: "'w Clock"
  ca_cache :: "'w \<Rightarrow> snapshotCache"
  ca_put :: "snapshotCache \<Rightarrow> 'w \<Rightarrow> 'w"

definition cached_read :: "'w CachedAggregator \<Rightarrow> gostr \<Rightarrow> ('w, snapshot option) io" where
  "cached_read s key = (\<lambda>w. if map_of (sc_items (ca_cache s w)) key = None then (Inr None, w)
     else case ca_now s w of (now, w') \<Rightarrow> (Inr (cache_get now key (ca_cache s w')), w'))"

definition cached_write :: "'w CachedAggregator \<Rightarrow> gostr \<Rightarrow> snapshot \<Rightarrow> ('w, unit) io" where
  "cached_write s key v =
     io_bind (io_of (ca_now s)) (\<lambda>now. io_do (\<lambda>w. ca_put s (cache_set now key v (ca_cache s w)) w))"

definition pool_key :: "Page \<Rightarrow> gostr" where
  "pool_key page = lit ''pool:n:'' @ dec_int (Number page) @ lit '':s:'' @ dec_int (Size page)"

definition Cached_Pool :: "'w CachedAggregator \<Rightarrow> Page \<Rightarrow> ('w, PoolCandidate list \<times> int) io" where
  "Cached_Pool s page =
     io_bind (cached_read s (pool_key page)) (\<lambda>v. case v of
       Some (PoolSnapshot cs tot) \<Rightarrow> io_ret (cs, tot)
     | _ \<Rightarrow> io_bind (Radar_Pool (ca_agg s) page) (\<lambda>(cs, tot).
            io_bind (cached_write s (pool_key page) (PoolSnapshot cs tot)) (\<lambda>u. io_ret (cs, tot))))"

definition Cached_SupplyDemand :: "'w CachedAggregator \<Rightarrow> ('w, SupplyDemandItem list) io" where
  "Cached_SupplyDemand s =
     io_bind (cached_read s (lit ''supplydemand'')) (\<lambda>v. case v of
       Some (SupplySnapshot xs) \<Rightarrow> io_ret xs
     | _ \<Rightarrow> io_bind (Radar_SupplyDemand (ca_agg s)) (\<lambda>xs.
            io_bind (cached_write s (lit ''supplydemand'') (SupplySnapshot xs)) (\<lambda>u. io_ret xs)))"

definition Cached_Alerts :: "'w CachedAggregator \<Rightarrow> Page \<Rightarrow> ('w, MatchAlert list \<times> int) io" where
  "Cached_Alerts s page =
     io_bind (cached_read s (lit ''alerts'')) (\<lambda>v. case v of
       Some (AlertsSnapshot xs) \<Rightarrow> io_lift (pageAlerts xs page)
     | _ \<Rightarrow> io_bind (Radar_Alerts (ca_agg s) (NewPage 1 alertCandidateScan)) (\<lambda>(xs, n).
            io_bind (cached_write s (lit ''alerts'') (AlertsSnapshot xs)) (\<lambda>u. io_lift (pageAlerts xs page))))"

definition Cached_TimeToShortlist :: "'w CachedAggregator \<Rightarrow> 'w \<Rightarrow> (TimeToShortlist \<times> 'w) option" where
  "Cached_TimeToShortlist s w = (case cached_read s (lit ''tts'') w of
     (Inr (Some (ShortlistSnapshot m)), w') \<Rightarrow> Some (m, w')
   | (r, w') \<Rightarrow> map_option (\<lambda>(m, w'). (m, snd (cached_write s (lit ''tts'') (ShortlistSnapshot m) w')))
       (Radar_TimeToShortlist (ca_agg s) w'))"

definition RefreshSnapshots :: "'w CachedAggregator \<Rightarrow> ('w, unit) io" where
  "RefreshSnapshots s = io_do (\<lambda>w. ca_put s (invalidateAll (ca_cache s w)) w)"

definition Cached_radar :: "'w CachedAggregator \<Rightarrow> 'w TalentRadar" where
  "Cached_radar s = \<lparr>Radar_Pool = Cached_Pool s, Radar_SupplyDemand = Cached_SupplyDemand s, Radar_Alerts = Cached_Alerts s,
     Radar_TimeToShortlist = Cached_TimeToShortlist s\<rparr>"

subsection \<open>Alerts rest on strong fits\<close>

lemma strongFit_Some:
  "strongFit c signals rl = Some fit \<longleftrightarrow> roleLogisticsClear c rl \<and> EnsureBiasSafe (signalNamesFrom (rubricSignalsFrom rl)) = Inr () \<and>
     fit = ComputeFit (rubricSignalsFrom rl) signals \<and> MustHavesMet fit \<and> \<not> flt (Fit_Score fit) strongFitThreshold"
  by (cases "EnsureBiasSafe (signalNamesFrom (rubricSignalsFrom rl))") (auto simp: strongFit_def Let_def)

lemma alert_loop_out:
  "fst (alert_loop a c nam sig rls out best) = out @
     concat (map (\<lambda>rl. case strongFit c sig rl of None \<Rightarrow> [] | Some fit \<Rightarrow> [candidateForRoleAlert a c nam rl fit]) rls)"
  by (induction rls arbitrary: out best) (auto split: option.splits)

lemma alert_loop_best:
  "snd (alert_loop a c nam sig rls out best) = Some (rl, fit) \<Longrightarrow>
     best = Some (rl, fit) \<or> rl \<in> set rls \<and> strongFit c sig rl = Some fit"
proof (induction rls arbitrary: out best)
  case (Cons r rls)
  then show ?case by (auto split: option.splits prod.splits if_splits)
qed simp

lemma candidateAlerts_sound:
  assumes "x \<in> set (candidateAlerts a c nam profile opened)"
  shows "\<exists>rl \<in> set opened. \<exists>fit. strongFit c (candidateSignalsFrom profile) rl = Some fit \<and>
    (x = candidateForRoleAlert a c nam rl fit \<or> x = roleForCandidateAlert a c nam rl fit)"
proof -
  obtain out best where r: "alert_loop a c nam (candidateSignalsFrom profile) opened [] None = (out, best)" by fastforce
  have out: "\<exists>rl \<in> set opened. \<exists>fit. strongFit c (candidateSignalsFrom profile) rl = Some fit \<and> y = candidateForRoleAlert a c nam rl fit"
    if "y \<in> set out" for y
  proof -
    have "y \<in> (\<Union>rl \<in> set opened. set (case strongFit c (candidateSignalsFrom profile) rl of None \<Rightarrow> []
        | Some fit \<Rightarrow> [candidateForRoleAlert a c nam rl fit]))"
      using that alert_loop_out [of a c nam "candidateSignalsFrom profile" opened "[]" None] r by simp
    then obtain rl where rl: "rl \<in> set opened" and y: "y \<in> set (case strongFit c (candidateSignalsFrom profile) rl of None \<Rightarrow> []
        | Some fit \<Rightarrow> [candidateForRoleAlert a c nam rl fit])" by blast
    then show ?thesis by (cases "strongFit c (candidateSignalsFrom profile) rl") auto
  qed
  show ?thesis
  proof (cases best)
    case None
    then show ?thesis using assms r out [of x] by (auto simp: candidateAlerts_def)
  next
    case (Some rf)
    obtain rl fit where rf: "rf = (rl, fit)" by fastforce
    have "rl \<in> set opened \<and> strongFit c (candidateSignalsFrom profile) rl = Some fit"
      using alert_loop_best [of a c nam "candidateSignalsFrom profile" opened "[]" None rl fit] r Some rf by simp
    then show ?thesis using assms r Some rf out [of x] by (auto simp: candidateAlerts_def)
  qed
qed

text \<open>A candidate gets at most one alert about a role to move to, and none without a strong fit.\<close>

lemma candidateAlerts_none:
  "(\<forall>rl \<in> set opened. strongFit c (candidateSignalsFrom profile) rl = None) \<Longrightarrow> candidateAlerts a c nam profile opened = []"
proof -
  assume none: "\<forall>rl \<in> set opened. strongFit c (candidateSignalsFrom profile) rl = None"
  have "alert_loop a c nam (candidateSignalsFrom profile) rls out None = (out, None)" if "set rls \<subseteq> set opened" for rls out
    using that none by (induction rls arbitrary: out) auto
  then show ?thesis by (simp add: candidateAlerts_def)
qed

subsection \<open>The metric\<close>

lemma shortlist_at_least_an_hour:
  assumes "TimeToShortlist_of a w = Some (m, w')"
  shows "\<not> flt (CurrentHours m) (Fin 1)"
proof -
  from assms obtain cur v where "m = \<lparr>BaselineHours = baselineHours,
      CurrentHours = (if fle cur (Fin 0) then fallbackCurrentHours else cur),
      ImprovementFactor = fdiv baselineHours (if fle cur (Fin 0) then fallbackCurrentHours else cur)\<rparr>"
    and c: "computedTimeToShortlistHours a w = Some (cur, v)"
    by (auto simp: TimeToShortlist_of_def Let_def)
  moreover have "cur = Fin 0 \<or> \<not> flt cur (Fin 1)"
    using c by (auto simp: computedTimeToShortlistHours_def mean_hours_def minCurrentHours_def Let_def
        split: option.splits prod.splits sum.splits if_splits)
  ultimately show ?thesis by (auto simp: fallbackCurrentHours_def)
qed

subsection \<open>The cache\<close>

text \<open>A value is served up to its time to live, and not longer.\<close>

lemma cache_get_set:
  "cache_get now key (cache_set t key v c) = (if now \<le> t + sc_ttl c then Some v else None)"
  "key' \<noteq> key \<Longrightarrow> cache_get now key' (cache_set t key v c) = cache_get now key' c"
  "cache_get now key (invalidateAll c) = None"
  by (auto simp: cache_get_def cache_set_def invalidateAll_def update_conv' split: option.splits)

text \<open>A feed of alerts serves pages of at most the asked size.\<close>

locale alert_feed =
  fixes feed :: "Page \<Rightarrow> ('w, MatchAlert list \<times> int) io"
  assumes bounded: "page_ok p \<Longrightarrow> feed p w = (Inr (xs, n), w') \<Longrightarrow> int (length xs) \<le> Size p"
begin

lemma first_page: "feed (NewPage 1 k) w = (Inr (xs, n), w') \<Longrightarrow> int (length xs) \<le> MaxPageSize"
proof -
  assume r: "feed (NewPage 1 k) w = (Inr (xs, n), w')"
  have ok: "page_ok (NewPage 1 k)" by (rule NewPage_ok) simp
  with bounded [OF ok r] show ?thesis by (simp add: page_ok_def)
qed

end

lemma page_result_bounded:
  assumes "page_ok p" and "page_result xs p = Inr (ys, n)"
  shows "int (length ys) \<le> Size p"
proof -
  let ?i = "min (Offset p) (int (length xs))"
  let ?j = "min (wrap64 (?i + Size p)) (int (length xs))"
  have "wrap64 y \<le> y" if "- (2 ^ 63) \<le> y" for y :: int
    using that zmod_le_nonneg_dividend [of "y + 2 ^ 63" "2 ^ 64"] by (simp add: wrap64_def)
  moreover have "0 \<le> Offset p" "1 \<le> Size p" using assms(1) Offset_exact [OF assms(1)] by (simp_all add: page_ok_def)
  ultimately have "?j \<le> ?i + Size p" by (smt (verit) zero_le_power)
  moreover from assms(2) have ys: "ys = take (nat (?j - ?i)) (drop (nat ?i) xs)" "?i \<le> ?j"
    by (auto simp: page_result_def page_slice_def go_slice_def Limit_def Let_def split: option.splits if_splits)
  moreover have "length ys \<le> nat (?j - ?i)" unfolding ys(1) by (simp only: length_take min.cobounded2)
  ultimately show ?thesis by linarith
qed

interpretation computed: alert_feed "Alerts a" for a :: "'w Aggregator"
  by unfold_locales (auto simp: Alerts_def pageAlerts_def io_ok_iffs io_bind_ok io_cases_ok intro: page_result_bounded)

lemma Cached_Alerts_page:
  "Cached_Alerts s p w = (Inr (xs, n), w') \<Longrightarrow> \<exists>ys. page_result ys p = Inr (xs, n)"
proof -
  assume r: "Cached_Alerts s p w = (Inr (xs, n), w')"
  then obtain v w1 where v: "cached_read s (lit ''alerts'') w = (Inr v, w1)" by (auto simp: Cached_Alerts_def io_bind_ok)
  show ?thesis
  proof (cases v)
    case None
    with r v show ?thesis by (auto simp: Cached_Alerts_def pageAlerts_def io_bind_ok io_ok_iffs io_cases_ok)
  next
    case (Some c)
    with r v show ?thesis by (cases c) (auto simp: Cached_Alerts_def pageAlerts_def io_bind_ok io_ok_iffs io_cases_ok)
  qed
qed

interpretation cached: alert_feed "Cached_Alerts s" for s :: "'w CachedAggregator"
  by unfold_locales (auto dest!: Cached_Alerts_page intro: page_result_bounded)

text \<open>
  The cached feed keeps the first page of the alerts only: it reports at most \<open>MaxPageSize\<close> of them as the
  total, however many there are.
\<close>

lemma cached_alerts_capped:
  assumes "Cached_Alerts s p w = (Inr (xs, n), w')" and "ca_agg s = Aggregator_radar a"
    and "map_of (sc_items (ca_cache s w)) (lit ''alerts'') = None"
  shows "n \<le> MaxPageSize"
proof -
  from assms obtain ys m v where "Alerts a (NewPage 1 alertCandidateScan) w = (Inr (ys, m), v)" "pageAlerts ys p = Inr (xs, n)"
    by (auto simp: Cached_Alerts_def cached_read_def Aggregator_radar_def io_ok_iffs io_bind_ok io_cases_ok)
  with computed.first_page [of a alertCandidateScan w ys m v] show ?thesis
    by (auto simp: pageAlerts_def page_result_def split: option.splits)
qed

end
