(* ===== verification/API_Dashboard.thy ===== *)
theory API_Dashboard
  imports Access Messages Dashboard
begin

section \<open>Handlers of the dashboard\<close>

text \<open>
  The Talent Radar server (\<open>internal/adapters/inbound/grpc/dashboard.go\<close>) over any \<open>TalentRadar\<close>: every
  read needs the permission to view the dashboard. Counts are narrowed to 32 bits.
\<close>

record pb_PoolCandidate =
  ppl_CandidateId :: gostr
  ppl_Name :: gostr
  ppl_PassportStatus :: int
  ppl_HeadlineScore :: f64

record pb_SupplyDemandItem =
  psd_RoleFamily :: gostr
  psd_OpenRoles :: int
  psd_AvailableCandidates :: int
  psd_Gap :: int

record pb_MatchAlert =
  pma_Id :: gostr
  pma_Type :: int
  pma_RoleId :: gostr
  pma_CandidateId :: gostr
  pma_Message :: gostr

definition alertTypeToProto :: "gostr \<Rightarrow> int" where
  "alertTypeToProto t = (if t = AlertCandidateForRole then 1 else if t = AlertRoleForCandidate then 2 else 0)"

definition requireReviewer :: "Principal option \<Rightarrow> Principal res" where
  "requireReviewer ctx = RequirePermission ctx PermViewDashboard"

definition GetPool :: "'w TalentRadar \<Rightarrow> Principal option \<Rightarrow> pb_PageRequest option \<Rightarrow> ('w, pb_PoolCandidate list \<times> pb_PageResponse) rpc" where
  "GetPool agg ctx pg = rpc (
     io_bind (io_lift (requireReviewer ctx)) (\<lambda>p.
     let page = pageFromProto pg in
     io_bind (Radar_Pool agg page) (\<lambda>(pool, tot).
     io_ret (map (\<lambda>c. \<lparr>ppl_CandidateId = Pool_CandidateID c, ppl_Name = Pool_Name c,
       ppl_PassportStatus = passportStatusToProto (Pool_PassportStatus c), ppl_HeadlineScore = HeadlineScore c\<rparr>) pool,
       pageResponseToProto page tot))))"

definition GetSupplyDemand :: "'w TalentRadar \<Rightarrow> Principal option \<Rightarrow> ('w, pb_SupplyDemandItem list) rpc" where
  "GetSupplyDemand agg ctx = rpc (
     io_bind (io_lift (requireReviewer ctx)) (\<lambda>p.
     io_bind (Radar_SupplyDemand agg) (\<lambda>xs.
     io_ret (map (\<lambda>it. \<lparr>psd_RoleFamily = RoleFamily it, psd_OpenRoles = wrap32 (OpenRoles it),
       psd_AvailableCandidates = wrap32 (AvailableCandidates it), psd_Gap = wrap32 (Gap it)\<rparr>) xs))))"

definition GetAlerts :: "'w TalentRadar \<Rightarrow> Principal option \<Rightarrow> pb_PageRequest option \<Rightarrow> ('w, pb_MatchAlert list \<times> pb_PageResponse) rpc" where
  "GetAlerts agg ctx pg = rpc (
     io_bind (io_lift (requireReviewer ctx)) (\<lambda>p.
     let page = pageFromProto pg in
     io_bind (Radar_Alerts agg page) (\<lambda>(xs, tot).
     io_ret (map (\<lambda>al. \<lparr>pma_Id = Alert_ID al, pma_Type = alertTypeToProto (Alert_Type al), pma_RoleId = Alert_RoleID al,
       pma_CandidateId = Alert_CandidateID al, pma_Message = Alert_Message al\<rparr>) xs, pageResponseToProto page tot))))"

text \<open>\<open>None\<close> is a metric whose paging does not end.\<close>

definition GetTimeToShortlist :: "'w TalentRadar \<Rightarrow> Principal option \<Rightarrow> 'w \<Rightarrow> ((Status + TimeToShortlist) \<times> 'w) option" where
  "GetTimeToShortlist agg ctx w = (case requireReviewer ctx of
     Inl err \<Rightarrow> Some (Inl (errToStatus err), w)
   | Inr p \<Rightarrow> map_option (\<lambda>(m, w'). (Inr m, w')) (Radar_TimeToShortlist agg w))"

lemma requireReviewer_ok [guards]: "requireReviewer ctx = Inr p \<longleftrightarrow> ctx = Some p \<and> principalHasPermission p PermViewDashboard"
  by (simp add: requireReviewer_def guards)

lemma alertType_known: "alertTypeToProto t \<noteq> 0 \<longleftrightarrow> t \<in> {AlertCandidateForRole, AlertRoleForCandidate}"
  by (auto simp: alertTypeToProto_def)

text \<open>No candidate sees the dashboard.\<close>

lemma dashboard_not_for_candidates:
  assumes "GetPool agg (Some p) pg w = (Inr r, w')"
  shows "Pri_Role p \<noteq> Role_String RoleCandidate"
proof
  assume "Pri_Role p = Role_String RoleCandidate"
  then have "principalHasPermission p PermViewDashboard = Can RoleCandidate PermViewDashboard"
    using ParseRole_String [of RoleCandidate] by (simp add: principalHasPermission_def)
  also have "\<dots> = False" by code_simp
  finally show False using assms by (auto simp: GetPool_def rpc_Inr io_ok_iffs io_bind_ok guards)
qed

end
