(* ===== verification/Task_Queue.thy ===== *)
theory Task_Queue
  imports Kernel Go_Time Go_JSON_Decode Go_Effects
begin

section \<open>Background tasks: policies and dispatch\<close>

text \<open>
  The port for background work (\<open>app/queue/task_dispatcher.go\<close>): task types, payloads, retry policies with
  their backoff, and the options of a dispatch; and its two implementations
  (\<open>adapters/outbound/queue\<close>): the dispatcher over the queue client, which is the parameter \<open>qd_enqueue\<close>,
  and the one that enqueues nothing. The draw of \<open>rand.Int63n\<close> and the trace headers put on a task are
  parameters. The lemmas give the backoff of every task type: within a tenth of the capped exponential.
\<close>

definition QueueCritical :: gostr where "QueueCritical = lit ''critical''"
definition QueueDefault :: gostr where "QueueDefault = lit ''default''"
definition QueueLow :: gostr where "QueueLow = lit ''low''"

type_synonym TaskType = gostr

definition TypeCandidateAgentRun :: TaskType where "TypeCandidateAgentRun = lit ''candidate_agent:run''"
definition TypeInterviewScoring :: TaskType where "TypeInterviewScoring = lit ''interview:score''"
definition TypeBatchRematch :: TaskType where "TypeBatchRematch = lit ''matching:rematch''"
definition TypeDataRetention :: TaskType where "TypeDataRetention = lit ''privacy:data_retention''"

text \<open>The three payloads are structs with one string field, of the names below.\<close>

definition candidate_field :: string where "candidate_field = ''candidate_id''"
definition interview_field :: string where "interview_field = ''interview_id''"
definition role_field :: string where "role_field = ''role_id''"

definition payload_json :: "string \<Rightarrow> gostr \<Rightarrow> json" where
  "payload_json field i = JObj [(field, JStr i)]"

definition dec_payload :: "string \<Rightarrow> gostr decoder" where
  "dec_payload field = dec_struct [(lit field, dec_string)]"

subsection \<open>Retries\<close>

record RetryPolicy =
  RP_MaxRetry :: int
  InitialDelay :: duration
  MaxDelay :: duration
  Jitter :: f64

definition DefaultRetryPolicy :: "TaskType \<Rightarrow> RetryPolicy" where
  "DefaultRetryPolicy t =
     (if t = TypeCandidateAgentRun \<or> t = TypeInterviewScoring
      then \<lparr>RP_MaxRetry = 3, InitialDelay = 5 * second, MaxDelay = 5 * minute, Jitter = f64_of (1 / 5)\<rparr>
      else if t = TypeBatchRematch
      then \<lparr>RP_MaxRetry = 2, InitialDelay = 10 * second, MaxDelay = 2 * minute, Jitter = f64_of (1 / 5)\<rparr>
      else \<lparr>RP_MaxRetry = 3, InitialDelay = 10 * second, MaxDelay = 1 * minute, Jitter = f64_of (1 / 5)\<rparr>)"

definition sane_policy :: "RetryPolicy \<Rightarrow> RetryPolicy" where
  "sane_policy p =
     (let p = (if InitialDelay p \<le> 0 then p\<lparr>InitialDelay := second\<rparr> else p);
          p = (if MaxDelay p \<le> 0 then p\<lparr>MaxDelay := InitialDelay p\<rparr> else p)
      in if MaxDelay p < InitialDelay p then p\<lparr>MaxDelay := InitialDelay p\<rparr> else p)"

definition capped_delay :: "RetryPolicy \<Rightarrow> int \<Rightarrow> duration" where
  "capped_delay p n = (let delay = wrap64 (InitialDelay p * 2 ^ nat n)
     in if delay \<le> 0 \<or> MaxDelay p < delay then MaxDelay p else delay)"

definition jittered :: "(int \<Rightarrow> int) \<Rightarrow> f64 \<Rightarrow> duration \<Rightarrow> duration" where
  "jittered Int63n jit delay =
     (if \<not> flt (Fin 0) jit then delay
      else let spread = int_of_f64 (fmul (f64_of (of_int delay)) jit)
        in if spread \<le> 0 then delay
           else max (wrap64 (wrap64 (delay - spread sdiv 2) + Int63n (wrap64 (spread + 1)))) 0)"

definition ComputeBackoff :: "(int \<Rightarrow> int) \<Rightarrow> RetryPolicy \<Rightarrow> int \<Rightarrow> duration" where
  "ComputeBackoff Int63n p n =
     (let n = (if n < 0 then 0 else n); p = sane_policy p in jittered Int63n (Jitter p) (capped_delay p n))"

definition RetryDelayFunc :: "(int \<Rightarrow> int) \<Rightarrow> int \<Rightarrow> TaskType \<Rightarrow> duration" where
  "RetryDelayFunc Int63n n t = ComputeBackoff Int63n (DefaultRetryPolicy t) n"

subsection \<open>Options of a dispatch\<close>

record Opts =
  Opt_ProcessIn :: duration
  Opt_ProcessAt :: time
  Opt_UniqueTTL :: duration
  Opt_MaxRetry :: int
  Opt_Queue :: gostr

datatype DispatchOption = ProcessIn duration | ProcessAt time | Unique duration | MaxRetry int | Queue gostr

definition NewDefaultOpts :: Opts where
  "NewDefaultOpts = \<lparr>Opt_ProcessIn = 0, Opt_ProcessAt = 0, Opt_UniqueTTL = 0, Opt_MaxRetry = - 1, Opt_Queue = QueueDefault\<rparr>"

fun apply_option :: "DispatchOption \<Rightarrow> Opts \<Rightarrow> Opts" where
  "apply_option (ProcessIn d) os = os\<lparr>Opt_ProcessIn := d\<rparr>"
| "apply_option (ProcessAt t) os = os\<lparr>Opt_ProcessAt := t\<rparr>"
| "apply_option (Unique ttl) os = os\<lparr>Opt_UniqueTTL := ttl\<rparr>"
| "apply_option (MaxRetry n) os = os\<lparr>Opt_MaxRetry := n\<rparr>"
| "apply_option (Queue q) os = os\<lparr>Opt_Queue := q\<rparr>"

definition ApplyOpts :: "DispatchOption list \<Rightarrow> Opts" where
  "ApplyOpts opts = fold apply_option opts NewDefaultOpts"

subsection \<open>The dispatcher\<close>

text \<open>The options handed to the queue client, and a task with its headers.\<close>

datatype asynq_option = AsynqQueue gostr | AsynqMaxRetry int | AsynqProcessAt time | AsynqProcessIn duration | AsynqUnique duration

record Task =
  Task_Type :: gostr
  Task_Payload :: gostr
  Task_Headers :: "(gostr \<times> gostr) list"

definition Priorities :: "(gostr \<times> int) list" where
  "Priorities = [(QueueCritical, 6), (QueueDefault, 3), (QueueLow, 1)]"

definition queueFor :: "Opts option \<Rightarrow> gostr" where
  "queueFor opts = (case opts of Some os \<Rightarrow> if Opt_Queue os \<noteq> [] then Opt_Queue os else QueueDefault | None \<Rightarrow> QueueDefault)"

definition taskOptions :: "TaskType \<Rightarrow> Opts option \<Rightarrow> asynq_option list" where
  "taskOptions t opts =
     (let maxRetry = (case opts of Some os \<Rightarrow> if 0 \<le> Opt_MaxRetry os then Opt_MaxRetry os else RP_MaxRetry (DefaultRetryPolicy t)
            | None \<Rightarrow> RP_MaxRetry (DefaultRetryPolicy t));
          asynqOpts = [AsynqQueue (queueFor opts), AsynqMaxRetry maxRetry]
      in case opts of None \<Rightarrow> asynqOpts
         | Some os \<Rightarrow> asynqOpts @ (if 0 \<le> Opt_MaxRetry os then [AsynqMaxRetry (Opt_MaxRetry os)] else []) @
             (if \<not> time_IsZero (Opt_ProcessAt os) then [AsynqProcessAt (Opt_ProcessAt os)]
              else if 0 < Opt_ProcessIn os then [AsynqProcessIn (Opt_ProcessIn os)] else []) @
             (if 0 < Opt_UniqueTTL os then [AsynqUnique (Opt_UniqueTTL os)] else []))"

record 'w Dispatcher =
  qd_enqueue :: "(Task \<Rightarrow> asynq_option list \<Rightarrow> ('w, gostr) io) option"
  qd_headers :: "'w \<Rightarrow> (gostr \<times> gostr) list"

definition dispatch_task :: "'w Dispatcher \<Rightarrow> TaskType \<Rightarrow> json \<Rightarrow> DispatchOption list \<Rightarrow> ('w, gostr) io" where
  "dispatch_task d t payload opts = (case qd_enqueue d of
     None \<Rightarrow> io_fail (PlainErr ''queue: nil dispatcher'' [] [])
   | Some enqueue \<Rightarrow> (\<lambda>w.
       (case enqueue \<lparr>Task_Type = t, Task_Payload = json_Marshal payload, Task_Headers = qd_headers d w\<rparr>
               (taskOptions t (Some (ApplyOpts opts))) w of
          (Inl err, w') \<Rightarrow> (Inl (PlainErr ''queue: enqueue %s: %w'' [AStr t] [err]), w')
        | (Inr i, w') \<Rightarrow> (Inr i, w'))))"

definition DispatchCandidateAgentRun :: "'w Dispatcher \<Rightarrow> ID \<Rightarrow> DispatchOption list \<Rightarrow> ('w, gostr) io" where
  "DispatchCandidateAgentRun d candidateID opts = dispatch_task d TypeCandidateAgentRun (payload_json candidate_field candidateID) opts"

definition DispatchInterviewScoring :: "'w Dispatcher \<Rightarrow> ID \<Rightarrow> DispatchOption list \<Rightarrow> ('w, gostr) io" where
  "DispatchInterviewScoring d interviewID opts = dispatch_task d TypeInterviewScoring (payload_json interview_field interviewID) opts"

definition DispatchBatchRematch :: "'w Dispatcher \<Rightarrow> ID \<Rightarrow> DispatchOption list \<Rightarrow> ('w, gostr) io" where
  "DispatchBatchRematch d roleID opts = dispatch_task d TypeBatchRematch (payload_json role_field roleID) opts"

text \<open>The implementation that enqueues nothing answers every dispatch with the empty task identifier.\<close>

definition Noop_Dispatch :: "ID \<Rightarrow> DispatchOption list \<Rightarrow> ('w, gostr) io" where
  "Noop_Dispatch i opts = io_ret []"

subsection \<open>What a dispatch carries is read back\<close>

lemma payload_roundtrip:
  assumes "\<forall>r \<in> set i. 0 \<le> r"
  shows "json_Unmarshal (dec_payload field) [] (json_Marshal (payload_json field i)) = Some i"
proof -
  have "json_parse (json_Marshal (payload_json field i)) = Some (jval_of (payload_json field i))"
    using assms by (intro json_roundtrip) (simp_all add: payload_json_def maxNestingDepth_def)
  then show ?thesis by (simp add: json_Unmarshal_def dec_payload_def payload_json_def field_of_def del: lit_simps)
qed

lemma queueFor_set: "Opt_Queue (ApplyOpts opts) \<noteq> [] \<Longrightarrow> queueFor (Some (ApplyOpts opts)) = Opt_Queue (ApplyOpts opts)"
  by (simp add: queueFor_def)

subsection \<open>The backoff\<close>

text \<open>Doubling neither overflows nor skips the cap: past the cap the low bits keep the product large until it vanishes.\<close>

definition ideal_delay :: "TaskType \<Rightarrow> nat \<Rightarrow> int" where
  "ideal_delay t n = min (InitialDelay (DefaultRetryPolicy t) * 2 ^ n) (MaxDelay (DefaultRetryPolicy t))"

lemma sane_default: "sane_policy (DefaultRetryPolicy t) = DefaultRetryPolicy t"
  by (simp add: sane_policy_def DefaultRetryPolicy_def time_units)

lemma wrap64_vanishes:
  assumes "64 \<le> n"
  shows "wrap64 (x * 2 ^ n) = 0"
proof -
  from assms obtain k where "n = 64 + k" by (auto simp: le_iff_add)
  then have "x * 2 ^ n = 2 ^ 64 * (x * 2 ^ k)" by (simp add: power_add)
  then show ?thesis unfolding wrap64_def by (simp only: mod_mult_self4) simp
qed

lemma doubling_caps:
  assumes "\<forall>k \<in> set [0..<64]. (let d = wrap64 (a * 2 ^ k) in if d \<le> 0 \<or> b < d then b else d) = min (a * 2 ^ k) b"
    and "0 < a" "b \<le> 2 ^ 64"
  shows "(let d = wrap64 (a * 2 ^ k) in if d \<le> 0 \<or> b < d then b else d) = min (a * 2 ^ k) b"
proof (cases "k < 64")
  case False
  have "(2::int) ^ 64 \<le> 2 ^ k" using False by (intro power_increasing) auto
  moreover have "2 ^ k \<le> a * 2 ^ k" using assms(2) by simp
  ultimately have "b \<le> a * 2 ^ k" using assms(3) by linarith
  then show ?thesis using wrap64_vanishes [of k a] False by (simp add: Let_def min_def)
qed (use assms(1) in simp)

lemma policy_caps:
  "(let d = wrap64 (5000000000 * 2 ^ k) in if d \<le> 0 \<or> 300000000000 < d then 300000000000 else d) = min (5000000000 * 2 ^ k) 300000000000"
  "(let d = wrap64 (10000000000 * 2 ^ k) in if d \<le> 0 \<or> 120000000000 < d then 120000000000 else d) = min (10000000000 * 2 ^ k) 120000000000"
  "(let d = wrap64 (10000000000 * 2 ^ k) in if d \<le> 0 \<or> 60000000000 < d then 60000000000 else d) = min (10000000000 * 2 ^ k) 60000000000"
  by ((rule doubling_caps, code_simp, simp, simp)+)

lemma capped_default: "capped_delay (DefaultRetryPolicy t) (int n) = ideal_delay t n"
proof -
  have "(InitialDelay (DefaultRetryPolicy t), MaxDelay (DefaultRetryPolicy t)) \<in>
      {(5000000000, 300000000000), (10000000000, 120000000000), (10000000000, 60000000000)}"
    by (simp add: DefaultRetryPolicy_def time_units)
  then show ?thesis using policy_caps [of n] unfolding capped_delay_def ideal_delay_def by (auto simp only: nat_int insert_iff empty_iff prod.inject simp_thms)
qed

definition nominal_delays :: "int list" where
  "nominal_delays = [5000000000, 10000000000, 20000000000, 40000000000, 80000000000, 160000000000, 300000000000, 120000000000, 60000000000]"

lemma min_doubling: "min (a * 2 ^ n) b \<in> set (b # map (\<lambda>k. a * 2 ^ k) [0..<m])" if "b \<le> a * 2 ^ m" "0 < a" for a b :: int
proof (cases "n < m")
  case True then show ?thesis by (auto simp: min_def)
next
  case False
  then have "a * 2 ^ m \<le> a * 2 ^ n" using that(2) by (intro mult_left_mono power_increasing) auto
  then show ?thesis using that(1) by (simp add: min_def)
qed

lemma ideal_nominal: "ideal_delay t n \<in> set nominal_delays"
  using min_doubling [of 300000000000 5000000000 6 n] min_doubling [of 120000000000 10000000000 4 n]
    min_doubling [of 60000000000 10000000000 3 n]
  by (auto simp: ideal_delay_def DefaultRetryPolicy_def nominal_delays_def time_units upt_rec)

text \<open>A fifth of each of these delays is computed exactly.\<close>

lemma spread_fifth:
  "d \<in> set nominal_delays \<Longrightarrow> int_of_f64 (fmul (f64_of (of_int d)) (f64_of (1 / 5))) = d div 5 \<and> 0 < d \<and> d mod 10 = 0 \<and> d \<le> 2 ^ 40"
proof -
  have "list_all (\<lambda>d. int_of_f64 (fmul (f64_of (of_int d)) (f64_of (1 / 5))) = d div 5 \<and> 0 < d \<and> d mod 10 = 0 \<and> d \<le> 2 ^ 40) nominal_delays"
    by code_simp
  then show "d \<in> set nominal_delays \<Longrightarrow> int_of_f64 (fmul (f64_of (of_int d)) (f64_of (1 / 5))) = d div 5 \<and> 0 < d \<and> d mod 10 = 0 \<and> d \<le> 2 ^ 40"
    by (auto simp: list_all_iff)
qed

lemma jittered_nominal:
  assumes "d \<in> set nominal_delays" and "\<And>k. 0 < k \<Longrightarrow> 0 \<le> Int63n k \<and> Int63n k < k"
  shows "\<exists>offset. 0 \<le> offset \<and> offset \<le> d div 5 \<and> jittered Int63n (f64_of (1 / 5)) d = d - d div 10 + offset"
proof -
  have s: "int_of_f64 (fmul (f64_of (of_int d)) (f64_of (1 / 5))) = d div 5" "0 < d" "d mod 10 = 0" "d \<le> 2 ^ 40"
    using spread_fifth [OF assms(1)] by auto
  have j: "flt (Fin 0) (f64_of (1 / 5))" by code_simp
  have sp: "0 < d div 5" and half: "(d div 5) sdiv 2 = d div 10" using s(2,3)
    by (auto simp: signed_divide_int_def sgn_if zdiv_zmult2_eq [symmetric])
  have w: "wrap64 (d div 5 + 1) = d div 5 + 1" "wrap64 (d - d div 10) = d - d div 10"
    using s by (auto simp: int64_def intro!: wrap64_id)
  let ?o = "Int63n (d div 5 + 1)"
  have o: "0 \<le> ?o" "?o \<le> d div 5" using assms(2) [of "d div 5 + 1"] sp by auto
  then have "wrap64 (d - d div 10 + ?o) = d - d div 10 + ?o" using s by (auto simp: int64_def intro!: wrap64_id)
  moreover have "0 \<le> d - d div 10 + ?o" using o s by linarith
  ultimately show ?thesis using j s sp half w o by (intro exI [of _ ?o]) (simp add: jittered_def Let_def)
qed

lemma Jitter_default: "Jitter (DefaultRetryPolicy t) = f64_of (1 / 5)"
  by (simp add: DefaultRetryPolicy_def)

text \<open>
  C35: The delay before the next attempt of a task. Whatever the draw of the jitter, it stays within a tenth of
  the initial delay of the task's policy doubled once per earlier retry and capped at the maximal delay, for any
  number of retries, however large the doubling gets.
\<close>

theorem backoff_near_exponential:
  assumes "\<And>k. 0 < k \<Longrightarrow> 0 \<le> Int63n k \<and> Int63n k < k"
  shows "9 * min (InitialDelay (DefaultRetryPolicy t) * 2 ^ nat n) (MaxDelay (DefaultRetryPolicy t)) \<le> 10 * RetryDelayFunc Int63n n t \<and>
    10 * RetryDelayFunc Int63n n t \<le> 11 * min (InitialDelay (DefaultRetryPolicy t) * 2 ^ nat n) (MaxDelay (DefaultRetryPolicy t))"
proof -
  let ?d = "ideal_delay t (nat n)"
  have "RetryDelayFunc Int63n n t = jittered Int63n (f64_of (1 / 5)) ?d"
    using capped_default [of t "nat n"] by (cases "n < 0") (simp_all add: RetryDelayFunc_def ComputeBackoff_def sane_default Jitter_default)
  moreover obtain off where "0 \<le> off" "off \<le> ?d div 5" "jittered Int63n (f64_of (1 / 5)) ?d = ?d - ?d div 10 + off"
    using jittered_nominal [OF ideal_nominal assms, of t "nat n"] by auto
  moreover have "?d mod 10 = 0" using spread_fifth [OF ideal_nominal] by blast
  then obtain k where "?d = 10 * k" by (auto simp: mod_eq_0_iff_dvd)
  ultimately have "9 * ?d \<le> 10 * RetryDelayFunc Int63n n t \<and> 10 * RetryDelayFunc Int63n n t \<le> 11 * ?d" by simp
  then show ?thesis by (simp only: ideal_delay_def)
qed

lemma backoff_near_exponential_witness:
  "270000000000 \<le> RetryDelayFunc (\<lambda>k. k - 1) 1000 TypeInterviewScoring \<and> RetryDelayFunc (\<lambda>k. k - 1) 1000 TypeInterviewScoring \<le> 330000000000"
proof -
  have "300000000000 \<le> (5000000000 :: int) * 2 ^ nat 1000"
    by (rule order_trans [of _ "5000000000 * 2 ^ 6"]) (auto intro!: power_increasing)
  then show ?thesis using backoff_near_exponential [of "\<lambda>k. k - 1" TypeInterviewScoring 1000]
    by (simp add: DefaultRetryPolicy_def time_units min_def)
qed

text \<open>With the largest draw the cap of the policy is exceeded.\<close>

lemma jitter_exceeds_cap: "MaxDelay (DefaultRetryPolicy TypeInterviewScoring) < RetryDelayFunc (\<lambda>k. k - 1) 6 TypeInterviewScoring"
  by code_simp

end
