(* ===== verification/Jobs.thy ===== *)
theory Jobs
  imports Task_Queue Agent_Runner Interviewer Privacy
begin

section \<open>Background jobs\<close>

text \<open>
  The worker side of the queue (\<open>adapters/inbound/jobs\<close>): the idempotency store in its two implementations,
  the framework that wraps every handler with claim, run and completion, and the handlers of the task types.
  The locale \<open>idempotency_store\<close> states what the framework relies on and is interpreted on the in-memory
  store; the worker's world is the application's world beside that store. The worker process is wired with the store
  in Redis, a client of three commands whose documented behaviour, expiry and failures included, is
  \<open>redis_documented\<close>; \<open>fleet_step\<close> interleaves any number of workers over it. SHA-256 is a parameter. Spans, metrics and log lines are left out; a panicking handler is a handler that
  returns an error, since the deferred release runs for both.
\<close>

subsection \<open>Idempotency stores\<close>

record 'w IdempotencyStore =
  Idem_Claim :: "gostr \<Rightarrow> ('w, bool) io"
  Idem_Complete :: "gostr \<Rightarrow> ('w, unit) io"
  Idem_Release :: "gostr \<Rightarrow> ('w, unit) io"

datatype idempotencyState = idempotencyInProgress | idempotencyCompleted

type_synonym MemoryIdempotencyStore = "(gostr \<times> idempotencyState) list"

definition NewMemoryIdempotencyStore :: MemoryIdempotencyStore where "NewMemoryIdempotencyStore = []"

definition empty_key :: go_error where "empty_key = PlainErr ''jobs: empty idempotency key'' [] []"

definition MemIdem_Claim :: "gostr \<Rightarrow> (MemoryIdempotencyStore, bool) io" where
  "MemIdem_Claim key m =
     (if strings_TrimSpace key = [] then (Inl empty_key, m)
      else if map_of m key \<noteq> None then (Inr False, m)
      else (Inr True, AList.update key idempotencyInProgress m))"

definition MemIdem_Complete :: "gostr \<Rightarrow> (MemoryIdempotencyStore, unit) io" where
  "MemIdem_Complete key m =
     (if strings_TrimSpace key = [] then (Inl empty_key, m) else (Inr (), AList.update key idempotencyCompleted m))"

definition MemIdem_Release :: "gostr \<Rightarrow> (MemoryIdempotencyStore, unit) io" where
  "MemIdem_Release key m =
     (if strings_TrimSpace key = [] then (Inl empty_key, m)
      else if map_of m key = Some idempotencyCompleted then (Inr (), m)
      else (Inr (), AList.delete key m))"

text \<open>The commands of Redis that the shared store sends; the script of the release is named, not written out.\<close>

record 'w redis_client =
  Redis_SetNX :: "gostr \<Rightarrow> string \<Rightarrow> duration \<Rightarrow> ('w, bool) io"
  Redis_Set :: "gostr \<Rightarrow> string \<Rightarrow> duration \<Rightarrow> ('w, unit) io"
  Redis_DelUnlessDone :: "gostr \<Rightarrow> ('w, unit) io"

definition idempotencyKeyPrefix :: gostr where "idempotencyKeyPrefix = lit ''caliber:idem:''"
definition defaultClaimTTL :: duration where "defaultClaimTTL = 15 * minute"
definition defaultCompleteTTL :: duration where "defaultCompleteTTL = 24 * hour"

record 'w RedisIdempotencyStore =
  ri_client :: "'w redis_client"
  ri_claimTTL :: duration
  ri_completeTTL :: duration

definition NewRedisIdempotencyStore :: "'w redis_client \<Rightarrow> 'w RedisIdempotencyStore" where
  "NewRedisIdempotencyStore c = \<lparr>ri_client = c, ri_claimTTL = defaultClaimTTL, ri_completeTTL = defaultCompleteTTL\<rparr>"

definition redisIdemKey :: "gostr \<Rightarrow> gostr" where "redisIdemKey key = idempotencyKeyPrefix @ key"

definition RedisIdem_Claim :: "'w RedisIdempotencyStore \<Rightarrow> gostr \<Rightarrow> ('w, bool) io" where
  "RedisIdem_Claim r key = (if strings_TrimSpace key = [] then io_fail empty_key
     else Redis_SetNX (ri_client r) (redisIdemKey key) ''in-progress'' (ri_claimTTL r))"

definition RedisIdem_Complete :: "'w RedisIdempotencyStore \<Rightarrow> gostr \<Rightarrow> ('w, unit) io" where
  "RedisIdem_Complete r key = (if strings_TrimSpace key = [] then io_fail empty_key
     else Redis_Set (ri_client r) (redisIdemKey key) ''done'' (ri_completeTTL r))"

definition RedisIdem_Release :: "'w RedisIdempotencyStore \<Rightarrow> gostr \<Rightarrow> ('w, unit) io" where
  "RedisIdem_Release r key = (if strings_TrimSpace key = [] then io_fail empty_key
     else Redis_DelUnlessDone (ri_client r) (redisIdemKey key))"

definition redis_store :: "'w RedisIdempotencyStore \<Rightarrow> 'w IdempotencyStore" where
  "redis_store r = \<lparr>Idem_Claim = RedisIdem_Claim r, Idem_Complete = RedisIdem_Complete r, Idem_Release = RedisIdem_Release r\<rparr>"

text \<open>The worker's world: the application's beside the process-local store.\<close>

definition memory_store :: "('w \<times> MemoryIdempotencyStore) IdempotencyStore" where
  "memory_store = \<lparr>Idem_Claim = (\<lambda>k. on_part snd (\<lambda>m p. (fst p, m)) (MemIdem_Claim k)),
     Idem_Complete = (\<lambda>k. on_part snd (\<lambda>m p. (fst p, m)) (MemIdem_Complete k)),
     Idem_Release = (\<lambda>k. on_part snd (\<lambda>m p. (fst p, m)) (MemIdem_Release k))\<rparr>"

subsection \<open>The framework\<close>

text \<open>A delivery: the task with what the queue knows of it.\<close>

record delivery =
  dl_task :: "Task option"
  dl_taskID :: "gostr option"
  dl_retried :: int
  dl_maxRetry :: int

definition HeaderIdempotencyKey :: gostr where "HeaderIdempotencyKey = lit ''Idempotency-Key''"

definition idempotencyKey :: "(gostr \<Rightarrow> gostr) \<Rightarrow> gostr option \<Rightarrow> Task \<Rightarrow> gostr" where
  "idempotencyKey sha256_hex taskID task =
     (let key = strings_TrimSpace (case map_of (Task_Headers task) HeaderIdempotencyKey of None \<Rightarrow> [] | Some v \<Rightarrow> v)
      in if key \<noteq> [] then lit ''header:'' @ key
         else case taskID of
             Some i \<Rightarrow> if strings_TrimSpace i \<noteq> [] then lit ''asynq:'' @ i
               else lit ''payload:'' @ sha256_hex (Task_Type task @ [0] @ Task_Payload task)
           | None \<Rightarrow> lit ''payload:'' @ sha256_hex (Task_Type task @ [0] @ Task_Payload task))"

record 'w jobFramework =
  jf_store :: "'w IdempotencyStore"
  jf_sha256 :: "gostr \<Rightarrow> gostr"

type_synonym 'w jobFunc = "Task \<Rightarrow> ('w, unit) io"

definition runClaimed :: "'w jobFramework \<Rightarrow> gostr \<Rightarrow> 'w jobFunc \<Rightarrow> Task \<Rightarrow> ('w, unit) io" where
  "runClaimed j key fn task =
     io_bind (io_try (fn task)) (\<lambda>r. case r of
       Inl err \<Rightarrow> io_bind (io_try (Idem_Release (jf_store j) key)) (\<lambda>u. io_fail err)
     | Inr u \<Rightarrow> io_bind (io_try (Idem_Complete (jf_store j) key)) (\<lambda>c. case c of
         Inl err \<Rightarrow> io_bind (io_try (Idem_Release (jf_store j) key)) (\<lambda>u.
                      io_fail (PlainErr ''jobs: complete idempotency key: %w'' [] [err]))
       | Inr u \<Rightarrow> io_ret ()))"

definition wrap :: "'w jobFramework \<Rightarrow> 'w jobFunc \<Rightarrow> delivery \<Rightarrow> ('w, unit) io" where
  "wrap j fn d = (case dl_task d of
       None \<Rightarrow> io_fail (PlainErr ''jobs: nil task'' [] [])
     | Some task \<Rightarrow>
         (let key = idempotencyKey (jf_sha256 j) (dl_taskID d) task in
          io_bind (Idem_Claim (jf_store j) key) (\<lambda>claimed.
          if \<not> claimed then io_ret () else runClaimed j key fn task)))"

subsection \<open>Handlers\<close>

text \<open>\<open>fmt.Errorf\<close> around the error of a call.\<close>

definition io_wrap :: "string \<Rightarrow> ('w, 'a) io \<Rightarrow> ('w, 'a) io" where
  "io_wrap msg m = io_bind (io_try m) (\<lambda>r. case r of Inl err \<Rightarrow> io_fail (PlainErr msg [] [err]) | Inr a \<Rightarrow> io_ret a)"

definition TypeHealthcheck :: TaskType where "TypeHealthcheck = lit ''caliber.healthcheck''"

definition handleHealthcheck :: "(gostr \<Rightarrow> ('w, unit) io) option \<Rightarrow> 'w jobFunc" where
  "handleHealthcheck callback task = (case json_Unmarshal (dec_payload ''probe'') [] (Task_Payload task) of
       None \<Rightarrow> io_fail (PlainErr ''jobs: decode healthcheck payload: %w'' [] [decode_error])
     | Some probe \<Rightarrow> (case callback of None \<Rightarrow> io_ret () | Some f \<Rightarrow> f probe))"

definition handleCandidateAgentRun :: "'w AgentRunner option \<Rightarrow> 'w jobFunc" where
  "handleCandidateAgentRun runner task = (case json_Unmarshal (dec_payload candidate_field) [] (Task_Payload task) of
       None \<Rightarrow> io_fail (PlainErr ''jobs: decode candidate agent payload: %w'' [] [decode_error])
     | Some i \<Rightarrow> io_bind (io_wrap ''jobs: invalid candidate_id: %w'' (io_lift (IDFromString i))) (\<lambda>candidateID.
         case runner of
           None \<Rightarrow> io_fail (PlainErr ''jobs: candidate agent runner not wired'' [] [])
         | Some r \<Rightarrow> io_bind (io_wrap ''jobs: candidate agent run: %w'' (Run r candidateID 0)) (\<lambda>v. io_ret ())))"

definition handleInterviewScoring :: "'w Interviewer option \<Rightarrow> 'w jobFunc" where
  "handleInterviewScoring interviewer task = (case json_Unmarshal (dec_payload interview_field) [] (Task_Payload task) of
       None \<Rightarrow> io_fail (PlainErr ''jobs: decode interview scoring payload: %w'' [] [decode_error])
     | Some i \<Rightarrow> io_bind (io_wrap ''jobs: invalid interview_id: %w'' (io_lift (IDFromString i))) (\<lambda>interviewID.
         case interviewer of
           None \<Rightarrow> io_fail (PlainErr ''jobs: interviewer not wired'' [] [])
         | Some s \<Rightarrow> io_bind (io_wrap ''jobs: interview scoring: %w'' (ScoreAsync s interviewID)) (\<lambda>v. io_ret ())))"

definition handleBatchRematch :: "'w jobFunc" where
  "handleBatchRematch task = (case json_Unmarshal (dec_payload role_field) [] (Task_Payload task) of
       None \<Rightarrow> io_fail (PlainErr ''jobs: decode batch rematch payload: %w'' [] [decode_error])
     | Some i \<Rightarrow> io_bind (io_wrap ''jobs: invalid role_id: %w'' (io_lift (IDFromString i))) (\<lambda>roleID. io_ret ()))"

definition handleDataRetention :: "'w RetentionSweeper option \<Rightarrow> 'w jobFunc" where
  "handleDataRetention sweeper task = (case sweeper of
       None \<Rightarrow> io_fail (PlainErr ''jobs: retention sweeper not wired'' [] [])
     | Some s \<Rightarrow> (\<lambda>w. case Sweep s w of
         ((r, None), w') \<Rightarrow> (Inr (), w') | ((r, Some err), w') \<Rightarrow> (Inl err, w')))"

definition NewDataRetentionTask :: Task where
  "NewDataRetentionTask = \<lparr>Task_Type = TypeDataRetention, Task_Payload = [], Task_Headers = []\<rparr>"

record 'w HandlerDeps =
  hd_AgentRunner :: "'w AgentRunner option"
  hd_Interviewer :: "'w Interviewer option"
  hd_RetentionSweeper :: "'w RetentionSweeper option"

text \<open>
  The registered handlers by task type; a task is handed to the handler of its type. The handlers run on the
  application's part of the worker's world.
\<close>

definition on_app :: "('w, 'a) io \<Rightarrow> ('w \<times> 's, 'a) io" where
  "on_app = on_part fst (\<lambda>w p. (w, snd p))"

definition RegisterHandlers :: "'w HandlerDeps \<Rightarrow> (TaskType \<times> ('w \<times> 's) jobFunc) list" where
  "RegisterHandlers deps =
     [(TypeCandidateAgentRun, \<lambda>t. on_app (handleCandidateAgentRun (hd_AgentRunner deps) t)),
      (TypeInterviewScoring, \<lambda>t. on_app (handleInterviewScoring (hd_Interviewer deps) t)),
      (TypeBatchRematch, \<lambda>t. on_app (handleBatchRematch t)),
      (TypeDataRetention, \<lambda>t. on_app (handleDataRetention (hd_RetentionSweeper deps) t))]"

text \<open>Whether the failure of a task is the last one, which raises the alert of the archive.\<close>

definition archive_alert :: "delivery \<Rightarrow> bool" where
  "archive_alert d \<longleftrightarrow> \<not> dl_retried d < dl_maxRetry d"

record worker_options =
  wo_concurrency :: int
  wo_taskCheckInterval :: duration

definition worker_settings :: "worker_options \<Rightarrow> worker_options" where
  "worker_settings cfg =
     (let cfg = (if wo_concurrency cfg \<le> 0 then cfg\<lparr>wo_concurrency := 4\<rparr> else cfg)
      in if wo_taskCheckInterval cfg \<le> 0 then cfg\<lparr>wo_taskCheckInterval := second\<rparr> else cfg)"

subsection \<open>What the framework relies on\<close>

text \<open>\<open>status\<close> is the state of the keys and \<open>app\<close> the rest of the world, which the store leaves alone.\<close>

locale idempotency_store =
  fixes st :: "'w IdempotencyStore" and status :: "'w \<Rightarrow> gostr \<Rightarrow> idempotencyState option" and app :: "'w \<Rightarrow> 'a"
  assumes claim_free: "strings_TrimSpace k \<noteq> [] \<Longrightarrow> status w k = None \<Longrightarrow>
      \<exists>w'. Idem_Claim st k w = (Inr True, w') \<and> status w' = (status w)(k \<mapsto> idempotencyInProgress) \<and> app w' = app w"
    and claim_taken: "strings_TrimSpace k \<noteq> [] \<Longrightarrow> status w k \<noteq> None \<Longrightarrow> Idem_Claim st k w = (Inr False, w)"
    and complete: "strings_TrimSpace k \<noteq> [] \<Longrightarrow>
      \<exists>w'. Idem_Complete st k w = (Inr (), w') \<and> status w' = (status w)(k \<mapsto> idempotencyCompleted) \<and> app w' = app w"
    and release: "strings_TrimSpace k \<noteq> [] \<Longrightarrow> status w k = Some idempotencyInProgress \<Longrightarrow>
      \<exists>w'. Idem_Release st k w = (Inr (), w') \<and> status w' = (status w)(k := None) \<and> app w' = app w"
begin

lemma wrap_taken:
  assumes "dl_task d = Some t" and "k = idempotencyKey (jf_sha256 j) (dl_taskID d) t" and "strings_TrimSpace k \<noteq> []"
    and "jf_store j = st" and "status w k \<noteq> None"
  shows "wrap j fn d w = (Inr (), w)"
  using claim_taken [OF assms(3,5)] assms(1,2,4) by (simp add: wrap_def Let_def io_simps)

lemma wrap_runs:
  assumes d: "dl_task d = Some t" "k = idempotencyKey (jf_sha256 j) (dl_taskID d) t" "strings_TrimSpace k \<noteq> []"
    and j: "jf_store j = st" and free: "status w k = None" and frame: "io_frame status (fn t)"
  shows "\<exists>w1 r w2 w3. app w1 = app w \<and> fn t w1 = (r, w2) \<and> wrap j fn d w = (r, w3) \<and> app w3 = app w2 \<and>
    status w3 = (status w)(k := if isl r then None else Some idempotencyCompleted)"
proof -
  obtain w1 where w1: "Idem_Claim st k w = (Inr True, w1)" "status w1 = (status w)(k \<mapsto> idempotencyInProgress)" "app w1 = app w"
    using claim_free [OF d(3) free] by blast
  obtain r w2 where r: "fn t w1 = (r, w2)" by (cases "fn t w1")
  have s2: "status w2 = (status w)(k \<mapsto> idempotencyInProgress)" using io_frameD [OF frame r] w1(2) by simp
  show ?thesis
  proof (cases r)
    case (Inl e)
    obtain w3 where "Idem_Release st k w2 = (Inr (), w3)" "status w3 = (status w2)(k := None)" "app w3 = app w2"
      using release [OF d(3), of w2] s2 by auto
    then show ?thesis using Inl w1 r s2 d j
      by (intro exI [of _ w1] exI [of _ r] exI [of _ w2] exI [of _ w3]) (simp add: wrap_def runClaimed_def Let_def io_simps)
  next
    case (Inr u)
    obtain w3 where "Idem_Complete st k w2 = (Inr (), w3)" "status w3 = (status w2)(k \<mapsto> idempotencyCompleted)" "app w3 = app w2"
      using complete [OF d(3), of w2] by auto
    then show ?thesis using Inr w1 r s2 d j
      by (intro exI [of _ w1] exI [of _ r] exI [of _ w2] exI [of _ w3]) (simp add: wrap_def runClaimed_def Let_def io_simps)
  qed
qed

end

interpretation process_keys: idempotency_store memory_store "\<lambda>p :: 'w \<times> MemoryIdempotencyStore. map_of (snd p)" fst
proof (unfold_locales, goal_cases)
  case (1 k w)
  then show ?case by (auto simp: memory_store_def MemIdem_Claim_def io_simps update_conv')
next
  case (2 k w)
  then show ?case by (cases w) (auto simp: memory_store_def MemIdem_Claim_def io_simps)
next
  case (3 k w)
  then show ?case by (auto simp: memory_store_def MemIdem_Complete_def io_simps update_conv')
next
  case (4 k w)
  then show ?case by (auto simp: memory_store_def MemIdem_Release_def io_simps delete_conv')
qed

lemma key_not_blank: "strings_TrimSpace (idempotencyKey sha i t) \<noteq> []"
proof -
  have "\<not> unicode_IsSpace 104 \<and> \<not> unicode_IsSpace 97 \<and> \<not> unicode_IsSpace 112" by code_simp
  then show ?thesis unfolding TrimSpace_Nil_iff by (auto simp: idempotencyKey_def Let_def split: option.splits)
qed

lemma on_app_frame: "io_frame (\<lambda>p. h (snd p)) (on_app m)"
  by (rule io_frameI, rule io_keepsI) (auto simp: on_app_def io_simps split: prod.splits)

subsection \<open>One process\<close>

text \<open>
  The process-local store, which the framework takes when it is given none: deliveries one after the other.
  A handler that keeps a log of its runs, each with its idempotency key and whether it succeeded.\<close>

definition logged :: "gostr \<Rightarrow> 'w jobFunc \<Rightarrow> ('w \<times> (gostr \<times> bool) list) jobFunc" where
  "logged k g t = (\<lambda>(w, runs). case g t w of (r, w') \<Rightarrow> (r, (w', runs @ [(k, \<not> isl r)])))"

definition deliver :: "(gostr \<Rightarrow> gostr) \<Rightarrow> 'w jobFunc \<Rightarrow> delivery \<Rightarrow> (('w \<times> (gostr \<times> bool) list) \<times> MemoryIdempotencyStore, unit) io" where
  "deliver sha g d = wrap \<lparr>jf_store = memory_store, jf_sha256 = sha\<rparr>
     (\<lambda>t. on_app (logged (idempotencyKey sha (dl_taskID d) t) g t)) d"

fun deliver_all :: "(gostr \<Rightarrow> gostr) \<Rightarrow> ('w jobFunc \<times> delivery) list \<Rightarrow> ('w \<times> (gostr \<times> bool) list) \<times> MemoryIdempotencyStore \<Rightarrow>
    ('w \<times> (gostr \<times> bool) list) \<times> MemoryIdempotencyStore" where
  "deliver_all sha [] p = p"
| "deliver_all sha ((g, d) # ds) p = deliver_all sha ds (snd (deliver sha g d p))"

definition runs_of_key :: "gostr \<Rightarrow> (gostr \<times> bool) list \<Rightarrow> bool list" where
  "runs_of_key k runs = map snd (filter (\<lambda>(k', ok). k' = k) runs)"

lemma runs_of_key_simps [simp]:
  "runs_of_key k [] = []" "runs_of_key k (runs @ [(k', ok)]) = runs_of_key k runs @ (if k' = k then [ok] else [])"
  by (simp_all add: runs_of_key_def)

definition runs_ok :: "(gostr \<times> bool) list \<Rightarrow> MemoryIdempotencyStore \<Rightarrow> bool" where
  "runs_ok runs m \<longleftrightarrow> (\<forall>k. (map_of m k = None \<or> map_of m k = Some idempotencyCompleted) \<and>
     (\<exists>n. runs_of_key k runs = replicate n False @ (if map_of m k = None then [] else [True])))"

lemma deliver_fresh:
  fixes p :: "('w \<times> (gostr \<times> bool) list) \<times> MemoryIdempotencyStore"
  assumes "dl_task d = Some t" and "map_of (snd p) (idempotencyKey sha (dl_taskID d) t) = None"
  shows "\<exists>w1 r (w2 :: ('w \<times> (gostr \<times> bool) list) \<times> MemoryIdempotencyStore) w3. fst w1 = fst p \<and> on_app (logged (idempotencyKey sha (dl_taskID d) t) g t) w1 = (r, w2) \<and>
    deliver sha g d p = (r, w3) \<and> fst w3 = fst w2 \<and>
    map_of (snd w3) = (map_of (snd p))(idempotencyKey sha (dl_taskID d) t := if isl r then None else Some idempotencyCompleted)"
proof -
  let ?j = "\<lparr>jf_store = memory_store, jf_sha256 = sha\<rparr> :: (('w \<times> (gostr \<times> bool) list) \<times> MemoryIdempotencyStore) jobFramework"
  let ?fn = "\<lambda>t. on_app (logged (idempotencyKey sha (dl_taskID d) t) g t)"
  have "io_frame (\<lambda>p. map_of (snd p)) (?fn t)" by (rule on_app_frame)
  from process_keys.wrap_runs [where j = ?j and w = p and fn = ?fn, OF assms(1) refl key_not_blank _ _ this] assms(2)
  show ?thesis unfolding deliver_def by (simp only: jobFramework.select_convs simp_thms True_implies_equals)
qed

lemma deliver_runs_ok:
  fixes p :: "('w \<times> (gostr \<times> bool) list) \<times> MemoryIdempotencyStore"
  assumes "runs_ok (snd (fst p)) (snd p)"
  shows "runs_ok (snd (fst (snd (deliver sha g d p)))) (snd (snd (deliver sha g d p)))"
proof (cases "dl_task d")
  case None
  then show ?thesis using assms by (simp add: deliver_def wrap_def io_simps)
next
  case (Some t)
  let ?k = "idempotencyKey sha (dl_taskID d) t" and ?j = "\<lparr>jf_store = memory_store, jf_sha256 = sha\<rparr>"
  let ?fn = "\<lambda>t. on_app (logged (idempotencyKey sha (dl_taskID d) t) g t)"
  show ?thesis
  proof (cases "map_of (snd p) ?k")
    case None
    obtain w1 r and w2 w3 :: "('w \<times> (gostr \<times> bool) list) \<times> MemoryIdempotencyStore" where w: "fst w1 = fst p" "?fn t w1 = (r, w2)" "deliver sha g d p = (r, w3)" "fst w3 = fst w2"
        "map_of (snd w3) = (map_of (snd p))(?k := if isl r then None else Some idempotencyCompleted)"
      using deliver_fresh [OF Some None] by blast
    then have runs: "snd (fst w3) = snd (fst p) @ [(?k, \<not> isl r)]"
      by (auto simp: on_app_def logged_def io_simps split: prod.splits)
    have "\<exists>n. runs_of_key ?k (snd (fst p)) = replicate n False @ (if map_of (snd p) ?k = None then [] else [True])"
      using assms unfolding runs_ok_def by (rule allE [of _ ?k]) (erule conjE)
    then have old: "\<exists>n. runs_of_key ?k (snd (fst p)) = replicate n False" by (simp only: None if_True append_Nil2 simp_thms)
    let ?runs = "snd (fst (snd (deliver sha g d p)))" and ?m = "snd (snd (deliver sha g d p))"
    have new: "?runs = snd (fst p) @ [(?k, \<not> isl r)]" "map_of ?m = (map_of (snd p))(?k := if isl r then None else Some idempotencyCompleted)"
      using runs w(3,5) by simp_all
    have own: "\<exists>n. runs_of_key ?k ?runs = replicate n False @ (if map_of ?m ?k = None then [] else [True])"
    proof -
      obtain n where "runs_of_key ?k (snd (fst p)) = replicate n False" using old by blast
      then show ?thesis unfolding new by (cases "isl r") (auto simp: replicate_append_same intro: exI [of _ "Suc n"] exI [of _ n])
    qed
    have other: "runs_of_key k ?runs = runs_of_key k (snd (fst p)) \<and> map_of ?m k = map_of (snd p) k" if "k \<noteq> ?k" for k
      using that unfolding new by simp
    have "map_of ?m ?k = None \<or> map_of ?m ?k = Some idempotencyCompleted" unfolding new by simp
    with own other assms show ?thesis unfolding runs_ok_def by metis
  next
    case (Some s)
    have "deliver sha g d p = (Inr (), p)" unfolding deliver_def
      by (rule process_keys.wrap_taken [OF \<open>dl_task d = Some t\<close> refl]) (simp_all add: key_not_blank Some)
    then show ?thesis using assms by simp
  qed
qed

text \<open>
  Whatever tasks are delivered to one process, in whatever order and however often, and however their handlers
  end, the runs of the handler for one idempotency key are failures followed by at most one success; after the
  success no delivery with that key runs it again, and without one the key is free for the next attempt.
\<close>

lemma process_runs_once:
  "case deliver_all sha ds ((w, []), NewMemoryIdempotencyStore) of ((w', runs), keys) \<Rightarrow>
     \<forall>k. \<exists>n. (map_of keys k = None \<and> runs_of_key k runs = replicate n False) \<or>
       (map_of keys k = Some idempotencyCompleted \<and> runs_of_key k runs = replicate n False @ [True])"
proof -
  have "runs_ok (snd (fst (deliver_all sha ds p))) (snd (deliver_all sha ds p))" if "runs_ok (snd (fst p)) (snd p)" for p
    using that by (induction sha ds p rule: deliver_all.induct) (simp_all add: deliver_runs_ok)
  then have "runs_ok (snd (fst (deliver_all sha ds ((w, []), NewMemoryIdempotencyStore)))) (snd (deliver_all sha ds ((w, []), NewMemoryIdempotencyStore)))"
    by (simp add: runs_ok_def NewMemoryIdempotencyStore_def)
  then show ?thesis by (cases "deliver_all sha ds ((w, []), NewMemoryIdempotencyStore)") (force simp: runs_ok_def split: prod.splits)
qed

subsection \<open>A fleet of workers\<close>

text \<open>
  The workers share the store in Redis. What is relied on of Redis: an entry is a text with an expiry, and
  counts while the clock is before it; the three commands are atomic and read or set the entry as documented. A
  command may also answer with an error, and then it may or may not have taken effect. Nothing evicts an entry
  before its expiry.
\<close>

type_synonym entries = "gostr \<Rightarrow> (string \<times> time) option"

definition live :: "time \<Rightarrow> entries \<Rightarrow> gostr \<Rightarrow> bool" where
  "live t es k \<longleftrightarrow> (\<exists>v until. es k = Some (v, until) \<and> t < until)"

definition answers :: "('w \<Rightarrow> entries) \<Rightarrow> ('w \<Rightarrow> time) \<Rightarrow> ('w, 'a) io \<Rightarrow> 'w \<Rightarrow> 'a \<Rightarrow> entries \<Rightarrow> bool" where
  "answers entry clock m w a es \<longleftrightarrow> (\<forall>x w'. m w = (x, w') \<longrightarrow> clock w' = clock w \<and>
     (case x of Inl e \<Rightarrow> entry w' = entry w \<or> entry w' = es | Inr b \<Rightarrow> b = a \<and> entry w' = es))"

definition redis_documented :: "'w redis_client \<Rightarrow> ('w \<Rightarrow> entries) \<Rightarrow> ('w \<Rightarrow> time) \<Rightarrow> bool" where
  "redis_documented c entry clock \<longleftrightarrow> (\<forall>k v ttl w.
     answers entry clock (Redis_SetNX c k v ttl) w (\<not> live (clock w) (entry w) k)
       (if live (clock w) (entry w) k then entry w else (entry w)(k \<mapsto> (v, clock w + ttl))) \<and>
     answers entry clock (Redis_Set c k v ttl) w () ((entry w)(k \<mapsto> (v, clock w + ttl))) \<and>
     answers entry clock (Redis_DelUnlessDone c k) w ()
       (if live (clock w) (entry w) k \<and> map_option fst (entry w k) = Some ''done'' then entry w else (entry w)(k := None)))"

text \<open>
  The state of the fleet: the world; the handlers that run, each with its key and the time of its claim; those
  that ended without a recorded completion and will release their key; and the recorded completions with their
  time, the last first. Any worker may take a step at any time: claim a key for a delivery or be refused,
  complete, fail to, see its handler fail, release, or die. Everything else leaves the keys alone and does not
  turn the clock back: the work of the handlers and the passing of time.
\<close>

type_synonym 'w fleet = "'w \<times> (gostr \<times> time) list \<times> (gostr \<times> time) list \<times> (gostr \<times> time) list"

inductive fleet_step :: "'w RedisIdempotencyStore \<Rightarrow> ('w \<Rightarrow> entries) \<Rightarrow> ('w \<Rightarrow> time) \<Rightarrow> 'w fleet \<Rightarrow> 'w fleet \<Rightarrow> bool"
  for r entry clock where
  claims: "Idem_Claim (redis_store r) k w = (Inr True, w') \<Longrightarrow>
    fleet_step r entry clock (w, R, L, D) (w', (k, clock w) # R, L, D)"
| refused: "Idem_Claim (redis_store r) k w = (x, w') \<Longrightarrow> x \<noteq> Inr True \<Longrightarrow>
    fleet_step r entry clock (w, R, L, D) (w', R, L, D)"
| works: "entry w' = entry w \<Longrightarrow> clock w \<le> clock w' \<Longrightarrow> fleet_step r entry clock (w, R, L, D) (w', R, L, D)"
| completes: "(k, t) \<in> set R \<Longrightarrow> Idem_Complete (redis_store r) k w = (Inr (), w') \<Longrightarrow>
    fleet_step r entry clock (w, R, L, D) (w', remove1 (k, t) R, L, (k, clock w) # D)"
| not_completed: "(k, t) \<in> set R \<Longrightarrow> Idem_Complete (redis_store r) k w = (Inl e, w') \<Longrightarrow>
    fleet_step r entry clock (w, R, L, D) (w', remove1 (k, t) R, (k, t) # L, D)"
| fails: "(k, t) \<in> set R \<Longrightarrow> fleet_step r entry clock (w, R, L, D) (w, remove1 (k, t) R, (k, t) # L, D)"
| releases: "(k, t) \<in> set L \<Longrightarrow> Idem_Release (redis_store r) k w = (x, w') \<Longrightarrow>
    fleet_step r entry clock (w, R, L, D) (w', R, remove1 (k, t) L, D)"
| dies_running: "(k, t) \<in> set R \<Longrightarrow> fleet_step r entry clock (w, R, L, D) (w, remove1 (k, t) R, L, D)"
| dies_leaving: "(k, t) \<in> set L \<Longrightarrow> fleet_step r entry clock (w, R, L, D) (w, R, remove1 (k, t) L, D)"

text \<open>What the comment on the lifetime of a claim asks for: a worker is done, or dead, before its claim expires.\<close>

definition timely :: "'w RedisIdempotencyStore \<Rightarrow> ('w \<Rightarrow> time) \<Rightarrow> 'w fleet \<Rightarrow> bool" where
  "timely r clock s = (case s of (w, R, L, D) \<Rightarrow> \<forall>(k, t) \<in> set (R @ L). clock w < t + ri_claimTTL r)"

abbreviation "timely_step r entry clock s s' \<equiv> fleet_step r entry clock s s' \<and> timely r clock s'"

text \<open>What holds in every state that timely workers reach.\<close>

definition run_ok :: "entries \<Rightarrow> time \<Rightarrow> gostr \<times> time \<Rightarrow> bool" where
  "run_ok es now x \<longleftrightarrow> snd x \<le> now \<and> es (redisIdemKey (fst x)) = Some (''in-progress'', snd x + defaultClaimTTL)"

definition leave_ok :: "entries \<Rightarrow> gostr \<times> time \<Rightarrow> bool" where
  "leave_ok es x \<longleftrightarrow> (\<exists>v until. es (redisIdemKey (fst x)) = Some (v, until) \<and> snd x + defaultClaimTTL \<le> until)"

definition done_ok :: "entries \<Rightarrow> time \<Rightarrow> gostr \<times> time \<Rightarrow> bool" where
  "done_ok es now x \<longleftrightarrow> (now < snd x + defaultCompleteTTL \<longrightarrow>
     (\<exists>until. es (redisIdemKey (fst x)) = Some (''done'', until) \<and> snd x + defaultCompleteTTL \<le> until))"

definition apart :: "(gostr \<times> time) list \<Rightarrow> bool" where
  "apart D \<longleftrightarrow> sorted_wrt (\<lambda>x y. fst x = fst y \<longrightarrow> snd y + defaultCompleteTTL \<le> snd x) D"

definition fleet_inv :: "('w \<Rightarrow> entries) \<Rightarrow> ('w \<Rightarrow> time) \<Rightarrow> 'w fleet \<Rightarrow> bool" where
  "fleet_inv entry clock s = (case s of (w, R, L, D) \<Rightarrow> distinct (map fst (R @ L)) \<and>
     (\<forall>x \<in> set R. run_ok (entry w) (clock w) x) \<and> (\<forall>x \<in> set L. leave_ok (entry w) x) \<and>
     (\<forall>x \<in> set D. done_ok (entry w) (clock w) x) \<and> apart D)"

lemma fleet_invD:
  assumes "fleet_inv entry clock (w, R, L, D)"
  shows "distinct (map fst (R @ L))" and "x \<in> set R \<Longrightarrow> run_ok (entry w) (clock w) x"
    and "x \<in> set L \<Longrightarrow> leave_ok (entry w) x" and "x \<in> set D \<Longrightarrow> done_ok (entry w) (clock w) x" and "apart D"
  using assms by (simp_all add: fleet_inv_def)

lemma fleet_invI:
  assumes "distinct (map fst (R @ L))" and "\<And>x. x \<in> set R \<Longrightarrow> run_ok (entry w) (clock w) x"
    and "\<And>x. x \<in> set L \<Longrightarrow> leave_ok (entry w) x" and "\<And>x. x \<in> set D \<Longrightarrow> done_ok (entry w) (clock w) x" and "apart D"
  shows "fleet_inv entry clock (w, R, L, D)"
  using assms by (simp add: fleet_inv_def)

lemma redisIdemKey_inj [simp]: "redisIdemKey k = redisIdemKey k' \<longleftrightarrow> k = k'"
  by (simp add: redisIdemKey_def)

lemma ok_set [simp]:
  "fst x \<noteq> k \<Longrightarrow> run_ok (es(redisIdemKey k := e)) now x \<longleftrightarrow> run_ok es now x"
  "fst x \<noteq> k \<Longrightarrow> leave_ok (es(redisIdemKey k := e)) x \<longleftrightarrow> leave_ok es x"
  "fst x \<noteq> k \<Longrightarrow> done_ok (es(redisIdemKey k := e)) now x \<longleftrightarrow> done_ok es now x"
  by (simp_all add: run_ok_def leave_ok_def done_ok_def)

lemma ok_later: "run_ok es now x \<Longrightarrow> now \<le> now' \<Longrightarrow> run_ok es now' x" "done_ok es now x \<Longrightarrow> now \<le> now' \<Longrightarrow> done_ok es now' x"
  by (auto simp: run_ok_def done_ok_def)

lemma ok_old: "snd x + defaultCompleteTTL \<le> now \<Longrightarrow> done_ok es now x"
  by (simp add: done_ok_def)

lemma done_old:
  assumes "done_ok es now x" and "\<not> live now es (redisIdemKey (fst x)) \<or> map_option fst (es (redisIdemKey (fst x))) \<noteq> Some ''done''"
  shows "snd x + defaultCompleteTTL \<le> now"
  using assms by (fastforce simp: done_ok_def live_def)

lemma run_leaves: "run_ok es now x \<Longrightarrow> leave_ok es x"
  by (simp add: run_ok_def leave_ok_def)

lemma held_live:
  assumes "fleet_inv entry clock (w, R, L, D)" and "timely r clock (w, R, L, D)" and "ri_claimTTL r = defaultClaimTTL"
    and "x \<in> set R \<or> x \<in> set L"
  shows "live (clock w) (entry w) (redisIdemKey (fst x))"
proof -
  have "clock w < snd x + defaultClaimTTL" using assms(2,3,4) by (cases x) (auto simp: timely_def)
  moreover have "leave_ok (entry w) x" using fleet_invD(2,3) [OF assms(1)] assms(4) run_leaves by blast
  ultimately show ?thesis by (auto simp: leave_ok_def live_def)
qed

lemma remove1_keys:
  "distinct (map fst xs) \<Longrightarrow> distinct (map fst (remove1 x xs))"
  "distinct (map fst xs) \<Longrightarrow> x \<in> set xs \<Longrightarrow> y \<in> set (remove1 x xs) \<Longrightarrow> fst y \<noteq> fst x"
  by (induction xs) (auto simp: image_iff dest: notin_set_remove1 split: if_splits)

lemma in_remove1: "y \<in> set (remove1 x xs) \<Longrightarrow> y \<in> set xs"
  by (meson notin_set_remove1)

lemma redis_sets:
  assumes "redis_documented c entry clock" and "r = NewRedisIdempotencyStore c"
  shows "Idem_Claim (redis_store r) k w = (x, w') \<Longrightarrow> clock w' = clock w \<and>
      (entry w' = entry w \<and> x \<noteq> Inr True \<or> \<not> live (clock w) (entry w) (redisIdemKey k) \<and>
        entry w' = (entry w)(redisIdemKey k \<mapsto> (''in-progress'', clock w + defaultClaimTTL)))"
    and "Idem_Complete (redis_store r) k w = (y, w') \<Longrightarrow> clock w' = clock w \<and>
      (entry w' = entry w \<and> y \<noteq> Inr () \<or> entry w' = (entry w)(redisIdemKey k \<mapsto> (''done'', clock w + defaultCompleteTTL)))"
    and "Idem_Release (redis_store r) k w = (z, w') \<Longrightarrow> clock w' = clock w \<and>
      (entry w' = entry w \<or> \<not> (live (clock w) (entry w) (redisIdemKey k) \<and> map_option fst (entry w (redisIdemKey k)) = Some ''done'') \<and>
        entry w' = (entry w)(redisIdemKey k := None))"
proof -
  have sel: "ri_client r = c" "ri_claimTTL r = defaultClaimTTL" "ri_completeTTL r = defaultCompleteTTL"
    by (simp_all add: assms(2) NewRedisIdempotencyStore_def)
  have d: "answers entry clock (Redis_SetNX c k v ttl) w (\<not> live (clock w) (entry w) k)
       (if live (clock w) (entry w) k then entry w else (entry w)(k \<mapsto> (v, clock w + ttl)))"
    "answers entry clock (Redis_Set c k v ttl) w () ((entry w)(k \<mapsto> (v, clock w + ttl)))"
    "answers entry clock (Redis_DelUnlessDone c k) w ()
       (if live (clock w) (entry w) k \<and> map_option fst (entry w k) = Some ''done'' then entry w else (entry w)(k := None))" for k v ttl
    using assms(1) unfolding redis_documented_def by blast+
  show "clock w' = clock w \<and> (entry w' = entry w \<and> x \<noteq> Inr True \<or> \<not> live (clock w) (entry w) (redisIdemKey k) \<and>
        entry w' = (entry w)(redisIdemKey k \<mapsto> (''in-progress'', clock w + defaultClaimTTL)))"
    if "Idem_Claim (redis_store r) k w = (x, w')"
    using that d(1) [of "redisIdemKey k" "''in-progress''" defaultClaimTTL]
    by (auto simp: redis_store_def RedisIdem_Claim_def sel answers_def io_simps split: if_splits sum.splits)
  show "clock w' = clock w \<and>
      (entry w' = entry w \<and> y \<noteq> Inr () \<or> entry w' = (entry w)(redisIdemKey k \<mapsto> (''done'', clock w + defaultCompleteTTL)))"
    if "Idem_Complete (redis_store r) k w = (y, w')"
    using that d(2) [of "redisIdemKey k" "''done''" defaultCompleteTTL]
    by (auto simp: redis_store_def RedisIdem_Complete_def sel answers_def io_simps split: if_splits sum.splits)
  show "clock w' = clock w \<and> (entry w' = entry w \<or>
      \<not> (live (clock w) (entry w) (redisIdemKey k) \<and> map_option fst (entry w (redisIdemKey k)) = Some ''done'') \<and>
        entry w' = (entry w)(redisIdemKey k := None))"
    if "Idem_Release (redis_store r) k w = (z, w')"
    using that d(3) [of "redisIdemKey k"]
    by (auto simp: redis_store_def RedisIdem_Release_def sel answers_def io_simps split: if_splits sum.splits)
qed

lemma fleet_same:
  "fleet_inv entry clock (w, R, L, D) \<Longrightarrow> entry w' = entry w \<Longrightarrow> clock w \<le> clock w' \<Longrightarrow> fleet_inv entry clock (w', R, L, D)"
  using ok_later by (force simp: fleet_inv_def)

lemma fleet_drop:
  assumes "fleet_inv entry clock (w, R, L, D)"
  shows "fleet_inv entry clock (w, remove1 x R, L, D)" and "fleet_inv entry clock (w, R, remove1 x L, D)"
proof -
  note d = fleet_invD [OF assms]
  have sub: "fst ` set (remove1 x R) \<subseteq> fst ` set R" "fst ` set (remove1 x L) \<subseteq> fst ` set L"
    by (intro image_mono set_remove1_subset)+
  have e: "distinct (map fst R)" "distinct (map fst L)" "fst ` set R \<inter> fst ` set L = {}" using d(1) by simp_all
  have k: "distinct (map fst (remove1 x R @ L))" "distinct (map fst (R @ remove1 x L))"
    unfolding map_append distinct_append set_map
    by (intro conjI remove1_keys(1) e; use sub e(3) in blast)+
  show "fleet_inv entry clock (w, remove1 x R, L, D)" 
    by (rule fleet_invI [OF k(1)]) (erule d(2) [OF in_remove1] d(3,4) | rule d(5))+
  show "fleet_inv entry clock (w, R, remove1 x L, D)" 
    by (rule fleet_invI [OF k(2)]) (erule d(3) [OF in_remove1] d(2,4) | rule d(5))+
qed

lemma fleet_only:
  assumes "fleet_inv entry clock (w, R, L, D)"
  shows "x \<in> set R \<Longrightarrow> \<forall>y \<in> set (remove1 x R) \<union> set L. fst y \<noteq> fst x"
    and "x \<in> set L \<Longrightarrow> \<forall>y \<in> set R \<union> set (remove1 x L). fst y \<noteq> fst x"
proof -
  have d: "distinct (map fst R)" "distinct (map fst L)" "\<And>y z. y \<in> set R \<Longrightarrow> z \<in> set L \<Longrightarrow> fst y \<noteq> fst z"
    using fleet_invD(1) [OF assms] by (auto simp: disjoint_iff)
  show "x \<in> set R \<Longrightarrow> \<forall>y \<in> set (remove1 x R) \<union> set L. fst y \<noteq> fst x"
    using remove1_keys(2) [OF d(1)] d(3) by (metis Un_iff)
  show "x \<in> set L \<Longrightarrow> \<forall>y \<in> set R \<union> set (remove1 x L). fst y \<noteq> fst x"
    using remove1_keys(2) [OF d(2)] d(3) by (metis Un_iff)
qed

text \<open>An entry of a key that nobody holds, or of the one that is given up, may be set.\<close>

lemma fleet_set:
  assumes "fleet_inv entry clock (w, R, L, D)" and "entry w' = (entry w)(redisIdemKey k := e)" and "clock w' = clock w"
    and "\<forall>y \<in> set R \<union> set L. fst y \<noteq> k" and "\<forall>y \<in> set D. fst y = k \<longrightarrow> snd y + defaultCompleteTTL \<le> clock w"
  shows "fleet_inv entry clock (w', R, L, D)"
proof (rule fleet_invI)
  fix y assume "y \<in> set D"
  then show "done_ok (entry w') (clock w') y"
    using fleet_invD(4) [OF assms(1)] assms(5) ok_old [of y "clock w"] by (cases "fst y = k") (simp_all add: assms(2,3))
qed (use fleet_invD [OF assms(1)] assms(4) in \<open>simp_all add: assms(2,3)\<close>)

lemma fresh_key: "\<forall>y \<in> set R \<union> set L. fst y \<noteq> k \<Longrightarrow> k \<notin> fst ` set R \<and> k \<notin> fst ` set L"
  by auto

lemma fleet_give_up:
  assumes "fleet_inv entry clock (w, R, L, D)" and "leave_ok (entry w) x" and "\<forall>y \<in> set R \<union> set L. fst y \<noteq> fst x"
  shows "fleet_inv entry clock (w, R, x # L, D)"
  using assms(1,2) fresh_key [OF assms(3)] by (simp add: fleet_inv_def)

lemma fleet_take:
  assumes "fleet_inv entry clock (w, R, L, D)" and "run_ok (entry w) (clock w) x" and "\<forall>y \<in> set R \<union> set L. fst y \<noteq> fst x"
  shows "fleet_inv entry clock (w, x # R, L, D)"
  using assms(1,2) fresh_key [OF assms(3)] by (simp add: fleet_inv_def)

lemma claimTTL_le: "t \<le> now \<Longrightarrow> t + defaultClaimTTL \<le> now + defaultCompleteTTL"
  by (simp add: defaultClaimTTL_def defaultCompleteTTL_def time_units)

lemma completed_set:
  assumes "fleet_inv entry clock (w, R, L, D)" and "x \<in> set R" and "clock w' = clock w"
    and "entry w' = (entry w)(redisIdemKey (fst x) \<mapsto> (''done'', clock w + defaultCompleteTTL))"
  shows "fleet_inv entry clock (w', remove1 x R, L, D)" and "leave_ok (entry w') x"
    and "done_ok (entry w') (clock w') (fst x, clock w)" and "apart ((fst x, clock w) # D)"
proof -
  have r: "run_ok (entry w) (clock w) x" by (rule fleet_invD(2) [OF assms(1,2)])
  have old: "\<forall>y \<in> set D. fst y = fst x \<longrightarrow> snd y + defaultCompleteTTL \<le> clock w"
  proof (intro ballI impI)
    fix y assume y: "y \<in> set D" "fst y = fst x"
    show "snd y + defaultCompleteTTL \<le> clock w"
      by (rule done_old [OF fleet_invD(4) [OF assms(1) y(1)]]) (use r y(2) in \<open>simp add: run_ok_def\<close>)
  qed
  show "fleet_inv entry clock (w', remove1 x R, L, D)"
    by (rule fleet_set [OF fleet_drop(1) [OF assms(1)] assms(4,3) fleet_only(1) [OF assms(1,2)] old])
  show "leave_ok (entry w') x" using r claimTTL_le by (simp add: leave_ok_def run_ok_def assms(4))
  show "done_ok (entry w') (clock w') (fst x, clock w)" by (simp add: done_ok_def assms(4))
  show "apart ((fst x, clock w) # D)" using fleet_invD(5) [OF assms(1)] old by (auto simp: apart_def)
qed

lemma fleet_step_inv:
  assumes "fleet_step r entry clock s s'" and doc: "redis_documented c entry clock" and r: "r = NewRedisIdempotencyStore c"
    and "fleet_inv entry clock s" and "timely r clock s"
  shows "fleet_inv entry clock s'"
  using assms(1)
proof cases
  case (claims k w w' R L D)
  note set = redis_sets(1) [OF doc r claims(3)]
  have w': "clock w' = clock w" "\<not> live (clock w) (entry w) (redisIdemKey k)"
    "entry w' = (entry w)(redisIdemKey k \<mapsto> (''in-progress'', clock w + defaultClaimTTL))" using set by simp_all
  note inv = assms(4) [unfolded claims]
  have free: "\<forall>y \<in> set R \<union> set L. fst y \<noteq> k"
    using held_live [OF inv assms(5) [unfolded claims]] w'(2) by (auto simp: r NewRedisIdempotencyStore_def)
  have "fleet_inv entry clock (w', R, L, D)"
    by (rule fleet_set [OF inv w'(3,1) free]) (use done_old fleet_invD(4) [OF inv] w'(2) in blast)
  moreover have "run_ok (entry w') (clock w') (k, clock w)" by (simp add: run_ok_def w'(1,3))
  ultimately show ?thesis unfolding claims by (rule fleet_take) (use free in simp)
next
  case (refused k w x w' R L D)
  note inv = assms(4) [unfolded refused]
  from redis_sets(1) [OF doc r refused(3)] consider "clock w' = clock w" "entry w' = entry w"
    | "clock w' = clock w" "\<not> live (clock w) (entry w) (redisIdemKey k)"
      "entry w' = (entry w)(redisIdemKey k \<mapsto> (''in-progress'', clock w + defaultClaimTTL))" by blast
  then show ?thesis
  proof cases
    case 1
    then show ?thesis using fleet_same [OF inv] unfolding refused by simp
  next
    case 2
    have free: "\<forall>y \<in> set R \<union> set L. fst y \<noteq> k"
      using held_live [OF inv assms(5) [unfolded refused]] 2(2) by (auto simp: r NewRedisIdempotencyStore_def)
    show ?thesis unfolding refused
      by (rule fleet_set [OF inv 2(3,1) free]) (use done_old fleet_invD(4) [OF inv] 2(2) in blast)
  qed
next
  case (works w' w R L D)
  show ?thesis unfolding works by (rule fleet_same [OF assms(4) [unfolded works(1)] works(3,4)])
next
  case (completes k t R w w' L D)
  note inv = assms(4) [unfolded completes]
  from redis_sets(2) [OF doc r completes(4)] have w': "clock w' = clock w"
    "entry w' = (entry w)(redisIdemKey (fst (k, t)) \<mapsto> (''done'', clock w + defaultCompleteTTL))" by auto
  from completed_set [OF inv completes(3) w'] show ?thesis unfolding completes by (simp add: fleet_inv_def)
next
  case (not_completed k t R w e w' L D)
  note inv = assms(4) [unfolded not_completed]
  from redis_sets(2) [OF doc r not_completed(4)] consider "clock w' = clock w" "entry w' = entry w"
    | "clock w' = clock w" "entry w' = (entry w)(redisIdemKey (fst (k, t)) \<mapsto> (''done'', clock w + defaultCompleteTTL))" by auto
  then have "fleet_inv entry clock (w', remove1 (k, t) R, L, D) \<and> leave_ok (entry w') (k, t)"
  proof cases
    case 1
    have "fleet_inv entry clock (w', remove1 (k, t) R, L, D)" by (rule fleet_same [OF fleet_drop(1) [OF inv] 1(2)]) (simp add: 1(1))
    then show ?thesis using run_leaves [OF fleet_invD(2) [OF inv not_completed(3)]] by (simp add: 1(2))
  next
    case 2
    from completed_set(1,2) [OF inv not_completed(3) 2] show ?thesis by blast
  qed
  then show ?thesis unfolding not_completed by (elim conjE) (rule fleet_give_up [OF _ _ fleet_only(1) [OF inv not_completed(3)]])
next
  case (fails k t R w L D)
  note inv = assms(4) [unfolded fails]
  show ?thesis unfolding fails
    by (rule fleet_give_up [OF fleet_drop(1) [OF inv] run_leaves [OF fleet_invD(2) [OF inv fails(3)]] fleet_only(1) [OF inv fails(3)]])
next
  case (releases k t L w x w' R D)
  note inv = assms(4) [unfolded releases] note drop = fleet_drop(2) [OF inv, of "(k, t)"]
  from redis_sets(3) [OF doc r releases(4)] consider "clock w' = clock w" "entry w' = entry w"
    | "clock w' = clock w" "entry w' = (entry w)(redisIdemKey k := None)"
      "\<not> (live (clock w) (entry w) (redisIdemKey k) \<and> map_option fst (entry w (redisIdemKey k)) = Some ''done'')" by blast
  then show ?thesis
  proof cases
    case 1
    then show ?thesis using fleet_same [OF drop] unfolding releases by simp
  next
    case 2
    show ?thesis unfolding releases
      by (rule fleet_set [OF drop 2(2,1)])
        (use fleet_only(2) [OF inv releases(3)] done_old [OF fleet_invD(4) [OF inv]] 2(3) in \<open>simp, blast\<close>)
  qed
next
  case (dies_running k t R w L D)
  show ?thesis unfolding dies_running by (rule fleet_drop(1) [OF assms(4) [unfolded dies_running(1)]])
next
  case (dies_leaving k t L w R D)
  show ?thesis unfolding dies_leaving by (rule fleet_drop(2) [OF assms(4) [unfolded dies_leaving(1)]])
qed

text \<open>What the framework does with one delivery is a sequence of such steps.\<close>

lemma wrap_steps:
  assumes doc: "redis_documented c entry clock" and r: "r = NewRedisIdempotencyStore c" and j: "jf_store j = redis_store r"
    and d: "dl_task d = Some task" "k = idempotencyKey (jf_sha256 j) (dl_taskID d) task"
    and fn: "\<forall>u y u'. fn task u = (y, u') \<longrightarrow> entry u' = entry u \<and> clock u \<le> clock u'" and run: "wrap j fn d w = (x, w')"
  shows "(fleet_step r entry clock)\<^sup>*\<^sup>* (w, R, L, D)
    (w', R, L, if x = Inr () \<and> fst (Idem_Claim (redis_store r) k w) = Inr True then (k, clock w') # D else D)"
proof -
  obtain q w1 where claim: "Idem_Claim (redis_store r) k w = (q, w1)" by fastforce
  show ?thesis
  proof (cases "q = Inr True")
    case False
    then have "w' = w1" using run claim
      by (cases q) (auto simp: wrap_def d j Let_def io_simps split: if_splits)
    then show ?thesis using refused [OF claim False] False claim by (simp add: r_into_rtranclp)
  next
    case True
    note s1 = claims [OF claim [unfolded True], of entry clock R L D]
    obtain y w2 where y: "fn task w1 = (y, w2)" by fastforce
    have s2: "fleet_step r entry clock (w1, (k, clock w) # R, L, D) (w2, (k, clock w) # R, L, D)"
      by (rule works) (use fn y in blast)+
    have after: "x = Inr () \<Longrightarrow> y = Inr ()" "runClaimed j k fn task w1 = (x, w')"
      using run claim True y by (auto simp: wrap_def runClaimed_def d j Let_def io_simps split: sum.splits prod.splits)
    have hold: "(k, clock w) \<in> set ((k, clock w) # R)" "(k, clock w) \<in> set ((k, clock w) # L)" by simp_all
    show ?thesis
    proof (cases y)
      case (Inl e)
      obtain z w3 where z: "Idem_Release (redis_store r) k w2 = (z, w3)" by fastforce
      have "w' = w3" "x \<noteq> Inr ()" using after(2) y Inl z by (auto simp: runClaimed_def j io_simps)
      then show ?thesis using s1 s2 fails [OF hold(1), of r entry clock w2 L D] releases [OF hold(2) z, of entry clock R D] by simp
    next
      case (Inr u)
      obtain z w3 where z: "Idem_Complete (redis_store r) k w2 = (z, w3)" by fastforce
      show ?thesis
      proof (cases z)
        case (Inl e)
        obtain z' w4 where z': "Idem_Release (redis_store r) k w3 = (z', w4)" by fastforce
        have "w' = w4" "x \<noteq> Inr ()" using after(2) y Inr z z' Inl by (auto simp: runClaimed_def j io_simps)
        then show ?thesis
          using s1 s2 not_completed [OF hold(1) z [unfolded Inl], of entry clock L D] releases [OF hold(2) z', of entry clock R D] by simp
      next
        case (Inr v)
        have e: "w' = w3" "x = Inr ()" "clock w3 = clock w2"
          using after(2) y \<open>y = Inr u\<close> z Inr redis_sets(2) [OF doc r z] by (auto simp: runClaimed_def j io_simps)
        then show ?thesis
          using s1 s2 completes [OF hold(1), of r w2 w3 entry clock L D] z Inr claim True by simp
      qed
    qed
  qed
qed

lemma fleet_reached:
  assumes "redis_documented c entry clock" and "r = NewRedisIdempotencyStore c"
  shows "(timely_step r entry clock)\<^sup>*\<^sup>* s s' \<Longrightarrow> fleet_inv entry clock s \<Longrightarrow> timely r clock s \<Longrightarrow>
    fleet_inv entry clock s' \<and> timely r clock s'"
  by (induction rule: rtranclp_induct) (use fleet_step_inv [OF _ assms] in blast)+

text \<open>
  C34: A job is done once. The workers share the store in Redis; claims, completions, failures, releases and deaths
  of any number of workers interleave in any order, any command to Redis may fail with or without effect, and time
  passes. As long as every worker is done, or dead, before its claim expires (fifteen minutes), at most one handler
  runs for an idempotency key at any time; and for 24 hours after a recorded completion none runs for that key, so
  that two recorded completions of a key are at least 24 hours apart. The framework's handling of a delivery is such
  a sequence of steps: a claim or a refusal, the handler, which leaves the keys alone, and then a completion exactly
  when the delivery was claimed and is answered with success, and a release otherwise.
\<close>

theorem job_done_once:
  assumes "redis_documented c entry clock" and "r = NewRedisIdempotencyStore c"
    and "(\<lambda>s s'. fleet_step r entry clock s s' \<and> timely r clock s')\<^sup>*\<^sup>* (w0, [], [], []) (w, R, L, D)"
  shows "distinct (map fst R) \<and>
    (\<forall>k t. (k, t) \<in> set D \<and> clock w < t + 24 * hour \<longrightarrow> k \<notin> fst ` set R) \<and>
    sorted_wrt (\<lambda>x y. fst x = fst y \<longrightarrow> snd y + 24 * hour \<le> snd x) D \<and>
    (\<forall>j fn d task k v x v'. jf_store j = redis_store r \<and> dl_task d = Some task \<and>
        k = idempotencyKey (jf_sha256 j) (dl_taskID d) task \<and>
        (\<forall>u y u'. fn task u = (y, u') \<longrightarrow> entry u' = entry u \<and> clock u \<le> clock u') \<and> wrap j fn d v = (x, v') \<longrightarrow>
      (fleet_step r entry clock)\<^sup>*\<^sup>* (v, R, L, D)
        (v', R, L, if x = Inr () \<and> fst (Idem_Claim (redis_store r) k v) = Inr True then (k, clock v') # D else D))"
proof -
  have inv: "fleet_inv entry clock (w, R, L, D)"
    using fleet_reached [OF assms(1,2,3)] by (simp add: fleet_inv_def apart_def timely_def)
  have "k \<notin> fst ` set R" if d: "(k, t) \<in> set D" "clock w < t + 24 * hour" for k t
  proof
    assume "k \<in> fst ` set R"
    then obtain x where x: "x \<in> set R" "fst x = k" by auto
    with fleet_invD(2) [OF inv x(1)] fleet_invD(4) [OF inv d(1)] d(2) show False
      by (simp add: run_ok_def done_ok_def defaultCompleteTTL_def)
  qed
  then show ?thesis
  proof (intro conjI)
    show "distinct (map fst R)" using fleet_invD(1) [OF inv] by simp
    show "sorted_wrt (\<lambda>x y. fst x = fst y \<longrightarrow> snd y + 24 * hour \<le> snd x) D"
      using fleet_invD(5) [OF inv] unfolding apart_def defaultCompleteTTL_def .
  qed (blast, intro allI impI, elim conjE, rule wrap_steps [OF assms(1,2)])
qed

text \<open>A Redis of its own clock, for the witness: the world is the clock and the entries.\<close>

definition sample_redis :: "(time \<times> entries) redis_client" where
  "sample_redis = \<lparr>
     Redis_SetNX = (\<lambda>k v ttl (t, es). if live t es k then (Inr False, t, es) else (Inr True, t, es(k \<mapsto> (v, t + ttl)))),
     Redis_Set = (\<lambda>k v ttl (t, es). (Inr (), t, es(k \<mapsto> (v, t + ttl)))),
     Redis_DelUnlessDone = (\<lambda>k (t, es).
       if live t es k \<and> map_option fst (es k) = Some ''done'' then (Inr (), t, es) else (Inr (), t, es(k := None)))\<rparr>"

lemma sample_redis_documented: "redis_documented sample_redis snd fst"
  by (auto simp: redis_documented_def sample_redis_def answers_def split: if_splits)

definition sample_fleet :: "(time \<times> entries) RedisIdempotencyStore" where "sample_fleet = NewRedisIdempotencyStore sample_redis"

definition sample_delivery :: delivery where
  "sample_delivery = \<lparr>dl_task = Some \<lparr>Task_Type = lit ''t'', Task_Payload = [], Task_Headers = [(HeaderIdempotencyKey, lit ''a'')]\<rparr>,
     dl_taskID = None, dl_retried = 0, dl_maxRetry = 3\<rparr>"

lemma four_steps: "r a b \<Longrightarrow> r b c \<Longrightarrow> r c d \<Longrightarrow> r d e \<Longrightarrow> r\<^sup>*\<^sup>* a e"
  by (meson converse_rtranclp_into_rtranclp r_into_rtranclp)

text \<open>A worker claims a key and completes it a minute later, a second one has claimed another key.\<close>

lemma sample_fleet_run:
  "\<exists>w. (\<lambda>s s'. fleet_step sample_fleet snd fst s s' \<and> timely sample_fleet fst s')\<^sup>*\<^sup>* ((0, Map.empty), [], [], [])
     (w, [(lit ''b'', 0)], [], [(lit ''a'', minute)]) \<and> fst w = minute"
proof -
  let ?step = "\<lambda>s s'. fleet_step sample_fleet snd fst s s' \<and> timely sample_fleet fst s'"
  define claim where "claim k = Idem_Claim (redis_store sample_fleet) k" for k
  define w1 where "w1 = snd (claim (lit ''b'') (0, Map.empty))"
  define w2 where "w2 = snd (claim (lit ''a'') w1)"
  define w3 where "w3 = (minute, snd w2)"
  define w4 where "w4 = snd (Idem_Complete (redis_store sample_fleet) (lit ''a'') w3)"
  have ts: "strings_TrimSpace (lit ''a'') \<noteq> [] \<and> strings_TrimSpace (lit ''b'') \<noteq> [] \<and> lit ''a'' \<noteq> lit ''b''" by code_simp
  note defs = claim_def redis_store_def RedisIdem_Claim_def RedisIdem_Complete_def sample_fleet_def NewRedisIdempotencyStore_def
    sample_redis_def live_def
  have c: "claim (lit ''b'') (0, Map.empty) = (Inr True, w1)" "fst w1 = 0" "claim (lit ''a'') w1 = (Inr True, w2)" "fst w2 = 0"
    "Idem_Complete (redis_store sample_fleet) (lit ''a'') w3 = (Inr (), w4)" "fst w3 = minute" "fst w4 = minute"
    using ts by (simp_all add: w1_def w2_def w3_def w4_def defs del: lit_simps)
  have s: "fleet_step sample_fleet snd fst ((0, Map.empty), [], [], []) (w1, [(lit ''b'', 0)], [], [])"
    "fleet_step sample_fleet snd fst (w1, [(lit ''b'', 0)], [], []) (w2, [(lit ''a'', 0), (lit ''b'', 0)], [], [])"
    "fleet_step sample_fleet snd fst (w2, [(lit ''a'', 0), (lit ''b'', 0)], [], []) (w3, [(lit ''a'', 0), (lit ''b'', 0)], [], [])"
    "fleet_step sample_fleet snd fst (w3, [(lit ''a'', 0), (lit ''b'', 0)], [], []) (w4, [(lit ''b'', 0)], [], [(lit ''a'', minute)])"
    using claims [OF c(1) [unfolded claim_def], of snd fst "[]" "[]" "[]"]
      claims [OF c(3) [unfolded claim_def], of snd fst "[(lit ''b'', 0)]" "[]" "[]"]
      works [of snd w3 w2 fst sample_fleet "[(lit ''a'', 0), (lit ''b'', 0)]" "[]" "[]"]
      completes [OF _ c(5), of 0 "[(lit ''a'', 0), (lit ''b'', 0)]" snd fst "[]" "[]"] c(2,4,6)
    by (simp_all add: w3_def minute_def second_def del: lit_simps)
  have t: "timely sample_fleet fst (w, R, [], D)" if "fst w \<le> minute" "\<forall>x \<in> set R. snd x = 0" for w :: "time \<times> entries" and R D
    using that by (fastforce simp: timely_def sample_fleet_def NewRedisIdempotencyStore_def defaultClaimTTL_def time_units)
  have "?step ((0, Map.empty), [], [], []) (w1, [(lit ''b'', 0)], [], [])"
    by (intro conjI s(1) t) (simp_all add: c(2) minute_def second_def del: lit_simps)
  moreover have "?step (w1, [(lit ''b'', 0)], [], []) (w2, [(lit ''a'', 0), (lit ''b'', 0)], [], [])"
    by (intro conjI s(2) t) (simp_all add: c(4) minute_def second_def del: lit_simps)
  moreover have "?step (w2, [(lit ''a'', 0), (lit ''b'', 0)], [], []) (w3, [(lit ''a'', 0), (lit ''b'', 0)], [], [])"
    by (intro conjI s(3) t) (simp_all add: c(6) del: lit_simps)
  moreover have "?step (w3, [(lit ''a'', 0), (lit ''b'', 0)], [], []) (w4, [(lit ''b'', 0)], [], [(lit ''a'', minute)])"
    by (intro conjI s(4) t) (simp_all add: c(7) del: lit_simps)
  ultimately have "?step\<^sup>*\<^sup>* ((0, Map.empty), [], [], []) (w4, [(lit ''b'', 0)], [], [(lit ''a'', minute)])"
    by (rule four_steps [of ?step])
  then show ?thesis using c(7) by blast
qed

lemma job_done_once_witness:
  "\<exists>w. fst w = minute \<and> lit ''a'' \<notin> fst ` set [(lit ''b'', 0 :: time)] \<and>
     (\<forall>v'. wrap \<lparr>jf_store = redis_store sample_fleet, jf_sha256 = id\<rparr> (\<lambda>t. io_ret ()) sample_delivery w = (Inr (), v') \<longrightarrow>
        (\<exists>D. (fleet_step sample_fleet snd fst)\<^sup>*\<^sup>* (w, [(lit ''b'', 0)], [], [(lit ''a'', minute)]) (v', [(lit ''b'', 0)], [], D)))"
proof -
  obtain w where w: "(\<lambda>s s'. fleet_step sample_fleet snd fst s s' \<and> timely sample_fleet fst s')\<^sup>*\<^sup>* ((0, Map.empty), [], [], [])
     (w, [(lit ''b'', 0)], [], [(lit ''a'', minute)])" "fst w = minute"
    using sample_fleet_run by blast
  note j = job_done_once [OF sample_redis_documented sample_fleet_def w(1)]
  have "lit ''a'' \<notin> fst ` set [(lit ''b'', 0 :: time)]"
    by (rule j [THEN conjunct2, THEN conjunct1, rule_format, of _ minute]) (simp add: w(2) time_units del: lit_simps)
  moreover have "\<exists>D. (fleet_step sample_fleet snd fst)\<^sup>*\<^sup>* (w, [(lit ''b'', 0)], [], [(lit ''a'', minute)]) (v', [(lit ''b'', 0)], [], D)"
    if "wrap \<lparr>jf_store = redis_store sample_fleet, jf_sha256 = id\<rparr> (\<lambda>t. io_ret ()) sample_delivery w = (Inr (), v')" for v'
  proof -
    have "\<forall>u y u'. (io_ret () :: (time \<times> entries, unit) io) u = (y, u') \<longrightarrow> snd u' = snd u \<and> fst u \<le> fst u'"
      by (simp add: io_ret_def)
    moreover obtain task where "dl_task sample_delivery = Some task" by (simp add: sample_delivery_def)
    ultimately show ?thesis
      using j [THEN conjunct2, THEN conjunct2, THEN conjunct2, THEN spec, THEN spec, THEN spec, THEN spec, THEN spec, THEN spec,
          THEN spec, THEN spec, of "\<lparr>jf_store = redis_store sample_fleet, jf_sha256 = id\<rparr>" sample_delivery task _ "\<lambda>t. io_ret ()"] that
      by (simp del: lit_simps) blast
  qed
  ultimately show ?thesis using w(2) by blast
qed

subsection \<open>What is dispatched is what runs\<close>

lemma on_app_cong: "(\<And>w. m w = m' w) \<Longrightarrow> on_app m = on_app m'"
  by (rule arg_cong [of _ _ on_app]) (rule ext)

lemma IDFromString_ok: "strings_TrimSpace i \<noteq> [] \<Longrightarrow> IDFromString i = Inr i"
  by (simp add: IDFromString_def)

lemma io_wrap_lift [simp]: "io_wrap msg (io_lift (Inr a)) = io_ret a"
  by (rule ext) (simp add: io_wrap_def io_simps)

lemma io_bind_pure [simp]: "io_bind (io_ret a) f = f a"
  by (rule ext) (simp add: io_simps)

lemma handlers_read_back:
  assumes "\<forall>r \<in> set i. 0 \<le> r" and "strings_TrimSpace i \<noteq> []"
  shows "handleCandidateAgentRun (Some runner) \<lparr>Task_Type = t, Task_Payload = json_Marshal (payload_json candidate_field i), Task_Headers = h\<rparr> =
      io_bind (io_wrap ''jobs: candidate agent run: %w'' (Run runner i 0)) (\<lambda>v. io_ret ())"
    and "handleInterviewScoring (Some s) \<lparr>Task_Type = t, Task_Payload = json_Marshal (payload_json interview_field i), Task_Headers = h\<rparr> =
      io_bind (io_wrap ''jobs: interview scoring: %w'' (ScoreAsync s i)) (\<lambda>v. io_ret ())"
  using payload_roundtrip [OF assms(1)] IDFromString_ok [OF assms(2)]
  by (simp_all add: handleCandidateAgentRun_def handleInterviewScoring_def)

lemma registered_handlers:
  "map_of (RegisterHandlers deps) TypeCandidateAgentRun = Some (\<lambda>t. on_app (handleCandidateAgentRun (hd_AgentRunner deps) t))"
  "map_of (RegisterHandlers deps) TypeInterviewScoring = Some (\<lambda>t. on_app (handleInterviewScoring (hd_Interviewer deps) t))"
  by (simp_all add: RegisterHandlers_def TypeCandidateAgentRun_def TypeInterviewScoring_def)

text \<open>
  What the interface dispatches is what a worker does. The task that a dispatch of an agent run or of an
  interview scoring hands to the queue is routed to the handler of its type, which reads back the very
  identifier and runs the agent, or scores the interview, for it.
\<close>

lemma dispatch_reaches_handler:
  assumes "\<forall>r \<in> set i. 0 \<le> r" and "strings_TrimSpace i \<noteq> []" and "qd_enqueue d = Some enqueue"
    and "hd_AgentRunner deps = Some runner" and "hd_Interviewer deps = Some interviewer"
  shows "\<exists>T1 T2 os.
    (\<forall>tid w'. enqueue T1 os w = (Inr tid, w') \<longrightarrow> DispatchCandidateAgentRun d i opts w = (Inr tid, w')) \<and>
    map_option (\<lambda>h. h T1) (map_of (RegisterHandlers deps :: (TaskType \<times> ('w \<times> MemoryIdempotencyStore) jobFunc) list) (Task_Type T1)) =
      Some (on_app (io_bind (io_wrap ''jobs: candidate agent run: %w'' (Run runner i 0)) (\<lambda>v. io_ret ()))) \<and>
    (\<forall>tid w'. enqueue T2 os w = (Inr tid, w') \<longrightarrow> DispatchInterviewScoring d i opts w = (Inr tid, w')) \<and>
    map_option (\<lambda>h. h T2) (map_of (RegisterHandlers deps :: (TaskType \<times> ('w \<times> MemoryIdempotencyStore) jobFunc) list) (Task_Type T2)) =
      Some (on_app (io_bind (io_wrap ''jobs: interview scoring: %w'' (ScoreAsync interviewer i)) (\<lambda>v. io_ret ())))"
proof -
  have policy: "DefaultRetryPolicy TypeInterviewScoring = DefaultRetryPolicy TypeCandidateAgentRun" by (simp add: DefaultRetryPolicy_def)
  let ?os = "taskOptions TypeCandidateAgentRun (Some (ApplyOpts opts))"
  have os: "taskOptions TypeInterviewScoring (Some (ApplyOpts opts)) = ?os" by (simp add: taskOptions_def policy)
  let ?T1 = "\<lparr>Task_Type = TypeCandidateAgentRun, Task_Payload = json_Marshal (payload_json candidate_field i), Task_Headers = qd_headers d w\<rparr>"
  let ?T2 = "\<lparr>Task_Type = TypeInterviewScoring, Task_Payload = json_Marshal (payload_json interview_field i), Task_Headers = qd_headers d w\<rparr>"
  have "enqueue ?T1 ?os w = (Inr tid, w') \<Longrightarrow> DispatchCandidateAgentRun d i opts w = (Inr tid, w')"
    "enqueue ?T2 ?os w = (Inr tid, w') \<Longrightarrow> DispatchInterviewScoring d i opts w = (Inr tid, w')" for tid w'
    by (simp_all add: DispatchCandidateAgentRun_def DispatchInterviewScoring_def dispatch_task_def assms(3) os)
  then show ?thesis using assms(4,5)
    by (intro exI [of _ ?T1] exI [of _ ?T2] exI [of _ ?os])
      (simp add: registered_handlers handlers_read_back [OF assms(1,2)])
qed

text \<open>
  A claim left behind in the shared store by a worker that died makes Redis answer that the key exists, and the
  redelivered task is then reported as done although its handler does not run.
\<close>

lemma crashed_task_acknowledged:
  assumes "dl_task d = Some t" and "jf_store j = redis_store r"
    and "Redis_SetNX (ri_client r) (redisIdemKey (idempotencyKey (jf_sha256 j) (dl_taskID d) t)) ''in-progress'' (ri_claimTTL r) w = (Inr False, w')"
  shows "wrap j fn d w = (Inr (), w')"
  using assms key_not_blank by (simp add: wrap_def redis_store_def RedisIdem_Claim_def Let_def io_simps)

text \<open>A rematch is acknowledged and does nothing.\<close>

lemma rematch_is_acknowledged:
  assumes "\<forall>r \<in> set i. 0 \<le> r" and "strings_TrimSpace i \<noteq> []"
  shows "handleBatchRematch \<lparr>Task_Type = TypeBatchRematch, Task_Payload = json_Marshal (payload_json role_field i), Task_Headers = h\<rparr> = io_ret ()"
  using payload_roundtrip [OF assms(1)] IDFromString_ok [OF assms(2)] by (simp add: handleBatchRematch_def)

end
