(* ===== verification/Go_Base64.thy ===== *)
theory Go_Base64
  imports "HOL-Library.Word"
begin

section \<open>Bytes and base64\<close>

text \<open>
  The standard encoding of \<open>encoding/base64\<close> over bytes, with its padding; decoding skips line breaks, as
  the package does, and \<open>None\<close> is its error. What is encoded is decoded.
\<close>

unbundle bit_operations_syntax

type_synonym byte = "8 word"
type_synonym bytes = "byte list"

subsection \<open>Base64\<close>

definition b64_char :: "byte \<Rightarrow> byte" where
  "b64_char i = (if i < 26 then i + 65 else if i < 52 then i + 71 else if i < 62 then i - 4 else if i = 62 then 43 else 47)"

definition b64_value :: "byte \<Rightarrow> byte option" where
  "b64_value c = (if 65 \<le> c \<and> c \<le> 90 then Some (c - 65) else if 97 \<le> c \<and> c \<le> 122 then Some (c - 71)
     else if 48 \<le> c \<and> c \<le> 57 then Some (c + 4) else if c = 43 then Some 62 else if c = 47 then Some 63 else None)"

abbreviation pad :: byte where "pad \<equiv> 61"

fun base64_EncodeToString :: "bytes \<Rightarrow> bytes" where
  "base64_EncodeToString [] = []"
| "base64_EncodeToString [a] = [b64_char (drop_bit 2 a), b64_char (push_bit 4 (a AND 3)), pad, pad]"
| "base64_EncodeToString [a, b] =
     [b64_char (drop_bit 2 a), b64_char (push_bit 4 (a AND 3) OR drop_bit 4 b), b64_char (push_bit 2 (b AND 15)), pad]"
| "base64_EncodeToString (a # b # c # rest) =
     [b64_char (drop_bit 2 a), b64_char (push_bit 4 (a AND 3) OR drop_bit 4 b),
      b64_char (push_bit 2 (b AND 15) OR drop_bit 6 c), b64_char (c AND 63)] @ base64_EncodeToString rest"

text \<open>Line breaks are skipped; the padding ends the text.\<close>

fun b64_quanta :: "bytes \<Rightarrow> bytes option" where
  "b64_quanta [] = Some []"
| "b64_quanta (c0 # c1 # c2 # c3 # rest) =
     (case (b64_value c0, b64_value c1) of
        (Some v0, Some v1) \<Rightarrow>
          if c2 = pad then (if c3 = pad \<and> rest = [] then Some [push_bit 2 v0 OR drop_bit 4 v1] else None)
          else (case b64_value c2 of None \<Rightarrow> None
            | Some v2 \<Rightarrow>
                if c3 = pad then (if rest = [] then Some [push_bit 2 v0 OR drop_bit 4 v1, push_bit 4 v1 OR drop_bit 2 v2] else None)
                else (case b64_value c3 of None \<Rightarrow> None
                  | Some v3 \<Rightarrow> map_option (\<lambda>bs. [push_bit 2 v0 OR drop_bit 4 v1, push_bit 4 v1 OR drop_bit 2 v2, push_bit 6 v2 OR v3] @ bs)
                      (b64_quanta rest)))
      | _ \<Rightarrow> None)"
| "b64_quanta cs = None"

definition base64_DecodeString :: "bytes \<Rightarrow> bytes option" where
  "base64_DecodeString s = b64_quanta (filter (\<lambda>c. c \<noteq> 10 \<and> c \<noteq> 13) s)"

subsection \<open>Base64 reads back what it wrote\<close>

lemma masks: "(3 :: 8 word) = mask 2" "(15 :: 8 word) = mask 4" "(63 :: 8 word) = mask 6"
  by (simp_all add: mask_eq_exp_minus_1)
lemmas byte_bits = bit_or_iff bit_push_bit_iff bit_drop_bit_eq bit_and_iff bit_mask_iff possible_bit_word o_apply masks

lemma byte_eqI: "(\<And>n. n \<in> {0,1,2,3,4,5,6,7} \<Longrightarrow> bit v n = bit w n) \<Longrightarrow> v = (w :: 8 word)"
proof (rule bit_word_eqI)
  fix n
  assume eq: "\<And>n. n \<in> {0,1,2,3,4,5,6,7} \<Longrightarrow> bit v n = bit w n" and "n < LENGTH(8)"
  then have "n < 8" by simp
  then have "n \<in> {0,1,2,3,4,5,6,7}" by (simp add: eval_nat_numeral less_Suc_eq)
  then show "bit v n = bit w n" by (rule eq)
qed

lemma no_bit: "8 \<le> n \<Longrightarrow> \<not> bit (w :: 8 word) n" by (simp add: bit_word.rep_eq)

lemma octets:
  "push_bit 2 (drop_bit 2 a) OR drop_bit 4 (push_bit 4 (a AND 3)) = a"
  "push_bit 2 (drop_bit 2 a) OR drop_bit 4 (push_bit 4 (a AND 3) OR drop_bit 4 b) = a"
  "push_bit 4 (push_bit 4 (a AND 3) OR drop_bit 4 b) OR drop_bit 2 (push_bit 2 (b AND 15)) = b"
  "push_bit 4 (push_bit 4 (a AND 3) OR drop_bit 4 b) OR drop_bit 2 (push_bit 2 (b AND 15) OR drop_bit 6 c) = b"
  "push_bit 6 (push_bit 2 (b AND 15) OR drop_bit 6 c) OR (c AND 63) = c"
  for a b c :: "8 word"
  by (rule byte_eqI; simp only: byte_bits insert_iff empty_iff simp_thms; elim disjE; simp add: no_bit)+

lemma word_less_64: "(\<And>n. bit w n \<Longrightarrow> n < 6) \<Longrightarrow> w < (64 :: 8 word)"
proof -
  assume b: "\<And>n. bit w n \<Longrightarrow> n < 6"
  then have "take_bit 6 w = w" by (intro bit_word_eqI) (auto simp: bit_take_bit_iff)
  then have "take_bit 6 (unat w) = unat w" by (metis unsigned_take_bit_eq)
  then have "unat w < 64" by (simp add: take_bit_nat_eq_self_iff)
  then show ?thesis by (simp add: word_less_nat_alt)
qed

lemma sextets [simp]:
  "drop_bit 2 a < (64 :: 8 word)" "push_bit 4 (a AND 3) < (64 :: 8 word)" "push_bit 4 (a AND 3) OR drop_bit 4 b < (64 :: 8 word)"
  "push_bit 2 (b AND 15) < (64 :: 8 word)" "push_bit 2 (b AND 15) OR drop_bit 6 c < (64 :: 8 word)" "c AND 63 < (64 :: 8 word)"
  for a b c :: "8 word"
  by (rule word_less_64; simp only: byte_bits; use no_bit in \<open>force simp: not_le [symmetric]\<close>)+

lemma small_words: "i < 64 \<Longrightarrow> list_all P (map word_of_nat [0..<64]) \<Longrightarrow> P (i :: 8 word)"
proof -
  assume "i < 64" and P: "list_all P (map word_of_nat [0..<64])"
  then have "unat i < 64" by (simp add: word_less_nat_alt)
  then have "P (word_of_nat (unat i))" using P unfolding list_all_iff by (metis atLeastLessThan_iff image_eqI list.set_map set_upt zero_le)
  then show ?thesis by simp
qed

lemma b64_value_char:
  assumes "i < 64"
  shows "b64_value (b64_char i) = Some i \<and> b64_char i \<noteq> pad \<and> b64_char i \<noteq> 10 \<and> b64_char i \<noteq> 13"
  by (rule small_words [OF assms]) code_simp

lemma b64_chars [simp]:
  "i < 64 \<Longrightarrow> b64_value (b64_char i) = Some i" "i < 64 \<Longrightarrow> b64_char i \<noteq> pad"
  "i < 64 \<Longrightarrow> b64_char i \<noteq> 10" "i < 64 \<Longrightarrow> b64_char i \<noteq> 13"
  using b64_value_char by auto

lemma encode_no_breaks: "c \<in> set (base64_EncodeToString bs) \<Longrightarrow> c \<noteq> 10 \<and> c \<noteq> 13"
  by (induction bs rule: base64_EncodeToString.induct) (auto simp del: push_bit_and push_bit_or drop_bit_and drop_bit_or)

lemma quanta_encode: "b64_quanta (base64_EncodeToString bs) = Some bs"
  by (induction bs rule: base64_EncodeToString.induct) (simp_all add: octets del: push_bit_and push_bit_or drop_bit_and drop_bit_or)

lemma base64_roundtrip: "base64_DecodeString (base64_EncodeToString bs) = Some bs"
proof -
  have "filter (\<lambda>c. c \<noteq> 10 \<and> c \<noteq> 13) (base64_EncodeToString bs) = base64_EncodeToString bs"
    using encode_no_breaks by (intro filter_True) blast
  then show ?thesis by (simp add: base64_DecodeString_def quanta_encode)
qed

subsection \<open>Without padding\<close>

text \<open>\<open>RawStdEncoding\<close>: the last quantum may be short, and the padding is not part of the alphabet.\<close>

fun base64_raw_Encode :: "bytes \<Rightarrow> bytes" where
  "base64_raw_Encode [] = []"
| "base64_raw_Encode [a] = [b64_char (drop_bit 2 a), b64_char (push_bit 4 (a AND 3))]"
| "base64_raw_Encode [a, b] =
     [b64_char (drop_bit 2 a), b64_char (push_bit 4 (a AND 3) OR drop_bit 4 b), b64_char (push_bit 2 (b AND 15))]"
| "base64_raw_Encode (a # b # c # rest) =
     [b64_char (drop_bit 2 a), b64_char (push_bit 4 (a AND 3) OR drop_bit 4 b),
      b64_char (push_bit 2 (b AND 15) OR drop_bit 6 c), b64_char (c AND 63)] @ base64_raw_Encode rest"

fun b64_raw_quanta :: "bytes \<Rightarrow> bytes option" where
  "b64_raw_quanta [] = Some []"
| "b64_raw_quanta [c0] = None"
| "b64_raw_quanta [c0, c1] = (case (b64_value c0, b64_value c1) of
     (Some v0, Some v1) \<Rightarrow> Some [push_bit 2 v0 OR drop_bit 4 v1] | _ \<Rightarrow> None)"
| "b64_raw_quanta [c0, c1, c2] = (case (b64_value c0, b64_value c1, b64_value c2) of
     (Some v0, Some v1, Some v2) \<Rightarrow> Some [push_bit 2 v0 OR drop_bit 4 v1, push_bit 4 v1 OR drop_bit 2 v2] | _ \<Rightarrow> None)"
| "b64_raw_quanta (c0 # c1 # c2 # c3 # rest) = (case (b64_value c0, b64_value c1, b64_value c2, b64_value c3) of
     (Some v0, Some v1, Some v2, Some v3) \<Rightarrow>
       map_option (\<lambda>bs. [push_bit 2 v0 OR drop_bit 4 v1, push_bit 4 v1 OR drop_bit 2 v2, push_bit 6 v2 OR v3] @ bs)
         (b64_raw_quanta rest)
   | _ \<Rightarrow> None)"

definition base64_raw_Decode :: "bytes \<Rightarrow> bytes option" where
  "base64_raw_Decode s = b64_raw_quanta (filter (\<lambda>c. c \<noteq> 10 \<and> c \<noteq> 13) s)"

lemma raw_quanta_encode: "b64_raw_quanta (base64_raw_Encode bs) = Some bs"
  by (induction bs rule: base64_raw_Encode.induct) (simp_all add: octets del: push_bit_and push_bit_or drop_bit_and drop_bit_or)

lemma b64_char_ascii: "i < 64 \<Longrightarrow> b64_char i < 128 \<and> b64_char i \<noteq> 36"
  by (rule small_words) (assumption, code_simp)

lemma raw_encode_chars: "c \<in> set (base64_raw_Encode bs) \<Longrightarrow> c < 128 \<and> c \<noteq> 36 \<and> c \<noteq> 10 \<and> c \<noteq> 13"
  by (induction bs rule: base64_raw_Encode.induct)
    (auto simp: b64_char_ascii simp del: push_bit_and push_bit_or drop_bit_and drop_bit_or)

lemma base64_raw_roundtrip: "base64_raw_Decode (base64_raw_Encode bs) = Some bs"
proof -
  have "filter (\<lambda>c. c \<noteq> 10 \<and> c \<noteq> 13) (base64_raw_Encode bs) = base64_raw_Encode bs"
    using raw_encode_chars by (intro filter_True) blast
  then show ?thesis by (simp add: base64_raw_Decode_def raw_quanta_encode)
qed

text \<open>The same between text and bytes: the text of an encoding is ASCII, and a rune above it is no byte of one.\<close>

definition raw_text :: "bytes \<Rightarrow> int list" where "raw_text bs = map uint (base64_raw_Encode bs)"

definition raw_bytes :: "int list \<Rightarrow> bytes option" where
  "raw_bytes s = (if \<exists>c \<in> set s. c < 0 \<or> 127 < c then None else base64_raw_Decode (map word_of_int s))"

lemma uint_ascii: "c < (128 :: 8 word) \<longleftrightarrow> uint c < 128"
  by (simp add: word_less_def)

lemma raw_text_chars: "x \<in> set (raw_text bs) \<Longrightarrow> 0 \<le> x \<and> x < 128 \<and> x \<noteq> 36"
proof -
  assume "x \<in> set (raw_text bs)"
  then obtain c where c: "c \<in> set (base64_raw_Encode bs)" "x = uint c" by (auto simp: raw_text_def)
  from raw_encode_chars [OF c(1)] have "c < 128" "c \<noteq> 36" by simp_all
  moreover have "uint c = 36 \<Longrightarrow> c = 36" by (metis uint_0_iff word_of_int_numeral word_of_int_uint)
  ultimately show ?thesis using c(2) uint_ascii by auto
qed

lemma raw_text_roundtrip: "raw_bytes (raw_text bs) = Some bs"
proof -
  have "\<not> (\<exists>c \<in> set (raw_text bs). c < 0 \<or> 127 < c)" using raw_text_chars by force
  moreover have "map word_of_int (raw_text bs) = base64_raw_Encode bs" by (simp add: raw_text_def o_def)
  ultimately show ?thesis by (simp add: raw_bytes_def base64_raw_roundtrip)
qed

end
