(* ===== verification/Field_Cipher.thy ===== *)
theory Field_Cipher
  imports Go_Prelude Go_Base64
begin

section \<open>Encryption of fields at rest\<close>

text \<open>
  \<open>adapters/outbound/fieldcrypto\<close>: the cipher over single columns. Strings are byte strings here, as the
  conversions between strings and byte slices keep the bytes; a byte is an \<open>8 word\<close>, and base64 is \<open>Go_Base64\<close>.
  AES-256-GCM is the parameter \<open>gcm\<close> from keys to \<open>aead\<close>, with what the program
  relies on in \<open>authentic_gcm\<close>: a sealed text opens to itself under its key and to nothing under another. The
  lemmas give the round trip of base64 and that of the cipher through any rotation of its keys.
\<close>

definition ascii :: "string \<Rightarrow> bytes" where "ascii s = map of_char s"

subsection \<open>The cipher\<close>

text \<open>What the cipher uses of an AEAD: the size of its nonces, sealing and opening without additional data.\<close>

record aead =
  NonceSize :: nat
  Seal :: "bytes \<Rightarrow> bytes \<Rightarrow> bytes"
  Open :: "bytes \<Rightarrow> bytes \<Rightarrow> bytes option"

definition enc_prefix :: bytes where "enc_prefix = ascii ''enc:v1:''"

record FieldCipher =
  fc_primary :: "aead option"
  fc_previous :: "aead list"

definition newAEAD :: "(bytes \<Rightarrow> aead) \<Rightarrow> bytes \<Rightarrow> aead option res" where
  "newAEAD gcm base64Key =
     (if base64Key = [] then Inr None
      else case base64_DecodeString base64Key of
          None \<Rightarrow> Inl (PlainErr ''crypto: field key is not valid base64: %w'' [] [PlainErr ''illegal base64 data'' [] []])
        | Some key \<Rightarrow> if length key \<noteq> 32 then Inl (PlainErr ''crypto: field key must be 32 bytes (AES-256), got %d'' [AInt (int (length key))] [])
            else Inr (Some (gcm key)))"

fun add_previous :: "(bytes \<Rightarrow> aead) \<Rightarrow> bytes list \<Rightarrow> FieldCipher \<Rightarrow> FieldCipher res" where
  "add_previous gcm [] fc = Inr fc"
| "add_previous gcm (pk # pks) fc = (case newAEAD gcm pk of
     Inl perr \<Rightarrow> Inl perr
   | Inr None \<Rightarrow> add_previous gcm pks fc
   | Inr (Some a) \<Rightarrow> add_previous gcm pks (fc\<lparr>fc_previous := fc_previous fc @ [a]\<rparr>))"

definition NewFieldCipher :: "(bytes \<Rightarrow> aead) \<Rightarrow> bytes \<Rightarrow> bytes list \<Rightarrow> FieldCipher res" where
  "NewFieldCipher gcm base64Key previousKeys = (case newAEAD gcm base64Key of
     Inl err \<Rightarrow> Inl err
   | Inr primary \<Rightarrow> add_previous gcm previousKeys \<lparr>fc_primary = primary, fc_previous = []\<rparr>)"

definition Passthrough :: FieldCipher where "Passthrough = \<lparr>fc_primary = None, fc_previous = []\<rparr>"

definition Enabled :: "FieldCipher \<Rightarrow> bool" where "Enabled c \<longleftrightarrow> fc_primary c \<noteq> None"

text \<open>\<open>rand_Read n\<close> is the outcome of reading \<open>n\<close> random bytes.\<close>

definition Encrypt :: "(nat \<Rightarrow> bytes res) \<Rightarrow> FieldCipher \<Rightarrow> bytes \<Rightarrow> bytes res" where
  "Encrypt rand_Read c plaintext = (case fc_primary c of
     None \<Rightarrow> Inr plaintext
   | Some a \<Rightarrow> if plaintext = [] then Inr plaintext
       else (case rand_Read (NonceSize a) of
           Inl err \<Rightarrow> Inl err
         | Inr nonce \<Rightarrow> Inr (enc_prefix @ base64_EncodeToString (nonce @ Seal a nonce plaintext))))"

definition open_sealed :: "aead \<Rightarrow> bytes \<Rightarrow> bytes option" where
  "open_sealed a raw = (if length raw < NonceSize a then None else Open a (take (NonceSize a) raw) (drop (NonceSize a) raw))"

fun first_open :: "aead list \<Rightarrow> bytes \<Rightarrow> bytes option" where
  "first_open [] raw = None"
| "first_open (a # as) raw = (case open_sealed a raw of Some pt \<Rightarrow> Some pt | None \<Rightarrow> first_open as raw)"

definition fc_keys :: "FieldCipher \<Rightarrow> aead list" where
  "fc_keys c = (case fc_primary c of None \<Rightarrow> [] | Some a \<Rightarrow> [a]) @ fc_previous c"

definition decrypt_failed :: go_error where
  "decrypt_failed = PlainErr ''crypto: decrypt failed (tampered, or no configured key matches)'' [] []"

definition Decrypt :: "FieldCipher \<Rightarrow> bytes \<Rightarrow> bytes res" where
  "Decrypt c stored =
     (if take (length enc_prefix) stored \<noteq> enc_prefix then Inr stored
      else if fc_primary c = None \<and> fc_previous c = [] then Inr stored
      else case base64_DecodeString (drop (length enc_prefix) stored) of
          None \<Rightarrow> Inl (PlainErr ''crypto: ciphertext is not valid base64: %w'' [] [PlainErr ''illegal base64 data'' [] []])
        | Some raw \<Rightarrow> (case first_open (fc_keys c) raw of Some pt \<Rightarrow> Inr pt | None \<Rightarrow> Inl decrypt_failed))"

subsection \<open>Keys and their rotation\<close>

text \<open>
  What AES-256-GCM promises: nonces of one size, a sealed text opens under its key and nonce, and under no
  other key.
\<close>

definition authentic_gcm :: "(bytes \<Rightarrow> aead) \<Rightarrow> bool" where
  "authentic_gcm gcm \<longleftrightarrow> (\<forall>k. NonceSize (gcm k) = 12) \<and>
     (\<forall>k k' n pt. length k = 32 \<longrightarrow> length k' = 32 \<longrightarrow> length n = 12 \<longrightarrow>
        Open (gcm k') n (Seal (gcm k) n pt) = (if k' = k then Some pt else None))"

text \<open>The keys of a configuration, decoded.\<close>

definition key_bytes :: "bytes list \<Rightarrow> bytes list" where
  "key_bytes ks = map (\<lambda>k. the (base64_DecodeString k)) (filter (\<lambda>k. k \<noteq> []) ks)"

lemma newAEAD_ok:
  "newAEAD gcm k = Inr a \<longleftrightarrow> (k = [] \<and> a = None) \<or>
     (k \<noteq> [] \<and> (\<exists>b. base64_DecodeString k = Some b \<and> length b = 32 \<and> a = Some (gcm b)))"
  by (auto simp: newAEAD_def split: option.splits)

lemma add_previous_ok:
  "add_previous gcm ks fc = Inr c \<Longrightarrow> fc_primary c = fc_primary fc \<and> fc_previous c = fc_previous fc @ map gcm (key_bytes ks) \<and>
     (\<forall>b \<in> set (key_bytes ks). length b = 32)"
proof (induction ks arbitrary: fc)
  case Nil
  then show ?case by (simp add: key_bytes_def)
next
  case (Cons k ks)
  then obtain a where a: "newAEAD gcm k = Inr a" by (auto split: sum.splits)
  with Cons.prems Cons.IH show ?case
    by (cases a) (force simp: newAEAD_ok key_bytes_def)+
qed

lemma NewFieldCipher_ok:
  assumes "NewFieldCipher gcm k ks = Inr c"
  shows "fc_keys c = map gcm (key_bytes (k # ks))" and "\<forall>b \<in> set (key_bytes (k # ks)). length b = 32"
    and "fc_primary c = (if k = [] then None else Some (gcm (hd (key_bytes [k]))))"
proof -
  from assms obtain a where a: "newAEAD gcm k = Inr a" "add_previous gcm ks \<lparr>fc_primary = a, fc_previous = []\<rparr> = Inr c"
    by (auto simp: NewFieldCipher_def split: sum.splits)
  from a(1) add_previous_ok [OF a(2)]
  show "fc_keys c = map gcm (key_bytes (k # ks))" "\<forall>b \<in> set (key_bytes (k # ks)). length b = 32"
    "fc_primary c = (if k = [] then None else Some (gcm (hd (key_bytes [k]))))"
    by (auto simp: newAEAD_ok fc_keys_def key_bytes_def)
qed

lemma open_sealed_key:
  assumes "authentic_gcm gcm" "length b = 32" "length b' = 32" "length n = 12"
  shows "open_sealed (gcm b') (n @ Seal (gcm b) n pt) = (if b' = b then Some pt else None)"
  using assms by (simp add: authentic_gcm_def open_sealed_def)

lemma first_open_keys:
  assumes "authentic_gcm gcm" "length b = 32" "\<forall>b' \<in> set bs. length b' = 32" "length n = 12"
  shows "first_open (map gcm bs) (n @ Seal (gcm b) n pt) = (if b \<in> set bs then Some pt else None)"
  using assms(3) by (induction bs) (auto simp: open_sealed_key [OF assms(1,2) _ assms(4)])

text \<open>
  C33: A field survives any rotation of the keys that keeps its key. A value encrypted under a configuration with a
  primary key decrypts, under any later configuration that still has that key, as primary or as previous one, to the
  very value, which may itself look like a ciphertext; under a later configuration with other keys only, to an
  error; and a configuration with no key at all, which passes values through, hands back the ciphertext as it is
  stored. An empty value is stored as it is and read back under every configuration.
\<close>

theorem rotation_roundtrip:
  assumes "authentic_gcm gcm" and "\<And>n bs. rand_Read n = Inr bs \<Longrightarrow> length bs = n"
    and "NewFieldCipher gcm k ks = Inr c" and "k \<noteq> []" and "Encrypt rand_Read c pt = Inr stored"
    and "NewFieldCipher gcm k' ks' = Inr c'"
  shows "Decrypt c' stored = (if pt = [] \<or> hd (key_bytes [k]) \<in> set (key_bytes (k' # ks')) then Inr pt
    else if key_bytes (k' # ks') = [] then Inr stored else Inl decrypt_failed)"
proof (cases "pt = []")
  case True
  then show ?thesis using assms(4,5) NewFieldCipher_ok(3) [OF assms(3)]
    by (simp add: Encrypt_def Decrypt_def enc_prefix_def ascii_def)
next
  case False
  let ?b = "hd (key_bytes [k])"
  have p: "fc_primary c = Some (gcm ?b)" using NewFieldCipher_ok(3) [OF assms(3)] assms(4) by simp
  with assms(5) False obtain n where n: "rand_Read (NonceSize (gcm ?b)) = Inr n"
    and stored: "stored = enc_prefix @ base64_EncodeToString (n @ Seal (gcm ?b) n pt)"
    by (auto simp: Encrypt_def split: sum.splits)
  have b: "length ?b = 32" using NewFieldCipher_ok(2) [OF assms(3)] assms(4) by (simp add: key_bytes_def)
  have l: "length n = 12" using assms(2) [OF n] assms(1) by (simp add: authentic_gcm_def)
  show ?thesis
  proof (cases "key_bytes (k' # ks') = []")
    case True
    then have "fc_keys c' = []" using NewFieldCipher_ok(1) [OF assms(6)] by simp
    then have "fc_primary c' = None \<and> fc_previous c' = []" by (simp add: fc_keys_def split: option.splits)
    then show ?thesis using True False unfolding Decrypt_def stored by simp
  next
    case some: False
    then have "fc_keys c' \<noteq> []" using NewFieldCipher_ok(1) [OF assms(6)] by simp
    then have "\<not> (fc_primary c' = None \<and> fc_previous c' = [])" by (auto simp: fc_keys_def)
    then have "Decrypt c' stored = (case first_open (fc_keys c') (n @ Seal (gcm ?b) n pt) of Some pt \<Rightarrow> Inr pt | None \<Rightarrow> Inl decrypt_failed)"
    unfolding Decrypt_def stored by (simp only: base64_roundtrip append_eq_conv_conj [symmetric] take_append drop_append if_False
      take_all drop_all le_refl diff_self_eq_0 take_0 drop_0 append_Nil append_Nil2 simp_thms option.case if_True)
    then show ?thesis using False some first_open_keys [OF assms(1) b NewFieldCipher_ok(2) [OF assms(6)] l] NewFieldCipher_ok(1) [OF assms(6)]
      by simp
  qed
qed

text \<open>An instance: a cipher that writes its key in front.\<close>

definition sample_gcm :: "bytes \<Rightarrow> aead" where
  "sample_gcm k = \<lparr>NonceSize = 12, Seal = (\<lambda>n pt. k @ pt),
     Open = (\<lambda>n ct. if take (length k) ct = k then Some (drop (length k) ct) else None)\<rparr>"

lemma sample_gcm_authentic: "authentic_gcm sample_gcm"
  by (auto simp: authentic_gcm_def sample_gcm_def)

definition sample_key :: "byte \<Rightarrow> bytes" where "sample_key b = base64_EncodeToString (replicate 32 b)"

lemma sample_cipher:
  "NewFieldCipher sample_gcm (sample_key a) (map sample_key bs) =
     Inr \<lparr>fc_primary = Some (sample_gcm (replicate 32 a)), fc_previous = map (\<lambda>b. sample_gcm (replicate 32 b)) bs\<rparr>"
proof -
  have ne: "sample_key b \<noteq> []" for b unfolding sample_key_def using quanta_encode [of "replicate 32 b"] by force
  have k: "newAEAD sample_gcm (sample_key b) = Inr (Some (sample_gcm (replicate 32 b)))" for b
    using ne by (auto simp: newAEAD_ok) (simp add: sample_key_def base64_roundtrip)
  have "add_previous sample_gcm (map sample_key bs) fc = Inr (fc\<lparr>fc_previous := fc_previous fc @ map (\<lambda>b. sample_gcm (replicate 32 b)) bs\<rparr>)" for fc
    by (induction bs arbitrary: fc) (simp_all add: k)
  then show ?thesis by (simp add: NewFieldCipher_def k)
qed

lemma sample_key_bytes: "key_bytes (map sample_key bs) = map (replicate 32) bs"
proof -
  have ne: "sample_key b \<noteq> []" for b unfolding sample_key_def using quanta_encode [of "replicate 32 b"] by force
  then have "filter (\<lambda>k. k \<noteq> []) (map sample_key bs) = map sample_key bs" by (intro filter_True) auto
  then show ?thesis by (simp add: key_bytes_def sample_key_def base64_roundtrip)
qed

lemma rotation_roundtrip_witness:
  "\<exists>old kept lost stored. NewFieldCipher sample_gcm (sample_key 1) [] = Inr old \<and>
     NewFieldCipher sample_gcm (sample_key 2) [sample_key 1] = Inr kept \<and> NewFieldCipher sample_gcm (sample_key 2) [] = Inr lost \<and>
     Encrypt (\<lambda>n. Inr (replicate n 7)) old (ascii ''enc:v1:x'') = Inr stored \<and>
     Decrypt kept stored = Inr (ascii ''enc:v1:x'') \<and> Decrypt lost stored = Inl decrypt_failed"
proof -
  let ?pt = "ascii ''enc:v1:x''" and ?rd = "\<lambda>n. Inr (replicate n (7 :: byte)) :: bytes res"
  obtain old kept lost where c: "NewFieldCipher sample_gcm (sample_key 1) [] = Inr old"
      "NewFieldCipher sample_gcm (sample_key 2) [sample_key 1] = Inr kept" "NewFieldCipher sample_gcm (sample_key 2) [] = Inr lost"
    using sample_cipher [of _ "[]"] sample_cipher [of 2 "[1]"] by force
  have ne: "sample_key 1 \<noteq> []" using sample_key_bytes [of "[1]"] by (auto simp: key_bytes_def)
  then obtain stored where e: "Encrypt ?rd old ?pt = Inr stored"
    using NewFieldCipher_ok(3) [OF c(1)] by (cases "Encrypt ?rd old ?pt") (simp_all add: Encrypt_def split: if_splits)
  have keys: "key_bytes [sample_key 1] = [replicate 32 1]" "key_bytes [sample_key 2, sample_key 1] = [replicate 32 2, replicate 32 1]"
    "key_bytes [sample_key 2] = [replicate 32 2]"
    using sample_key_bytes [of "[1]"] sample_key_bytes [of "[2, 1]"] sample_key_bytes [of "[2]"] by simp_all
  have rd: "length bs = n" if "?rd n = Inr bs" for n bs using that by auto
  have pt: "?pt \<noteq> []" by (simp add: ascii_def)
  have other: "replicate 32 (1 :: byte) \<noteq> replicate 32 2" by (simp add: replicate_eq_replicate)
  show ?thesis
    using c e other pt rotation_roundtrip [OF sample_gcm_authentic rd c(1) ne e c(2)] rotation_roundtrip [OF sample_gcm_authentic rd c(1) ne e c(3)]
    by (simp add: keys)
qed

end
