(* ===== verification/Net_IP.thy ===== *)
theory Net_IP
  imports Go_Prelude "HOL-Library.Word"
begin

section \<open>Addresses and prefixes\<close>

text \<open>
  What the program uses of \<open>net/netip\<close> and \<open>net\<close>: reading an address (\<open>ParseAddr\<close>) and a prefix
  (\<open>ParsePrefix\<close>), whether a prefix contains an address, and taking the host of a \<open>host:port\<close>. An address
  is 32 bits, or 128 bits with a zone; \<open>None\<close> is the error of a reader.
\<close>

unbundle bit_operations_syntax

datatype ipaddr = Addr4 "32 word" | Addr6 "128 word" gostr

definition is_digit :: "rune \<Rightarrow> bool" where "is_digit c \<longleftrightarrow> 48 \<le> c \<and> c \<le> 57"

definition hex_digit_value :: "rune \<Rightarrow> int option" where
  "hex_digit_value c = (if 48 \<le> c \<and> c \<le> 57 then Some (c - 48) else if 97 \<le> c \<and> c \<le> 102 then Some (c - 87)
     else if 65 \<le> c \<and> c \<le> 70 then Some (c - 55) else None)"

fun strings_Split :: "rune \<Rightarrow> gostr \<Rightarrow> gostr list" where
  "strings_Split sep [] = [[]]"
| "strings_Split sep (c # cs) = (if c = sep then [] # strings_Split sep cs
     else (case strings_Split sep cs of [] \<Rightarrow> [[c]] | p # ps \<Rightarrow> (c # p) # ps))"

definition decimal :: "gostr \<Rightarrow> int" where "decimal ds = foldl (\<lambda>n d. 10 * n + (d - 48)) 0 ds"

text \<open>An octet: digits without a leading zero, up to 255.\<close>

definition octet :: "gostr \<Rightarrow> int option" where
  "octet ds = (if ds \<noteq> [] \<and> (\<forall>d \<in> set ds. is_digit d) \<and> (hd ds = 48 \<longrightarrow> length ds = 1) \<and> decimal ds \<le> 255 then Some (decimal ds) else None)"

definition parseIPv4Fields :: "gostr \<Rightarrow> int list option" where
  "parseIPv4Fields s = (case map octet (strings_Split 46 s) of
     [Some a, Some b, Some c, Some d] \<Rightarrow> Some [a, b, c, d] | _ \<Rightarrow> None)"

definition be_bytes :: "int list \<Rightarrow> int" where "be_bytes bs = foldl (\<lambda>n b. 256 * n + b) 0 bs"

lemma dropWhile_shorter: "dropWhile P s \<noteq> [] \<Longrightarrow> length (tl (dropWhile P s)) < length s"
  using length_dropWhile_le [of P s] by (cases "dropWhile P s") auto

text \<open>
  The loop of \<open>parseIPv6\<close>: the bytes so far and where the ellipsis stands; hexadecimal groups, an embedded
  IPv4 address at the end.
\<close>

function v6_groups :: "int list \<Rightarrow> nat option \<Rightarrow> gostr \<Rightarrow> (int list \<times> nat option \<times> gostr) option" where
  "v6_groups bs ell s =
     (if 16 \<le> length bs then Some (bs, ell, s)
      else let h = takeWhile (\<lambda>c. hex_digit_value c \<noteq> None) s; r = dropWhile (\<lambda>c. hex_digit_value c \<noteq> None) s
      in if h = [] \<or> 4 < length h then None
      else if r \<noteq> [] \<and> hd r = 46 then
        (if ell = None \<and> length bs \<noteq> 12 \<or> 16 < length bs + 4 then None
         else map_option (\<lambda>f. (bs @ f, ell, [])) (parseIPv4Fields s))
      else let acc = foldl (\<lambda>n c. 16 * n + the (hex_digit_value c)) 0 h; bs = bs @ [acc div 256, acc mod 256]
      in if r = [] then Some (bs, ell, [])
      else if hd r \<noteq> 58 \<or> length r = 1 then None
      else if hd (tl r) = 58 then
        (if ell \<noteq> None then None
         else if tl (tl r) = [] then Some (bs, Some (length bs), [])
         else v6_groups bs (Some (length bs)) (tl (tl r)))
      else v6_groups bs ell (tl r))"
  by pat_completeness auto

termination
proof (relation "measure (\<lambda>(bs, ell, s). length s)", goal_cases)
  case (2 bs ell s h r acc bs')
  then have "length (tl r) < length s" using dropWhile_shorter by metis
  then show ?case by (cases r rule: list.exhaust) (auto simp: length_tl)
next
  case (3 bs ell s h r acc bs')
  then have "length (tl r) < length s" using dropWhile_shorter by metis
  then show ?case by simp
qed simp

declare v6_groups.simps [simp del]

definition parseIPv6 :: "gostr \<Rightarrow> ipaddr option" where
  "parseIPv6 inp =
     (let s = takeWhile (\<lambda>c. c \<noteq> 37) inp; zoned = dropWhile (\<lambda>c. c \<noteq> 37) inp; zone = tl zoned
      in if zoned \<noteq> [] \<and> zone = [] then None
      else let lead = (take 2 s = [58, 58]); s = (if lead then drop 2 s else s)
      in if lead \<and> s = [] then Some (Addr6 0 zone)
      else (case v6_groups [] (if lead then Some 0 else None) s of
          None \<Rightarrow> None
        | Some (bs, ell, rest) \<Rightarrow>
            if rest \<noteq> [] then None
            else if length bs < 16 then
              (case ell of None \<Rightarrow> None
               | Some e \<Rightarrow> Some (Addr6 (word_of_int (be_bytes (take e bs @ replicate (16 - length bs) 0 @ drop e bs))) zone))
            else if ell \<noteq> None then None
            else Some (Addr6 (word_of_int (be_bytes bs)) zone)))"

definition ParseAddr :: "gostr \<Rightarrow> ipaddr option" where
  "ParseAddr s = (case find (\<lambda>c. c \<in> {46, 58, 37}) s of
     None \<Rightarrow> None
   | Some c \<Rightarrow> if c = 46 then map_option (\<lambda>f. Addr4 (word_of_int (be_bytes f))) (parseIPv4Fields s)
       else if c = 58 then parseIPv6 s else None)"

fun BitLen :: "ipaddr \<Rightarrow> nat" where
  "BitLen (Addr4 a) = 32"
| "BitLen (Addr6 a z) = 128"

fun withoutZone :: "ipaddr \<Rightarrow> ipaddr" where
  "withoutZone (Addr4 a) = Addr4 a"
| "withoutZone (Addr6 a z) = Addr6 a []"

record ipprefix =
  pfx_addr :: ipaddr
  pfx_bits :: nat

definition PrefixFrom :: "ipaddr \<Rightarrow> nat \<Rightarrow> ipprefix" where
  "PrefixFrom a n = \<lparr>pfx_addr = withoutZone a, pfx_bits = n\<rparr>"

definition ParsePrefix :: "gostr \<Rightarrow> ipprefix option" where
  "ParsePrefix s =
     (if 47 \<notin> set s then None
      else let bitsStr = rev (takeWhile (\<lambda>c. c \<noteq> 47) (rev s)); a = rev (tl (dropWhile (\<lambda>c. c \<noteq> 47) (rev s)))
      in case ParseAddr a of
          None \<Rightarrow> None
        | Some ip \<Rightarrow>
            if withoutZone ip \<noteq> ip then None
            else if bitsStr = [] \<or> \<not> (\<forall>d \<in> set bitsStr. is_digit d) \<or> (1 < length bitsStr \<and> hd bitsStr = 48) then None
            else if int (BitLen ip) < decimal bitsStr then None
            else Some (PrefixFrom ip (nat (decimal bitsStr))))"

fun Prefix_Contains :: "ipprefix \<Rightarrow> ipaddr \<Rightarrow> bool" where
  "Prefix_Contains p (Addr4 a) \<longleftrightarrow> (case pfx_addr p of
     Addr4 b \<Rightarrow> drop_bit (32 - pfx_bits p) (a XOR b) = 0 | Addr6 b z \<Rightarrow> False)"
| "Prefix_Contains p (Addr6 a zone) \<longleftrightarrow> zone = [] \<and> (case pfx_addr p of
     Addr4 b \<Rightarrow> False | Addr6 b z \<Rightarrow> drop_bit (128 - pfx_bits p) (a XOR b) = 0)"

text \<open>\<open>net.SplitHostPort\<close>: the host, or an error.\<close>

definition SplitHostPort :: "gostr \<Rightarrow> gostr option" where
  "SplitHostPort hp =
     (if 58 \<notin> set hp then None
      else let host = rev (tl (dropWhile (\<lambda>c. c \<noteq> 58) (rev hp)))
      in if hd hp = 91 then
           (let end = length (takeWhile (\<lambda>c. c \<noteq> 93) hp)
            in if 93 \<notin> set hp \<or> end + 1 \<noteq> length host then None
               else if 91 \<in> set (drop 1 hp) \<or> 93 \<in> set (drop (end + 1) hp) then None
               else Some (take (end - 1) (drop 1 hp)))
         else if 58 \<in> set host \<or> 91 \<in> set hp \<or> 93 \<in> set hp then None
         else Some host)"

subsection \<open>Examples\<close>

lemma ParseAddr_examples:
  "ParseAddr (lit ''127.0.0.1'') = Some (Addr4 0x7F000001)"
  "ParseAddr (lit ''127.0.0.01'') = None"
  "ParseAddr (lit ''1.2.3'') = None"
  "ParseAddr (lit ''::1'') = Some (Addr6 1 [])"
  "ParseAddr (lit ''2001:db8::ff00:42'') = Some (Addr6 0x20010db80000000000000000ff000042 [])"
  "ParseAddr (lit ''::ffff:10.0.0.1'') = Some (Addr6 0xffff0a000001 [])"
  "ParseAddr (lit ''fe80::1%eth0'') = Some (Addr6 0xfe800000000000000000000000000001 (lit ''eth0''))"
  "ParseAddr (lit ''1::2::3'') = None" "ParseAddr (lit ''1:2:3:4:5:6:7::8'') = None"
  "ParseAddr (lit ''localhost'') = None"
  by code_simp+

lemma SplitHostPort_examples:
  "SplitHostPort (lit ''10.0.0.1:443'') = Some (lit ''10.0.0.1'')"
  "SplitHostPort (lit ''[::1]:9090'') = Some (lit ''::1'')"
  "SplitHostPort (lit ''::1'') = None" "SplitHostPort (lit ''host'') = None"
  by code_simp+

lemma Split_not_Nil [simp]: "strings_Split sep s \<noteq> []"
  by (induction s) (auto split: list.splits)

lemma Split_append_sep: "strings_Split sep (s @ sep # t) = strings_Split sep s @ strings_Split sep t"
  by (induction s) (auto split: list.splits)

lemma Split_single: "sep \<notin> set s \<Longrightarrow> strings_Split sep s = [s]"
  by (induction s) auto

end
