(* ===== verification/Rate_Limit.thy ===== *)
theory Rate_Limit
  imports LLM_Guard Access Net_IP
begin

section \<open>The rate limiter of the interface\<close>

text \<open>
  \<open>adapters/inbound/grpc/ratelimit.go\<close>: a token bucket per caller, the bound on their number, the cost of a
  method, and the key of a request, which for an anonymous one is the address of the client as the outermost
  trusted proxy saw it. The clock reading and the iteration order of the map of buckets are arguments; the
  request is its principal, the address of the peer and the values of the forwarding header. The lemmas bound
  the buckets and their tokens, and show that no forwarding header a client sends changes its key.
\<close>

record tokenBucket =
  tb_tokens :: f64
  tb_last :: time

record RateLimiter =
  rl_buckets :: "(gostr \<times> tokenBucket) list"
  rl_rate :: f64
  rl_burst :: f64
  rl_lastSweep :: time
  rl_trusted :: "ipprefix list"

definition sweepThreshold :: nat where "sweepThreshold = 10000"
definition idleEvictAfter :: duration where "idleEvictAfter = 10 * minute"
definition maxBuckets :: nat where "maxBuckets = 2 * sweepThreshold"
definition evictLowWater :: nat where "evictLowWater = maxBuckets - maxBuckets div 10"
definition sweepInterval :: duration where "sweepInterval = second"
definition llmMethodCost :: f64 where "llmMethodCost = Fin 12"

definition loopbackProxies :: "ipprefix list" where
  "loopbackProxies = [PrefixFrom (Addr4 0x7F000000) 8, PrefixFrom (Addr6 1 []) 128]"

fun trusted_proxies :: "gostr list \<Rightarrow> ipprefix list \<Rightarrow> ipprefix list" where
  "trusted_proxies [] ps = ps"
| "trusted_proxies (c # cs) ps =
     (let c = strings_TrimSpace c in
      if c = [] then trusted_proxies cs ps
      else case ParsePrefix c of
          Some p \<Rightarrow> trusted_proxies cs (ps @ [p])
        | None \<Rightarrow> (case ParseAddr c of
              Some a \<Rightarrow> trusted_proxies cs (ps @ [PrefixFrom a (BitLen a)])
            | None \<Rightarrow> trusted_proxies cs ps))"

text \<open>The option \<open>WithTrustedProxies\<close> is the argument \<open>cidrs\<close>.\<close>

definition NewRateLimiter :: "f64 \<Rightarrow> f64 \<Rightarrow> gostr list \<Rightarrow> RateLimiter" where
  "NewRateLimiter rps brst cidrs =
     \<lparr>rl_buckets = [], rl_rate = (if fle rps (Fin 0) then Fin 1 else rps),
      rl_burst = (if flt brst (Fin 1) then Fin 1 else brst), rl_lastSweep = 0, rl_trusted = trusted_proxies cidrs loopbackProxies\<rparr>"

definition evictIdle :: "time \<Rightarrow> RateLimiter \<Rightarrow> RateLimiter" where
  "evictIdle now r = r\<lparr>rl_buckets := filter (\<lambda>(key, b). \<not> idleEvictAfter < time_Sub now (tb_last b)) (rl_buckets r)\<rparr>"

text \<open>Keys are dropped in iteration order until the low-water mark is reached.\<close>

definition evictBatch :: "((gostr \<times> tokenBucket) list \<Rightarrow> (gostr \<times> tokenBucket) list) \<Rightarrow> RateLimiter \<Rightarrow> RateLimiter" where
  "evictBatch iter r = r\<lparr>rl_buckets := drop (length (rl_buckets r) - evictLowWater) (iter (rl_buckets r))\<rparr>"

definition clamped_cost :: "RateLimiter \<Rightarrow> f64 \<Rightarrow> f64" where
  "clamped_cost r cost = (let cost = (if flt cost (Fin 1) then Fin 1 else cost) in if flt (rl_burst r) cost then rl_burst r else cost)"

definition make_room :: "((gostr \<times> tokenBucket) list \<Rightarrow> (gostr \<times> tokenBucket) list) \<Rightarrow> time \<Rightarrow> RateLimiter \<Rightarrow> RateLimiter" where
  "make_room iter t r =
     (let r = (if sweepThreshold \<le> length (rl_buckets r) \<and> sweepInterval \<le> time_Sub t (rl_lastSweep r)
               then (evictIdle t r)\<lparr>rl_lastSweep := t\<rparr> else r)
      in if maxBuckets \<le> length (rl_buckets r) then evictBatch iter r else r)"

definition refilled :: "RateLimiter \<Rightarrow> time \<Rightarrow> tokenBucket \<Rightarrow> tokenBucket" where
  "refilled r t b =
     (let elapsed = duration_Seconds (time_Sub t (tb_last b))
      in if flt (Fin 0) elapsed
         then b\<lparr>tb_tokens := fmin (rl_burst r) (fadd (tb_tokens b) (fmul elapsed (rl_rate r))), tb_last := t\<rparr> else b)"

definition AllowN :: "((gostr \<times> tokenBucket) list \<Rightarrow> (gostr \<times> tokenBucket) list) \<Rightarrow> time \<Rightarrow> gostr \<Rightarrow> f64 \<Rightarrow> RateLimiter \<Rightarrow> bool \<times> RateLimiter" where
  "AllowN iter t key cost r =
     (let cost = clamped_cost r cost;
          (b, r) = (case map_of (rl_buckets r) key of
              None \<Rightarrow> (\<lparr>tb_tokens = rl_burst r, tb_last = t\<rparr>, make_room iter t r)
            | Some b \<Rightarrow> (refilled r t b, r));
          ok = fle cost (tb_tokens b);
          b = (if ok then b\<lparr>tb_tokens := fsub (tb_tokens b) cost\<rparr> else b)
      in (ok, r\<lparr>rl_buckets := AList.update key b (rl_buckets r)\<rparr>))"

definition Allow :: "((gostr \<times> tokenBucket) list \<Rightarrow> (gostr \<times> tokenBucket) list) \<Rightarrow> time \<Rightarrow> gostr \<Rightarrow> RateLimiter \<Rightarrow> bool \<times> RateLimiter" where
  "Allow iter t key = AllowN iter t key (Fin 1)"

definition llm_methods :: "gostr list" where
  "llm_methods = [lit ''/caliber.v1.MatchingService/GenerateShortlist'', lit ''/caliber.v1.MatchingService/RefineShortlist'',
     lit ''/caliber.v1.CandidateAgentService/RunAgent'', lit ''/caliber.v1.RoleService/GenerateRoleSpec'',
     lit ''/caliber.v1.RoleService/UpdateRoleSpec'', lit ''/caliber.v1.TalentService/CreateProfileFromCV'',
     lit ''/caliber.v1.InterviewService/StartInterview'', lit ''/caliber.v1.InterviewService/SubmitAnswer'']"

definition methodCost :: "gostr \<Rightarrow> f64" where
  "methodCost fullMethod = (if fullMethod \<in> set llm_methods then llmMethodCost else Fin 1)"

subsection \<open>The key of a request\<close>

record request_origin =
  ro_principal :: "Principal option"
  ro_peer :: "gostr option"
  ro_forwarded :: "gostr list"

definition peerIP :: "request_origin \<Rightarrow> gostr" where
  "peerIP q = (case ro_peer q of None \<Rightarrow> lit ''unknown''
     | Some a \<Rightarrow> (case SplitHostPort a of Some host \<Rightarrow> host | None \<Rightarrow> a))"

definition peerIsTrusted :: "RateLimiter \<Rightarrow> gostr \<Rightarrow> bool" where
  "peerIsTrusted r ip = (case ParseAddr ip of None \<Rightarrow> False | Some a \<Rightarrow> \<exists>p \<in> set (rl_trusted r). Prefix_Contains p a)"

definition forwardedForChain :: "request_origin \<Rightarrow> gostr list" where
  "forwardedForChain q = concat (map (\<lambda>h. filter (\<lambda>ip. ip \<noteq> []) (map strings_TrimSpace (strings_Split 44 h))) (ro_forwarded q))"

definition clientIP :: "RateLimiter \<Rightarrow> request_origin \<Rightarrow> gostr" where
  "clientIP r q =
     (let p = peerIP q in
      if \<not> peerIsTrusted r p then p
      else case find (\<lambda>hop. \<not> peerIsTrusted r hop) (rev (forwardedForChain q)) of Some hop \<Rightarrow> hop | None \<Rightarrow> p)"

definition rateLimitKey :: "RateLimiter \<Rightarrow> request_origin \<Rightarrow> gostr \<Rightarrow> gostr" where
  "rateLimitKey r q fullMethod = (case ro_principal q of
     Some p \<Rightarrow> lit ''user:'' @ Pri_UserID p
   | None \<Rightarrow> lit ''anon:'' @ clientIP r q @ [58] @ fullMethod)"

text \<open>The interceptor; its streaming counterpart does the same at the opening of the stream.\<close>

definition rate_limited :: "('w \<Rightarrow> RateLimiter) \<Rightarrow> (RateLimiter \<Rightarrow> 'w \<Rightarrow> 'w) \<Rightarrow> 'w Clock \<Rightarrow>
    ((gostr \<times> tokenBucket) list \<Rightarrow> (gostr \<times> tokenBucket) list) \<Rightarrow> request_origin \<Rightarrow> gostr \<Rightarrow> ('w, 'a) rpc \<Rightarrow> ('w, 'a) rpc" where
  "rate_limited get put now iter q fullMethod handler = (\<lambda>w. case now w of (t, w) \<Rightarrow>
     (case AllowN iter t (rateLimitKey (get w) q fullMethod) (methodCost fullMethod) (get w) of
        (ok, r) \<Rightarrow> if ok then handler (put r w)
          else (Inl (status_Error ResourceExhausted (Literal ''rate limit exceeded; please slow down'')), put r w)))"

subsection \<open>A forwarding header cannot be forged\<close>

text \<open>
  What proxies do to the lines of the header, of which there may be none: each appends the address it saw to the last
  line, after a comma and a space, or adds a line of its own.
\<close>

fun relay :: "gostr list \<Rightarrow> (bool \<times> gostr) list \<Rightarrow> gostr list" where
  "relay header [] = header"
| "relay header ((own_line, ip) # hops) =
     relay (if own_line \<or> header = [] then header @ [ip] else butlast header @ [last header @ lit '', '' @ ip]) hops"

definition plain_hop :: "gostr \<Rightarrow> bool" where
  "plain_hop ip \<longleftrightarrow> ip \<noteq> [] \<and> trimmed ip \<and> 44 \<notin> set ip"

lemma TrimSpace_space: "plain_hop ip \<Longrightarrow> strings_TrimSpace (32 # ip) = ip"
proof -
  assume p: "plain_hop ip"
  have "unicode_IsSpace 32" by code_simp
  then have "strings_TrimSpace (32 # ip) = strings_TrimSpace ip" using p
    by (cases "\<forall>c \<in> set ip. unicode_IsSpace c") (auto simp: strings_TrimSpace_def plain_hop_def)
  then show ?thesis using p TrimSpace_id by (simp add: plain_hop_def)
qed

definition chain_of :: "gostr list \<Rightarrow> gostr list" where
  "chain_of header = concat (map (\<lambda>h. filter (\<lambda>ip. ip \<noteq> []) (map strings_TrimSpace (strings_Split 44 h))) header)"

lemma chain_of_append: "chain_of (xs @ ys) = chain_of xs @ chain_of ys"
  by (simp add: chain_of_def)

lemma chain_of_hop: "plain_hop ip \<Longrightarrow> chain_of [ip] = [ip]"
  by (simp add: chain_of_def plain_hop_def Split_single TrimSpace_id)

lemma chain_of_appended: "plain_hop ip \<Longrightarrow> chain_of [h @ lit '', '' @ ip] = chain_of [h] @ [ip]"
proof -
  assume ip: "plain_hop ip"
  have "strings_Split 44 (h @ lit '', '' @ ip) = strings_Split 44 h @ [32 # ip]"
    using Split_append_sep [of 44 h "32 # ip"] Split_single [of 44 "32 # ip"] ip by (simp add: plain_hop_def)
  then show ?thesis using ip TrimSpace_space [OF ip] by (simp add: chain_of_def plain_hop_def)
qed

lemma chain_of_relay: "\<forall>(own, ip) \<in> set hops. plain_hop ip \<Longrightarrow> chain_of (relay header hops) = chain_of header @ map snd hops"
proof (induction header hops rule: relay.induct)
  case (2 header own ip hops)
  have ip: "plain_hop ip" using "2.prems" by simp
  have "chain_of (if own \<or> header = [] then header @ [ip] else butlast header @ [last header @ lit '', '' @ ip]) = chain_of header @ [ip]"
  proof (cases "own \<or> header = []")
    case False
    then have "chain_of header = chain_of (butlast header) @ chain_of [last header]" by (metis append_butlast_last_id chain_of_append)
    then show ?thesis using False chain_of_appended [OF ip] by (simp add: chain_of_append del: lit_simps)
  qed (simp add: chain_of_append chain_of_hop [OF ip])
  then show ?case using 2 by (simp del: lit_simps)
qed simp

lemma find_skips: "\<forall>y \<in> set ys. \<not> Q y \<Longrightarrow> Q x \<Longrightarrow> find Q (ys @ x # zs) = Some x"
  by (induction ys) auto

lemma find_rev_suffix:
  assumes "\<not> P x" and "\<forall>y \<in> set ys. P y"
  shows "find (\<lambda>y. \<not> P y) (rev (xs @ x # ys)) = Some x"
  using find_skips [of "rev ys" "\<lambda>y. \<not> P y" x "rev xs"] assms by simp

text \<open>
  C31: No client chooses its own bucket. The key of an anonymous request whose connection does not come from a
  trusted proxy is the address of that connection; of one relayed by trusted proxies it is the address that the
  outermost of them saw, whatever forwarding header the client sent along, in however many lines or none, and
  whether each proxy appends to the last line or adds one of its own.
\<close>

theorem key_unforgeable:
  assumes "ro_principal q = None"
  shows "(\<not> peerIsTrusted r (peerIP q) \<longrightarrow> rateLimitKey r q m = lit ''anon:'' @ peerIP q @ [58] @ m) \<and>
    (peerIsTrusted r (peerIP q) \<and> ro_forwarded q = relay sent ((own_line, client) # proxies) \<and>
       plain_hop client \<and> \<not> peerIsTrusted r client \<and> (\<forall>(own, p) \<in> set proxies. plain_hop p \<and> peerIsTrusted r p) \<longrightarrow>
     rateLimitKey r q m = lit ''anon:'' @ client @ [58] @ m)"
proof (intro conjI impI)
  assume a: "peerIsTrusted r (peerIP q) \<and> ro_forwarded q = relay sent ((own_line, client) # proxies) \<and>
       plain_hop client \<and> \<not> peerIsTrusted r client \<and> (\<forall>(own, p) \<in> set proxies. plain_hop p \<and> peerIsTrusted r p)"
  then have "forwardedForChain q = chain_of sent @ client # map snd proxies"
    using chain_of_relay [of "(own_line, client) # proxies" sent]
    by (auto simp: forwardedForChain_def simp flip: chain_of_def simp del: relay.simps)
  then have "find (\<lambda>hop. \<not> peerIsTrusted r hop) (rev (forwardedForChain q)) = Some client"
    using find_rev_suffix [of "peerIsTrusted r" client "map snd proxies" "chain_of sent"] a by fastforce
  then show "rateLimitKey r q m = lit ''anon:'' @ client @ [58] @ m"
    using a assms by (simp add: rateLimitKey_def clientIP_def Let_def)
qed (use assms in \<open>simp add: rateLimitKey_def clientIP_def\<close>)

definition sample_origin :: "gostr list \<Rightarrow> request_origin" where
  "sample_origin sent = \<lparr>ro_principal = None, ro_peer = Some (lit ''127.0.0.1:40000''),
     ro_forwarded = relay sent [(False, lit ''203.0.113.7''), (True, lit ''10.0.0.2'')]\<rparr>"

lemma key_unforgeable_witness:
  "rateLimitKey (NewRateLimiter (Fin 30) (Fin 60) [lit ''10.0.0.0/8'']) (sample_origin []) (lit ''/Login'') =
     lit ''anon:203.0.113.7:/Login'' \<and>
   rateLimitKey (NewRateLimiter (Fin 30) (Fin 60) [lit ''10.0.0.0/8'']) (sample_origin [lit ''10.9.9.9'', lit ''8.8.8.8,127.0.0.1''])
     (lit ''/Login'') = lit ''anon:203.0.113.7:/Login''"
proof -
  let ?r = "NewRateLimiter (Fin 30) (Fin 60) [lit ''10.0.0.0/8'']"
  have "peerIP (sample_origin sent) = lit ''127.0.0.1''" for sent
  proof -
    have "peerIP (sample_origin sent) = peerIP (sample_origin [])" by (simp add: peerIP_def sample_origin_def)
    also have "\<dots> = lit ''127.0.0.1''" by code_simp
    finally show ?thesis .
  qed
  moreover have "peerIsTrusted ?r (lit ''127.0.0.1'')" "\<not> peerIsTrusted ?r (lit ''203.0.113.7'')" "peerIsTrusted ?r (lit ''10.0.0.2'')"
    "plain_hop (lit ''203.0.113.7'')" "plain_hop (lit ''10.0.0.2'')" by code_simp+
  moreover have "ro_principal (sample_origin sent) = None"
    "ro_forwarded (sample_origin sent) = relay sent ((False, lit ''203.0.113.7'') # [(True, lit ''10.0.0.2'')])" for sent
    by (simp_all only: sample_origin_def request_origin.select_convs)
  ultimately have "rateLimitKey ?r (sample_origin sent) (lit ''/Login'') = lit ''anon:'' @ lit ''203.0.113.7'' @ [58] @ lit ''/Login''" for sent
    using key_unforgeable [of "sample_origin sent" ?r "lit ''/Login''" sent False "lit ''203.0.113.7''" "[(True, lit ''10.0.0.2'')]"]
    by (simp del: lit_simps relay.simps)
  then show ?thesis by simp
qed

subsection \<open>The buckets are bounded\<close>

definition finite_f64 :: "f64 \<Rightarrow> bool" where
  "finite_f64 x \<longleftrightarrow> is_f64 x \<and> (\<exists>q. x = Fin q)"

definition bucket_ok :: "RateLimiter \<Rightarrow> tokenBucket \<Rightarrow> bool" where
  "bucket_ok r b \<longleftrightarrow> fle (Fin 0) (tb_tokens b) \<and> fle (tb_tokens b) (rl_burst r) \<and> is_f64 (tb_tokens b)"

definition limiter_params :: "RateLimiter \<Rightarrow> bool" where
  "limiter_params r \<longleftrightarrow> flt (Fin 0) (rl_rate r) \<and> is_f64 (rl_rate r) \<and> fle (Fin 1) (rl_burst r) \<and> is_f64 (rl_burst r)"

definition limiter_inv :: "RateLimiter \<Rightarrow> bool" where
  "limiter_inv r \<longleftrightarrow> limiter_params r \<and> distinct (map fst (rl_buckets r)) \<and> length (rl_buckets r) \<le> maxBuckets \<and>
     (\<forall>b \<in> snd ` set (rl_buckets r). bucket_ok r b)"

lemma fsub_within:
  assumes "finite_f64 c" "fle (Fin 0) c" "fle c x" "is_f64 x"
  shows "fle (Fin 0) (fsub x c) \<and> fle (fsub x c) x \<and> is_f64 (fsub x c)"
proof -
  obtain q where q: "c = Fin q" "0 \<le> q" using assms(1,2) by (auto simp: finite_f64_def)
  have neg: "is_f64 (Fin (- q))" using assms(1) q by (auto simp: finite_f64_def f64_of_def fl_minus huge_def)
  show ?thesis
  proof (cases x)
    case (Fin a)
    then have "f64_of a = Fin a" using assms(4) by (simp add: f64_of_def)
    moreover have "0 \<le> a - q" "a - q \<le> a" using Fin q assms(3) by simp_all
    ultimately show ?thesis using Fin q f64_of_mono [of 0 "a - q"] f64_of_mono [of "a - q" a] by (simp add: fsub_def)
  qed (use assms q in \<open>auto simp: fle_def fsub_def\<close>)
qed

lemma clamped_cost_ok:
  assumes "limiter_params r" "finite_f64 cost"
  shows "finite_f64 (clamped_cost r cost) \<and> fle (Fin 0) (clamped_cost r cost) \<and> fle (clamped_cost r cost) (rl_burst r)"
proof -
  have one: "finite_f64 (Fin 1)" using f64_of_int [of 1] is_f64_of [of 1] by (simp add: finite_f64_def)
  obtain q where q: "cost = Fin q" using assms(2) by (auto simp: finite_f64_def)
  show ?thesis using assms one q
    by (cases "rl_burst r") (auto simp: clamped_cost_def Let_def limiter_params_def finite_f64_def fle_def)
qed

lemma refilled_ok:
  assumes "limiter_params r" "bucket_ok r b"
  shows "bucket_ok r (refilled r t b)"
proof (cases "flt (Fin 0) (duration_Seconds (time_Sub t (tb_last b)))")
  case True
  let ?x = "fadd (tb_tokens b) (fmul (duration_Seconds (time_Sub t (tb_last b))) (rl_rate r))"
  have x: "fle (Fin 0) ?x" using assms True by (intro fadd_nonneg fmul_pos) (auto simp: bucket_ok_def limiter_params_def)
  have "is_f64 ?x" using assms by (auto simp: bucket_ok_def limiter_params_def duration_Seconds_def
      intro!: is_f64_fadd is_f64_fmul is_f64_fdiv is_f64_of is_f64_e9)
  moreover have "fle (Fin 0) (rl_burst r)" using assms(2) fle_trans by (auto simp: bucket_ok_def)
  moreover have "is_f64 (rl_burst r)" using assms(1) by (simp add: limiter_params_def)
  ultimately have "fle (Fin 0) (fmin (rl_burst r) ?x) \<and> fle (fmin (rl_burst r) ?x) (rl_burst r) \<and> is_f64 (fmin (rl_burst r) ?x)"
    using x fmin_le [of "rl_burst r" ?x] nonneg_not_NaN by auto
  then show ?thesis using True by (simp add: refilled_def bucket_ok_def Let_def)
qed (use assms in \<open>simp add: refilled_def\<close>)

lemma full_ok: "limiter_params r \<Longrightarrow> bucket_ok r \<lparr>tb_tokens = rl_burst r, tb_last = t\<rparr>"
proof -
  assume p: "limiter_params r"
  then have "fle (Fin 0) (rl_burst r)" using fle_trans [of "Fin 0" "Fin 1"] by (simp add: limiter_params_def)
  moreover have "fle (rl_burst r) (rl_burst r)" using p by (cases "rl_burst r") (auto simp: limiter_params_def fle_def)
  ultimately show ?thesis using p by (simp add: bucket_ok_def limiter_params_def)
qed

text \<open>An iteration order of a map is a permutation of its entries.\<close>

lemma make_room_ok:
  assumes "limiter_inv r" and "\<And>xs. mset (iter xs) = mset xs"
  shows "limiter_inv (make_room iter t r) \<and> length (rl_buckets (make_room iter t r)) < maxBuckets \<and>
    rl_burst (make_room iter t r) = rl_burst r \<and> rl_rate (make_room iter t r) = rl_rate r \<and>
    set (rl_buckets (make_room iter t r)) \<subseteq> set (rl_buckets r)"
proof -
  define r1 where "r1 = (if sweepThreshold \<le> length (rl_buckets r) \<and> sweepInterval \<le> time_Sub t (rl_lastSweep r)
               then (evictIdle t r)\<lparr>rl_lastSweep := t\<rparr> else r)"
  have r1: "set (rl_buckets r1) \<subseteq> set (rl_buckets r)" "distinct (map fst (rl_buckets r1))" "length (rl_buckets r1) \<le> maxBuckets"
    "rl_burst r1 = rl_burst r" "rl_rate r1 = rl_rate r"
    using assms(1) order_trans [OF length_filter_le]
    by (auto simp: r1_def evictIdle_def limiter_inv_def intro: distinct_map_filter)
  let ?xs = "drop (length (rl_buckets r1) - evictLowWater) (iter (rl_buckets r1))"
  have s: "set (iter (rl_buckets r1)) = set (rl_buckets r1)" "length (iter (rl_buckets r1)) = length (rl_buckets r1)"
    using assms(2) mset_eq_setD mset_eq_length by metis+
  have "mset (map fst (iter (rl_buckets r1))) = mset (map fst (rl_buckets r1))" using assms(2) by simp
  then have "distinct (map fst (iter (rl_buckets r1)))" using r1(2) mset_eq_imp_distinct_iff by blast
  then have d: "distinct (map fst ?xs)" by (simp flip: drop_map)
  have low: "evictLowWater < maxBuckets" by (simp add: evictLowWater_def maxBuckets_def sweepThreshold_def)
  have sub: "set ?xs \<subseteq> set (rl_buckets r)" using s(1) r1(1) set_drop_subset by fast
  have len: "length ?xs \<le> evictLowWater" using s(2) by simp
  have mr: "make_room iter t r = (if maxBuckets \<le> length (rl_buckets r1) then r1\<lparr>rl_buckets := ?xs\<rparr> else r1)"
    by (simp add: make_room_def Let_def r1_def evictBatch_def)
  show ?thesis using assms(1) r1 d low sub len unfolding mr limiter_inv_def limiter_params_def bucket_ok_def
    by (auto simp: image_subset_iff subset_iff image_iff)
qed

lemma bucket_ok_same: "rl_burst r' = rl_burst r \<Longrightarrow> bucket_ok r' b = bucket_ok r b"
  by (simp add: bucket_ok_def)

lemma limiter_inv_update:
  assumes "limiter_inv r" and "bucket_ok r b" and "map_of (rl_buckets r) key \<noteq> None \<or> length (rl_buckets r) < maxBuckets"
  shows "limiter_inv (r\<lparr>rl_buckets := AList.update key b (rl_buckets r)\<rparr>)"
proof -
  have "length (AList.update key b xs) = (if key \<in> fst ` set xs then length xs else Suc (length xs))" for xs :: "(gostr \<times> tokenBucket) list"
    by (induction xs) auto
  then have "length (AList.update key b (rl_buckets r)) \<le> maxBuckets"
    using assms(1,3) by (auto simp: limiter_inv_def map_of_eq_None_iff)
  moreover have "snd ` set (AList.update key b xs) \<subseteq> insert b (snd ` set xs)" for xs :: "(gostr \<times> tokenBucket) list"
    by (induction xs) auto
  then have "\<forall>b' \<in> snd ` set (AList.update key b (rl_buckets r)). bucket_ok r b'" using assms(1,2) by (fastforce simp: limiter_inv_def)
  moreover have "distinct (map fst (AList.update key b (rl_buckets r)))" using assms(1) by (simp add: limiter_inv_def distinct_update)
  ultimately show ?thesis using assms(1) bucket_ok_same [of "r\<lparr>rl_buckets := _\<rparr>" r] by (simp add: limiter_inv_def limiter_params_def)
qed

lemma spent_ok:
  assumes "limiter_params r" "bucket_ok r b" "finite_f64 cost" "fle (clamped_cost r cost) (tb_tokens b)"
  shows "bucket_ok r (b\<lparr>tb_tokens := fsub (tb_tokens b) (clamped_cost r cost)\<rparr>)"
proof -
  have b: "fle (tb_tokens b) (rl_burst r)" "is_f64 (tb_tokens b)" using assms(2) by (simp_all add: bucket_ok_def)
  have "finite_f64 (clamped_cost r cost)" "fle (Fin 0) (clamped_cost r cost)" using clamped_cost_ok [OF assms(1,3)] by blast+
  note f = fsub_within [OF this assms(4) b(2)]
  then have "fle (fsub (tb_tokens b) (clamped_cost r cost)) (rl_burst r)" using b(1) fle_trans by blast
  then show ?thesis using f by (simp add: bucket_ok_def)
qed

lemma AllowN_inv:
  assumes "limiter_inv r" and "\<And>xs. mset (iter xs) = mset xs" and "finite_f64 cost" and "AllowN iter t key cost r = (ok, r')"
  shows "limiter_inv r' \<and> (map_of (rl_buckets r) key = None \<longrightarrow> ok)"
proof -
  define b where "b = (case map_of (rl_buckets r) key of None \<Rightarrow> \<lparr>tb_tokens = rl_burst r, tb_last = t\<rparr> | Some b \<Rightarrow> refilled r t b)"
  define r1 where "r1 = (if map_of (rl_buckets r) key = None then make_room iter t r else r)"
  let ?c = "clamped_cost r cost"
  define b1 where "b1 = (if fle ?c (tb_tokens b) then b\<lparr>tb_tokens := fsub (tb_tokens b) ?c\<rparr> else b)"
  have run: "ok = fle ?c (tb_tokens b)" "r' = r1\<lparr>rl_buckets := AList.update key b1 (rl_buckets r1)\<rparr>"
    using assms(4) by (auto simp: AllowN_def Let_def b_def r1_def b1_def split: option.splits)
  have p: "limiter_params r" using assms(1) by (simp add: limiter_inv_def)
  have b: "bucket_ok r b"
  proof (cases "map_of (rl_buckets r) key")
    case (Some b0)
    then have "b0 \<in> snd ` set (rl_buckets r)" using map_of_SomeD by force
    then have "bucket_ok r b0" using assms(1) unfolding limiter_inv_def by blast
    then show ?thesis using Some refilled_ok [OF p] by (simp add: b_def)
  qed (simp add: b_def full_ok [OF p])
  have r1: "limiter_inv r1" "rl_burst r1 = rl_burst r" "map_of (rl_buckets r1) key \<noteq> None \<or> length (rl_buckets r1) < maxBuckets"
    using assms(1) make_room_ok [OF assms(1,2), of t] by (auto simp: r1_def)
  have "bucket_ok r b1" using spent_ok [OF p b assms(3)] b by (simp add: b1_def)
  then have "limiter_inv r'" using limiter_inv_update [OF r1(1) _ r1(3)] bucket_ok_same [OF r1(2)] run(2) by simp
  moreover have "ok" if "map_of (rl_buckets r) key = None" using that run(1) clamped_cost_ok [OF p assms(3)] by (simp add: b_def)
  ultimately show ?thesis by blast
qed

record call =
  cl_iter :: "(gostr \<times> tokenBucket) list \<Rightarrow> (gostr \<times> tokenBucket) list"
  cl_time :: time
  cl_key :: gostr
  cl_cost :: f64

definition serve_calls :: "call list \<Rightarrow> RateLimiter \<Rightarrow> RateLimiter" where
  "serve_calls cs r = fold (\<lambda>c r. snd (AllowN (cl_iter c) (cl_time c) (cl_key c) (cl_cost c) r)) cs r"

text \<open>
  C32: The limiter stays small and open. After any requests, at any times and from any number of callers, it
  keeps at most twenty thousand buckets, each with between no token and the burst, and a caller it does not
  know yet is admitted whatever its request costs.
\<close>

theorem limiter_bounded:
  assumes "is_f64 rps" "rps \<noteq> NaN" "is_f64 brst" "brst \<noteq> NaN"
    and "\<And>c. c \<in> set cs \<Longrightarrow> (\<forall>xs. mset (cl_iter c xs) = mset xs) \<and> finite_f64 (cl_cost c)"
    and "r = serve_calls cs (NewRateLimiter rps brst cidrs)"
  shows "length (rl_buckets r) \<le> 20000 \<and> (\<forall>(key, b) \<in> set (rl_buckets r). fle (Fin 0) (tb_tokens b) \<and> fle (tb_tokens b) (rl_burst r)) \<and>
    (\<forall>iter t key cost. (\<forall>xs. mset (iter xs) = mset xs) \<and> finite_f64 cost \<and> map_of (rl_buckets r) key = None \<longrightarrow> fst (AllowN iter t key cost r))"
proof -
  have one: "is_f64 (Fin 1)" using f64_of_int [of 1] is_f64_of [of 1] by simp
  have init: "limiter_inv (NewRateLimiter rps brst cidrs)" using assms(1-4) one
    by (cases rps; cases brst) (auto simp: NewRateLimiter_def limiter_inv_def limiter_params_def fle_def)
  have "limiter_inv (serve_calls ds r0)" if "limiter_inv r0" "set ds \<subseteq> set cs" for ds r0
    using that
  proof (induction ds arbitrary: r0)
    case (Cons c ds)
    then have "limiter_inv (snd (AllowN (cl_iter c) (cl_time c) (cl_key c) (cl_cost c) r0))"
      using AllowN_inv [of r0 "cl_iter c" "cl_cost c"] assms(5) [of c] by (metis insert_subset list.simps(15) prod.collapse)
    then show ?case using Cons by (simp add: serve_calls_def)
  qed (simp add: serve_calls_def)
  then have inv: "limiter_inv r" using init assms(6) by blast
  have "fst (AllowN iter t key cost r)" if "\<forall>xs. mset (iter xs) = mset xs" "finite_f64 cost" "map_of (rl_buckets r) key = None" for iter t key cost
    using AllowN_inv [OF inv, of iter cost t key] that by (metis prod.collapse)
  moreover have "maxBuckets = 20000" by (simp add: maxBuckets_def sweepThreshold_def)
  ultimately show ?thesis using inv by (fastforce simp: limiter_inv_def bucket_ok_def)
qed

lemma AllowN_keys:
  assumes "\<And>xs. set (iter xs) = set xs"
  shows "fst ` set (rl_buckets (snd (AllowN iter t key cost r))) \<subseteq> insert key (fst ` set (rl_buckets r))"
proof -
  have "set (rl_buckets (make_room iter t r)) \<subseteq> set (rl_buckets r)"
    by (auto simp: make_room_def evictBatch_def evictIdle_def Let_def assms dest: in_set_dropD)
  then have "fst ` set (rl_buckets (make_room iter t r)) \<subseteq> fst ` set (rl_buckets r)" by (rule image_mono)
  then show ?thesis by (auto simp: AllowN_def Let_def dom_update split: option.split)
qed

lemma serve_calls_keys:
  "(\<And>c xs. c \<in> set cs \<Longrightarrow> set (cl_iter c xs) = set xs) \<Longrightarrow>
    fst ` set (rl_buckets (serve_calls cs r)) \<subseteq> cl_key ` set cs \<union> fst ` set (rl_buckets r)"
proof (induction cs arbitrary: r)
  case (Cons c cs)
  have "fst ` set (rl_buckets (snd (AllowN (cl_iter c) (cl_time c) (cl_key c) (cl_cost c) r))) \<subseteq> insert (cl_key c) (fst ` set (rl_buckets r))"
    by (rule AllowN_keys) (simp add: Cons.prems)
  moreover have "fst ` set (rl_buckets (serve_calls cs r')) \<subseteq> cl_key ` set cs \<union> fst ` set (rl_buckets r')" for r'
    by (rule Cons.IH) (simp add: Cons.prems)
  moreover have "serve_calls (c # cs) r = serve_calls cs (snd (AllowN (cl_iter c) (cl_time c) (cl_key c) (cl_cost c) r))"
    by (simp add: serve_calls_def)
  ultimately show ?case by (simp only: list.simps image_insert) blast
qed (simp add: serve_calls_def)

definition sample_calls :: "call list" where
  "sample_calls = [\<lparr>cl_iter = rev, cl_time = 5 * second, cl_key = [65], cl_cost = Fin 12\<rparr>,
     \<lparr>cl_iter = id, cl_time = 5 * second, cl_key = [66], cl_cost = Fin 1\<rparr>]"

lemma limiter_bounded_witness:
  "length (rl_buckets (serve_calls sample_calls (NewRateLimiter (Fin 30) (Fin 60) []))) \<le> 20000 \<and>
   fst (AllowN rev 0 [67] (Fin 12) (serve_calls sample_calls (NewRateLimiter (Fin 30) (Fin 60) [])))"
proof -
  have f: "finite_f64 (Fin 1)" "finite_f64 (Fin 12)" "is_f64 (Fin 30)" "is_f64 (Fin 60)"
    using f64_of_int [of 1] is_f64_of [of 1] f64_of_int [of 12] is_f64_of [of 12] f64_of_int [of 30] is_f64_of [of 30]
      f64_of_int [of 60] is_f64_of [of 60] by (simp_all add: finite_f64_def)
  have iters: "set (cl_iter c xs) = set xs" if "c \<in> set sample_calls" for c xs using that by (auto simp: sample_calls_def)
  have "fst ` set (rl_buckets (serve_calls sample_calls (NewRateLimiter (Fin 30) (Fin 60) []))) \<subseteq> cl_key ` set sample_calls \<union> {}"
    using serve_calls_keys [of sample_calls "NewRateLimiter (Fin 30) (Fin 60) []", OF iters] by (simp add: NewRateLimiter_def)
  then have new: "map_of (rl_buckets (serve_calls sample_calls (NewRateLimiter (Fin 30) (Fin 60) []))) [67] = None"
    by (auto simp: map_of_eq_None_iff sample_calls_def)
  have "length (rl_buckets (serve_calls sample_calls (NewRateLimiter (Fin 30) (Fin 60) []))) \<le> 20000 \<and>
    (\<forall>(key, b) \<in> set (rl_buckets (serve_calls sample_calls (NewRateLimiter (Fin 30) (Fin 60) []))). fle (Fin 0) (tb_tokens b) \<and>
       fle (tb_tokens b) (rl_burst (serve_calls sample_calls (NewRateLimiter (Fin 30) (Fin 60) [])))) \<and>
    (\<forall>iter t key cost. (\<forall>xs. mset (iter xs) = mset xs) \<and> finite_f64 cost \<and>
       map_of (rl_buckets (serve_calls sample_calls (NewRateLimiter (Fin 30) (Fin 60) []))) key = None \<longrightarrow>
       fst (AllowN iter t key cost (serve_calls sample_calls (NewRateLimiter (Fin 30) (Fin 60) []))))"
    by (rule limiter_bounded [where cs = sample_calls and rps = "Fin 30" and brst = "Fin 60" and cidrs = "[]"])
      (use f in \<open>auto simp: sample_calls_def\<close>)
  then show ?thesis using new f(2) by simp
qed

text \<open>
  Dropping an idle bucket is only without effect when it has refilled: with a slow rate it resets the limit.
\<close>

lemma idle_eviction_resets:
  "fle (tb_tokens (refilled \<lparr>rl_buckets = [], rl_rate = Fin (1 / 64), rl_burst = Fin 60, rl_lastSweep = 0, rl_trusted = []\<rparr>
      (601 * second) \<lparr>tb_tokens = Fin 0, tb_last = 0\<rparr>)) (Fin 10) \<and>
   rl_buckets (evictIdle (601 * second) \<lparr>rl_buckets = [([65], \<lparr>tb_tokens = Fin 0, tb_last = 0\<rparr>)], rl_rate = Fin (1 / 64),
      rl_burst = Fin 60, rl_lastSweep = 0, rl_trusted = []\<rparr>) = []"
  by code_simp

text \<open>The run of the agent that advances time is charged like a cheap read.\<close>

lemma time_advance_is_cheap:
  "methodCost (lit ''/caliber.v1.CandidateAgentService/TimeAdvance'') = Fin 1"
  "methodCost (lit ''/caliber.v1.CandidateAgentService/RunAgent'') = Fin 12"
  by code_simp+

end
