(* ===== verification/Jwt.thy ===== *)
theory Jwt
  imports Access
begin

section \<open>Signed tokens\<close>

text \<open>
  \<open>adapters/outbound/auth/jwt.go\<close>: the token service of the process. The package \<open>golang-jwt\<close> is the
  parameter \<open>jwt_lib\<close>: rounding of dates, signing of claims, and parsing under options; what the program
  relies on of its documentation is \<open>jwt_documented\<close>. The random bytes and the clock are ports of the world.
  The lemmas show which tokens are accepted until when, and, with the interceptor of the API and the
  session service, that access and refresh tokens do not stand in for each other.
\<close>

subsection \<open>Configuration\<close>

record JWTConfig =
  Secret :: gostr
  Issuer :: gostr
  Audience :: gostr
  AccessTTL :: duration
  RefreshTTL :: duration

definition DefaultAccessTTL :: duration where "DefaultAccessTTL = 15 * minute"
definition DefaultRefreshTTL :: duration where "DefaultRefreshTTL = 7 * (24 * hour)"
definition minSecretBytes :: int where "minSecretBytes = 32"
definition tokenTypeAccess :: gostr where "tokenTypeAccess = lit ''access''"
definition tokenTypeRefresh :: gostr where "tokenTypeRefresh = lit ''refresh''"
definition signingMethod :: gostr where "signingMethod = lit ''HS256''"

text \<open>The service is its configuration; the clock is an argument of the operations.\<close>

definition NewJWTService :: "JWTConfig \<Rightarrow> JWTConfig res" where
  "NewJWTService cfg =
     (if strings_TrimSpace (Secret cfg) = [] then Inl (Invalid ''auth: JWT secret is required'')
      else if byte_len (Secret cfg) < minSecretBytes
      then Inl (Invalidf ''auth: JWT secret must be at least %d bytes'' [AInt minSecretBytes])
      else let cfg = (if Issuer cfg = [] then cfg\<lparr>Issuer := lit ''caliber''\<rparr> else cfg);
               cfg = (if Audience cfg = [] then cfg\<lparr>Audience := lit ''caliber-api''\<rparr> else cfg);
               cfg = (if AccessTTL cfg \<le> 0 then cfg\<lparr>AccessTTL := DefaultAccessTTL\<rparr> else cfg);
               cfg = (if RefreshTTL cfg \<le> 0 then cfg\<lparr>RefreshTTL := DefaultRefreshTTL\<rparr> else cfg)
           in Inr cfg)"

subsection \<open>Claims, and the library that signs and parses them\<close>

record jwt_claims =
  C_Subject :: gostr
  C_Issuer :: gostr
  C_Audience :: "gostr list"
  C_ID :: gostr
  C_IssuedAt :: "time option"
  C_NotBefore :: "time option"
  C_ExpiresAt :: "time option"
  C_Role :: gostr
  C_Type :: gostr

record parser_options =
  WithValidMethods :: "gostr list"
  WithIssuer :: gostr
  WithAudience :: gostr
  WithExpirationRequired :: bool
  WithTime :: time

record jwt_lib =
  NewNumericDate :: "time \<Rightarrow> time"
  SignedString :: "gostr \<Rightarrow> jwt_claims \<Rightarrow> gostr \<Rightarrow> gostr res"
  ParseWithClaims :: "gostr \<Rightarrow> parser_options \<Rightarrow> gostr \<Rightarrow> (jwt_claims \<times> bool) res"

subsection \<open>The service\<close>

text \<open>The random bytes are numbers below 256.\<close>

definition newID :: "(nat \<Rightarrow> ('w, int list) io) \<Rightarrow> ('w, gostr) io" where
  "newID rand_Read = io_bind (io_try (rand_Read 16)) (\<lambda>r. case r of
     Inl err \<Rightarrow> io_fail (Wrap err KindInternal ''auth: id generation failed'')
   | Inr b \<Rightarrow> io_ret (hex_EncodeToString b))"

definition sign :: "jwt_lib \<Rightarrow> JWTConfig \<Rightarrow> 'w Clock \<Rightarrow> Principal \<Rightarrow> gostr \<Rightarrow> gostr \<Rightarrow> duration \<Rightarrow> ('w, gostr) io" where
  "sign jwt s clock p typ jti ttl = io_bind (io_of clock) (\<lambda>now.
     let c = \<lparr>C_Subject = Pri_UserID p, C_Issuer = Issuer s, C_Audience = [Audience s], C_ID = jti,
              C_IssuedAt = Some (NewNumericDate jwt now), C_NotBefore = Some (NewNumericDate jwt now),
              C_ExpiresAt = Some (NewNumericDate jwt (now + ttl)), C_Role = Pri_Role p, C_Type = typ\<rparr>
     in (case SignedString jwt signingMethod c (Secret s) of
           Inl err \<Rightarrow> io_fail (Wrap err KindInternal ''auth: token signing failed'')
         | Inr signed \<Rightarrow> io_ret signed))"

text \<open>The library reads the clock while it validates; it has no other effect.\<close>

definition parse :: "jwt_lib \<Rightarrow> JWTConfig \<Rightarrow> 'w Clock \<Rightarrow> gostr \<Rightarrow> ('w, jwt_claims) io" where
  "parse jwt s clock token = io_bind (io_of clock) (\<lambda>now.
     case ParseWithClaims jwt (Secret s) \<lparr>WithValidMethods = [signingMethod], WithIssuer = Issuer s, WithAudience = Audience s,
            WithExpirationRequired = True, WithTime = now\<rparr> token of
       Inl err \<Rightarrow> io_fail (Wrap err KindUnauthorized ''auth: invalid token'')
     | Inr (c, valid) \<Rightarrow> if \<not> valid then io_fail (Unauthorized ''auth: invalid token'') else io_ret c)"

definition JWT_IssueAccess :: "jwt_lib \<Rightarrow> JWTConfig \<Rightarrow> (nat \<Rightarrow> ('w, int list) io) \<Rightarrow> 'w Clock \<Rightarrow> Principal \<Rightarrow> ('w, AccessToken) io" where
  "JWT_IssueAccess jwt s rand clock p =
     io_bind (newID rand) (\<lambda>jti.
     io_bind (sign jwt s clock p tokenTypeAccess jti (AccessTTL s)) (\<lambda>token.
     io_ret \<lparr>AT_Token = token, AT_ExpiresIn = AccessTTL s\<rparr>))"

definition JWT_IssueRefresh :: "jwt_lib \<Rightarrow> JWTConfig \<Rightarrow> (nat \<Rightarrow> ('w, int list) io) \<Rightarrow> 'w Clock \<Rightarrow> Principal \<Rightarrow> ('w, RefreshToken) io" where
  "JWT_IssueRefresh jwt s rand clock p =
     io_bind (newID rand) (\<lambda>jti.
     io_bind (sign jwt s clock p tokenTypeRefresh jti (RefreshTTL s)) (\<lambda>token.
     io_ret \<lparr>RT_Token = token, RT_ID = jti, RT_ExpiresIn = RefreshTTL s\<rparr>))"

definition JWT_VerifyAccess :: "jwt_lib \<Rightarrow> JWTConfig \<Rightarrow> 'w Clock \<Rightarrow> gostr \<Rightarrow> ('w, Principal) io" where
  "JWT_VerifyAccess jwt s clock token = io_bind (parse jwt s clock token) (\<lambda>c.
     if C_Type c \<noteq> tokenTypeAccess then io_fail (Unauthorized ''auth: not an access token'')
     else io_ret \<lparr>Pri_UserID = C_Subject c, Pri_Role = C_Role c\<rparr>)"

definition JWT_VerifyRefresh :: "jwt_lib \<Rightarrow> JWTConfig \<Rightarrow> 'w Clock \<Rightarrow> gostr \<Rightarrow> ('w, RefreshClaims) io" where
  "JWT_VerifyRefresh jwt s clock token = io_bind (parse jwt s clock token) (\<lambda>c.
     if C_Type c \<noteq> tokenTypeRefresh then io_fail (Unauthorized ''auth: not a refresh token'')
     else io_ret \<lparr>RC_Principal = \<lparr>Pri_UserID = C_Subject c, Pri_Role = C_Role c\<rparr>, RC_ID = C_ID c\<rparr>)"

definition JWTService :: "jwt_lib \<Rightarrow> JWTConfig \<Rightarrow> (nat \<Rightarrow> ('w, int list) io) \<Rightarrow> 'w Clock \<Rightarrow> 'w TokenService" where
  "JWTService jwt s rand clock =
     \<lparr>IssueAccess = JWT_IssueAccess jwt s rand clock, IssueRefresh = JWT_IssueRefresh jwt s rand clock,
      VerifyAccess = JWT_VerifyAccess jwt s clock, VerifyRefresh = JWT_VerifyRefresh jwt s clock\<rparr>"

lemma JWTService_sel [simp]:
  "IssueAccess (JWTService jwt s rand clock) = JWT_IssueAccess jwt s rand clock"
  "IssueRefresh (JWTService jwt s rand clock) = JWT_IssueRefresh jwt s rand clock"
  "VerifyAccess (JWTService jwt s rand clock) = JWT_VerifyAccess jwt s clock"
  "VerifyRefresh (JWTService jwt s rand clock) = JWT_VerifyRefresh jwt s clock"
  by (simp_all add: JWTService_def)

subsection \<open>What the library promises\<close>

text \<open>
  The validation of claims under options with an expected issuer and audience: \<open>exp\<close> present and in the
  future, \<open>nbf\<close> not in the future, the issuer equal, the audience named.
\<close>

definition claims_valid :: "parser_options \<Rightarrow> jwt_claims \<Rightarrow> bool" where
  "claims_valid opts c \<longleftrightarrow>
     (case C_ExpiresAt c of None \<Rightarrow> \<not> WithExpirationRequired opts | Some e \<Rightarrow> WithTime opts < e) \<and>
     (case C_NotBefore c of None \<Rightarrow> True | Some n \<Rightarrow> n \<le> WithTime opts) \<and>
     C_Issuer c = WithIssuer opts \<and> WithAudience opts \<in> set (C_Audience c)"

text \<open>
  Dates are rounded down to the second. What was signed parses to the claims signed, under the same key
  and a parser that allows the method, exactly when the claims are valid; and nothing parses to other claims
  than valid ones.
\<close>

definition jwt_documented :: "jwt_lib \<Rightarrow> bool" where
  "jwt_documented jwt \<longleftrightarrow> (\<forall>t. NewNumericDate jwt t = t - t mod second) \<and>
     (\<forall>alg c k token opts. SignedString jwt alg c k = Inr token \<longrightarrow> alg \<in> set (WithValidMethods opts) \<longrightarrow>
        (if claims_valid opts c then ParseWithClaims jwt k opts token = Inr (c, True)
         else \<exists>err. ParseWithClaims jwt k opts token = Inl err)) \<and>
     (\<forall>k opts token c ok. ParseWithClaims jwt k opts token = Inr (c, ok) \<longrightarrow> claims_valid opts c)"

subsection \<open>The configuration of a service\<close>

lemma NewJWTService_ok:
  assumes "NewJWTService cfg = Inr s"
  shows "32 \<le> byte_len (Secret s)" and "Issuer s \<noteq> []" and "Audience s \<noteq> []" and "0 < AccessTTL s" and "0 < RefreshTTL s"
  using assms by (auto simp: NewJWTService_def Let_def minSecretBytes_def lit_def DefaultAccessTTL_def DefaultRefreshTTL_def
      time_units split: if_splits)

lemma token_types_differ [simp]: "tokenTypeAccess \<noteq> tokenTypeRefresh" "tokenTypeRefresh \<noteq> tokenTypeAccess"
  by (simp_all add: tokenTypeAccess_def tokenTypeRefresh_def)

subsection \<open>What a token is good for\<close>

definition issued_claims :: "JWTConfig \<Rightarrow> Principal \<Rightarrow> gostr \<Rightarrow> gostr \<Rightarrow> duration \<Rightarrow> time \<Rightarrow> jwt_claims" where
  "issued_claims s p typ jti ttl t =
     \<lparr>C_Subject = Pri_UserID p, C_Issuer = Issuer s, C_Audience = [Audience s], C_ID = jti,
      C_IssuedAt = Some (t - t mod second), C_NotBefore = Some (t - t mod second),
      C_ExpiresAt = Some (t + ttl - (t + ttl) mod second), C_Role = Pri_Role p, C_Type = typ\<rparr>"

text \<open>The whole seconds in which a token issued at \<open>t\<close> is accepted.\<close>

definition alive :: "time \<Rightarrow> duration \<Rightarrow> time \<Rightarrow> bool" where
  "alive t ttl t' \<longleftrightarrow> t - t mod second \<le> t' \<and> t' < t + ttl - (t + ttl) mod second"

lemma sign_ok:
  assumes "jwt_documented jwt" and "sign jwt s clock p typ jti ttl w = (Inr token, w')"
  shows "\<exists>t. clock w = (t, w') \<and> SignedString jwt signingMethod (issued_claims s p typ jti ttl t) (Secret s) = Inr token"
  using assms by (auto simp: sign_def io_ok Let_def jwt_documented_def issued_claims_def split: sum.splits)

lemma parse_issued:
  assumes "jwt_documented jwt" and "SignedString jwt signingMethod (issued_claims s p typ jti ttl t) (Secret s) = Inr token"
    and "clock w = (t', w')"
  shows "if alive t ttl t' then parse jwt s clock token w = (Inr (issued_claims s p typ jti ttl t), w')
    else \<exists>err. parse jwt s clock token w = (Inl err, w') \<and> KindOf err = KindUnauthorized"
proof -
  let ?c = "issued_claims s p typ jti ttl t"
  let ?o = "\<lparr>WithValidMethods = [signingMethod], WithIssuer = Issuer s, WithAudience = Audience s,
    WithExpirationRequired = True, WithTime = t'\<rparr>"
  have v: "claims_valid ?o ?c \<longleftrightarrow> alive t ttl t'"
    by (auto simp: claims_valid_def issued_claims_def alive_def)
  have "if claims_valid ?o ?c then ParseWithClaims jwt (Secret s) ?o token = Inr (?c, True)
      else \<exists>err. ParseWithClaims jwt (Secret s) ?o token = Inl err"
    using assms(1,2) unfolding jwt_documented_def by (metis list.set_intros(1) parser_options.select_convs(1))
  then show ?thesis
    using assms(3) unfolding v by (auto simp: parse_def io_simps split: if_splits)
qed

lemma JWT_IssueAccess_ok:
  assumes "jwt_documented jwt" and "JWT_IssueAccess jwt s rand clock p w = (Inr tok, w')"
  shows "\<exists>t v jti. clock v = (t, w') \<and>
    SignedString jwt signingMethod (issued_claims s p tokenTypeAccess jti (AccessTTL s) t) (Secret s) = Inr (AT_Token tok)"
proof -
  from assms(2) obtain jti u where "sign jwt s clock p tokenTypeAccess jti (AccessTTL s) u = (Inr (AT_Token tok), w')"
    by (auto simp: JWT_IssueAccess_def io_ok)
  from sign_ok [OF assms(1) this] show ?thesis by blast
qed

lemma JWT_IssueRefresh_ok:
  assumes "jwt_documented jwt" and "JWT_IssueRefresh jwt s rand clock p w = (Inr rt, w')"
  shows "\<exists>t v. clock v = (t, w') \<and>
    SignedString jwt signingMethod (issued_claims s p tokenTypeRefresh (RT_ID rt) (RefreshTTL s) t) (Secret s) = Inr (RT_Token rt)"
proof -
  from assms(2) obtain u where "sign jwt s clock p tokenTypeRefresh (RT_ID rt) (RefreshTTL s) u = (Inr (RT_Token rt), w')"
    by (auto simp: JWT_IssueRefresh_def io_ok)
  from sign_ok [OF assms(1) this] show ?thesis by blast
qed

lemma verify_access_token:
  assumes "jwt_documented jwt" and "clock v = (t', v')"
    and "SignedString jwt signingMethod (issued_claims s p tokenTypeAccess jti ttl t) (Secret s) = Inr token"
  shows "if alive t ttl t' then JWT_VerifyAccess jwt s clock token v = (Inr p, v')
      else \<exists>err. JWT_VerifyAccess jwt s clock token v = (Inl err, v')"
    and "\<exists>err. JWT_VerifyRefresh jwt s clock token v = (Inl err, v') \<and> KindOf err = KindUnauthorized"
  using parse_issued [where clock = clock and w = v, OF assms(1,3,2)]
  by (auto simp: JWT_VerifyAccess_def JWT_VerifyRefresh_def io_simps issued_claims_def split: if_splits)

lemma verify_refresh_token:
  assumes "jwt_documented jwt" and "clock v = (t', v')"
    and "SignedString jwt signingMethod (issued_claims s p tokenTypeRefresh jti ttl t) (Secret s) = Inr token"
  shows "alive t ttl t' \<Longrightarrow> JWT_VerifyRefresh jwt s clock token v = (Inr \<lparr>RC_Principal = p, RC_ID = jti\<rparr>, v')"
    and "\<exists>err. JWT_VerifyAccess jwt s clock token v = (Inl err, v')"
  using parse_issued [where clock = clock and w = v, OF assms(1,3,2)]
  by (auto simp: JWT_VerifyAccess_def JWT_VerifyRefresh_def io_simps issued_claims_def split: if_splits)

definition bearer_refused :: Status where
  "bearer_refused = status_Error Unauthenticated (Literal ''auth: invalid or expired access token'')"

text \<open>
  C8: Access and refresh tokens do not stand in for each other, through the interceptor and the session
  service. A request that bears an issued access token reaches the handler, with the principal it was
  issued for, exactly in the whole seconds of its life, and otherwise is refused; a request that bears a
  refresh token is refused at any time without running the handler. A session cannot be refreshed with an
  access token, and logging out with one revokes nothing. A refresh token, while it lives, names its
  principal and its own grant.
\<close>

theorem token_kinds_separate:
  assumes "jwt_documented jwt" and "id_tokens sv = JWTService jwt s rand clock"
    and "JWT_IssueAccess jwt s rand clock p w = (Inr tok, w1)"
    and "JWT_IssueRefresh jwt s rand clock q w1 = (Inr rt, w2)" and "clock v = (t', v')"
  shows "\<exists>t1 t2. (\<exists>u. clock u = (t1, w1)) \<and> (\<exists>u. clock u = (t2, w2)) \<and>
    (bearerFromContext md = Some (AT_Token tok) \<longrightarrow> auth_interceptor (id_tokens sv) md handler v =
       (if alive t1 (AccessTTL s) t' then handler (Some p) v' else (Inl bearer_refused, v'))) \<and>
    (bearerFromContext md = Some (RT_Token rt) \<longrightarrow> auth_interceptor (id_tokens sv) md handler v = (Inl bearer_refused, v')) \<and>
    (\<exists>err. Refresh sv (AT_Token tok) v = (Inl err, v') \<and> KindOf err = KindUnauthorized) \<and>
    Logout sv (AT_Token tok) v = (Inr (), v') \<and>
    (alive t2 (RefreshTTL s) t' \<longrightarrow>
       VerifyRefresh (id_tokens sv) (RT_Token rt) v = (Inr \<lparr>RC_Principal = q, RC_ID = RT_ID rt\<rparr>, v'))"
proof -
  obtain t1 u1 jti where 1: "clock u1 = (t1, w1)"
    "SignedString jwt signingMethod (issued_claims s p tokenTypeAccess jti (AccessTTL s) t1) (Secret s) = Inr (AT_Token tok)"
    using JWT_IssueAccess_ok [OF assms(1,3)] by blast
  obtain t2 u2 where 2: "clock u2 = (t2, w2)"
    "SignedString jwt signingMethod (issued_claims s q tokenTypeRefresh (RT_ID rt) (RefreshTTL s) t2) (Secret s) = Inr (RT_Token rt)"
    using JWT_IssueRefresh_ok [OF assms(1,4)] by blast
  note a = verify_access_token [where clock = clock and v = v, OF assms(1,5) 1(2)]
    and r = verify_refresh_token [where clock = clock and v = v, OF assms(1,5) 2(2)]
  have "auth_interceptor (id_tokens sv) md handler v =
      (if alive t1 (AccessTTL s) t' then handler (Some p) v' else (Inl bearer_refused, v'))"
    if "bearerFromContext md = Some (AT_Token tok)"
    using a(1) that by (auto simp: auth_interceptor_def assms(2) bearer_refused_def)
  moreover have "auth_interceptor (id_tokens sv) md handler v = (Inl bearer_refused, v')"
    if "bearerFromContext md = Some (RT_Token rt)"
    using r(2) that by (auto simp: auth_interceptor_def assms(2) bearer_refused_def)
  moreover have "\<exists>err. Refresh sv (AT_Token tok) v = (Inl err, v') \<and> KindOf err = KindUnauthorized"
    and "Logout sv (AT_Token tok) v = (Inr (), v')"
    using a(2) by (auto simp: Refresh_def Logout_def assms(2) io_simps)
  ultimately show ?thesis using 1(1) 2(1) r(1) by (auto simp: assms(2))
qed

subsection \<open>A run\<close>

text \<open>A library without cryptography: the fields one after the other, each with its length.\<close>

definition sample_encode :: "gostr list \<Rightarrow> gostr" where
  "sample_encode fs = concat (map (\<lambda>f. int (length f) # f) fs)"

fun sample_decode :: "gostr \<Rightarrow> gostr list" where
  "sample_decode [] = []"
| "sample_decode (n # s) = take (nat n) s # sample_decode (drop (nat n) s)"

lemma sample_decode_encode [simp]: "sample_decode (sample_encode fs) = fs"
  by (induction fs) (simp_all add: sample_encode_def)

definition sample_jwt :: jwt_lib where
  "sample_jwt =
     \<lparr>NewNumericDate = (\<lambda>t. t - t mod second),
      SignedString = (\<lambda>alg c k. case (C_Audience c, C_IssuedAt c, C_NotBefore c, C_ExpiresAt c) of
         ([aud], Some iat, Some nbf, Some ex) \<Rightarrow>
           Inr (sample_encode [alg, k, C_Subject c, C_Issuer c, aud, C_ID c, [iat], [nbf], [ex], C_Role c, C_Type c])
       | _ \<Rightarrow> Inl (PlainErr ''unsupported'' [] [])),
      ParseWithClaims = (\<lambda>k opts token. let f = sample_decode token in
         if map length (drop 6 f) = [1, 1, 1, length (f ! 9), length (f ! 10)] then
           let c = \<lparr>C_Subject = f ! 2, C_Issuer = f ! 3, C_Audience = [f ! 4], C_ID = f ! 5, C_IssuedAt = Some (hd (f ! 6)),
                    C_NotBefore = Some (hd (f ! 7)), C_ExpiresAt = Some (hd (f ! 8)), C_Role = f ! 9, C_Type = f ! 10\<rparr>
           in if f ! 1 = k \<and> f ! 0 \<in> set (WithValidMethods opts) \<and> claims_valid opts c then Inr (c, True)
              else Inl (PlainErr ''invalid'' [] [])
         else Inl (PlainErr ''malformed'' [] []))\<rparr>"

lemma sample_jwt_documented: "jwt_documented sample_jwt"
proof -
  have "NewNumericDate sample_jwt t = t - t mod second" for t by (simp add: sample_jwt_def)
  moreover have "if claims_valid opts c then ParseWithClaims sample_jwt k opts token = Inr (c, True)
      else \<exists>err. ParseWithClaims sample_jwt k opts token = Inl err"
    if "SignedString sample_jwt alg c k = Inr token" "alg \<in> set (WithValidMethods opts)" for alg c k token opts
    using that by (cases c) (auto simp: sample_jwt_def Let_def split: list.splits option.splits)
  moreover have "claims_valid opts c" if "ParseWithClaims sample_jwt k opts token = Inr (c, ok)" for k opts token c ok
    using that by (auto simp: sample_jwt_def Let_def split: if_splits)
  ultimately show ?thesis unfolding jwt_documented_def by blast
qed

definition sample_config :: JWTConfig where
  "sample_config = \<lparr>Secret = replicate 32 115, Issuer = [], Audience = [], AccessTTL = 0, RefreshTTL = 0\<rparr>"

definition sample_rand :: "nat \<Rightarrow> (World, int list) io" where
  "sample_rand n = io_ret (replicate n 171)"

definition sample_jwt_service :: "World TokenService" where
  "sample_jwt_service = JWTService sample_jwt (projr (NewJWTService sample_config)) sample_rand World_now"

definition sample_sessions :: "World IdentityService" where
  "sample_sessions = memory_identity sample_hasher sample_jwt_service"

definition sample_principal :: Principal where
  "sample_principal = \<lparr>Pri_UserID = lit ''u'', Pri_Role = lit ''employer''\<rparr>"

lemma token_kinds_separate_witness:
  "\<exists>tok w1 err v'. IssueAccess sample_jwt_service sample_principal sample_world = (Inr tok, w1) \<and>
     Refresh sample_sessions (AT_Token tok) w1 = (Inl err, v') \<and> KindOf err = KindUnauthorized \<and>
     Logout sample_sessions (AT_Token tok) w1 = (Inr (), v')"
proof -
  let ?s = "projr (NewJWTService sample_config)"
  have "\<not> isl (fst (JWT_IssueAccess sample_jwt ?s sample_rand World_now sample_principal sample_world))" by code_simp
  then obtain tok w1 where a: "JWT_IssueAccess sample_jwt ?s sample_rand World_now sample_principal sample_world = (Inr tok, w1)"
    by (metis isl_def prod.collapse sum.collapse(2))
  have "\<not> isl (fst (JWT_IssueRefresh sample_jwt ?s sample_rand World_now sample_principal
      (snd (JWT_IssueAccess sample_jwt ?s sample_rand World_now sample_principal sample_world))))" by code_simp
  then obtain rt w2 where r: "JWT_IssueRefresh sample_jwt ?s sample_rand World_now sample_principal w1 = (Inr rt, w2)"
    unfolding a by (metis isl_def prod.collapse snd_conv sum.collapse(2))
  obtain t' v' where n: "World_now w1 = (t', v')" by fastforce
  have "id_tokens sample_sessions = JWTService sample_jwt ?s sample_rand World_now"
    by (simp add: sample_sessions_def sample_jwt_service_def)
  from token_kinds_separate [OF sample_jwt_documented this a r n] a show ?thesis
    by (simp add: sample_jwt_service_def) blast
qed

end
