(* ===== verification/Argon2.thy ===== *)
theory Argon2
  imports Go_Base64 Go_Fmt Privacy Access Net_IP
begin

section \<open>Password hashes\<close>

text \<open>
  \<open>adapters/outbound/auth/argon2.go\<close>: the password hasher of the process, with its hashes in PHC text. The key
  derivation \<open>argon2.IDKey\<close> and the random source are parameters; \<open>fmt.Sscanf\<close> is modelled for the two
  formats used, base64 is \<open>Go_Base64\<close>. The lemmas show that a hash verifies its password and no other, which
  parameters can reach the derivation, and, with the session service and the erasure, what a login to an erased
  account reveals.
\<close>

subsection \<open>Scanning numbers\<close>

text \<open>\<open>SkipSpace\<close> of \<open>Sscanf\<close>: a line break is an error.\<close>

fun skip_space :: "gostr \<Rightarrow> gostr option" where
  "skip_space [] = Some []"
| "skip_space (c # cs) = (if c = 10 then None else if c = 13 \<and> take 1 cs = [10] then None
     else if unicode_IsSpace c then skip_space cs else Some (c # cs))"

definition scan_digits :: "gostr \<Rightarrow> (int \<times> gostr) option" where
  "scan_digits s = (let ds = takeWhile is_digit s in if ds = [] then None else Some (decimal ds, dropWhile is_digit s))"

text \<open>\<open>%d\<close> into an unsigned integer of the given bits, and into an \<open>int\<close>.\<close>

definition scan_uint :: "nat \<Rightarrow> gostr \<Rightarrow> (int \<times> gostr) option" where
  "scan_uint n s = (case skip_space s of None \<Rightarrow> None
     | Some s \<Rightarrow> (case scan_digits s of None \<Rightarrow> None
         | Some (x, rest) \<Rightarrow> if x < 2 ^ n then Some (x, rest) else None))"

definition scan_int :: "gostr \<Rightarrow> (int \<times> gostr) option" where
  "scan_int s = (case skip_space s of None \<Rightarrow> None
     | Some s \<Rightarrow> let neg = (take 1 s = [45]); s = (if take 1 s = [43] \<or> take 1 s = [45] then tl s else s)
         in (case scan_digits s of None \<Rightarrow> None
             | Some (x, rest) \<Rightarrow> let x = (if neg then - x else x) in if int64 x then Some (x, rest) else None))"

definition scan_lit :: "gostr \<Rightarrow> gostr \<Rightarrow> gostr option" where
  "scan_lit l s = (if take (length l) s = l then Some (drop (length l) s) else None)"

subsection \<open>The hasher\<close>

record Argon2Params =
  A2_Memory :: int
  Iterations :: int
  Parallelism :: int
  SaltLength :: int
  KeyLength :: int

definition argon2_Version :: int where "argon2_Version = 19"
definition maxArgon2Memory :: int where "maxArgon2Memory = 1048576"
definition maxArgon2Iterations :: int where "maxArgon2Iterations = 64"
definition maxArgon2Parallelism :: int where "maxArgon2Parallelism = 64"

definition DefaultArgon2Params :: Argon2Params where
  "DefaultArgon2Params = \<lparr>A2_Memory = 64 * 1024, Iterations = 3, Parallelism = 2, SaltLength = 16, KeyLength = 32\<rparr>"

definition validateArgon2Params :: "Argon2Params \<Rightarrow> unit res" where
  "validateArgon2Params p =
     (if Iterations p < 1 \<or> Parallelism p < 1 then Inl (Invalid ''auth: argon2 iterations and parallelism must be >= 1'')
      else if A2_Memory p < 8 * Parallelism p then Inl (Invalid ''auth: argon2 memory below the 8*parallelism minimum'')
      else if maxArgon2Memory < A2_Memory p \<or> maxArgon2Iterations < Iterations p \<or> maxArgon2Parallelism < Parallelism p
        then Inl (Invalid ''auth: argon2 parameters exceed safe bounds'')
      else Inr ())"

text \<open>The options override the parameters in turn; the hasher is its parameters.\<close>

definition NewArgon2idHasher :: "Argon2Params list \<Rightarrow> Argon2Params" where
  "NewArgon2idHasher opts = (let p = foldl (\<lambda>p q. q) DefaultArgon2Params opts
     in if validateArgon2Params p \<noteq> Inr () then DefaultArgon2Params else p)"

definition encodeHash :: "Argon2Params \<Rightarrow> bytes \<Rightarrow> bytes \<Rightarrow> gostr" where
  "encodeHash p salt key = lit ''$argon2id$v='' @ dec_int argon2_Version @ lit ''$m='' @ dec_int (A2_Memory p) @
     lit '',t='' @ dec_int (Iterations p) @ lit '',p='' @ dec_int (Parallelism p) @ [36] @ raw_text salt @ [36] @ raw_text key"

definition scan_version :: "gostr \<Rightarrow> int option" where
  "scan_version s = (case scan_lit (lit ''v='') s of None \<Rightarrow> None | Some s \<Rightarrow> map_option fst (scan_int s))"

definition scan_costs :: "gostr \<Rightarrow> (int \<times> int \<times> int) option" where
  "scan_costs s =
     (case scan_lit (lit ''m='') s of None \<Rightarrow> None | Some s \<Rightarrow>
      (case scan_uint 32 s of None \<Rightarrow> None | Some (m, s) \<Rightarrow>
      (case scan_lit (lit '',t='') s of None \<Rightarrow> None | Some s \<Rightarrow>
      (case scan_uint 32 s of None \<Rightarrow> None | Some (t, s) \<Rightarrow>
      (case scan_lit (lit '',p='') s of None \<Rightarrow> None | Some s \<Rightarrow>
       map_option (\<lambda>(p, s). (m, t, p)) (scan_uint 8 s))))))"

definition parseArgon2Params :: "gostr \<Rightarrow> gostr \<Rightarrow> Argon2Params res" where
  "parseArgon2Params versionPart paramPart =
     (case scan_version versionPart of
        None \<Rightarrow> Inl (Invalid ''auth: unreadable argon2 version'')
      | Some version \<Rightarrow>
          if version \<noteq> argon2_Version then Inl (Invalidf ''auth: unsupported argon2 version %d'' [AInt version])
          else (case scan_costs paramPart of
              None \<Rightarrow> Inl (Invalid ''auth: unreadable argon2 parameters'')
            | Some (m, t, p) \<Rightarrow>
                let p = \<lparr>A2_Memory = m, Iterations = t, Parallelism = p, SaltLength = 0, KeyLength = 0\<rparr>
                in (case validateArgon2Params p of Inl err \<Rightarrow> Inl err | Inr u \<Rightarrow> Inr p)))"

definition malformed_hash :: go_error where "malformed_hash = Invalid ''auth: malformed argon2 hash''"

definition decodeHash :: "gostr \<Rightarrow> (Argon2Params \<times> bytes \<times> bytes) res" where
  "decodeHash encoded = (case strings_Split 36 encoded of
     [p0, p1, p2, p3, p4, p5] \<Rightarrow>
       if p0 \<noteq> [] \<or> p1 \<noteq> lit ''argon2id'' then Inl malformed_hash
       else (case parseArgon2Params p2 p3 of Inl err \<Rightarrow> Inl err
         | Inr p \<Rightarrow> (case raw_bytes p4 of None \<Rightarrow> Inl (Invalid ''auth: unreadable argon2 salt'')
             | Some salt \<Rightarrow> (case raw_bytes p5 of None \<Rightarrow> Inl (Invalid ''auth: unreadable argon2 key'')
                 | Some key \<Rightarrow> if key = [] then Inl (Invalid ''auth: empty argon2 key'')
                     else Inr (p\<lparr>SaltLength := int (length salt) mod 2 ^ 32, KeyLength := int (length key) mod 2 ^ 32\<rparr>, salt, key))))
   | _ \<Rightarrow> Inl malformed_hash)"

text \<open>\<open>idkey plain salt t m p n\<close> is \<open>argon2.IDKey\<close>.\<close>

type_synonym idkey = "gostr \<Rightarrow> bytes \<Rightarrow> int \<Rightarrow> int \<Rightarrow> int \<Rightarrow> int \<Rightarrow> bytes"

definition Argon2_Hash :: "idkey \<Rightarrow> (nat \<Rightarrow> ('w, bytes) io) \<Rightarrow> Argon2Params \<Rightarrow> gostr \<Rightarrow> ('w, gostr) io" where
  "Argon2_Hash idkey rand_Read h plain =
     (if plain = [] then io_fail (Invalid ''auth: cannot hash an empty password'')
      else io_bind (io_try (rand_Read (nat (SaltLength h)))) (\<lambda>r. case r of
          Inl err \<Rightarrow> io_fail (Wrap err KindInternal ''auth: salt generation failed'')
        | Inr salt \<Rightarrow> io_ret (encodeHash h salt (idkey plain salt (Iterations h) (A2_Memory h) (Parallelism h) (KeyLength h)))))"

definition Argon2_Verify :: "idkey \<Rightarrow> gostr \<Rightarrow> gostr \<Rightarrow> bool res" where
  "Argon2_Verify idkey encodedHash plain = (case decodeHash encodedHash of Inl err \<Rightarrow> Inl err
     | Inr (p, salt, key) \<Rightarrow>
         Inr (key = idkey plain salt (Iterations p) (A2_Memory p) (Parallelism p) (int (length key) mod 2 ^ 32)))"

definition Argon2idHasher :: "idkey \<Rightarrow> (nat \<Rightarrow> ('w, bytes) io) \<Rightarrow> Argon2Params \<Rightarrow> 'w PasswordHasher" where
  "Argon2idHasher idkey rand_Read h = \<lparr>Hash = Argon2_Hash idkey rand_Read h, Verify = (\<lambda>e p. io_lift (Argon2_Verify idkey e p))\<rparr>"

subsection \<open>Reading back what was written\<close>

lemma decimal_snoc: "decimal (ds @ [d]) = 10 * decimal ds + (d - 48)"
  by (simp add: decimal_def)

lemma decimal_digits: "0 \<le> n \<Longrightarrow> decimal (dec_digits n) = n"
proof (induction n rule: dec_digits.induct)
  case (1 n)
  show ?case
  proof (cases "n < 10")
    case True
    then show ?thesis by (simp add: dec_digits.simps [of n] decimal_def)
  next
    case False
    then have "decimal (dec_digits (n div 10)) = n div 10" using 1 by simp
    then show ?thesis using False by (simp add: dec_digits.simps [of n] decimal_snoc)
  qed
qed

lemma dec_int_digits: "0 \<le> n \<Longrightarrow> (\<forall>d \<in> set (dec_int n). is_digit d) \<and> dec_int n \<noteq> [] \<and> decimal (dec_int n) = n"
proof -
  assume n: "0 \<le> n"
  have "dec_digits n \<noteq> []" by (subst dec_digits.simps) simp
  with n show ?thesis using dec_digits_set [of n] decimal_digits [of n] by (auto simp: dec_int_def is_digit_def)
qed

lemma digit_not_space: "is_digit c \<Longrightarrow> \<not> unicode_IsSpace c \<and> c \<noteq> 10 \<and> c \<noteq> 13"
  by (auto simp: is_digit_def unicode_IsSpace_def)

definition number_ends :: "gostr \<Rightarrow> bool" where "number_ends rest \<longleftrightarrow> rest = [] \<or> \<not> is_digit (hd rest)"

lemma scan_digits_int:
  assumes "0 \<le> n" and "number_ends rest"
  shows "scan_digits (dec_int n @ rest) = Some (n, rest)" and "skip_space (dec_int n @ rest) = Some (dec_int n @ rest)"
proof -
  note d = dec_int_digits [OF assms(1)]
  have "takeWhile is_digit (dec_int n @ rest) = dec_int n" "dropWhile is_digit (dec_int n @ rest) = rest"
    using d assms(2) by (cases rest; simp add: number_ends_def)+
  then show "scan_digits (dec_int n @ rest) = Some (n, rest)" using d by (simp add: scan_digits_def)
  obtain c cs where "dec_int n = c # cs" using d by (cases "dec_int n") auto
  then show "skip_space (dec_int n @ rest) = Some (dec_int n @ rest)" using d digit_not_space [of c] by simp
qed

lemma scan_uint_int: "0 \<le> n \<Longrightarrow> n < 2 ^ k \<Longrightarrow> number_ends rest \<Longrightarrow> scan_uint k (dec_int n @ rest) = Some (n, rest)"
  by (simp add: scan_uint_def scan_digits_int)

lemma scan_lit_append: "scan_lit l (l @ s) = Some s"
  by (simp add: scan_lit_def)

lemma Split_none: "sep \<notin> set s \<Longrightarrow> strings_Split sep s = [s]"
  by (induction s) auto

lemma Split_append: "sep \<notin> set s \<Longrightarrow> strings_Split sep (s @ sep # t) = s # strings_Split sep t"
  by (induction s) auto

lemma dec_int_no_sep: "0 \<le> n \<Longrightarrow> 36 \<notin> set (dec_int n)"
  using dec_int_digits [of n] by (auto simp: is_digit_def)

definition costs_text :: "Argon2Params \<Rightarrow> gostr" where
  "costs_text p = lit ''m='' @ dec_int (A2_Memory p) @ lit '',t='' @ dec_int (Iterations p) @ lit '',p='' @ dec_int (Parallelism p)"

lemma validate_ok:
  "validateArgon2Params p = Inr u \<longleftrightarrow> 1 \<le> Iterations p \<and> Iterations p \<le> 64 \<and> 1 \<le> Parallelism p \<and> Parallelism p \<le> 64 \<and>
     8 * Parallelism p \<le> A2_Memory p \<and> A2_Memory p \<le> 1048576"
  by (auto simp: validateArgon2Params_def maxArgon2Memory_def maxArgon2Iterations_def maxArgon2Parallelism_def)

lemma scan_costs_text:
  assumes "validateArgon2Params p = Inr u"
  shows "scan_costs (costs_text p) = Some (A2_Memory p, Iterations p, Parallelism p)"
proof -
  note v = assms [unfolded validate_ok]
  have e: "number_ends (lit '',t='' @ s)" "number_ends (lit '',p='' @ s)" "number_ends []" for s
    by (simp_all add: number_ends_def is_digit_def)
  have m: "scan_uint 32 (dec_int (A2_Memory p) @ lit '',t='' @ s) = Some (A2_Memory p, lit '',t='' @ s)" for s
    by (rule scan_uint_int [OF _ _ e(1)]) (use v in auto)
  have t: "scan_uint 32 (dec_int (Iterations p) @ lit '',p='' @ s) = Some (Iterations p, lit '',p='' @ s)" for s
    by (rule scan_uint_int [OF _ _ e(2)]) (use v in auto)
  have l: "scan_uint 8 (dec_int (Parallelism p)) = Some (Parallelism p, [])"
    using scan_uint_int [OF _ _ e(3), of "Parallelism p" 8] v by simp
  show ?thesis by (simp add: scan_costs_def costs_text_def scan_lit_append m t l del: lit_simps)
qed

lemma encodeHash_parts:
  assumes "validateArgon2Params p = Inr u"
  shows "strings_Split 36 (encodeHash p salt key) =
    [[], lit ''argon2id'', lit ''v='' @ dec_int argon2_Version, costs_text p, raw_text salt, raw_text key]"
proof -
  note v = assms [unfolded validate_ok]
  have n: "36 \<notin> set (lit ''argon2id'')" "36 \<notin> set (lit ''v='' @ dec_int argon2_Version)" "36 \<notin> set (raw_text b)" for b
    using raw_text_chars [of 36 b] dec_int_no_sep [of argon2_Version] by (auto simp: argon2_Version_def)
  have c: "36 \<notin> set (costs_text p)"
    using dec_int_no_sep [of "A2_Memory p"] dec_int_no_sep [of "Iterations p"] dec_int_no_sep [of "Parallelism p"] v
    by (auto simp: costs_text_def)
  have e: "encodeHash p salt key = [] @ 36 # lit ''argon2id'' @ 36 # (lit ''v='' @ dec_int argon2_Version) @ 36 # costs_text p @
      36 # raw_text salt @ 36 # raw_text key"
    by (simp add: encodeHash_def costs_text_def)
  show ?thesis
    unfolding e by (simp only: Split_append [of 36 "[]"] list.set empty_iff not_False_eq_True Split_append [OF n(1)]
        Split_append [OF n(2)] Split_append [OF c] Split_append [OF n(3)] Split_none [OF n(3)])
qed

lemma parse_encoded:
  assumes "validateArgon2Params p = Inr u"
  shows "parseArgon2Params (lit ''v='' @ dec_int argon2_Version) (costs_text p) =
    Inr (p\<lparr>SaltLength := 0, KeyLength := 0\<rparr>)"
proof -
  have "scan_version (lit ''v='' @ dec_int argon2_Version) = Some argon2_Version"
    by (simp add: scan_version_def argon2_Version_def dec_int_def dec_digits.simps scan_lit_def scan_int_def scan_digits_def
        is_digit_def decimal_def unicode_IsSpace_def int64_def)
  moreover have "validateArgon2Params (p\<lparr>SaltLength := 0, KeyLength := 0\<rparr>) = Inr ()"
    using assms unfolding validate_ok by simp
  moreover have "p\<lparr>SaltLength := 0, KeyLength := 0\<rparr> =
      \<lparr>A2_Memory = A2_Memory p, Iterations = Iterations p, Parallelism = Parallelism p, SaltLength = 0, KeyLength = 0\<rparr>"
    by (cases p) simp
  ultimately show ?thesis by (simp add: parseArgon2Params_def scan_costs_text [OF assms] del: lit_simps)
qed

lemma decode_encoded:
  assumes "validateArgon2Params p = Inr u" and "key \<noteq> []"
  shows "decodeHash (encodeHash p salt key) =
    Inr (p\<lparr>SaltLength := int (length salt) mod 2 ^ 32, KeyLength := int (length key) mod 2 ^ 32\<rparr>, salt, key)"
  by (simp add: decodeHash_def encodeHash_parts [OF assms(1)] parse_encoded [OF assms(1)] raw_text_roundtrip assms(2) del: lit_simps)

lemma NewArgon2idHasher_valid: "\<exists>u. validateArgon2Params (NewArgon2idHasher opts) = Inr u"
  by (auto simp: NewArgon2idHasher_def Let_def validate_ok DefaultArgon2Params_def)

text \<open>
  C36: A hash verifies its own password and tells any other one by the derived key. For any hasher the constructor
  builds and any salt that was drawn, the text that \<open>Hash\<close> returns decodes to the parameters, salt and key it
  was made with, so that verifying a password against it never fails and holds exactly when the password
  derives the same key.
\<close>

theorem hash_verifies:
  assumes "h = NewArgon2idHasher opts" and "1 \<le> KeyLength h" and "KeyLength h < 2 ^ 32"
    and "\<forall>plain salt t m p n. length (idkey plain salt t m p n) = nat n"
    and "Argon2_Hash idkey rand_Read h plain w = (Inr enc, w')"
  shows "\<exists>salt. rand_Read (nat (SaltLength h)) w = (Inr salt, w') \<and> Argon2_Verify idkey enc plain = Inr True \<and>
    (\<forall>other. Argon2_Verify idkey enc other =
       Inr (idkey plain salt (Iterations h) (A2_Memory h) (Parallelism h) (KeyLength h) =
            idkey other salt (Iterations h) (A2_Memory h) (Parallelism h) (KeyLength h)))"
proof -
  obtain u where v: "validateArgon2Params h = Inr u" using NewArgon2idHasher_valid assms(1) by blast
  from assms(5) obtain salt where salt: "rand_Read (nat (SaltLength h)) w = (Inr salt, w')"
    and enc: "enc = encodeHash h salt (idkey plain salt (Iterations h) (A2_Memory h) (Parallelism h) (KeyLength h))"
    by (auto simp: Argon2_Hash_def io_ok split: if_splits)
  let ?key = "idkey plain salt (Iterations h) (A2_Memory h) (Parallelism h) (KeyLength h)"
  have len: "int (length ?key) = KeyLength h" using assms(2,4) by simp
  then have "?key \<noteq> []" using assms(2) by auto
  then have "decodeHash enc = Inr (h\<lparr>SaltLength := int (length salt) mod 2 ^ 32, KeyLength := KeyLength h\<rparr>, salt, ?key)"
    using decode_encoded [OF v, of ?key salt] enc len assms(2,3) by simp
  then have "Argon2_Verify idkey enc other = Inr (?key = idkey other salt (Iterations h) (A2_Memory h) (Parallelism h) (KeyLength h))"
    for other using len assms(2,3) by (simp add: Argon2_Verify_def)
  then show ?thesis using salt by (intro exI [of _ salt]) simp
qed

text \<open>Whatever is stored, only bounded parameters reach the derivation; the length of the key is not bounded.\<close>

lemma decode_bounded:
  "decodeHash enc = Inr (p, salt, key) \<Longrightarrow> 1 \<le> Iterations p \<and> Iterations p \<le> 64 \<and> 1 \<le> Parallelism p \<and> Parallelism p \<le> 64 \<and>
     8 * Parallelism p \<le> A2_Memory p \<and> A2_Memory p \<le> 1048576 \<and> key \<noteq> []"
  by (auto simp: decodeHash_def parseArgon2Params_def Let_def validate_ok split: list.splits if_splits sum.splits option.splits)

lemma key_unbounded:
  assumes "key \<noteq> []"
  shows "\<exists>p. decodeHash (encodeHash DefaultArgon2Params salt key) = Inr (p, salt, key)"
proof -
  have "validateArgon2Params DefaultArgon2Params = Inr ()" by (simp add: validate_ok DefaultArgon2Params_def)
  from decode_encoded [OF this assms] show ?thesis by blast
qed

subsection \<open>Logins with this hasher\<close>

lemma Verify_empty: "Argon2_Verify idkey [] plain = Inl malformed_hash"
  by (simp add: Argon2_Verify_def decodeHash_def)

text \<open>What the login is proved of asks of a hasher: this one answers as it asks, errors included.\<close>

lemma argon2_outside:
  assumes "\<forall>n. external (rand_Read n)"
  shows "outside_hasher (Argon2_Verify idkey) (Argon2idHasher idkey rand_Read h)"
proof -
  have "external (Argon2_Hash idkey rand_Read h p)" for p
    using externalD [OF assms [rule_format]]
    by (intro externalI) (auto simp: Argon2_Hash_def io_simps split: if_splits prod.splits sum.splits)
  then show ?thesis by (auto simp: outside_hasher_def Argon2idHasher_def io_simps intro!: externalI)
qed

abbreviation "argon2_identity idkey rand h tk \<equiv> memory_identity (Argon2idHasher idkey rand h) tk"

lemma login_known:
  assumes "users_inv (w_users w)" and "map_of (ur_byID (w_users w)) i = Some u" and "NewEmail raw = Inr (User_Email u)"
    and "byte_len password \<le> 128" and "\<forall>e. LoginThrottle_Check (fst (World_now w)) e (w_throttle w) = Inr ()"
    and "Argon2_Verify idkey (User_PasswordHash u) password = Inl err" and "KindOf err \<noteq> KindUnauthorized"
  shows "\<exists>v. Login (argon2_identity idkey rand h tk) raw password w = (Inl err, v) \<and> stores v = stores w"
proof -
  obtain t v where n: "World_now w = (t, v)" by fastforce
  have st: "stores v = stores w" by (rule stores_now [OF n])
  have idx: "map_of (ur_byEmail (w_users v)) (User_Email u) = Some i" "map_of (ur_byID (w_users v)) i = Some u"
    using users_invD(2) [OF assms(1,2)] assms(2) st by (simp_all add: stores_eq_iff)
  have m: "\<not> MaxAllowedLength DefaultPasswordPolicy < byte_len password"
    using assms(4) by (simp add: MaxAllowedLength_def DefaultPasswordPolicy_def DefaultPasswordMaxLength_def)
  have "throttleCheck (argon2_identity idkey rand h tk) (User_Email u) w = (Inr (), v)"
    using assms(5) n st by (simp add: throttleCheck_def io_simps stores_eq_iff)
  moreover have "verifyCredentials (argon2_identity idkey rand h tk) (User_Email u) password v = (Inl err, v)"
    using idx assms(6) by (simp add: verifyCredentials_def io_simps UserRepo_ByEmail_def Argon2idHasher_def)
  ultimately have "Login (argon2_identity idkey rand h tk) raw password w = (Inl err, v)"
    using assms(3,7) m by (simp add: Login_def io_apply(2,4,5) io_bind_def io_try_def io_fail_def io_ret_def)
  with st show ?thesis by blast
qed

lemma login_unknown:
  assumes "users_inv (w_users w)" and "NewEmail raw = Inr e" and "\<nexists>i u. map_of (ur_byID (w_users w)) i = Some u \<and> User_Email u = e"
    and "\<forall>e. LoginThrottle_Check (fst (World_now w)) e (w_throttle w) = Inr ()"
  shows "fst (Login (memory_identity h tk) raw password w) = Inl invalidCredentials"
proof -
  obtain t v where n: "World_now w = (t, v)" by fastforce
  have st: "stores v = stores w" by (rule stores_now [OF n])
  have b: "at_users (UserRepo_ByEmail e) v = (Inl (NotFound ''memory: user not found''), v)"
    by (rule memory_ByEmail_missing) (use assms(1,3) st in \<open>simp_all add: stores_eq_iff\<close>)
  have c: "throttleCheck (memory_identity h tk) e w = (Inr (), v)"
    using assms(4) n st by (simp add: throttleCheck_def io_simps stores_eq_iff)
  obtain r v1 where hs: "Hash h password v = (r, v1)" by fastforce
  have "verifyCredentials (memory_identity h tk) e password v = (Inl invalidCredentials, v1)"
    using b hs by (simp add: verifyCredentials_def io_bind_def io_try_def io_fail_def NotFound_def)
  moreover have "KindOf invalidCredentials = KindUnauthorized" by (simp add: invalidCredentials_def)
  moreover have "\<exists>v2. throttleFail (memory_identity h tk) e v1 = (Inr (), v2)"
    by (auto simp: throttleFail_def io_simps split: prod.splits)
  ultimately show ?thesis
    using assms(2) c by (auto simp: Login_def io_bind_def io_try_def io_fail_def)
qed

text \<open>
  C37: A login tells erased accounts from unknown addresses. The erasure replaces the credential by the empty
  text, which the hasher does not read as a hash: a login at the tombstone address of an erased account fails
  as a bad argument, with the hasher's own message, and is not counted by the throttle, while an address no
  account has gets the uniform refusal.
\<close>

theorem erased_login_differs:
  assumes "world_inv w" and "\<not> ID_IsZero c" and "EraseCandidate BuildEraser c w = (Inr (), w')"
    and "\<forall>i u. map_of (ur_byID (w_users w)) i = Some u \<and> User_Email u = erased_email c \<longrightarrow> i = c"
    and "map_of (ur_byID (w_users w)) c = Some u" and "NewEmail raw = Inr (erased_email c)" and "byte_len password \<le> 128"
    and "\<forall>e. LoginThrottle_Check (fst (World_now w')) e (w_throttle w') = Inr ()"
  shows "(\<exists>v. Login (argon2_identity idkey rand h tk) raw password w' = (Inl malformed_hash, v) \<and> w_throttle v = w_throttle w') \<and>
    (\<forall>raw' e. NewEmail raw' = Inr e \<and> (\<nexists>i x. map_of (ur_byID (w_users w')) i = Some x \<and> User_Email x = e) \<longrightarrow>
      fst (Login (argon2_identity idkey rand h tk) raw' password w') = Inl invalidCredentials) \<and>
    St_Code (errToStatus malformed_hash) = InvalidArgument \<and> St_Code (errToStatus invalidCredentials) = Unauthenticated"
proof -
  have w': "w_users w' = snd (UserRepo_Anonymize c (w_users w))"
    using assms(2,3) by (auto simp: erase_world simp del: lit_simps)
  have inv: "users_inv (w_users w')" and acc: "map_of (ur_byID (w_users w')) c = Some (anonymized c u)"
    using Anonymize_world [OF _ assms(4)] assms(1,5) by (simp_all add: w' world_inv_def)
  have "\<exists>v. Login (argon2_identity idkey rand h tk) raw password w' = (Inl malformed_hash, v) \<and> stores v = stores w'"
    by (rule login_known [OF inv acc])
      (use assms(6,7,8) in \<open>simp_all add: anonymized_def Verify_empty malformed_hash_def\<close>)
  then show ?thesis
    using login_unknown [OF inv _ _ assms(8)]
    by (auto simp: stores_eq_iff errToStatus_def malformed_hash_def invalidCredentials_def status_Error_def)
qed

subsection \<open>A run\<close>

text \<open>A derivation for the witnesses: the password itself, cut or filled to the length of the key.\<close>

definition sample_idkey :: idkey where
  "sample_idkey plain salt t m p n = take (nat n) (map word_of_int plain @ replicate (nat n) 0)"

lemma sample_idkey_length: "length (sample_idkey plain salt t m p n) = nat n"
  by (simp add: sample_idkey_def)

definition sample_salt :: "nat \<Rightarrow> ('w, bytes) io" where "sample_salt n = io_ret (replicate n 7)"

lemma hash_verifies_witness:
  "\<exists>enc. Argon2_Hash sample_idkey sample_salt (NewArgon2idHasher []) (lit ''swordfish'') () = (Inr enc, ()) \<and>
     Argon2_Verify sample_idkey enc (lit ''swordfish'') = Inr True \<and> Argon2_Verify sample_idkey enc (lit ''mackerel'') = Inr False"
proof -
  let ?h = "NewArgon2idHasher []"
  have h: "?h = DefaultArgon2Params" by (simp add: NewArgon2idHasher_def Let_def)
  obtain enc where enc: "Argon2_Hash sample_idkey sample_salt ?h (lit ''swordfish'') () = (Inr enc, ())"
    by (simp add: Argon2_Hash_def sample_salt_def io_simps)
  have "sample_idkey (lit ''swordfish'') s t m p (KeyLength ?h) \<noteq> sample_idkey (lit ''mackerel'') s t m p (KeyLength ?h)" for s t m p
    by (simp add: h DefaultArgon2Params_def sample_idkey_def)
  moreover have "1 \<le> KeyLength ?h" "KeyLength ?h < 2 ^ 32" by (simp_all add: h DefaultArgon2Params_def)
  ultimately show ?thesis
    using hash_verifies [OF refl _ _ _ enc] enc sample_idkey_length by (auto simp del: lit_simps)
qed

definition sample_account :: User where
  "sample_account = \<lparr>User_ID = [97], User_Email = lit ''ada@example.com'', User_Role = RoleCandidate, User_Name = lit ''Ada'',
     User_PasswordHash = [104], User_Status = StatusActive, User_CreatedAt = 5\<rparr>"

definition sample_erasable :: World where
  "sample_erasable = (memory_world (\<lambda>n. 1000 + int n) (\<lambda>n. [98 + int n]))
     \<lparr>w_users := \<lparr>ur_byID = [([97], sample_account)], ur_byEmail = [(lit ''ada@example.com'', [97])]\<rparr>\<rparr>"

lemma erased_login_differs_witness:
  "\<exists>w' v. EraseCandidate BuildEraser [97] sample_erasable = (Inr (), w') \<and>
     Login (argon2_identity sample_idkey sample_salt DefaultArgon2Params sample_tokens) (lit ''erased+a@erased.invalid'') (lit ''x'') w' =
       (Inl malformed_hash, v) \<and> w_throttle v = w_throttle w'"
proof -
  let ?w' = "snd (EraseCandidate BuildEraser [97] sample_erasable)"
  have z: "\<not> ID_IsZero [97]" by code_simp
  have run: "EraseCandidate BuildEraser [97] sample_erasable = (Inr (), ?w')"
    using z by (simp add: erase_world del: lit_simps)
  have inv: "world_inv sample_erasable"
    by (simp add: world_inv_def sample_erasable_def memory_world_def users_inv_def sample_account_def keyed_by_def ks_inv_def
        ks_agree_def newKeyedStore_def applications_inv_def contests_inv_def)
  have one: "\<forall>i u. map_of (ur_byID (w_users sample_erasable)) i = Some u \<and> User_Email u = erased_email [97] \<longrightarrow> i = [97]"
    by (simp add: sample_erasable_def)
  have acc: "map_of (ur_byID (w_users sample_erasable)) [97] = Some sample_account" by (simp add: sample_erasable_def)
  have em: "NewEmail (lit ''erased+a@erased.invalid'') = Inr (erased_email [97])" by code_simp
  have pw: "byte_len (lit ''x'') \<le> 128" by code_simp
  have "w_throttle ?w' = NewLoginThrottle 0 0 0"
    using z by (simp add: erase_world sample_erasable_def memory_world_def del: lit_simps)
  then have th: "\<forall>e. LoginThrottle_Check (fst (World_now ?w')) e (w_throttle ?w') = Inr ()"
    by (simp add: LoginThrottle_Check_def NewLoginThrottle_def)
  from erased_login_differs [OF inv z run one acc em pw th] run show ?thesis by blast
qed

end
