(* ===== verification/Go_UTF8.thy ===== *)
theory Go_UTF8
  imports Go_Prelude
begin

section \<open>UTF-8\<close>

text \<open>
  The bytes of a string and the runes of a byte sequence, as \<open>[]byte(s)\<close> and \<open>unicode/utf8\<close> have them: a byte
  that begins no complete encoding is read as U+FFFD. Bytes are integers below 256.
\<close>

definition utf8_encode_rune :: "rune \<Rightarrow> int list" where
  "utf8_encode_rune r =
     (if r < 128 then [r]
      else if r < 2048 then [192 + r div 64, 128 + r mod 64]
      else if r < 65536 then [224 + r div 4096, 128 + r div 64 mod 64, 128 + r mod 64]
      else [240 + r div 262144, 128 + r div 4096 mod 64, 128 + r div 64 mod 64, 128 + r mod 64])"

definition utf8_encode :: "gostr \<Rightarrow> int list" where "utf8_encode s = concat (map utf8_encode_rune s)"

definition continues :: "int \<Rightarrow> bool" where "continues b \<longleftrightarrow> 128 \<le> b \<and> b < 192"

text \<open>The rune at the head of a byte sequence and its width, if the encoding is complete and the shortest.\<close>

definition utf8_head :: "int list \<Rightarrow> (rune \<times> nat) option" where
  "utf8_head bs = (case bs of
     [] \<Rightarrow> None
   | a # t \<Rightarrow>
      if a < 128 then Some (a, 1)
      else if 194 \<le> a \<and> a < 224 then
        (case t of b # _ \<Rightarrow> if continues b then Some ((a - 192) * 64 + (b - 128), 2) else None | _ \<Rightarrow> None)
      else if 224 \<le> a \<and> a < 240 then
        (case t of b # c # _ \<Rightarrow>
           let r = (a - 224) * 4096 + (b - 128) * 64 + (c - 128)
           in if continues b \<and> continues c \<and> 2048 \<le> r \<and> (r < 55296 \<or> 57343 < r) then Some (r, 3) else None
         | _ \<Rightarrow> None)
      else if 240 \<le> a \<and> a < 245 then
        (case t of b # c # d # _ \<Rightarrow>
           let r = (a - 240) * 262144 + (b - 128) * 4096 + (c - 128) * 64 + (d - 128)
           in if continues b \<and> continues c \<and> continues d \<and> 65536 \<le> r \<and> r < 1114112 then Some (r, 4) else None
         | _ \<Rightarrow> None)
      else None)"

function utf8_decode :: "int list \<Rightarrow> gostr" where
  "utf8_decode bs = (if bs = [] then []
     else case utf8_head bs of
       Some (r, n) \<Rightarrow> r # utf8_decode (drop (max 1 n) bs)
     | None \<Rightarrow> 65533 # utf8_decode (tl bs))"
  by pat_completeness auto
termination
  by (relation "measure length") auto

declare utf8_decode.simps [simp del]

definition scalar_value :: "rune \<Rightarrow> bool" where
  "scalar_value r \<longleftrightarrow> 0 \<le> r \<and> r < 1114112 \<and> (r < 55296 \<or> 57343 < r)"

lemma utf8_head_wide:
  "0 \<le> b \<Longrightarrow> b < 64 \<Longrightarrow> 2 \<le> a \<Longrightarrow> a < 32 \<Longrightarrow>
    utf8_head ((192 + a) # (128 + b) # bs) = Some (64 * a + b, 2)"
  "0 \<le> a \<Longrightarrow> a < 16 \<Longrightarrow> 0 \<le> b \<Longrightarrow> b < 64 \<Longrightarrow> 0 \<le> c \<Longrightarrow> c < 64 \<Longrightarrow> 4096 * a + 64 * b + c = r \<Longrightarrow> 2048 \<le> r \<Longrightarrow>
    r < 55296 \<or> 57343 < r \<Longrightarrow> utf8_head ((224 + a) # (128 + b) # (128 + c) # bs) = Some (r, 3)"
  "0 \<le> a \<Longrightarrow> a < 5 \<Longrightarrow> 0 \<le> b \<Longrightarrow> b < 64 \<Longrightarrow> 0 \<le> c \<Longrightarrow> c < 64 \<Longrightarrow> 0 \<le> d \<Longrightarrow> d < 64 \<Longrightarrow>
    262144 * a + 4096 * b + 64 * c + d = r \<Longrightarrow> 65536 \<le> r \<Longrightarrow> r < 1114112 \<Longrightarrow>
    utf8_head ((240 + a) # (128 + b) # (128 + c) # (128 + d) # bs) = Some (r, 4)"
  by (simp_all add: utf8_head_def continues_def Let_def algebra_simps)

lemma utf8_head_encode:
  assumes "scalar_value r"
  shows "utf8_head (utf8_encode_rune r @ bs) = Some (r, length (utf8_encode_rune r))" and "utf8_encode_rune r \<noteq> []"
proof -
  have s: "0 \<le> r" "r < 1114112" "r < 55296 \<or> 57343 < r" using assms by (simp_all add: scalar_value_def)
  have d: "r div 64 = 64 * (r div 4096) + r div 64 mod 64"
    using div_mult_mod_eq [of "r div 64" 64] zdiv_zmult2_eq [of 64 r 64] by simp
  have f: "r div 4096 = 64 * (r div 262144) + r div 4096 mod 64"
    using div_mult_mod_eq [of "r div 4096" 64] zdiv_zmult2_eq [of 64 r 4096] by simp
  have q: "r = 64 * (r div 64) + r mod 64" by simp
  have m: "0 \<le> x mod 64" "x mod 64 < 64" for x :: int by simp_all
  consider "r < 128" | "128 \<le> r" "r < 2048" | "2048 \<le> r" "r < 65536" | "65536 \<le> r" by linarith
  then show "utf8_head (utf8_encode_rune r @ bs) = Some (r, length (utf8_encode_rune r))"
  proof cases
    case 1
    then show ?thesis by (simp add: utf8_encode_rune_def utf8_head_def)
  next
    case 2
    then have "2 \<le> r div 64" "r div 64 < 32" by simp_all
    then have "utf8_head ((192 + r div 64) # (128 + r mod 64) # bs) = Some (64 * (r div 64) + r mod 64, 2)"
      by (intro utf8_head_wide(1) m) simp_all
    then show ?thesis using 2 q by (simp add: utf8_encode_rune_def)
  next
    case 3
    have "r div 4096 < 16" "0 \<le> r div 4096" using 3 by simp_all
    then have "utf8_head ((224 + r div 4096) # (128 + r div 64 mod 64) # (128 + r mod 64) # bs) = Some (r, 3)"
      by (intro utf8_head_wide(2) m) (use 3 s d q in linarith)+
    then show ?thesis using 3 by (simp add: utf8_encode_rune_def)
  next
    case 4
    have "r div 262144 < 5" "0 \<le> r div 262144" using 4 s by simp_all
    then have "utf8_head ((240 + r div 262144) # (128 + r div 4096 mod 64) # (128 + r div 64 mod 64) # (128 + r mod 64) # bs) = Some (r, 4)"
      by (intro utf8_head_wide(3) m) (use 4 s d f q in linarith)+
    then show ?thesis using 4 by (simp add: utf8_encode_rune_def)
  qed
qed (simp add: utf8_encode_rune_def)

lemma utf8_decode_encode: "\<forall>r \<in> set s. scalar_value r \<Longrightarrow> utf8_decode (utf8_encode s) = s"
proof (induction s)
  case (Cons r s)
  have h: "utf8_head (utf8_encode_rune r @ utf8_encode s) = Some (r, length (utf8_encode_rune r))" "utf8_encode_rune r \<noteq> []"
    using utf8_head_encode [of r] Cons.prems by simp_all
  then have "max 1 (length (utf8_encode_rune r)) = length (utf8_encode_rune r)" by (cases "utf8_encode_rune r") auto
  then show ?case using Cons h by (simp add: utf8_encode_def utf8_decode.simps [of "utf8_encode_rune r @ _"])
qed (simp add: utf8_encode_def utf8_decode.simps)

lemma utf8_encode_append: "utf8_encode (s @ t) = utf8_encode s @ utf8_encode t"
  by (simp add: utf8_encode_def)

lemma byte_len_utf8: "byte_len s = int (length (utf8_encode s))"
  by (induction s) (simp_all add: utf8_encode_def utf8_encode_rune_def rune_width_def)

text \<open>A string below U+0080 is its bytes.\<close>

lemma utf8_ascii: "\<forall>c \<in> set s. c < 128 \<Longrightarrow> utf8_encode s = s \<and> utf8_decode s = s"
proof (induction s)
  case (Cons c s)
  then show ?case
    by (simp add: utf8_encode_def utf8_encode_rune_def utf8_decode.simps [of "c # s"] utf8_head_def)
qed (simp add: utf8_encode_def utf8_decode.simps)

text \<open>A property of the bytes that U+0080 and above have too holds for the runes.\<close>

lemma utf8_head_range:
  "utf8_head bs = Some (r, n) \<Longrightarrow> r = hd bs \<and> n = 1 \<or> 128 \<le> r"
  by (auto simp: utf8_head_def Let_def continues_def split: list.splits if_splits)

lemma utf8_decode_runes:
  assumes "\<forall>b \<in> set bs. P b" and "\<And>r. 128 \<le> r \<Longrightarrow> P r"
  shows "\<forall>r \<in> set (utf8_decode bs). P r"
  using assms(1)
proof (induction bs rule: utf8_decode.induct)
  case (1 bs)
  show ?case
  proof (cases "bs = []")
    case False
    show ?thesis
    proof (cases "utf8_head bs")
      case None
      have "\<forall>b \<in> set (tl bs). P b" using 1(3) False by (meson list.set_sel(2))
      then show ?thesis using 1(1) [OF False None] assms(2) [of 65533] None False by (simp add: utf8_decode.simps [of bs])
    next
      case (Some x)
      obtain r n where x: "x = (r, n)" by fastforce
      have "P r" using utf8_head_range [OF Some [unfolded x]] assms(2) 1(3) False by auto
      moreover have "\<forall>b \<in> set (drop (max 1 n) bs). P b" using 1(3) by (meson in_set_dropD)
      ultimately show ?thesis using 1(2) [OF False Some x [symmetric]] Some x False by (simp add: utf8_decode.simps [of bs])
    qed
  qed (simp add: utf8_decode.simps)
qed

lemma utf8_encode_rune_bytes: "0 \<le> c \<Longrightarrow> b \<in> set (utf8_encode_rune c) \<Longrightarrow> b = c \<or> 128 \<le> b"
  by (auto simp: utf8_encode_rune_def split: if_splits)

end
