(* ===== verification/Net_URL.thy ===== *)
theory Net_URL
  imports Net_IP Go_UTF8
begin

section \<open>URLs\<close>

text \<open>
  What the program uses of \<open>net/url\<close>: \<open>Parse\<close> with the fields it reads, \<open>Hostname\<close>, \<open>Port\<close> and the user
  information. \<open>None\<close> is an error. Escapes are decoded into bytes; a component is then the runes of its bytes.
\<close>

definition strings_Cut :: "rune \<Rightarrow> gostr \<Rightarrow> gostr \<times> gostr" where
  "strings_Cut sep s = (takeWhile (\<lambda>c. c \<noteq> sep) s, tl (dropWhile (\<lambda>c. c \<noteq> sep) s))"

text \<open>\<open>strings.LastIndex\<close> of one rune: what is before it and what follows, if it occurs.\<close>

definition cut_last :: "rune \<Rightarrow> gostr \<Rightarrow> (gostr \<times> gostr) option" where
  "cut_last sep s = (if sep \<in> set s
     then Some (rev (tl (dropWhile (\<lambda>c. c \<noteq> sep) (rev s))), rev (takeWhile (\<lambda>c. c \<noteq> sep) (rev s))) else None)"

record Userinfo =
  UI_Username :: gostr
  UI_Password :: "gostr option"

record URL =
  URL_Scheme :: gostr
  URL_Opaque :: gostr
  URL_User :: "Userinfo option"
  URL_Host :: gostr
  URL_Path :: gostr
  URL_RawQuery :: gostr
  URL_Fragment :: gostr

definition empty_url :: URL where
  "empty_url = \<lparr>URL_Scheme = [], URL_Opaque = [], URL_User = None, URL_Host = [], URL_Path = [], URL_RawQuery = [], URL_Fragment = []\<rparr>"

subsection \<open>Escapes\<close>

datatype url_mode = EncodeHost | EncodeZone | EncodeOther

definition is_alnum :: "rune \<Rightarrow> bool" where
  "is_alnum c \<longleftrightarrow> is_digit c \<or> (65 \<le> c \<and> c \<le> 90) \<or> (97 \<le> c \<and> c \<le> 122)"

text \<open>\<open>shouldEscape\<close> in a host: everything but letters, digits and these marks.\<close>

definition host_rune :: "rune \<Rightarrow> bool" where
  "host_rune c \<longleftrightarrow> is_alnum c \<or> c \<in> set (lit ''!$&()*+,;=:[]<>-_.~'') \<or> c = 39 \<or> c = 34"

definition unhex2 :: "rune \<Rightarrow> rune \<Rightarrow> int option" where
  "unhex2 a b = (case (hex_digit_value a, hex_digit_value b) of (Some x, Some y) \<Rightarrow> Some (16 * x + y) | _ \<Rightarrow> None)"

definition escape_allowed :: "url_mode \<Rightarrow> int \<Rightarrow> bool" where
  "escape_allowed mode v = (case mode of
     EncodeHost \<Rightarrow> 128 \<le> v \<or> v = 37
   | EncodeZone \<Rightarrow> v = 37 \<or> v = 32 \<or> host_rune v
   | EncodeOther \<Rightarrow> True)"

fun unescape_bytes :: "url_mode \<Rightarrow> gostr \<Rightarrow> int list option" where
  "unescape_bytes mode [] = Some []"
| "unescape_bytes mode (c # cs) =
     (if c = 37 then
        (case cs of a # b # rest \<Rightarrow>
           (case unhex2 a b of None \<Rightarrow> None
            | Some v \<Rightarrow> if escape_allowed mode v then map_option ((#) v) (unescape_bytes mode rest) else None)
         | _ \<Rightarrow> None)
      else if mode \<noteq> EncodeOther \<and> c < 128 \<and> \<not> host_rune c then None
      else map_option ((@) (utf8_encode_rune c)) (unescape_bytes mode cs))"

definition unescape :: "url_mode \<Rightarrow> gostr \<Rightarrow> gostr option" where
  "unescape mode s = map_option utf8_decode (unescape_bytes mode s)"

subsection \<open>The authority\<close>

definition validOptionalPort :: "gostr \<Rightarrow> bool" where
  "validOptionalPort port \<longleftrightarrow> port = [] \<or> (hd port = 58 \<and> (\<forall>c \<in> set (tl port). is_digit c))"

text \<open>The place of \<open>%25\<close>, where the zone of an address begins.\<close>

fun cut_zone :: "gostr \<Rightarrow> (gostr \<times> gostr) option" where
  "cut_zone [] = None"
| "cut_zone (c # cs) = (if take 3 (c # cs) = [37, 50, 53] then Some ([], c # cs)
     else map_option (\<lambda>(h, z). (c # h, z)) (cut_zone cs))"

definition ip_literal :: "gostr \<Rightarrow> gostr option" where
  "ip_literal hostname =
     (let name = (case cut_zone hostname of
          Some (h, z) \<Rightarrow> (case (unescape EncodeHost h, unescape EncodeZone z) of (Some a, Some b) \<Rightarrow> Some (a @ b) | _ \<Rightarrow> None)
        | None \<Rightarrow> unescape EncodeHost hostname)
      in (case name of None \<Rightarrow> None
        | Some n \<Rightarrow> (case ParseAddr n of Some (Addr6 a z) \<Rightarrow> Some n | _ \<Rightarrow> None)))"

definition parseHost :: "gostr \<Rightarrow> gostr option" where
  "parseHost host =
     (case cut_last 91 host of
        Some (lead, bracketed) \<Rightarrow>
          if lead \<noteq> [] then None
          else (case cut_last 93 bracketed of
              None \<Rightarrow> None
            | Some (hostname, colonPort) \<Rightarrow>
                if \<not> validOptionalPort colonPort then None
                else (case (ip_literal hostname, unescape EncodeHost colonPort) of
                    (Some n, Some p) \<Rightarrow> Some ([91] @ n @ [93] @ p)
                  | _ \<Rightarrow> None))
      | None \<Rightarrow>
          (case cut_last 58 host of
             Some (h, port) \<Rightarrow> if validOptionalPort (58 # port) then unescape EncodeHost host else None
           | None \<Rightarrow> unescape EncodeHost host))"

definition validUserinfo :: "gostr \<Rightarrow> bool" where
  "validUserinfo s \<longleftrightarrow> (\<forall>c \<in> set s. is_alnum c \<or> c \<in> set (lit ''-._:~!$&()*+,;=%@'') \<or> c = 39)"

definition parseUserinfo :: "gostr \<Rightarrow> Userinfo option" where
  "parseUserinfo s =
     (if \<not> validUserinfo s then None
      else if 58 \<notin> set s then map_option (\<lambda>u. \<lparr>UI_Username = u, UI_Password = None\<rparr>) (unescape EncodeOther s)
      else let (u, p) = strings_Cut 58 s
        in (case (unescape EncodeOther u, unescape EncodeOther p) of
              (Some u, Some p) \<Rightarrow> Some \<lparr>UI_Username = u, UI_Password = Some p\<rparr> | _ \<Rightarrow> None))"

definition parseAuthority :: "gostr \<Rightarrow> (Userinfo option \<times> gostr) option" where
  "parseAuthority authority =
     (case cut_last 64 authority of
        None \<Rightarrow> map_option (\<lambda>h. (None, h)) (parseHost authority)
      | Some (user, host) \<Rightarrow> (case (parseHost host, parseUserinfo user) of
          (Some h, Some u) \<Rightarrow> Some (Some u, h) | _ \<Rightarrow> None))"

subsection \<open>Parse\<close>

definition scheme_rune :: "rune \<Rightarrow> bool" where
  "scheme_rune c \<longleftrightarrow> is_alnum c \<or> c = 43 \<or> c = 45 \<or> c = 46"

definition getScheme :: "gostr \<Rightarrow> (gostr \<times> gostr) option" where
  "getScheme rawURL =
     (let sch = takeWhile scheme_rune rawURL; rest = dropWhile scheme_rune rawURL
      in if sch \<noteq> [] \<and> (is_digit (hd sch) \<or> \<not> is_alnum (hd sch)) then Some ([], rawURL)
         else if rest \<noteq> [] \<and> hd rest = 58 then if sch = [] then None else Some (sch, tl rest)
         else Some ([], rawURL))"

definition setPath :: "gostr \<Rightarrow> URL \<Rightarrow> URL option" where
  "setPath p u = map_option (\<lambda>x. u\<lparr>URL_Path := x\<rparr>) (unescape EncodeOther p)"

definition parse_hier :: "URL \<Rightarrow> gostr \<Rightarrow> URL option" where
  "parse_hier u rest =
     (if take 1 rest \<noteq> [47] then
        if URL_Scheme u \<noteq> [] then Some (u\<lparr>URL_Opaque := rest\<rparr>)
        else if 58 \<in> set (fst (strings_Cut 47 rest)) then None
        else setPath rest u
      else if (URL_Scheme u \<noteq> [] \<or> take 3 rest \<noteq> [47, 47, 47]) \<and> take 2 rest = [47, 47] then
        let authority = takeWhile (\<lambda>c. c \<noteq> 47) (drop 2 rest); path = dropWhile (\<lambda>c. c \<noteq> 47) (drop 2 rest)
        in (case parseAuthority authority of None \<Rightarrow> None
            | Some (user, host) \<Rightarrow> setPath path (u\<lparr>URL_User := user, URL_Host := host\<rparr>))
      else setPath rest u)"

definition parse_url :: "gostr \<Rightarrow> URL option" where
  "parse_url rawURL =
     (if \<exists>c \<in> set rawURL. c < 32 \<or> c = 127 then None
      else if rawURL = [42] then Some (empty_url\<lparr>URL_Path := [42]\<rparr>)
      else (case getScheme rawURL of None \<Rightarrow> None
        | Some (sch, rest) \<Rightarrow>
            let (rest, query) = strings_Cut 63 rest
            in parse_hier (empty_url\<lparr>URL_Scheme := strings_ToLower sch, URL_RawQuery := query\<rparr>) rest))"

definition url_Parse :: "gostr \<Rightarrow> URL option" where
  "url_Parse rawURL =
     (let (u, frag) = strings_Cut 35 rawURL
      in (case parse_url u of None \<Rightarrow> None
        | Some v \<Rightarrow> if frag = [] then Some v
            else map_option (\<lambda>f. v\<lparr>URL_Fragment := f\<rparr>) (unescape EncodeOther frag)))"

definition splitHostPort :: "gostr \<Rightarrow> gostr \<times> gostr" where
  "splitHostPort hostPort =
     (let (host, port) = (case cut_last 58 hostPort of
          Some (h, p) \<Rightarrow> if validOptionalPort (58 # p) then (h, p) else (hostPort, [])
        | None \<Rightarrow> (hostPort, []))
      in (if take 1 host = [91] \<and> host \<noteq> [91] \<and> last host = 93 then butlast (tl host)
          else host, port))"

definition URL_Hostname :: "URL \<Rightarrow> gostr" where "URL_Hostname u = fst (splitHostPort (URL_Host u))"
definition URL_Port :: "URL \<Rightarrow> gostr" where "URL_Port u = snd (splitHostPort (URL_Host u))"

subsection \<open>The runes of a host\<close>

text \<open>No delimiter of a URL is left in a host that was read.\<close>

definition url_rune :: "rune \<Rightarrow> bool" where
  "url_rune c \<longleftrightarrow> host_rune c \<or> c = 32 \<or> c = 37 \<or> 128 \<le> c"

lemma unescape_bytes_host:
  "mode \<noteq> EncodeOther \<Longrightarrow> unescape_bytes mode s = Some bs \<Longrightarrow> \<forall>b \<in> set bs. url_rune b"
proof (induction mode s arbitrary: bs rule: unescape_bytes.induct)
  case (2 mode c cs)
  show ?case
  proof (cases "c = 37")
    case True
    with 2(4) obtain a b rest v where v: "cs = a # b # rest" "unhex2 a b = Some v" "escape_allowed mode v"
      and r: "map_option ((#) v) (unescape_bytes mode rest) = Some bs"
      by (auto split: list.splits option.splits if_splits)
    from r obtain bs' where "unescape_bytes mode rest = Some bs'" "bs = v # bs'" by auto
    moreover have "url_rune v" using v(3) 2(3) by (cases mode) (auto simp: escape_allowed_def url_rune_def)
    ultimately show ?thesis using 2(1) [OF True v(1) refl v(2,3) 2(3)] by simp
  next
    case False
    with 2(3,4) have c: "128 \<le> c \<or> host_rune c" by (auto split: if_splits)
    from False c 2(3,4) obtain bs' where b: "unescape_bytes mode cs = Some bs'" "bs = utf8_encode_rune c @ bs'"
      by (auto split: if_splits)
    have "\<forall>b \<in> set bs'. url_rune b" using 2(2) False c 2(3) b(1) by auto
    moreover have "0 \<le> c" using c by (auto simp: host_rune_def is_alnum_def is_digit_def)
    then have "\<forall>b \<in> set (utf8_encode_rune c). url_rune b"
      using c utf8_encode_rune_bytes [of c] unfolding url_rune_def by blast
    ultimately show ?thesis using b(2) by auto
  qed
qed simp

lemma unescape_host: "mode \<noteq> EncodeOther \<Longrightarrow> unescape mode s = Some t \<Longrightarrow> \<forall>c \<in> set t. url_rune c"
proof -
  assume "mode \<noteq> EncodeOther" "unescape mode s = Some t"
  then obtain bs where "unescape_bytes mode s = Some bs" "t = utf8_decode bs" by (auto simp: unescape_def)
  with unescape_bytes_host [OF \<open>mode \<noteq> EncodeOther\<close>] show "\<forall>c \<in> set t. url_rune c"
    using utf8_decode_runes [of bs url_rune] by (simp add: url_rune_def)
qed

lemma parseHost_runes: "parseHost host = Some h \<Longrightarrow> \<forall>c \<in> set h. url_rune c"
proof -
  assume p: "parseHost host = Some h"
  show ?thesis
  proof (cases "cut_last 91 host")
    case None
    with p show ?thesis
      using unescape_host [of EncodeHost host h] by (auto simp: parseHost_def split: option.splits if_splits)
  next
    case (Some x)
    with p obtain hostname colonPort n q where h: "h = [91] @ n @ [93] @ q" and i: "ip_literal hostname = Some n"
      and u: "unescape EncodeHost colonPort = Some q"
      by (auto simp: parseHost_def split: prod.splits option.splits if_splits)
    have "\<forall>c \<in> set n. url_rune c"
      using i by (auto simp: ip_literal_def Let_def split: option.splits prod.splits ipaddr.splits dest!: unescape_host [rotated])
    moreover have "url_rune 91" "url_rune 93" by (simp_all add: url_rune_def host_rune_def)
    ultimately show ?thesis using h unescape_host [OF _ u] by auto
  qed
qed

end
