(* ===== verification/Go_Strconv.thy ===== *)
theory Go_Strconv
  imports Net_IP Go_Time
begin

section \<open>Reading numbers and durations\<close>

text \<open>
  What the configuration uses of \<open>strconv\<close> and \<open>time\<close>: \<open>ParseBool\<close>, \<open>Atoi\<close>, \<open>ParseFloat\<close> with its decimal,
  hexadecimal and special forms, and \<open>ParseDuration\<close>. \<open>None\<close> is an error, whatever it says.
\<close>

definition ParseBool :: "gostr \<Rightarrow> bool option" where
  "ParseBool s = (if s \<in> {lit ''1'', lit ''t'', lit ''T'', lit ''true'', lit ''TRUE'', lit ''True''} then Some True
     else if s \<in> {lit ''0'', lit ''f'', lit ''F'', lit ''false'', lit ''FALSE'', lit ''False''} then Some False else None)"

text \<open>An optional sign: whether it is a minus, and the rest.\<close>

definition signed :: "gostr \<Rightarrow> bool \<times> gostr" where
  "signed s = (case s of [] \<Rightarrow> (False, []) | c # cs \<Rightarrow> if c = 45 then (True, cs) else if c = 43 then (False, cs) else (False, s))"

definition Atoi :: "gostr \<Rightarrow> int option" where
  "Atoi s = (case signed s of (neg, ds) \<Rightarrow>
     if ds = [] \<or> \<not> (\<forall>d \<in> set ds. is_digit d) then None
     else let n = (if neg then - decimal ds else decimal ds) in if int64 n then Some n else None)"

subsection \<open>Floating-point numbers\<close>

definition ascii_lower :: "gostr \<Rightarrow> gostr" where
  "ascii_lower s = map (\<lambda>c. if 65 \<le> c \<and> c \<le> 90 then c + 32 else c) s"

definition float_special :: "gostr \<Rightarrow> f64 option" where
  "float_special s = (case signed s of (neg, body) \<Rightarrow>
     if ascii_lower body = lit ''inf'' \<or> ascii_lower body = lit ''infinity'' then Some (if neg then NInf else PInf)
     else if ascii_lower s = lit ''nan'' then Some NaN else None)"

text \<open>\<open>underscoreOK\<close> after the sign: an underscore stands between digits, a base prefix counting as one.\<close>

fun underscores_ok :: "bool \<Rightarrow> rune \<Rightarrow> gostr \<Rightarrow> bool" where
  "underscores_ok hexa prev [] \<longleftrightarrow> prev \<noteq> 95"
| "underscores_ok hexa prev (c # cs) \<longleftrightarrow>
     (if is_digit c \<or> (hexa \<and> hex_digit_value c \<noteq> None) then underscores_ok hexa 48 cs
      else if c = 95 then prev = 48 \<and> underscores_ok hexa 95 cs
      else prev \<noteq> 95 \<and> underscores_ok hexa 33 cs)"

text \<open>The digits of the mantissa before and after the point, and what follows.\<close>

definition mantissa :: "(rune \<Rightarrow> bool) \<Rightarrow> gostr \<Rightarrow> gostr \<times> gostr \<times> gostr" where
  "mantissa digit s = (let p = (\<lambda>c. digit c \<or> c = 95); ip = takeWhile p s; r = dropWhile p s in
     if r \<noteq> [] \<and> hd r = 46 then (filter digit ip, filter digit (takeWhile p (tl r)), dropWhile p (tl r))
     else (filter digit ip, [], r))"

definition exponent_value :: "gostr \<Rightarrow> int" where
  "exponent_value ds = foldl (\<lambda>e d. if e < 10000 then 10 * e + (d - 48) else e) 0 ds"

text \<open>The exponent after its letter: the number has to end with it.\<close>

definition read_exponent :: "gostr \<Rightarrow> int option" where
  "read_exponent s = (case signed s of (neg, ds) \<Rightarrow>
     if ds = [] \<or> \<not> is_digit (hd ds) \<or> \<not> (\<forall>d \<in> set ds. is_digit d \<or> d = 95) then None
     else let e = exponent_value (filter is_digit ds) in Some (if neg then - e else e))"

definition radix_value :: "int \<Rightarrow> gostr \<Rightarrow> rat" where
  "radix_value b ds = of_int (foldl (\<lambda>n d. b * n + the (hex_digit_value d)) 0 ds)"

text \<open>\<open>None\<close> also for the range error, where the result is an infinity.\<close>

definition ParseFloat :: "gostr \<Rightarrow> f64 option" where
  "ParseFloat s =
     (case float_special s of Some x \<Rightarrow> Some x
      | None \<Rightarrow>
        (case signed s of (neg, body) \<Rightarrow>
           let hexa = (2 < length body \<and> take 1 body = [48] \<and> ascii_lower (take 1 (drop 1 body)) = [120]);
               num = (if hexa then drop 2 body else body);
               digit = (\<lambda>c. if hexa then hex_digit_value c \<noteq> None else is_digit c);
               (ip, fp, rest) = mantissa digit num;
               letter = (if hexa then 112 else 101);
               ex = (if rest = [] then if hexa then None else Some 0
                     else if ascii_lower (take 1 rest) = [letter] then read_exponent (tl rest) else None)
           in if ip @ fp = [] then None
              else if 95 \<in> set s \<and> \<not> underscores_ok hexa (if hexa then 48 else 94) num then None
              else (case ex of None \<Rightarrow> None
                | Some e \<Rightarrow>
                    let q = (if hexa then radix_value 16 (ip @ fp) * 2 powi (e - 4 * int (length fp))
                             else radix_value 10 (ip @ fp) * 10 powi (e - int (length fp)))
                    in (case f64_of (if neg then - q else q) of Fin x \<Rightarrow> Some (Fin x) | _ \<Rightarrow> None))))"

subsection \<open>Durations\<close>

definition unit_map :: "(gostr \<times> int) list" where
  "unit_map = [(lit ''ns'', 1), (lit ''us'', 1000), ([181, 115], 1000), ([956, 115], 1000), (lit ''ms'', 1000000),
     (lit ''s'', second), (lit ''m'', minute), (lit ''h'', hour)]"

fun leadingInt :: "int \<Rightarrow> gostr \<Rightarrow> int option" where
  "leadingInt x [] = Some x"
| "leadingInt x (d # ds) =
     (if 2 ^ 63 div 10 < x then None
      else if 2 ^ 63 < 10 * x + (d - 48) then None else leadingInt (10 * x + (d - 48)) ds)"

text \<open>The digits after the point and the power of ten they count in; digits that no longer fit are dropped.\<close>

fun leadingFraction :: "int \<Rightarrow> f64 \<Rightarrow> gostr \<Rightarrow> int \<times> f64" where
  "leadingFraction x scale [] = (x, scale)"
| "leadingFraction x scale (d # ds) =
     (if (2 ^ 63 - 1) div 10 < x \<or> 2 ^ 63 < 10 * x + (d - 48) then (x, scale)
      else leadingFraction (10 * x + (d - 48)) (fmul scale (Fin 10)) ds)"

definition unit_span :: "rune \<Rightarrow> bool" where "unit_span c \<longleftrightarrow> c \<noteq> 46 \<and> \<not> is_digit c"

text \<open>One number with its unit: the nanoseconds and the rest.\<close>

definition duration_item :: "gostr \<Rightarrow> (int \<times> gostr) option" where
  "duration_item s =
     (if s = [] \<or> (hd s \<noteq> 46 \<and> \<not> is_digit (hd s)) then None
      else let ds = takeWhile is_digit s; r = dropWhile is_digit s;
               dot = (r \<noteq> [] \<and> hd r = 46);
               fs = (if dot then takeWhile is_digit (tl r) else []);
               r = (if dot then dropWhile is_digit (tl r) else r);
               u = takeWhile unit_span r; rest = dropWhile unit_span r
      in (case leadingInt 0 ds of None \<Rightarrow> None
        | Some v \<Rightarrow>
            if ds = [] \<and> fs = [] then None
            else (case map_of unit_map u of None \<Rightarrow> None
              | Some n \<Rightarrow>
                  if 2 ^ 63 div n < v then None
                  else let (f, scale) = leadingFraction 0 (Fin 1) fs;
                           w = (if 0 < f then v * n + int_of_f64 (fmul (f64_of (of_int f)) (fdiv (Fin (of_int n)) scale)) else v * n)
                    in if 2 ^ 63 < w then None else Some (w, rest))))"

lemma duration_item_shorter: "duration_item s = Some (v, rest) \<Longrightarrow> length rest < length s"
proof -
  assume i: "duration_item s = Some (v, rest)"
  define r where "r = dropWhile is_digit s"
  define r' where "r' = (if r \<noteq> [] \<and> hd r = 46 then dropWhile is_digit (tl r) else r)"
  define ds where "ds = takeWhile is_digit s"
  have "rest = dropWhile unit_span r'" and u: "takeWhile unit_span r' \<noteq> []"
    using i by (auto simp: duration_item_def Let_def r_def r'_def unit_map_def split: if_splits option.splits prod.splits)
  then have "length rest < length r'"
    using length_append [of "takeWhile unit_span r'" "dropWhile unit_span r'"] by (simp add: takeWhile_dropWhile_id)
  moreover have "length r' \<le> length r"
    using length_dropWhile_le [of is_digit "tl r"] by (auto simp: r'_def)
  moreover have "length r \<le> length s" by (simp add: r_def length_dropWhile_le)
  ultimately show ?thesis by simp
qed

function duration_items :: "int \<Rightarrow> gostr \<Rightarrow> int option" where
  "duration_items d s = (if s = [] then Some d
     else case duration_item s of None \<Rightarrow> None
       | Some (v, rest) \<Rightarrow> if 2 ^ 63 < d + v then None else duration_items (d + v) rest)"
  by pat_completeness auto
termination
  by (relation "measure (\<lambda>(d, s). length s)") (auto dest: duration_item_shorter)

declare duration_items.simps [simp del]

definition ParseDuration :: "gostr \<Rightarrow> duration option" where
  "ParseDuration s = (case signed s of (neg, body) \<Rightarrow>
     if body = [48] then Some 0
     else if body = [] then None
     else (case duration_items 0 body of None \<Rightarrow> None
       | Some d \<Rightarrow> if neg then Some (wrap64 (- d)) else if 2 ^ 63 - 1 < d then None else Some d))"

end
