(* ===== verification/Configuration.thy ===== *)
theory Configuration
  imports Net_URL Go_Strconv
begin

section \<open>Configuration\<close>

text \<open>
  \<open>platform/config\<close>: the settings of the processes, read from the environment. The environment is a function
  from names to values, the empty text for a variable that is not set (\<open>os.Getenv\<close>). The lemmas show what an
  allowed origin can be and what a production process refuses to start without.
\<close>

type_synonym environ = "gostr \<Rightarrow> gostr"

record AppConfig =
  cfg_Env :: gostr
  cfg_LogLevel :: gostr
  cfg_HTTPAddr :: gostr
  cfg_GRPCAddr :: gostr
  cfg_AllowedOrigins :: "gostr list"
  cfg_DatabaseURL :: gostr
  cfg_RedisURL :: gostr
  cfg_HNSWEfSearch :: int
  cfg_AnthropicAPIKey :: gostr
  cfg_AnthropicAuthToken :: gostr
  cfg_AnthropicBaseURL :: gostr
  cfg_AnthropicModel :: gostr
  cfg_LLMCheapModel :: gostr
  cfg_OpenAIAPIKey :: gostr
  cfg_OpenAIEmbeddingModel :: gostr
  cfg_JWTSecret :: gostr
  cfg_FieldEncryptionKey :: gostr
  cfg_FieldEncryptionKeyPrevious :: "gostr list"
  cfg_JWTIssuer :: gostr
  cfg_JWTAudience :: gostr
  cfg_AccessTokenTTL :: duration
  cfg_RefreshTokenTTL :: duration
  cfg_SeedDemo :: bool
  cfg_SeedGenerated :: bool
  cfg_RateLimitRPS :: f64
  cfg_RateLimitBurst :: f64
  cfg_TrustedProxies :: "gostr list"
  cfg_LLMMaxConcurrency :: int
  cfg_LLMRatePerSecond :: f64
  cfg_LLMRateBurst :: int
  cfg_LLMMaxTokens :: int
  cfg_LLMBudgetUSD :: f64
  cfg_RetentionWindow :: duration
  cfg_RetentionCron :: gostr
  cfg_DashboardCacheTTL :: duration
  cfg_InterviewMaxQuestions :: int
  cfg_InterviewMaxDuration :: duration
  cfg_WorkerConcurrency :: int
  cfg_TaskMaxRetry :: int
  cfg_TaskRetention :: duration
  cfg_OTelExporter :: gostr
  cfg_ServiceName :: gostr
  cfg_ServiceVersion :: gostr
  cfg_LokiURL :: gostr
  cfg_LokiBatchSize :: int
  cfg_LokiFlushInterval :: duration
  cfg_LokiTimeout :: duration
  cfg_LokiTenantID :: gostr
  cfg_MetricsAddr :: gostr

subsection \<open>Single settings\<close>

definition corsOriginsEnv :: gostr where "corsOriginsEnv = lit ''CALIBER_CORS_ORIGINS''"
definition legacyCORSOriginsEnv :: gostr where "legacyCORSOriginsEnv = lit ''CALIBER_CORS_ALLOWED_ORIGINS''"
definition fieldEncryptionKeyEnv :: gostr where "fieldEncryptionKeyEnv = lit ''CALIBER_FIELD_ENCRYPTION_KEY''"

definition getenv :: "environ \<Rightarrow> string \<Rightarrow> string \<Rightarrow> gostr" where
  "getenv env key def = (if env (lit key) \<noteq> [] then env (lit key) else lit def)"

definition getbool :: "environ \<Rightarrow> string \<Rightarrow> bool \<Rightarrow> bool" where
  "getbool env key def = (if env (lit key) = [] then def else case ParseBool (env (lit key)) of Some b \<Rightarrow> b | None \<Rightarrow> def)"

definition getint :: "environ \<Rightarrow> string \<Rightarrow> int \<Rightarrow> int" where
  "getint env key def = (if env (lit key) = [] then def
     else case Atoi (env (lit key)) of Some n \<Rightarrow> if n \<le> 0 then def else n | None \<Rightarrow> def)"

definition getfloat :: "environ \<Rightarrow> string \<Rightarrow> f64 \<Rightarrow> f64" where
  "getfloat env key def = (if env (lit key) = [] then def else case ParseFloat (env (lit key)) of Some x \<Rightarrow> x | None \<Rightarrow> def)"

definition getdur :: "environ \<Rightarrow> string \<Rightarrow> duration \<Rightarrow> duration" where
  "getdur env key def = (if env (lit key) = [] then def else case ParseDuration (env (lit key)) of Some d \<Rightarrow> d | None \<Rightarrow> def)"

definition splitList :: "gostr \<Rightarrow> gostr list" where
  "splitList raw = (if strings_TrimSpace raw = [] then []
     else filter (\<lambda>p. p \<noteq> []) (map strings_TrimSpace (strings_Split 44 raw)))"

definition TrimRight_slash :: "gostr \<Rightarrow> gostr" where
  "TrimRight_slash s = rev (dropWhile (\<lambda>c. c = 47) (rev s))"

definition getHTTPAddr :: "environ \<Rightarrow> gostr" where
  "getHTTPAddr env =
     (let a = strings_TrimSpace (env (lit ''CALIBER_HTTP_ADDR'')) in if a \<noteq> [] then a
      else let port = strings_TrimSpace (env (lit ''PORT'')) in if port \<noteq> [] then 58 # port else lit '':8080'')"

subsection \<open>Allowed origins\<close>

definition is_prod_name :: "gostr \<Rightarrow> bool" where
  "is_prod_name env \<longleftrightarrow> strings_ToLower (strings_TrimSpace env) \<in> {lit ''prod'', lit ''production''}"

definition corsOriginsValue :: "environ \<Rightarrow> gostr \<times> gostr" where
  "corsOriginsValue env =
     (if strings_TrimSpace (env corsOriginsEnv) \<noteq> [] then (env corsOriginsEnv, corsOriginsEnv)
      else if strings_TrimSpace (env legacyCORSOriginsEnv) \<noteq> [] then (env legacyCORSOriginsEnv, legacyCORSOriginsEnv)
      else ([], corsOriginsEnv))"

definition defaultCORSAllowedOrigins :: "gostr \<Rightarrow> gostr list" where
  "defaultCORSAllowedOrigins env = (if is_prod_name env then []
     else [lit ''http://localhost:5173'', lit ''http://127.0.0.1:5173'', lit ''http://localhost:4173'', lit ''http://127.0.0.1:4173''])"

definition normalizeOrigin :: "gostr \<Rightarrow> gostr \<Rightarrow> gostr res" where
  "normalizeOrigin source origin =
     (if 42 \<in> set origin then Inl (PlainErr ''config: %s must not contain wildcard origins'' [AStr source] [])
      else (case url_Parse origin of
          None \<Rightarrow> Inl (PlainErr ''config: invalid CORS origin %s'' [AStr origin] [])
        | Some u \<Rightarrow>
            if URL_Scheme u \<noteq> lit ''http'' \<and> URL_Scheme u \<noteq> lit ''https''
            then Inl (PlainErr ''config: CORS origins must use http or https'' [] [])
            else if URL_Host u = [] \<or> URL_User u \<noteq> None \<or> URL_Path u \<noteq> [] \<or> URL_RawQuery u \<noteq> [] \<or> URL_Fragment u \<noteq> []
            then Inl (PlainErr ''config: CORS origins must be exact scheme://host[:port] values'' [] [])
            else Inr (strings_ToLower (URL_Scheme u) @ lit ''://'' @ strings_ToLower (URL_Host u))))"

fun collect_origins :: "gostr \<Rightarrow> gostr list \<Rightarrow> gostr list \<Rightarrow> gostr list res" where
  "collect_origins source origins [] = Inr origins"
| "collect_origins source origins (part # parts) =
     (let origin = TrimRight_slash (strings_TrimSpace part)
      in if origin = [] then collect_origins source origins parts
         else (case normalizeOrigin source origin of
             Inl err \<Rightarrow> Inl err
           | Inr normalized \<Rightarrow> collect_origins source
               (if normalized \<in> set origins then origins else origins @ [normalized]) parts))"

definition getorigins :: "environ \<Rightarrow> gostr \<Rightarrow> gostr list res" where
  "getorigins env name =
     (let (raw, source) = corsOriginsValue env
      in if strings_TrimSpace raw = [] then Inr (defaultCORSAllowedOrigins name)
         else collect_origins source [] (strings_Split 44 raw))"

subsection \<open>Loading\<close>

definition loaded_config :: "environ \<Rightarrow> gostr list \<Rightarrow> AppConfig" where
  "loaded_config env allowedOrigins =
     \<lparr>cfg_Env = getenv env ''CALIBER_ENV'' ''dev'', cfg_LogLevel = getenv env ''CALIBER_LOG_LEVEL'' ''info'',
      cfg_HTTPAddr = getHTTPAddr env, cfg_GRPCAddr = getenv env ''CALIBER_GRPC_ADDR'' '':9090'',
      cfg_AllowedOrigins = allowedOrigins,
      cfg_DatabaseURL = env (lit ''CALIBER_DATABASE_URL''), cfg_RedisURL = env (lit ''CALIBER_REDIS_URL''),
      cfg_HNSWEfSearch = getint env ''CALIBER_HNSW_EF_SEARCH'' 0,
      cfg_AnthropicAPIKey = env (lit ''ANTHROPIC_API_KEY''), cfg_AnthropicAuthToken = env (lit ''ANTHROPIC_AUTH_TOKEN''),
      cfg_AnthropicBaseURL = TrimRight_slash (strings_TrimSpace (env (lit ''ANTHROPIC_BASE_URL''))),
      cfg_AnthropicModel = getenv env ''CALIBER_ANTHROPIC_MODEL'' ''claude-opus-4-8'',
      cfg_LLMCheapModel = getenv env ''CALIBER_LLM_CHEAP_MODEL'' [],
      cfg_OpenAIAPIKey = env (lit ''OPENAI_API_KEY''),
      cfg_OpenAIEmbeddingModel = getenv env ''CALIBER_OPENAI_EMBEDDING_MODEL'' ''text-embedding-3-small'',
      cfg_JWTSecret = env (lit ''CALIBER_JWT_SECRET''),
      cfg_FieldEncryptionKey = env fieldEncryptionKeyEnv,
      cfg_FieldEncryptionKeyPrevious = splitList (env (fieldEncryptionKeyEnv @ lit ''_PREVIOUS'')),
      cfg_JWTIssuer = getenv env ''CALIBER_JWT_ISSUER'' ''caliber'', cfg_JWTAudience = getenv env ''CALIBER_JWT_AUDIENCE'' ''caliber-api'',
      cfg_AccessTokenTTL = getdur env ''CALIBER_ACCESS_TOKEN_TTL'' (15 * minute),
      cfg_RefreshTokenTTL = getdur env ''CALIBER_REFRESH_TOKEN_TTL'' (7 * 24 * hour),
      cfg_SeedDemo = getbool env ''CALIBER_SEED_DEMO'' True, cfg_SeedGenerated = getbool env ''CALIBER_SEED_GENERATED'' False,
      cfg_RateLimitRPS = getfloat env ''CALIBER_RATE_LIMIT_RPS'' (Fin 30), cfg_RateLimitBurst = getfloat env ''CALIBER_RATE_LIMIT_BURST'' (Fin 60),
      cfg_TrustedProxies = splitList (env (lit ''CALIBER_TRUSTED_PROXIES'')),
      cfg_LLMMaxConcurrency = getint env ''CALIBER_LLM_MAX_CONCURRENCY'' 8,
      cfg_LLMRatePerSecond = getfloat env ''CALIBER_LLM_RATE_PER_SECOND'' (Fin 20),
      cfg_LLMRateBurst = getint env ''CALIBER_LLM_RATE_BURST'' 40, cfg_LLMMaxTokens = getint env ''CALIBER_LLM_MAX_TOKENS'' 4096,
      cfg_LLMBudgetUSD = getfloat env ''CALIBER_LLM_BUDGET_USD'' (Fin 0),
      cfg_RetentionWindow = getdur env ''CALIBER_RETENTION_WINDOW'' 0, cfg_RetentionCron = getenv env ''CALIBER_RETENTION_CRON'' ''@daily'',
      cfg_DashboardCacheTTL = getdur env ''CALIBER_DASHBOARD_CACHE_TTL'' (30 * second),
      cfg_InterviewMaxQuestions = getint env ''CALIBER_INTERVIEW_MAX_QUESTIONS'' 4,
      cfg_InterviewMaxDuration = getdur env ''CALIBER_INTERVIEW_MAX_DURATION'' (10 * minute),
      cfg_WorkerConcurrency = getint env ''CALIBER_WORKER_CONCURRENCY'' 4, cfg_TaskMaxRetry = getint env ''CALIBER_TASK_MAX_RETRY'' 3,
      cfg_TaskRetention = getdur env ''CALIBER_TASK_RETENTION'' (24 * hour),
      cfg_OTelExporter = [], cfg_ServiceName = [], cfg_ServiceVersion = [],
      cfg_LokiURL = [], cfg_LokiBatchSize = 0, cfg_LokiFlushInterval = 0, cfg_LokiTimeout = 0, cfg_LokiTenantID = [], cfg_MetricsAddr = []\<rparr>"

definition loadObservabilityConfig :: "environ \<Rightarrow> AppConfig \<Rightarrow> AppConfig" where
  "loadObservabilityConfig env c = c\<lparr>cfg_OTelExporter := getenv env ''CALIBER_OTEL_EXPORTER'' ''noop'',
     cfg_ServiceName := getenv env ''CALIBER_SERVICE_NAME'' ''caliber-api'', cfg_ServiceVersion := getenv env ''CALIBER_SERVICE_VERSION'' ''dev'',
     cfg_MetricsAddr := getenv env ''CALIBER_WORKER_METRICS_ADDR'' '':8081''\<rparr>"

definition loadLokiConfig :: "environ \<Rightarrow> AppConfig \<Rightarrow> AppConfig" where
  "loadLokiConfig env c = c\<lparr>cfg_LokiURL := env (lit ''CALIBER_LOKI_URL''), cfg_LokiBatchSize := getint env ''CALIBER_LOKI_BATCH_SIZE'' 100,
     cfg_LokiFlushInterval := getdur env ''CALIBER_LOKI_FLUSH_INTERVAL'' (5 * second),
     cfg_LokiTimeout := getdur env ''CALIBER_LOKI_TIMEOUT'' (10 * second), cfg_LokiTenantID := env (lit ''CALIBER_LOKI_TENANT_ID'')\<rparr>"

definition valid_loki_url :: "gostr \<Rightarrow> bool" where
  "valid_loki_url raw \<longleftrightarrow> (case url_Parse raw of None \<Rightarrow> False
     | Some parsed \<Rightarrow> URL_Scheme parsed = lit ''http'' \<or> URL_Scheme parsed = lit ''https'')"

definition Load :: "environ \<Rightarrow> AppConfig res" where
  "Load env =
     (case getorigins env (getenv env ''CALIBER_ENV'' ''dev'') of
        Inl err \<Rightarrow> Inl err
      | Inr allowedOrigins \<Rightarrow>
          let c = loadLokiConfig env (loadObservabilityConfig env (loaded_config env allowedOrigins))
          in if cfg_HTTPAddr c = [] \<or> cfg_GRPCAddr c = [] then Inl (PlainErr ''config: HTTP and gRPC addresses must be set'' [] [])
             else if cfg_LokiURL c \<noteq> [] \<and> \<not> valid_loki_url (cfg_LokiURL c)
             then Inl (PlainErr ''config: invalid CALIBER_LOKI_URL %q'' [AStr (cfg_LokiURL c)] [])
             else Inr c)"

subsection \<open>What production needs\<close>

definition IsProd :: "AppConfig \<Rightarrow> bool" where
  "IsProd c \<longleftrightarrow> strings_ToLower (strings_TrimSpace (cfg_Env c)) \<in> {lit ''prod'', lit ''production''}"

definition hostIsLocal :: "gostr \<Rightarrow> bool" where
  "hostIsLocal raw \<longleftrightarrow> raw \<noteq> [] \<and> (case url_Parse raw of None \<Rightarrow> False
     | Some u \<Rightarrow> URL_Hostname u \<in> {lit ''localhost'', lit ''127.0.0.1'', lit ''::1'', lit ''0.0.0.0''})"

definition ProdSafetyIssues :: "AppConfig \<Rightarrow> gostr list" where
  "ProdSafetyIssues c = (if \<not> IsProd c then []
     else (if hostIsLocal (cfg_DatabaseURL c) then [lit ''CALIBER_DATABASE_URL points at a local endpoint''] else []) @
       (if hostIsLocal (cfg_RedisURL c) then [lit ''CALIBER_REDIS_URL points at a local endpoint''] else []))"

definition blank :: "gostr \<Rightarrow> bool" where "blank s \<longleftrightarrow> strings_TrimSpace s = []"

text \<open>The required settings are a map: \<open>iter\<close> is its iteration order.\<close>

definition Validate_config :: "((gostr \<times> gostr) list \<Rightarrow> (gostr \<times> gostr) list) \<Rightarrow> AppConfig \<Rightarrow> gostr list" where
  "Validate_config iter c =
     map fst (filter (\<lambda>(name, val). blank val) (iter
       [(lit ''CALIBER_DATABASE_URL'', cfg_DatabaseURL c), (lit ''CALIBER_REDIS_URL'', cfg_RedisURL c),
        (lit ''OPENAI_API_KEY'', cfg_OpenAIAPIKey c), (lit ''CALIBER_JWT_SECRET'', cfg_JWTSecret c)])) @
     (if blank (cfg_AnthropicAPIKey c) \<and> blank (cfg_AnthropicAuthToken c) then [lit ''ANTHROPIC_API_KEY''] else []) @
     (if IsProd c \<and> cfg_AllowedOrigins c = [] then [corsOriginsEnv] else []) @
     (if IsProd c \<and> blank (cfg_FieldEncryptionKey c) then [fieldEncryptionKeyEnv] else [])"

subsection \<open>The origins of a configuration\<close>

text \<open>An exact origin: a scheme and a host in lower case, without path, query, user or wildcard scheme.\<close>

definition exact_origin :: "gostr \<Rightarrow> bool" where
  "exact_origin o' \<longleftrightarrow> (\<exists>sch h. o' = sch @ lit ''://'' @ strings_ToLower h \<and> sch \<in> {lit ''http'', lit ''https''} \<and> h \<noteq> [] \<and>
     (\<forall>c \<in> set h. url_rune c))"

lemma setPath_fields: "setPath p u = Some v \<Longrightarrow> URL_Host v = URL_Host u \<and> URL_Scheme v = URL_Scheme u"
  by (auto simp: setPath_def)

lemma parse_hier_host:
  assumes "parse_hier u rest = Some v" and "URL_Host u = []"
  shows "\<forall>c \<in> set (URL_Host v). url_rune c"
proof -
  have "\<forall>c \<in> set h. url_rune c" if "parseAuthority a = Some (user, h)" for a user h
    using that parseHost_runes by (auto simp: parseAuthority_def split: option.splits prod.splits)
  with assms show ?thesis
    by (auto simp: parse_hier_def Let_def dest!: setPath_fields split: if_splits option.splits prod.splits) 
qed

lemma url_Parse_host: "url_Parse raw = Some v \<Longrightarrow> \<forall>c \<in> set (URL_Host v). url_rune c"
proof -
  assume "url_Parse raw = Some v"
  then obtain u where u: "parse_url (fst (strings_Cut 35 raw)) = Some u" "URL_Host v = URL_Host u"
    by (auto simp: url_Parse_def split: prod.splits option.splits if_splits)
  then have "\<forall>c \<in> set (URL_Host u). url_rune c"
    using parse_hier_host by (fastforce simp: parse_url_def empty_url_def split: if_splits option.splits prod.splits)
  with u(2) show ?thesis by simp
qed

lemma normalizeOrigin_exact: "normalizeOrigin source origin = Inr x \<Longrightarrow> exact_origin x"
proof -
  assume n: "normalizeOrigin source origin = Inr x"
  then obtain u where u: "url_Parse origin = Some u" and s: "URL_Scheme u = lit ''http'' \<or> URL_Scheme u = lit ''https''"
    and h: "URL_Host u \<noteq> []" and x: "x = strings_ToLower (URL_Scheme u) @ lit ''://'' @ strings_ToLower (URL_Host u)"
    by (auto simp: normalizeOrigin_def split: if_splits option.splits simp del: lit_simps)
  have l: "strings_ToLower (lit ''http'') = lit ''http''" "strings_ToLower (lit ''https'') = lit ''https''" by code_simp+
  have "strings_ToLower (URL_Scheme u) = URL_Scheme u" using s l by metis
  moreover have "URL_Scheme u \<in> {lit ''http'', lit ''https''}" using s by blast
  ultimately show ?thesis using x h url_Parse_host [OF u] unfolding exact_origin_def by metis
qed

lemma collect_origins_exact:
  "collect_origins source origins parts = Inr xs \<Longrightarrow> (\<forall>x \<in> set origins. exact_origin x) \<Longrightarrow> distinct origins \<Longrightarrow>
    (\<forall>x \<in> set xs. exact_origin x) \<and> distinct xs"
proof (induction source origins parts rule: collect_origins.induct)
  case (2 source origins part parts)
  show ?case
  proof (cases "TrimRight_slash (strings_TrimSpace part) = []")
    case False
    with 2(3) obtain x where x: "normalizeOrigin source (TrimRight_slash (strings_TrimSpace part)) = Inr x"
      by (auto simp: Let_def split: sum.splits)
    let ?os = "if x \<in> set origins then origins else origins @ [x]"
    have "collect_origins source ?os parts = Inr xs" using 2(3) x False by (simp add: Let_def)
    moreover have "(\<forall>y \<in> set ?os. exact_origin y) \<and> distinct ?os" using normalizeOrigin_exact [OF x] 2(4,5) by simp
    ultimately show ?thesis using 2(2) [OF refl False x] by blast
  qed (use 2 in \<open>simp add: Let_def\<close>)
qed simp

lemma default_origins_exact: "\<forall>x \<in> set (defaultCORSAllowedOrigins name). exact_origin x"
proof -
  have e: "exact_origin (lit ''http://'' @ lit h)" if "lit h = strings_ToLower (lit h)" "h \<noteq> []" "\<forall>c \<in> set (lit h). host_rune c" for h
    using that unfolding exact_origin_def url_rune_def
    by (intro exI [of _ "lit ''http''"] exI [of _ "lit h"]) (auto simp: lit_def)
  have "exact_origin (lit ''http://localhost:5173'')" "exact_origin (lit ''http://127.0.0.1:5173'')"
    "exact_origin (lit ''http://localhost:4173'')" "exact_origin (lit ''http://127.0.0.1:4173'')"
    using e [of "''localhost:5173''"] e [of "''127.0.0.1:5173''"] e [of "''localhost:4173''"] e [of "''127.0.0.1:4173''"] 
    by (simp_all add: host_rune_def is_alnum_def is_digit_def strings_ToLower_def unicode_ToLower_def)
  then show ?thesis by (simp add: defaultCORSAllowedOrigins_def del: lit_simps)
qed

lemma getorigins_exact: "getorigins env name = Inr xs \<Longrightarrow> (\<forall>x \<in> set xs. exact_origin x) \<and> (strings_TrimSpace (fst (corsOriginsValue env)) = [] \<longrightarrow> xs = defaultCORSAllowedOrigins name)"
  using collect_origins_exact [where origins = "[]"] default_origins_exact
  by (auto simp: getorigins_def split: prod.splits if_splits)

lemma Load_origins: "Load env = Inr c \<Longrightarrow> \<forall>x \<in> set (cfg_AllowedOrigins c). exact_origin x"
  using getorigins_exact
  by (fastforce simp: Load_def Let_def loadLokiConfig_def loadObservabilityConfig_def loaded_config_def split: sum.splits if_splits)

text \<open>Loading fails on the origins and on the address of the log server only.\<close>

lemma Load_ok:
  assumes "getorigins env (getenv env ''CALIBER_ENV'' ''dev'') = Inr origins" and "env (lit ''CALIBER_LOKI_URL'') = []"
  shows "Load env = Inr (loadLokiConfig env (loadObservabilityConfig env (loaded_config env origins)))"
proof -
  have "getHTTPAddr env \<noteq> []" by (simp add: getHTTPAddr_def Let_def)
  moreover have "getenv env ''CALIBER_GRPC_ADDR'' '':9090'' \<noteq> []" by (simp add: getenv_def)
  ultimately show ?thesis
    using assms by (simp add: Load_def Let_def loadLokiConfig_def loadObservabilityConfig_def loaded_config_def del: lit_simps)
qed

lemma loaded_fields:
  assumes "Load env = Inr c"
  shows "cfg_Env c = getenv env ''CALIBER_ENV'' ''dev''" and "cfg_DatabaseURL c = env (lit ''CALIBER_DATABASE_URL'')"
    and "cfg_FieldEncryptionKey c = env fieldEncryptionKeyEnv" and "cfg_JWTSecret c = env (lit ''CALIBER_JWT_SECRET'')"
    and "getorigins env (getenv env ''CALIBER_ENV'' ''dev'') = Inr (cfg_AllowedOrigins c)"
  using assms
  by (auto simp: Load_def Let_def loadLokiConfig_def loadObservabilityConfig_def loaded_config_def simp del: lit_simps split: sum.splits if_splits)

end
