(* ===== verification/HTTP_Server.thy ===== *)
theory HTTP_Server
  imports Configuration Access AI_Calls Go_Base64 "HOL-Library.Signed_Division"
begin

section \<open>The HTTP surface\<close>

text \<open>
  \<open>adapters/inbound/httpserver/router.go\<close> and the router of \<open>platform/server\<close>: the middlewares in front of the
  REST gateway, the health checks and the guarded debug pages. A handler writes to a response: headers that
  can still change, and the status and headers that were sent. The gateway, the pages it mounts and the
  middlewares of chi are parameters. The lemmas show what decides the CORS headers of a response.
\<close>

subsection \<open>Requests, responses and handlers\<close>

type_synonym headers = "(gostr \<times> gostr list) list"

record http_request =
  rq_Method :: gostr
  rq_Path :: gostr
  rq_Header :: headers
  rq_Body :: bytes
  rq_limit :: "int option"

record http_response =
  rs_Header :: headers
  rs_sent :: "(int \<times> headers) option"
  rs_Body :: gostr

definition header_values :: "gostr \<Rightarrow> headers \<Rightarrow> gostr list" where
  "header_values k h = (case map_of h k of None \<Rightarrow> [] | Some vs \<Rightarrow> vs)"

definition Header_Get :: "gostr \<Rightarrow> headers \<Rightarrow> gostr" where
  "Header_Get k h = (case header_values k h of [] \<Rightarrow> [] | v # vs \<Rightarrow> v)"

definition Header_Set :: "gostr \<Rightarrow> gostr \<Rightarrow> http_response \<Rightarrow> http_response" where
  "Header_Set k v w = w\<lparr>rs_Header := AList.update k [v] (rs_Header w)\<rparr>"

definition Header_Add :: "gostr \<Rightarrow> gostr \<Rightarrow> http_response \<Rightarrow> http_response" where
  "Header_Add k v w = w\<lparr>rs_Header := AList.update k (header_values k (rs_Header w) @ [v]) (rs_Header w)\<rparr>"

definition Header_Del :: "gostr \<Rightarrow> http_response \<Rightarrow> http_response" where
  "Header_Del k w = w\<lparr>rs_Header := AList.delete k (rs_Header w)\<rparr>"

text \<open>The first status is the one that counts; it takes the headers as they are.\<close>

definition WriteHeader :: "int \<Rightarrow> http_response \<Rightarrow> http_response" where
  "WriteHeader status w = (if rs_sent w = None then w\<lparr>rs_sent := Some (status, rs_Header w)\<rparr> else w)"

definition Write :: "gostr \<Rightarrow> http_response \<Rightarrow> http_response" where
  "Write body w = (WriteHeader 200 w)\<lparr>rs_Body := rs_Body w @ body\<rparr>"

definition http_Error :: "gostr \<Rightarrow> int \<Rightarrow> http_response \<Rightarrow> http_response" where
  "http_Error msg status w = Write (msg @ [10]) (WriteHeader status
     (Header_Set (lit ''X-Content-Type-Options'') (lit ''nosniff'')
       (Header_Set (lit ''Content-Type'') (lit ''text/plain; charset=utf-8'') (Header_Del (lit ''Content-Length'') w))))"

text \<open>The headers of the response when the handler is done.\<close>

definition final_headers :: "http_response \<Rightarrow> headers" where
  "final_headers w = (case rs_sent w of Some (s, h) \<Rightarrow> h | None \<Rightarrow> rs_Header w)"

type_synonym 'w handler = "http_request \<Rightarrow> http_response \<times> 'w \<Rightarrow> http_response \<times> 'w"

definition writes :: "(http_response \<Rightarrow> http_response) \<Rightarrow> 'w handler" where
  "writes f = (\<lambda>r (w, s). (f w, s))"

subsection \<open>Middlewares\<close>

definition maxRequestBodyBytes :: int where "maxRequestBodyBytes = 16 * 2 ^ 20"

definition limitBody :: "int \<Rightarrow> 'w handler \<Rightarrow> 'w handler" where
  "limitBody maxBytes next = (\<lambda>r. next (r\<lparr>rq_limit := Some maxBytes\<rparr>))"

text \<open>Reading a body: an error once it is past the limit.\<close>

definition read_body :: "http_request \<Rightarrow> bytes res" where
  "read_body r = (case rq_limit r of
     Some n \<Rightarrow> if n < int (length (rq_Body r)) then Inl (PlainErr ''http: request body too large'' [] []) else Inr (rq_Body r)
   | None \<Rightarrow> Inr (rq_Body r))"

definition quoted :: "string \<Rightarrow> gostr" where "quoted s = [39] @ lit s @ [39]"

definition secure_headers :: "bool \<Rightarrow> http_response \<Rightarrow> http_response" where
  "secure_headers hsts w =
     (let w = Header_Set (lit ''X-Content-Type-Options'') (lit ''nosniff'') w;
          w = Header_Set (lit ''X-Frame-Options'') (lit ''DENY'') w;
          w = Header_Set (lit ''Referrer-Policy'') (lit ''no-referrer'') w;
          w = Header_Set (lit ''Content-Security-Policy'') (lit ''default-src '' @ quoted ''none'' @ lit ''; frame-ancestors '' @ quoted ''none'') w;
          w = Header_Set (lit ''Permissions-Policy'') (lit ''geolocation=(), microphone=(), camera=()'') w
      in if hsts then Header_Set (lit ''Strict-Transport-Security'') (lit ''max-age=31536000; includeSubDomains'') w else w)"

definition secureHeaders :: "bool \<Rightarrow> 'w handler \<Rightarrow> 'w handler" where
  "secureHeaders hsts next = (\<lambda>r (w, s). next r (secure_headers hsts w, s))"

definition corsAllowedHeaders :: gostr where
  "corsAllowedHeaders = lit ''Authorization, Content-Type, Connect-Protocol-Version, Connect-Timeout, Grpc-Timeout, X-Requested-With''"

definition allowOrigin :: gostr where "allowOrigin = lit ''Access-Control-Allow-Origin''"

definition cors_headers :: "gostr \<Rightarrow> http_response \<Rightarrow> http_response" where
  "cors_headers origin w =
     Header_Set (lit ''Access-Control-Max-Age'') (lit ''600'')
      (Header_Set (lit ''Access-Control-Allow-Headers'') corsAllowedHeaders
       (Header_Set (lit ''Access-Control-Allow-Methods'') (lit ''GET, POST, PUT, PATCH, DELETE, OPTIONS'')
        (Header_Add (lit ''Vary'') (lit ''Origin'') (Header_Set allowOrigin origin w))))"

definition is_preflight :: "http_request \<Rightarrow> bool" where
  "is_preflight r \<longleftrightarrow> rq_Method r = lit ''OPTIONS'' \<and> Header_Get (lit ''Access-Control-Request-Method'') (rq_Header r) \<noteq> []"

definition cors :: "gostr list \<Rightarrow> 'w handler \<Rightarrow> 'w handler" where
  "cors allowedOrigins next = (\<lambda>r (w, s).
     let origin = Header_Get (lit ''Origin'') (rq_Header r);
         w = (if origin \<noteq> [] \<and> origin \<in> set allowedOrigins then cors_headers origin w else w)
     in if is_preflight r then (WriteHeader 204 w, s) else next r (w, s))"

subsection \<open>Health\<close>

definition health :: "gostr \<Rightarrow> 'w handler" where
  "health statusText = writes (\<lambda>w. Write (lit ''{\"status\":\"'' @ statusText @ lit ''\"}'')
     (WriteHeader 200 (Header_Set (lit ''Content-Type'') (lit ''application/json'') w)))"

text \<open>A check that is absent is skipped; the first one that fails answers.\<close>

fun ready :: "('w, unit) io option list \<Rightarrow> 'w handler" where
  "ready [] r p = health (lit ''ready'') r p"
| "ready (None # checks) r p = ready checks r p"
| "ready (Some check # checks) r (w, s) = (case check s of
     (Inl err, s') \<Rightarrow> (Write (lit ''{\"status\":\"not_ready\"}'')
        (WriteHeader 503 (Header_Set (lit ''Content-Type'') (lit ''application/json'') w)), s')
   | (Inr u, s') \<Rightarrow> ready checks r (w, s'))"

subsection \<open>Guarded pages\<close>

definition bearerFromHeader :: "http_request \<Rightarrow> gostr option" where
  "bearerFromHeader r = (let auth = Header_Get (lit ''Authorization'') (rq_Header r)
     in if is_bearer auth then Some (strings_TrimSpace (drop 7 auth)) else None)"

definition Authorize :: "'w TokenService \<Rightarrow> role list \<Rightarrow> 'w handler \<Rightarrow> 'w handler" where
  "Authorize verifier allowed next = (\<lambda>r (w, s).
     case bearerFromHeader r of
       None \<Rightarrow> (http_Error (lit ''{\"error\":\"auth: authentication required\"}'') 401 w, s)
     | Some raw \<Rightarrow> (case VerifyAccess verifier raw s of
         (Inl err, s') \<Rightarrow> (http_Error (lit ''{\"error\":\"auth: invalid or expired access token\"}'') 401 w, s')
       | (Inr pri, s') \<Rightarrow> if Pri_Role pri \<in> set (map Role_String allowed) then next r (w, s')
           else (http_Error (lit ''{\"error\":\"auth: insufficient permissions\"}'') 403 w, s')))"

definition asynqmonCSPHeader :: gostr where
  "asynqmonCSPHeader = lit ''default-src '' @ quoted ''self'' @ lit ''; script-src '' @ quoted ''self'' @ lit '' '' @ quoted ''unsafe-inline'' @
     lit ''; style-src '' @ quoted ''self'' @ lit '' '' @ quoted ''unsafe-inline'' @ lit ''; img-src '' @ quoted ''self'' @
     lit '' data:; connect-src '' @ quoted ''self'' @ lit ''; frame-ancestors '' @ quoted ''none''"

definition withAsynqmonCSP :: "'w handler \<Rightarrow> 'w handler" where
  "withAsynqmonCSP next = (\<lambda>r (w, s). next r (Header_Set (lit ''Content-Security-Policy'') asynqmonCSPHeader w, s))"

definition normalizeMountPath :: "gostr \<Rightarrow> gostr" where
  "normalizeMountPath path =
     (let p = strings_TrimSpace path; p = (if strings_HasPrefix p [47] then p else 47 # p)
      in if last p = 47 then butlast p else p)"

text \<open>The pages under the mounted path; the redirect of the bare path is not modelled.\<close>

definition MountAsynqmon :: "'w TokenService \<Rightarrow> 'w handler \<Rightarrow> 'w handler" where
  "MountAsynqmon verifier handler = Authorize verifier [RoleEmployer, RoleRecruiter] (withAsynqmonCSP handler)"

definition operatorGuard :: "'w TokenService option \<Rightarrow> 'w handler \<Rightarrow> 'w handler" where
  "operatorGuard verifier next = (case verifier of None \<Rightarrow> next
     | Some v \<Rightarrow> Authorize v [RoleEmployer, RoleRecruiter, RoleAdmin] next)"

subsection \<open>The quality page\<close>

record aiQualityOperationResponse =
  qo_Calls :: int
  qo_Failed :: int
  qo_FailureRate :: f64
  qo_JSONFailures :: int
  qo_JSONFailureRate :: f64
  qo_Refusals :: int
  qo_RefusalRate :: f64
  qo_GuardrailTrips :: int
  qo_TripsByCategory :: "(string \<times> int) list"
  qo_P95LatencyMs :: int

record aiQualityResponse =
  qr_TotalCalls :: int
  qr_FailedCalls :: int
  qr_FailureRate :: f64
  qr_JSONFailures :: int
  qr_JSONFailureRate :: f64
  qr_Refusals :: int
  qr_RefusalRate :: f64
  qr_GuardrailTrips :: int
  qr_TripsByCategory :: "(string \<times> int) list"
  qr_P50LatencyMs :: int
  qr_P95LatencyMs :: int
  qr_InputChars :: int
  qr_OutputChars :: int
  qr_ByOperation :: "(gostr \<times> aiQualityOperationResponse) list"

definition Milliseconds :: "duration \<Rightarrow> int" where "Milliseconds d = d sdiv 1000000"

definition operation_response :: "OperationStats \<Rightarrow> aiQualityOperationResponse" where
  "operation_response o' = \<lparr>qo_Calls = Op_Calls o', qo_Failed = Op_Failed o', qo_FailureRate = Op_FailureRate o',
     qo_JSONFailures = Op_JSONFailures o', qo_JSONFailureRate = Op_JSONFailureRate o', qo_Refusals = Op_Refusals o',
     qo_RefusalRate = Op_RefusalRate o', qo_GuardrailTrips = Op_GuardrailTrips o', qo_TripsByCategory = Op_TripsByCategory o',
     qo_P95LatencyMs = Milliseconds (Op_P95Latency o')\<rparr>"

definition aiQualityResponseFrom :: "AIQualityStats \<Rightarrow> aiQualityResponse" where
  "aiQualityResponseFrom s = \<lparr>qr_TotalCalls = TotalCalls s, qr_FailedCalls = FailedCalls s, qr_FailureRate = FailureRate s,
     qr_JSONFailures = JSONFailures s, qr_JSONFailureRate = JSONFailureRate s, qr_Refusals = Refusals s, qr_RefusalRate = RefusalRate s,
     qr_GuardrailTrips = Stats_GuardrailTrips s, qr_TripsByCategory = TripsByCategory s,
     qr_P50LatencyMs = Milliseconds (P50Latency s), qr_P95LatencyMs = Milliseconds (P95Latency s),
     qr_InputChars = InputChars s, qr_OutputChars = OutputChars s,
     qr_ByOperation = map (\<lambda>(op, o'). (op, operation_response o')) (ByOperation s)\<rparr>"

text \<open>\<open>json_Encode\<close> is the encoder applied to the page.\<close>

definition AIQualityMetrics :: "(aiQualityResponse \<Rightarrow> gostr option) \<Rightarrow> ('w \<Rightarrow> AIQualityStats) \<Rightarrow> 'w handler" where
  "AIQualityMetrics json_Encode stats = (\<lambda>r (w, s).
     let w = Header_Set (lit ''Content-Type'') (lit ''application/json'') w
     in case json_Encode (aiQualityResponseFrom (stats s)) of
          Some body \<Rightarrow> (Write body w, s)
        | None \<Rightarrow> (http_Error (lit ''{\"error\":\"metrics encoding failed\"}'') 500 w, s))"

subsection \<open>The router\<close>

text \<open>
  What the API mounts: the gateway, the checks and the optional pages. \<open>rt_chi\<close> is what chi answers where
  nothing is mounted and \<open>rt_recoverer\<close> its recovery from panics; the request id and the log line of a request
  are left out.
\<close>

record 'w mounts =
  rt_gateway :: "'w handler"
  rt_readiness :: "('w, unit) io option list"
  rt_metrics :: "'w handler option"
  rt_aiQuality :: "'w handler option"
  rt_asynqmon :: "'w handler option"
  rt_verifier :: "'w TokenService option"
  rt_chi :: "'w handler"
  rt_recoverer :: "'w handler \<Rightarrow> 'w handler"

text \<open>The routes of \<open>NewRouter\<close> and those that \<open>buildRouter\<close> adds.\<close>

definition routes :: "'w mounts \<Rightarrow> 'w handler" where
  "routes m = (\<lambda>r.
     let get = (rq_Method r = lit ''GET'')
     in if get \<and> rq_Path r = lit ''/healthz'' then health (lit ''ok'') r
        else if get \<and> rq_Path r = lit ''/readyz'' then ready (rt_readiness m) r
        else if strings_HasPrefix (rq_Path r) (lit ''/v1/'') then rt_gateway m r
        else (case (rt_metrics m, get \<and> rq_Path r = lit ''/metrics'') of
            (Some page, True) \<Rightarrow> page r
          | _ \<Rightarrow> (case (rt_aiQuality m, get \<and> rq_Path r = lit ''/debug/ai-quality'') of
              (Some page, True) \<Rightarrow> operatorGuard (rt_verifier m) page r
            | _ \<Rightarrow> (case (rt_asynqmon m, rt_verifier m, strings_HasPrefix (rq_Path r) (lit ''/asynqmon/'')) of
                (Some page, Some v, True) \<Rightarrow> MountAsynqmon v page r
              | _ \<Rightarrow> rt_chi m r))))"

definition NewRouter :: "bool \<Rightarrow> gostr list \<Rightarrow> 'w mounts \<Rightarrow> 'w handler" where
  "NewRouter hsts allowedOrigins m =
     cors allowedOrigins (rt_recoverer m (limitBody maxRequestBodyBytes (secureHeaders hsts (routes m))))"

definition buildRouter :: "AppConfig \<Rightarrow> 'w mounts \<Rightarrow> 'w handler" where
  "buildRouter cfg m = NewRouter (IsProd cfg) (cfg_AllowedOrigins cfg) m"

subsection \<open>Who gets CORS headers\<close>

lemma header_values_Set: "header_values k (rs_Header (Header_Set k' v w)) = (if k = k' then [v] else header_values k (rs_Header w))"
  by (simp add: header_values_def Header_Set_def update_conv')

lemma header_values_Add:
  "header_values k (rs_Header (Header_Add k' v w)) = (if k = k' then header_values k (rs_Header w) @ [v] else header_values k (rs_Header w))"
  by (simp add: header_values_def Header_Add_def update_conv')

lemma header_values_Del: "k \<noteq> k' \<Longrightarrow> header_values k (rs_Header (Header_Del k' w)) = header_values k (rs_Header w)"
  by (simp add: header_values_def Header_Del_def delete_conv')

lemma sent_fields [simp]: "rs_sent (Header_Set k v w) = rs_sent w" "rs_sent (Header_Add k v w) = rs_sent w" "rs_sent (Header_Del k w) = rs_sent w"
  by (simp_all add: Header_Set_def Header_Add_def Header_Del_def)

lemma final_Write: "final_headers (Write b w) = final_headers w" "final_headers (WriteHeader n w) = final_headers w"
  by (simp_all add: final_headers_def Write_def WriteHeader_def split: option.splits)

lemmas header_simps = header_values_Set header_values_Add header_values_Del final_Write

text \<open>A handler that leaves the allowed origin of a response alone.\<close>

definition cors_silent :: "'w handler \<Rightarrow> bool" where
  "cors_silent h \<longleftrightarrow> (\<forall>r w s. rs_sent w = None \<longrightarrow>
     header_values allowOrigin (final_headers (fst (h r (w, s)))) = header_values allowOrigin (rs_Header w))"

lemma cors_silentI:
  "(\<And>r w s. rs_sent w = None \<Longrightarrow> header_values allowOrigin (final_headers (fst (h r (w, s)))) = header_values allowOrigin (rs_Header w)) \<Longrightarrow>
    cors_silent h"
  by (simp add: cors_silent_def)

lemma cors_silentD: "cors_silent h \<Longrightarrow> rs_sent w = None \<Longrightarrow>
    header_values allowOrigin (final_headers (fst (h r (w, s)))) = header_values allowOrigin (rs_Header w)"
  by (simp add: cors_silent_def)

lemma other_headers:
  "allowOrigin \<noteq> lit ''X-Content-Type-Options''" "allowOrigin \<noteq> lit ''X-Frame-Options''" "allowOrigin \<noteq> lit ''Referrer-Policy''"
  "allowOrigin \<noteq> lit ''Content-Security-Policy''" "allowOrigin \<noteq> lit ''Permissions-Policy''" "allowOrigin \<noteq> lit ''Strict-Transport-Security''"
  "allowOrigin \<noteq> lit ''Content-Type''" "allowOrigin \<noteq> lit ''Content-Length''" "allowOrigin \<noteq> lit ''Vary''"
  "allowOrigin \<noteq> lit ''Access-Control-Allow-Methods''" "allowOrigin \<noteq> lit ''Access-Control-Allow-Headers''"
  "allowOrigin \<noteq> lit ''Access-Control-Max-Age''"
  by (simp_all add: allowOrigin_def)

lemma final_unsent: "rs_sent w = None \<Longrightarrow> final_headers w = rs_Header w"
  by (simp add: final_headers_def)

lemma Error_silent: "rs_sent w = None \<Longrightarrow> header_values allowOrigin (final_headers (http_Error m n w)) = header_values allowOrigin (rs_Header w)"
  by (simp add: http_Error_def final_Write final_unsent header_simps other_headers del: lit_simps)

lemma health_silent: "cors_silent (health t)"
  by (rule cors_silentI) (simp add: health_def writes_def final_Write final_unsent header_simps other_headers del: lit_simps)

lemma ready_silent: "cors_silent (ready checks)"
proof (rule cors_silentI)
  fix r w s
  show "rs_sent w = None \<Longrightarrow> header_values allowOrigin (final_headers (fst (ready checks r (w, s)))) = header_values allowOrigin (rs_Header w)"
  proof (induction checks r "(w, s)" arbitrary: s rule: ready.induct)
    case (1 r)
    then show ?case by (simp add: cors_silentD [OF health_silent] del: lit_simps)
  next
    case (3 check checks r s)
    obtain c s' where c: "check s = (c, s')" by fastforce
    show ?case
    proof (cases c)
      case (Inl err)
      with 3 c show ?thesis by (simp add: final_Write final_unsent header_simps other_headers del: lit_simps)
    next
      case (Inr u)
      with 3 c show ?thesis by simp
    qed
  qed simp
qed

lemma Authorize_silent: "cors_silent h \<Longrightarrow> cors_silent (Authorize v allowed h)"
  by (rule cors_silentI)
    (auto simp: cors_silent_def Authorize_def Error_silent simp del: lit_simps split: option.splits sum.splits prod.splits)

lemma asynqmon_silent: "cors_silent h \<Longrightarrow> cors_silent (MountAsynqmon v h)"
  unfolding MountAsynqmon_def
  by (rule Authorize_silent, rule cors_silentI)
    (simp add: cors_silent_def withAsynqmonCSP_def header_simps other_headers del: lit_simps)

lemma operatorGuard_silent: "cors_silent h \<Longrightarrow> cors_silent (operatorGuard v h)"
  by (simp add: operatorGuard_def Authorize_silent split: option.splits)

text \<open>What the mounted pages and chi owe: they set no allowed origin.\<close>

definition mounts_silent :: "'w mounts \<Rightarrow> bool" where
  "mounts_silent m \<longleftrightarrow> cors_silent (rt_gateway m) \<and> cors_silent (rt_chi m) \<and> pred_option cors_silent (rt_metrics m) \<and>
     pred_option cors_silent (rt_aiQuality m) \<and> pred_option cors_silent (rt_asynqmon m) \<and>
     (\<forall>h. cors_silent h \<longrightarrow> cors_silent (rt_recoverer m h))"

definition silent_at :: "(http_response \<times> 'w \<Rightarrow> http_response \<times> 'w) \<Rightarrow> bool" where
  "silent_at g \<longleftrightarrow> (\<forall>w s. rs_sent w = None \<longrightarrow>
     header_values allowOrigin (final_headers (fst (g (w, s)))) = header_values allowOrigin (rs_Header w))"

lemma cors_silent_iff: "cors_silent h \<longleftrightarrow> (\<forall>r. silent_at (h r))"
  by (simp add: cors_silent_def silent_at_def)

lemma routes_silent:
  fixes m :: "'w mounts"
  assumes "mounts_silent m"
  shows "cors_silent (routes m)"
proof -
  note m = assms [unfolded mounts_silent_def]
  have pages: "\<And>p. rt_metrics m = Some p \<Longrightarrow> cors_silent p" "\<And>p. rt_aiQuality m = Some p \<Longrightarrow> cors_silent p"
    "\<And>p. rt_asynqmon m = Some p \<Longrightarrow> cors_silent p" using m by simp_all
  have "silent_at (routes m r)" for r
  proof -
    have parts: "silent_at ((health t :: 'w handler) r)" "silent_at ((ready cs :: 'w handler) r)" "silent_at (rt_gateway m r)" "silent_at (rt_chi m r)" for t cs
      using m health_silent ready_silent cors_silent_iff by blast+
    have guarded: "silent_at (operatorGuard v page r)" "silent_at (MountAsynqmon v' page r)" if "cors_silent page"
      for v :: "'w TokenService option" and v' page
      using operatorGuard_silent [OF that] asynqmon_silent [OF that] cors_silent_iff by blast+
    have at_r: "silent_at (h r)" if "cors_silent h" for h :: "'w handler" using that cors_silent_iff by blast
    show ?thesis
      using pages parts guarded by (auto simp: at_r routes_def Let_def simp del: lit_simps split: option.split bool.split)
  qed
  then show ?thesis by (simp add: cors_silent_iff)
qed

lemma secured_silent: "cors_silent h \<Longrightarrow> cors_silent (limitBody n (secureHeaders hsts h))"
  by (rule cors_silentI)
    (simp add: limitBody_def secureHeaders_def secure_headers_def Let_def cors_silentD header_simps other_headers del: lit_simps)

definition fresh_response :: http_response where "fresh_response = \<lparr>rs_Header = [], rs_sent = None, rs_Body = []\<rparr>"

lemma exact_origin_named: "exact_origin x \<Longrightarrow> x \<noteq> lit ''*'' \<and> x \<noteq> lit ''null'' \<and> x \<noteq> []"
  by (auto simp: exact_origin_def)

text \<open>
  C38: CORS headers go to the configured origins only. Whatever is mounted, a response of the router names an
  allowed origin exactly when the request comes from an origin of the configuration, and then it names that
  very origin: an exact http or https origin, never a wildcard or the null origin. A preflight is answered
  with 204 whoever asks, and nothing behind the policy runs.
\<close>

theorem cors_exact:
  assumes "Load env = Inr cfg" and "mounts_silent m"
    and "buildRouter cfg m r (fresh_response, s) = (w, s')" and "origin = Header_Get (lit ''Origin'') (rq_Header r)"
  shows "header_values allowOrigin (final_headers w) = (if origin \<in> set (cfg_AllowedOrigins cfg) then [origin] else []) \<and>
    (header_values allowOrigin (final_headers w) \<noteq> [] \<longrightarrow> exact_origin origin \<and> origin \<noteq> lit ''*'' \<and> origin \<noteq> lit ''null'') \<and>
    (is_preflight r \<longrightarrow> map_option fst (rs_sent w) = Some 204 \<and> s' = s)"
proof -
  let ?next = "rt_recoverer m (limitBody maxRequestBodyBytes (secureHeaders (IsProd cfg) (routes m)))"
  let ?ok = "origin \<in> set (cfg_AllowedOrigins cfg)"
  let ?w = "if ?ok then cors_headers origin fresh_response else fresh_response"
  have ex: "\<forall>x \<in> set (cfg_AllowedOrigins cfg). exact_origin x" by (rule Load_origins [OF assms(1)])
  then have "origin \<noteq> []" if ?ok using exact_origin_named that by blast
  then have run: "(w, s') = (if is_preflight r then (WriteHeader 204 ?w, s) else ?next r (?w, s))"
    using assms(3,4) by (auto simp: buildRouter_def NewRouter_def cors_def Let_def split: if_splits)
  have silent: "cors_silent ?next" using assms(2) secured_silent [OF routes_silent [OF assms(2)]] by (simp add: mounts_silent_def)
  have sent: "rs_sent ?w = None" by (simp add: cors_headers_def fresh_response_def)
  have vals: "header_values allowOrigin (rs_Header ?w) = (if ?ok then [origin] else [])"
    by (simp add: cors_headers_def header_simps other_headers fresh_response_def header_values_def [of _ "[]"] del: lit_simps)
  have "header_values allowOrigin (final_headers w) = (if ?ok then [origin] else [])"
    using run vals cors_silentD [OF silent sent, of r s] final_unsent [OF sent]
    by (cases "is_preflight r") (simp_all add: final_Write, metis fst_conv)
  moreover have "map_option fst (rs_sent w) = Some 204 \<and> s' = s" if "is_preflight r"
    using run that sent by (simp add: WriteHeader_def)
  ultimately show ?thesis using ex exact_origin_named [of origin] by (auto simp del: lit_simps)
qed

definition sample_mounts :: "unit mounts" where
  "sample_mounts = \<lparr>rt_gateway = health (lit ''gateway''), rt_readiness = [], rt_metrics = None, rt_aiQuality = None, rt_asynqmon = None,
     rt_verifier = None, rt_chi = health (lit ''chi''), rt_recoverer = id\<rparr>"

definition sample_rq :: "gostr \<Rightarrow> http_request" where
  "sample_rq origin = \<lparr>rq_Method = lit ''GET'', rq_Path = lit ''/v1/roles'', rq_Header = [(lit ''Origin'', [origin])], rq_Body = [], rq_limit = None\<rparr>"

lemma cors_exact_witness:
  "\<exists>cfg. Load (\<lambda>k. []) = Inr cfg \<and>
     header_values allowOrigin (final_headers (fst (buildRouter cfg sample_mounts (sample_rq (lit ''http://localhost:5173'')) (fresh_response, ())))) =
       [lit ''http://localhost:5173''] \<and>
     header_values allowOrigin (final_headers (fst (buildRouter cfg sample_mounts (sample_rq (lit ''http://evil.example'')) (fresh_response, ())))) = []"
proof -
  let ?env = "\<lambda>k. [] :: gostr" and ?o = "lit ''http://localhost:5173''" and ?e = "lit ''http://evil.example''"
  have origins: "getorigins ?env (getenv ?env ''CALIBER_ENV'' ''dev'') = Inr (defaultCORSAllowedOrigins (lit ''dev''))"
    by (simp add: getorigins_def corsOriginsValue_def getenv_def strings_TrimSpace_def del: lit_simps)
  let ?cfg = "loadLokiConfig ?env (loadObservabilityConfig ?env (loaded_config ?env (defaultCORSAllowedOrigins (lit ''dev''))))"
  have load: "Load ?env = Inr ?cfg" by (rule Load_ok [OF origins refl])
  have allowed: "cfg_AllowedOrigins ?cfg = defaultCORSAllowedOrigins (lit ''dev'')"
    using loaded_fields(5) [OF load] origins by simp
  have mem: "?o \<in> set (cfg_AllowedOrigins ?cfg)" "?e \<notin> set (cfg_AllowedOrigins ?cfg)"
    unfolding allowed by code_simp+
  have silent: "mounts_silent sample_mounts" by (simp add: mounts_silent_def sample_mounts_def health_silent del: lit_simps)
  have get: "Header_Get (lit ''Origin'') (rq_Header (sample_rq x)) = x" for x
    by (simp add: Header_Get_def header_values_def sample_rq_def del: lit_simps)
  have "header_values allowOrigin (final_headers (fst (buildRouter ?cfg sample_mounts (sample_rq x) (fresh_response, ())))) =
      (if x \<in> set (cfg_AllowedOrigins ?cfg) then [x] else [])" for x
    using cors_exact [OF load silent prod.collapse [symmetric] refl, where r = "sample_rq x" and s = "()"] by (simp only: get)
  with load mem show ?thesis by auto
qed

text \<open>The debug page lets administrators in, the queue monitor does not.\<close>

lemma operator_roles_differ:
  assumes "bearerFromHeader r = Some raw" and "VerifyAccess v raw s = (Inr pri, s')" and "Pri_Role pri = Role_String RoleAdmin"
  shows "operatorGuard (Some v) page r (w, s) = page r (w, s')" and "MountAsynqmon v page r (w, s) = (http_Error (lit ''{\"error\":\"auth: insufficient permissions\"}'') 403 w, s')"
proof -
  have "lit ''admin'' \<noteq> lit ''employer''" "lit ''admin'' \<noteq> lit ''recruiter''" by simp_all
  then show "operatorGuard (Some v) page r (w, s) = page r (w, s')"
    "MountAsynqmon v page r (w, s) = (http_Error (lit ''{\"error\":\"auth: insufficient permissions\"}'') 403 w, s')"
    using assms by (simp_all add: operatorGuard_def MountAsynqmon_def Authorize_def del: lit_simps)
qed

text \<open>A body is read whole or not at all.\<close>

lemma body_limited: "read_body (r\<lparr>rq_limit := Some maxRequestBodyBytes\<rparr>) = Inr b \<Longrightarrow> b = rq_Body r \<and> int (length b) \<le> 16777216"
  by (auto simp: read_body_def maxRequestBodyBytes_def split: if_splits)

end
