(* ===== verification/Wiring.thy ===== *)
theory Wiring
  imports Configuration Field_Cipher Privacy
begin

section \<open>Wiring\<close>

text \<open>
  \<open>platform/wiring\<close>: the choice of the stores with their field cipher, the limits of the model client, and the
  command that encrypts every row again. Connecting to the database is a parameter that may fail. The lemmas
  show that the paging loop of the re-encryption visits every row.
\<close>

subsection \<open>Stores and limits\<close>

definition bytes_of :: "gostr \<Rightarrow> bytes" where "bytes_of s = map word_of_int (utf8_encode s)"

text \<open>Where a repository keeps its records: in the process, or in PostgreSQL, with a field cipher or without.\<close>

datatype store_kind = InMemory | Postgres "FieldCipher option"

record Repositories =
  Rp_Roles :: store_kind
  Rp_Users :: store_kind
  Rp_Refresh :: store_kind
  Rp_Candidates :: store_kind
  Rp_Profiles :: store_kind
  Rp_Apps :: store_kind
  Rp_Interviews :: store_kind
  Rp_Matches :: store_kind

record outside =
  out_iter :: "(gostr \<times> gostr) list \<Rightarrow> (gostr \<times> gostr) list"
  out_gcm :: "bytes \<Rightarrow> aead"
  out_pg :: "gostr \<Rightarrow> unit res"
  out_queue :: "gostr \<Rightarrow> unit res"
  out_monitor :: "gostr \<Rightarrow> unit res"
  out_worker_redis :: "gostr \<Rightarrow> unit res"
  out_worker_start :: "AppConfig \<Rightarrow> unit res"
  out_schedule :: "gostr \<Rightarrow> unit res"
  out_rand :: "nat \<Rightarrow> bytes res"
  out_logging :: "AppConfig \<Rightarrow> unit res"
  out_telemetry :: "AppConfig \<Rightarrow> unit res"

definition openRepositories :: "outside \<Rightarrow> AppConfig \<Rightarrow> Repositories res" where
  "openRepositories o' cfg =
     (if cfg_DatabaseURL cfg = []
      then Inr \<lparr>Rp_Roles = InMemory, Rp_Users = InMemory, Rp_Refresh = InMemory, Rp_Candidates = InMemory,
        Rp_Profiles = InMemory, Rp_Apps = InMemory, Rp_Interviews = InMemory, Rp_Matches = InMemory\<rparr>
      else res_bind (out_pg o' (cfg_DatabaseURL cfg)) (\<lambda>pool.
        res_bind (NewFieldCipher (out_gcm o') (bytes_of (cfg_FieldEncryptionKey cfg)) (map bytes_of (cfg_FieldEncryptionKeyPrevious cfg)))
          (\<lambda>fieldCipher. Inr \<lparr>Rp_Roles = Postgres None, Rp_Users = Postgres None, Rp_Refresh = Postgres None,
             Rp_Candidates = Postgres (Some fieldCipher), Rp_Profiles = Postgres (Some fieldCipher), Rp_Apps = Postgres None,
             Rp_Interviews = Postgres (Some fieldCipher), Rp_Matches = Postgres (Some fieldCipher)\<rparr>)))"

definition llmMaxTokensCap :: int where "llmMaxTokensCap = 4096"
definition llmMaxConcurrency :: int where "llmMaxConcurrency = 8"
definition llmRatePerSecond :: f64 where "llmRatePerSecond = Fin 20"
definition llmRateBurst :: int where "llmRateBurst = 40"

definition effectiveLLMGuard :: "AppConfig \<Rightarrow> int \<times> int \<times> int \<times> f64" where
  "effectiveLLMGuard cfg =
     (if cfg_LLMMaxTokens cfg \<le> 0 then llmMaxTokensCap else cfg_LLMMaxTokens cfg,
      if cfg_LLMMaxConcurrency cfg \<le> 0 then llmMaxConcurrency else cfg_LLMMaxConcurrency cfg,
      if cfg_LLMRateBurst cfg \<le> 0 then llmRateBurst else cfg_LLMRateBurst cfg,
      if fle (cfg_LLMRatePerSecond cfg) (Fin 0) then llmRatePerSecond else cfg_LLMRatePerSecond cfg)"

definition modelLabel :: "AppConfig \<Rightarrow> gostr" where
  "modelLabel cfg = (if cfg_AnthropicAPIKey cfg \<noteq> [] \<or> cfg_AnthropicAuthToken cfg \<noteq> [] then cfg_AnthropicModel cfg else lit ''dev'')"

subsection \<open>Encrypting again\<close>

text \<open>
  \<open>eachPage\<close> counts the rows it was handed. A body is a step that may not end either: it may page itself.
\<close>

type_synonym ('w, 'a) run = "'w \<Rightarrow> ('a res \<times> 'w) option"

definition run_io :: "('w, 'a) io \<Rightarrow> ('w, 'a) run" where "run_io m = (\<lambda>w. Some (m w))"

definition run_bind :: "('w, 'a) run \<Rightarrow> ('a \<Rightarrow> ('w, 'b) run) \<Rightarrow> ('w, 'b) run" where
  "run_bind m f = (\<lambda>w. case m w of None \<Rightarrow> None | Some (Inl e, w') \<Rightarrow> Some (Inl e, w') | Some (Inr a, w') \<Rightarrow> f a w')"

text \<open>\<open>fmt.Errorf\<close> with \<open>%w\<close> around the error of a run.\<close>

definition run_wrap :: "string \<Rightarrow> fmtarg list \<Rightarrow> ('w, 'a) run \<Rightarrow> ('w, 'a) run" where
  "run_wrap fmt args m = (\<lambda>w. map_option (\<lambda>(r, w'). (map_sum (\<lambda>e. PlainErr fmt args [e]) id r, w')) (m w))"

fun each_item :: "('a \<Rightarrow> ('w, unit) run) \<Rightarrow> 'a list \<Rightarrow> ('w, unit) run" where
  "each_item fn [] = run_io (io_ret ())"
| "each_item fn (x # xs) = run_bind (fn x) (\<lambda>u. each_item fn xs)"

partial_function (option) each_page_from ::
    "int \<Rightarrow> (Page \<Rightarrow> ('w, 'a list \<times> int) io) \<Rightarrow> ('a \<Rightarrow> ('w, unit) run) \<Rightarrow> int \<Rightarrow> int \<Rightarrow> 'w \<Rightarrow> (unit res \<times> 'w) option" where
  "each_page_from pageSize list fn page processed w =
     (case list (NewPage page pageSize) w of
        (Inl err, w') \<Rightarrow> Some (Inl err, w')
      | (Inr (items, tot), w') \<Rightarrow> (case each_item fn items w' of
            None \<Rightarrow> None
          | Some (Inl err, w'') \<Rightarrow> Some (Inl err, w'')
          | Some (Inr u, w'') \<Rightarrow>
              if items = [] \<or> tot \<le> processed + int (length items) then Some (Inr (), w'')
              else each_page_from pageSize list fn (page + 1) (processed + int (length items)) w''))"

definition eachPage :: "int \<Rightarrow> (Page \<Rightarrow> ('w, 'a list \<times> int) io) \<Rightarrow> ('a \<Rightarrow> ('w, unit) run) \<Rightarrow> ('w, unit) run" where
  "eachPage pageSize list fn = each_page_from pageSize list fn 1 0"

definition reencryptPageSize :: int where "reencryptPageSize = MaxPageSize"

record ReencryptResult =
  Re_Candidates :: int
  Re_Profiles :: int
  Re_Interviews :: int
  Re_Matches :: int

text \<open>The ports work on the world beside the counters.\<close>

abbreviation "on_world m \<equiv> on_part fst (\<lambda>s (w, res). (s, res)) m"
abbreviation "counted f \<equiv> io_do (\<lambda>(w, res). (w, f res))"

record 'w reencrypt_ports =
  re_candidates :: "'w CandidateRepository"
  re_profiles :: "'w TalentProfileRepository"
  re_interviews :: "'w InterviewRepository"
  re_matches :: "'w MatchRepository"

definition reencrypt_candidate :: "'w reencrypt_ports \<Rightarrow> Candidate \<Rightarrow> ('w \<times> ReencryptResult, unit) run" where
  "reencrypt_candidate p c =
     run_bind (run_wrap ''reencrypt: candidate %s: %w'' [AStr (Cand_ID c)] (run_io (on_world (Candidates_Update (re_candidates p) c)))) (\<lambda>u.
     run_bind (run_io (counted (\<lambda>r. r\<lparr>Re_Candidates := Re_Candidates r + 1\<rparr>))) (\<lambda>u.
     run_bind (run_wrap ''reencrypt: interviews for candidate %s: %w'' [AStr (Cand_ID c)]
       (eachPage reencryptPageSize (\<lambda>page. on_world (Interviews_ByCandidate (re_interviews p) (Cand_ID c) page))
         (\<lambda>iv. run_io (io_bind (counted (\<lambda>r. r\<lparr>Re_Interviews := Re_Interviews r + 1\<rparr>)) (\<lambda>u. on_world (Interviews_Update (re_interviews p) iv)))))) (\<lambda>u.
     eachPage reencryptPageSize (\<lambda>page. on_world (Matches_ForCandidate (re_matches p) (Cand_ID c) page))
       (\<lambda>m. run_io (io_bind (counted (\<lambda>r. r\<lparr>Re_Matches := Re_Matches r + 1\<rparr>)) (\<lambda>u. on_world (Matches_Upsert (re_matches p) m)))))))"

definition reencryptCandidates :: "'w reencrypt_ports \<Rightarrow> ('w \<times> ReencryptResult, unit) run" where
  "reencryptCandidates p = eachPage reencryptPageSize (\<lambda>page. on_world (Candidates_List (re_candidates p) page)) (reencrypt_candidate p)"

text \<open>\<open>open_repos\<close> opens the stores in PostgreSQL.\<close>

definition Reencrypt :: "(AppConfig \<Rightarrow> 'w reencrypt_ports res) \<Rightarrow> AppConfig \<Rightarrow> ('w \<times> ReencryptResult, unit) run" where
  "Reencrypt open_repos cfg =
     (if cfg_DatabaseURL cfg = [] then run_io (io_fail (PlainErr ''reencrypt: CALIBER_DATABASE_URL is required'' [] []))
      else if blank (cfg_FieldEncryptionKey cfg)
      then run_io (io_fail (PlainErr ''reencrypt: refusing to run without CALIBER_FIELD_ENCRYPTION_KEY'' [] []))
      else run_bind (run_io (io_lift (open_repos cfg))) (\<lambda>p.
        run_bind (reencryptCandidates p) (\<lambda>u.
        run_wrap ''reencrypt: talent profiles: %w'' []
          (eachPage reencryptPageSize (\<lambda>page. on_world (Profiles_List (re_profiles p) page))
            (\<lambda>x. run_io (io_bind (counted (\<lambda>r. r\<lparr>Re_Profiles := Re_Profiles r + 1\<rparr>)) (\<lambda>u. on_world (Profiles_Update (re_profiles p) x))))))))"

subsection \<open>Every row once\<close>

lemma run_bind_assoc: "run_bind (run_bind m f) g w = run_bind m (\<lambda>x. run_bind (f x) g) w"
  by (simp add: run_bind_def split: option.splits sum.splits prod.splits)

lemma each_item_append: "each_item fn (xs @ ys) w = run_bind (each_item fn xs) (\<lambda>u. each_item fn ys) w"
proof (induction xs arbitrary: w)
  case (Cons x xs)
  then show ?case by (simp add: run_bind_assoc) (simp add: run_bind_def split: option.splits sum.splits prod.splits)
qed (simp add: run_bind_def run_io_def io_ret_def)

lemma each_item_inv:
  assumes "\<And>x w u w'. x \<in> set xs \<Longrightarrow> I w \<Longrightarrow> fn x w = Some (Inr u, w') \<Longrightarrow> I w'"
  shows "I w \<Longrightarrow> each_item fn xs w = Some (Inr u, w') \<Longrightarrow> I w'"
  using assms
proof (induction xs arbitrary: w)
  case (Cons x xs)
  from Cons.prems(2) obtain v w1 where "fn x w = Some (Inr v, w1)" "each_item fn xs w1 = Some (Inr u, w')"
    by (auto simp: run_bind_def split: option.splits sum.splits)
  then show ?case using Cons.IH [of w1] Cons.prems(1,3) by (meson list.set_intros)
qed (simp add: run_io_def io_ret_def)

lemma page_count:
  "0 \<le> a \<Longrightarrow> 1 \<le> sz \<Longrightarrow> a \<le> int (length xs) \<Longrightarrow>
    a + int (length (take (nat sz) (drop (nat a) xs))) = min (int (length xs)) (a + sz)"
  by (auto simp: min_def)

lemma each_page_from_all:
  assumes "\<And>w. I w \<Longrightarrow> serves list w xs" and "\<And>x w u w'. x \<in> set xs \<Longrightarrow> I w \<Longrightarrow> fn x w = Some (Inr u, w') \<Longrightarrow> I w'"
    and "int (length xs) < 2 ^ 31" and "sz = Size (NewPage 1 pageSize)"
  shows "I w \<Longrightarrow> 1 \<le> page \<Longrightarrow> page \<le> int (length xs) + 1 \<Longrightarrow> page = 1 \<or> (page - 1) * sz < int (length xs) \<Longrightarrow>
    each_page_from pageSize list fn page ((page - 1) * sz) w = each_item fn (drop (nat ((page - 1) * sz)) xs) w"
proof (induction "nat (int (length xs) - (page - 1) * sz)" arbitrary: page w rule: less_induct)
  case less
  let ?start = "nat ((page - 1) * sz)" and ?n = "int (length xs)"
  let ?items = "take (nat sz) (drop ?start xs)"
  have sz: "1 \<le> sz" "sz \<le> 100" by (simp_all add: assms(4) NewPage_def DefaultPageSize_def MaxPageSize_def)
  have np: "NewPage page pageSize = \<lparr>Number = page, Size = sz\<rparr>" using less.prems(2) by (simp add: assms(4) NewPage_def)
  have "page_ok \<lparr>Number = page, Size = sz\<rparr>" using less.prems(2,3) sz assms(3) by (simp add: page_ok_def MaxPageSize_def)
  then have rd: "list (NewPage page pageSize) w = (Inr (?items, ?n), w)"
    using assms(1) [OF less.prems(1)] by (simp add: serves_def np)
  have next_start: "nat ((page + 1 - 1) * sz) = nat sz + ?start"
    using less.prems(2) sz by (simp add: nat_add_distrib [symmetric] algebra_simps)
  then have split: "drop ?start xs = ?items @ drop (nat ((page + 1 - 1) * sz)) xs"
    by (metis append_take_drop_id drop_drop)
  let ?more = "drop (nat ((page + 1 - 1) * sz)) xs"
  have all: "each_item fn (drop ?start xs) w = run_bind (each_item fn ?items) (\<lambda>u. each_item fn ?more) w"
    by (metis each_item_append split)
  have count: "(page - 1) * sz + int (length ?items) = min ?n ((page + 1 - 1) * sz)" if "(page - 1) * sz \<le> ?n"
    using page_count [OF _ sz(1) that] less.prems(2) sz by (simp add: algebra_simps)
  have reach: "(page - 1) * sz \<le> ?n" using less.prems(4) by auto
  show ?case
  proof (cases "each_item fn ?items w")
    case None
    then show ?thesis by (subst each_page_from.simps) (simp add: rd all run_bind_def)
  next
    case (Some p)
    obtain r w' where p: "p = (r, w')" by fastforce
    show ?thesis
    proof (cases r)
      case (Inl err)
      then show ?thesis using Some p by (subst each_page_from.simps) (simp add: rd all run_bind_def)
    next
      case (Inr u)
      have I: "I w'"
      proof (rule each_item_inv [where I = I and fn = fn and xs = ?items and w = w and u = u])
        show "each_item fn ?items w = Some (Inr u, w')" using Some p Inr by simp
      qed (use assms(2) less.prems(1) in_set_takeD in_set_dropD in \<open>fast+\<close>)
      have step: "each_page_from pageSize list fn page ((page - 1) * sz) w =
          (if ?items = [] \<or> ?n \<le> (page - 1) * sz + int (length ?items) then Some (Inr (), w')
           else each_page_from pageSize list fn (page + 1) ((page - 1) * sz + int (length ?items)) w')"
        using Some p Inr by (subst each_page_from.simps) (simp only: rd prod.case sum.case option.case)
      have rest: "each_item fn (drop ?start xs) w = each_item fn ?more w'" using Some p Inr by (simp add: all run_bind_def)
      show ?thesis
      proof (cases "(page + 1 - 1) * sz < ?n")
        case False
        then have "drop (nat ((page + 1 - 1) * sz)) xs = []" by simp
        then have "each_item fn (drop ?start xs) w = Some (Inr (), w')" using rest by (simp add: run_io_def io_ret_def)
        moreover have "?n \<le> (page - 1) * sz + int (length ?items)" using count [OF reach] False by simp
        then have "each_page_from pageSize list fn page ((page - 1) * sz) w = Some (Inr (), w')"
          using step by (simp only: simp_thms if_True)
        ultimately show ?thesis by simp
      next
        case True
        have "?items \<noteq> []" using True less.prems(2) sz reach count [OF reach] by (auto simp: algebra_simps)
        then have no: "\<not> (?items = [] \<or> ?n \<le> (page + 1 - 1) * sz)" using True by (simp only: simp_thms not_le)
        have c: "(page - 1) * sz + int (length ?items) = (page + 1 - 1) * sz"
          using count [OF reach] True by (simp only: min_absorb2 less_imp_le)
        note step [unfolded c if_not_P [OF no]]
        moreover have "each_page_from pageSize list fn (page + 1) ((page + 1 - 1) * sz) w' =
            each_item fn (drop (nat ((page + 1 - 1) * sz)) xs) w'"
        proof (rule less.hyps)
          show "nat (?n - (page + 1 - 1) * sz) < nat (?n - (page - 1) * sz)" using True sz by (simp add: algebra_simps)
          have "page * 1 \<le> page * sz" using less.prems(2) sz by (intro mult_left_mono) simp_all
          then show "page + 1 \<le> ?n + 1" using True by simp
        qed (use I True less.prems(2) in simp_all)
        ultimately show ?thesis using rest by (simp only:)
      qed
    qed
  qed
qed

text \<open>
  C39: Paging visits every row once, in order. Over a listing that stays the same while its rows are rewritten,
  \<open>eachPage\<close> is the plain iteration over the whole listing, whatever page size was asked for and however the
  page layer clamps it: it ends, no row of a later page is skipped and none is visited twice, and the first
  error stops it there.
\<close>

theorem eachPage_visits_all:
  assumes "\<And>w. I w \<Longrightarrow> serves list w xs" and "\<And>x w u w'. x \<in> set xs \<Longrightarrow> I w \<Longrightarrow> fn x w = Some (Inr u, w') \<Longrightarrow> I w'"
    and "int (length xs) < 2 ^ 31" and "I w"
  shows "eachPage pageSize list fn w = each_item fn xs w"
proof -
  let ?sz = "Size (NewPage 1 pageSize)"
  have "each_page_from pageSize list fn 1 ((1 - 1) * ?sz) w = each_item fn (drop (nat ((1 - 1) * ?sz)) xs) w"
    by (rule each_page_from_all [where I = I]) (use assms in auto)
  then show ?thesis by (simp add: eachPage_def)
qed

definition sample_lister :: "int list \<Rightarrow> Page \<Rightarrow> (int list, int list \<times> int) io" where
  "sample_lister xs p = io_ret (take (nat (Size p)) (drop (nat ((Number p - 1) * Size p)) xs), int (length xs))"

lemma eachPage_visits_all_witness:
  "eachPage 2 (sample_lister [7, 8, 9, 10, 11]) (\<lambda>x w. Some (Inr (), w @ [x])) [] = Some (Inr (), [7, 8, 9, 10, 11])"
proof -
  have "eachPage 2 (sample_lister [7, 8, 9, 10, 11]) (\<lambda>x w. Some (Inr (), w @ [x])) [] =
      each_item (\<lambda>x w. Some (Inr (), w @ [x])) [7, 8, 9, 10, 11] []"
    by (rule eachPage_visits_all [where I = "\<lambda>w. True"]) (simp_all add: serves_def sample_lister_def io_ret_def)
  then show ?thesis by (simp add: run_bind_def run_io_def io_ret_def)
qed

end
