(* ===== verification/Startup.thy ===== *)
theory Startup
  imports Wiring Jwt
begin

section \<open>Starting the processes\<close>

text \<open>
  What \<open>cmd/api\<close> and \<open>cmd/worker\<close> decide before they serve: \<open>run\<close>, \<open>buildServices\<close>, \<open>buildTokenService\<close>,
  \<open>runWorker\<close> and the schedule of the retention sweep. The queue, the log and the telemetry are parameters that
  may fail. The lemmas show what a process that serves in production has.
\<close>

subsection \<open>Tokens\<close>

definition hex_text :: "bytes \<Rightarrow> gostr" where
  "hex_text bs = concat (map (\<lambda>b. let n = uint b; h = (\<lambda>d. if d < 10 then 48 + d else 87 + d) in [h (n div 16), h (n mod 16)]) bs)"

definition buildTokenService :: "outside \<Rightarrow> AppConfig \<Rightarrow> JWTConfig res" where
  "buildTokenService o' cfg =
     res_bind
       (if byte_len (cfg_JWTSecret cfg) < 32 then
          if IsProd cfg then Inl (PlainErr ''CALIBER_JWT_SECRET must be at least 32 bytes in production'' [] [])
          else res_bind (out_rand o' 32) (\<lambda>ephemeral. Inr (hex_text ephemeral))
        else Inr (cfg_JWTSecret cfg))
       (\<lambda>secret. NewJWTService \<lparr>Secret = secret, Issuer = cfg_JWTIssuer cfg, Audience = cfg_JWTAudience cfg,
          AccessTTL = cfg_AccessTokenTTL cfg, RefreshTTL = cfg_RefreshTokenTTL cfg\<rparr>)"

subsection \<open>The API process\<close>

record api_process =
  api_cfg :: AppConfig
  api_stores :: Repositories
  api_audit :: store_kind
  api_contests :: store_kind
  api_tokens :: JWTConfig
  api_EnableReflection :: bool

definition buildServices :: "outside \<Rightarrow> AppConfig \<Rightarrow> api_process res" where
  "buildServices o' cfg =
     (if IsProd cfg \<and> cfg_DatabaseURL cfg = [] then Inl (PlainErr ''CALIBER_DATABASE_URL is required in production'' [] [])
      else res_bind (openRepositories o' cfg) (\<lambda>repos.
        res_bind (if cfg_RedisURL cfg = [] then Inr () else out_queue o' (cfg_RedisURL cfg)) (\<lambda>dispatcher.
        res_bind (buildTokenService o' cfg) (\<lambda>tokens.
          Inr \<lparr>api_cfg = cfg, api_stores = repos, api_audit = InMemory, api_contests = InMemory, api_tokens = tokens, api_EnableReflection = (\<not> IsProd cfg)\<rparr>))))"

text \<open>How both processes begin: \<open>fmt\<close> is the message for missing settings.\<close>

definition checked_config :: "string \<Rightarrow> outside \<Rightarrow> environ \<Rightarrow> AppConfig res" where
  "checked_config fmt o' env =
     res_bind (Load env) (\<lambda>cfg.
     res_bind (out_logging o' cfg) (\<lambda>log.
       let missing = Validate_config (out_iter o') cfg; issues = ProdSafetyIssues cfg
       in if missing \<noteq> [] \<and> IsProd cfg then Inl (PlainErr fmt (map AStr missing) [])
          else if issues \<noteq> [] then Inl (PlainErr ''unsafe production configuration: %v'' (map AStr issues) [])
          else res_bind (out_telemetry o' cfg) (\<lambda>tele. Inr cfg)))"

text \<open>\<open>run\<close> of the API up to the point where it serves.\<close>

definition api_run :: "outside \<Rightarrow> environ \<Rightarrow> api_process res" where
  "api_run o' env =
     res_bind (checked_config ''missing required configuration in production: %v'' o' env) (\<lambda>cfg.
     res_bind (buildServices o' cfg) (\<lambda>svc.
     res_bind (if cfg_RedisURL cfg = [] then Inr ()
               else map_sum (\<lambda>e. PlainErr ''asynqmon: %w'' [] [e]) id (out_monitor o' (cfg_RedisURL cfg))) (\<lambda>asynqmon. Inr svc)))"

subsection \<open>The worker process\<close>

record worker_process =
  wk_cfg :: AppConfig
  wk_stores :: Repositories
  wk_audit :: store_kind
  wk_retention :: "gostr option"

text \<open>
  Both kinds of stores have every operation the erasure needs, so the sweep is wired whenever a window is set;
  it is the schedule that it runs on.
\<close>

definition startRetentionScheduler :: "outside \<Rightarrow> AppConfig \<Rightarrow> bool \<Rightarrow> gostr option res" where
  "startRetentionScheduler o' cfg enabled =
     (if \<not> enabled then Inr None
      else res_bind (map_sum (\<lambda>e. PlainErr ''worker: register retention schedule %q: %w'' [AStr (cfg_RetentionCron cfg)] [e]) id
          (out_schedule o' (cfg_RetentionCron cfg))) (\<lambda>u. Inr (Some (cfg_RetentionCron cfg))))"

definition runWorker :: "outside \<Rightarrow> AppConfig \<Rightarrow> worker_process res" where
  "runWorker o' cfg =
     (if cfg_RedisURL cfg = [] then Inl (PlainErr ''CALIBER_REDIS_URL is required to run the worker'' [] [])
      else res_bind (openRepositories o' cfg) (\<lambda>repos.
        res_bind (out_worker_redis o' (cfg_RedisURL cfg)) (\<lambda>redis.
        res_bind (map_sum (\<lambda>e. PlainErr ''worker: start server: %w'' [] [e]) id (out_worker_start o' cfg)) (\<lambda>u.
        res_bind (startRetentionScheduler o' cfg (cfg_RetentionWindow cfg > 0)) (\<lambda>schedule.
          Inr \<lparr>wk_cfg = cfg, wk_stores = repos, wk_audit = InMemory, wk_retention = schedule\<rparr>)))))"

definition worker_run :: "outside \<Rightarrow> environ \<Rightarrow> worker_process res" where
  "worker_run o' env =
     res_bind (checked_config ''missing required configuration: %v'' o' env) (runWorker o')"

subsection \<open>What a production process has\<close>

lemma buildServices_ok:
  assumes "buildServices o' cfg = Inr a"
  obtains repos tokens where "openRepositories o' cfg = Inr repos" and "buildTokenService o' cfg = Inr tokens"
    and "a = \<lparr>api_cfg = cfg, api_stores = repos, api_audit = InMemory, api_contests = InMemory, api_tokens = tokens, api_EnableReflection = (\<not> IsProd cfg)\<rparr>"
  using assms by (auto simp: buildServices_def res_bind_Inr_iff split: if_splits)

lemma checked_config_ok:
  assumes "checked_config fmt o' env = Inr cfg"
  shows "Load env = Inr cfg" and "IsProd cfg \<longrightarrow> Validate_config (out_iter o') cfg = []" and "ProdSafetyIssues cfg = []"
  using assms by (auto simp: checked_config_def res_bind_Inr_iff Let_def split: if_splits)

lemma api_run_ok:
  assumes "api_run o' env = Inr a"
  shows "\<exists>fmt. checked_config fmt o' env = Inr (api_cfg a)" and "buildServices o' (api_cfg a) = Inr a"
proof -
  from assms obtain fmt cfg where c: "checked_config fmt o' env = Inr cfg" "buildServices o' cfg = Inr a"
    by (auto simp: api_run_def res_bind_Inr_iff)
  from c(2) have "api_cfg a = cfg" by (elim buildServices_ok) simp
  with c show "\<exists>fmt. checked_config fmt o' env = Inr (api_cfg a)" "buildServices o' (api_cfg a) = Inr a" by auto
qed

lemma worker_run_ok:
  assumes "worker_run o' env = Inr k"
  shows "\<exists>fmt. checked_config fmt o' env = Inr (wk_cfg k)" and "openRepositories o' (wk_cfg k) = Inr (wk_stores k)"
    and "wk_retention k = (if cfg_RetentionWindow (wk_cfg k) > 0 then Some (cfg_RetentionCron (wk_cfg k)) else None)"
  using assms
  by (auto simp: worker_run_def runWorker_def startRetentionScheduler_def res_bind_Inr_iff split: if_splits)

lemma Validate_ok:
  assumes "Validate_config iter c = []" and "\<And>xs. set (iter xs) = set xs"
  shows "\<not> blank (cfg_DatabaseURL c)" and "\<not> blank (cfg_RedisURL c)" and "\<not> blank (cfg_OpenAIAPIKey c)"
    and "\<not> blank (cfg_JWTSecret c)" and "IsProd c \<longrightarrow> cfg_AllowedOrigins c \<noteq> [] \<and> \<not> blank (cfg_FieldEncryptionKey c)"
proof -
  let ?req = "[(lit ''CALIBER_DATABASE_URL'', cfg_DatabaseURL c), (lit ''CALIBER_REDIS_URL'', cfg_RedisURL c),
        (lit ''OPENAI_API_KEY'', cfg_OpenAIAPIKey c), (lit ''CALIBER_JWT_SECRET'', cfg_JWTSecret c)]"
  have "filter (\<lambda>(name, val). blank val) (iter ?req) = []"
    using assms(1) by (simp only: Validate_config_def append_is_Nil_conv map_is_Nil_conv)
  then have "\<forall>x \<in> set (iter ?req). \<not> blank (snd x)" by (auto simp: filter_empty_conv simp del: lit_simps)
  then have "\<forall>x \<in> set ?req. \<not> blank (snd x)" by (simp only: assms(2))
  then show "\<not> blank (cfg_DatabaseURL c)" "\<not> blank (cfg_RedisURL c)" "\<not> blank (cfg_OpenAIAPIKey c)" "\<not> blank (cfg_JWTSecret c)"
    by (simp_all del: lit_simps)
  show "IsProd c \<longrightarrow> cfg_AllowedOrigins c \<noteq> [] \<and> \<not> blank (cfg_FieldEncryptionKey c)"
    using assms(1) by (simp add: Validate_config_def split: if_splits)
qed

lemma blank_Nil [simp]: "blank []"
  by (simp add: blank_def strings_TrimSpace_def)

lemma bytes_of_Nil_iff: "bytes_of s = [] \<longleftrightarrow> s = []"
proof -
  have "bytes_of s = [] \<longleftrightarrow> byte_len s = 0" by (simp add: byte_len_utf8 bytes_of_def)
  also have "\<dots> \<longleftrightarrow> s = []" using byte_len_ge [of s] by (cases s) (auto simp: rune_count_def)
  finally show ?thesis .
qed

text \<open>The settings of a process that runs in production, and the stores it opened with them.\<close>

lemma production_config:
  assumes "checked_config fmt o' env = Inr c" and "IsProd c" and "\<And>xs. set (out_iter o' xs) = set xs"
  shows "\<not> hostIsLocal (cfg_DatabaseURL c) \<and> \<not> hostIsLocal (cfg_RedisURL c)" and "cfg_DatabaseURL c \<noteq> []"
    and "cfg_FieldEncryptionKey c \<noteq> []" and "cfg_AllowedOrigins c \<noteq> []" and "\<forall>x \<in> set (cfg_AllowedOrigins c). exact_origin x"
    and "cfg_JWTSecret c = env (lit ''CALIBER_JWT_SECRET'')"
proof -
  note ok = checked_config_ok [OF assms(1)]
  note v = Validate_ok [OF ok(2) [rule_format, OF assms(2)] assms(3)]
  show "\<not> hostIsLocal (cfg_DatabaseURL c) \<and> \<not> hostIsLocal (cfg_RedisURL c)"
    using ok(3) assms(2) by (simp add: ProdSafetyIssues_def split: if_splits)
  show "cfg_DatabaseURL c \<noteq> []" "cfg_FieldEncryptionKey c \<noteq> []" "cfg_AllowedOrigins c \<noteq> []" using v(1,5) assms(2) by auto
  show "\<forall>x \<in> set (cfg_AllowedOrigins c). exact_origin x" by (rule Load_origins [OF ok(1)])
  show "cfg_JWTSecret c = env (lit ''CALIBER_JWT_SECRET'')" by (rule loaded_fields(4) [OF ok(1)])
qed

text \<open>
  Which repositories encrypt: candidates, profiles, interviews and matches, under the AES-256 key of the
  configuration; roles, accounts, refresh grants and applications have no cipher.
\<close>

definition encrypting :: "outside \<Rightarrow> AppConfig \<Rightarrow> Repositories \<Rightarrow> bool" where
  "encrypting o' cfg repos \<longleftrightarrow> (\<exists>fc key. base64_DecodeString (bytes_of (cfg_FieldEncryptionKey cfg)) = Some key \<and>
     length key = 32 \<and>
     (\<forall>rd pt stored. pt \<noteq> [] \<and> Encrypt rd fc pt = Inr stored \<longrightarrow>
       (\<exists>nonce. stored = enc_prefix @ base64_EncodeToString (nonce @ Seal (out_gcm o' key) nonce pt))) \<and>
     Rp_Candidates repos = Postgres (Some fc) \<and> Rp_Profiles repos = Postgres (Some fc) \<and>
     Rp_Interviews repos = Postgres (Some fc) \<and> Rp_Matches repos = Postgres (Some fc) \<and>
     Rp_Roles repos = Postgres None \<and> Rp_Users repos = Postgres None \<and>
     Rp_Refresh repos = Postgres None \<and> Rp_Apps repos = Postgres None)"

lemma Encrypt_sealed:
  "fc_primary fc = Some a \<Longrightarrow> pt \<noteq> [] \<Longrightarrow> Encrypt rd fc pt = Inr stored \<Longrightarrow>
    \<exists>nonce. stored = enc_prefix @ base64_EncodeToString (nonce @ Seal a nonce pt)"
  by (auto simp: Encrypt_def split: sum.splits)

lemma openRepositories_encrypting:
  assumes "openRepositories o' c = Inr repos" and "cfg_DatabaseURL c \<noteq> []" and "cfg_FieldEncryptionKey c \<noteq> []"
  shows "encrypting o' c repos"
proof -
  let ?k = "bytes_of (cfg_FieldEncryptionKey c)"
  from assms(1,2) obtain fc where fc: "NewFieldCipher (out_gcm o') ?k (map bytes_of (cfg_FieldEncryptionKeyPrevious c)) = Inr fc"
    and repos: "repos = \<lparr>Rp_Roles = Postgres None, Rp_Users = Postgres None, Rp_Refresh = Postgres None,
      Rp_Candidates = Postgres (Some fc), Rp_Profiles = Postgres (Some fc), Rp_Apps = Postgres None,
      Rp_Interviews = Postgres (Some fc), Rp_Matches = Postgres (Some fc)\<rparr>"
    by (auto simp: openRepositories_def res_bind_Inr_iff)
  from fc obtain p where p: "newAEAD (out_gcm o') ?k = Inr p"
    "add_previous (out_gcm o') (map bytes_of (cfg_FieldEncryptionKeyPrevious c)) \<lparr>fc_primary = p, fc_previous = []\<rparr> = Inr fc"
    by (auto simp: NewFieldCipher_def split: sum.splits)
  obtain key where key: "base64_DecodeString ?k = Some key" "length key = 32" "p = Some (out_gcm o' key)"
    using p(1) assms(3) by (auto simp: newAEAD_ok bytes_of_Nil_iff)
  have "fc_primary fc = Some (out_gcm o' key)" using add_previous_ok [OF p(2)] key(3) by simp
  from Encrypt_sealed [OF this] show ?thesis using key(1,2) unfolding encrypting_def repos
    by (intro exI [of _ fc] exI [of _ key]) (simp; blast)
qed

lemma worker_fails_closed:
  assumes "worker_run o' env = Inr k" and "IsProd (wk_cfg k)" and "\<And>xs. set (out_iter o' xs) = set xs"
  shows "encrypting o' (wk_cfg k) (wk_stores k)" and "\<not> hostIsLocal (cfg_DatabaseURL (wk_cfg k))"
proof -
  obtain fmt where c: "checked_config fmt o' env = Inr (wk_cfg k)" using worker_run_ok(1) [OF assms(1)] by blast
  note prod = production_config [OF c assms(2,3)]
  show "encrypting o' (wk_cfg k) (wk_stores k)"
    by (rule openRepositories_encrypting [OF worker_run_ok(2) [OF assms(1)] prod(2,3)])
  show "\<not> hostIsLocal (cfg_DatabaseURL (wk_cfg k))" using prod(1) by blast
qed

text \<open>An environment of production, and what is outside of the process.\<close>

definition sample_settings :: "(gostr \<times> gostr) list" where
  "sample_settings = [(lit ''CALIBER_ENV'', lit ''production''), (lit ''CALIBER_DATABASE_URL'', lit ''postgres://db/caliber''),
     (lit ''CALIBER_REDIS_URL'', lit ''redis://cache''), (lit ''OPENAI_API_KEY'', lit ''k''), (lit ''ANTHROPIC_API_KEY'', lit ''k''),
     (lit ''CALIBER_JWT_SECRET'', replicate 32 97), (corsOriginsEnv, lit ''https://caliber.example''),
     (fieldEncryptionKeyEnv, map uint (sample_key 7))]"

definition sample_env :: environ where
  "sample_env k = (case map_of sample_settings k of Some v \<Rightarrow> v | None \<Rightarrow> [])"

definition sample_outside :: outside where
  "sample_outside = \<lparr>out_iter = id, out_gcm = sample_gcm, out_pg = (\<lambda>u. Inr ()), out_queue = (\<lambda>u. Inr ()), out_monitor = (\<lambda>u. Inr ()),
     out_worker_redis = (\<lambda>u. Inr ()), out_worker_start = (\<lambda>c. Inr ()), out_schedule = (\<lambda>s. Inr ()),
     out_rand = (\<lambda>n. Inr (replicate n 0)), out_logging = (\<lambda>c. Inr ()), out_telemetry = (\<lambda>c. Inr ())\<rparr>"

lemma sample_hosts: "\<not> hostIsLocal (lit ''postgres://db/caliber'')" "\<not> hostIsLocal (lit ''redis://cache'')"
  by code_simp+

lemma sample_origins: "getorigins sample_env (lit ''production'') = Inr [lit ''https://caliber.example'']"
  by code_simp


lemma sample_values:
  "getenv sample_env ''CALIBER_ENV'' ''dev'' = lit ''production''" "sample_env (lit ''CALIBER_LOKI_URL'') = []"
  "sample_env (lit ''CALIBER_DATABASE_URL'') = lit ''postgres://db/caliber''" "sample_env (lit ''CALIBER_REDIS_URL'') = lit ''redis://cache''"
  "sample_env (lit ''OPENAI_API_KEY'') = lit ''k''" "sample_env (lit ''ANTHROPIC_API_KEY'') = lit ''k''"
  "sample_env (lit ''CALIBER_JWT_SECRET'') = replicate 32 97" "sample_env fieldEncryptionKeyEnv = map uint (sample_key 7)"
  "sample_env (fieldEncryptionKeyEnv @ lit ''_PREVIOUS'') = []"
  by (simp_all add: sample_env_def sample_settings_def getenv_def corsOriginsEnv_def fieldEncryptionKeyEnv_def)

lemma sample_key_text: "bytes_of (map uint (sample_key 7)) = sample_key 7" "\<not> blank (map uint (sample_key 7))"
  by code_simp+

lemma sample_set: "\<not> blank (lit ''postgres://db/caliber'')" "\<not> blank (lit ''redis://cache'')" "\<not> blank (lit ''k'')"
  "\<not> blank (replicate 32 97)"
  by code_simp+

lemma sample_loaded:
  obtains c where "Load sample_env = Inr c" "cfg_Env c = lit ''production''" "cfg_DatabaseURL c = lit ''postgres://db/caliber''"
    "cfg_RedisURL c = lit ''redis://cache''" "cfg_OpenAIAPIKey c = lit ''k''" "cfg_AnthropicAPIKey c = lit ''k''"
    "cfg_JWTSecret c = replicate 32 97" "cfg_FieldEncryptionKey c = map uint (sample_key 7)" "cfg_FieldEncryptionKeyPrevious c = []"
    "cfg_AllowedOrigins c = [lit ''https://caliber.example'']"
proof
  let ?c = "loadLokiConfig sample_env (loadObservabilityConfig sample_env (loaded_config sample_env [lit ''https://caliber.example'']))"
  show "Load sample_env = Inr ?c" by (rule Load_ok) (simp_all only: sample_values sample_origins)
qed (simp_all add: loadLokiConfig_def loadObservabilityConfig_def loaded_config_def sample_values splitList_def strings_TrimSpace_def
      del: lit_simps)

lemma NewJWTService_Secret:
  "strings_TrimSpace (Secret j) \<noteq> [] \<Longrightarrow> minSecretBytes \<le> byte_len (Secret j) \<Longrightarrow> \<exists>t. NewJWTService j = Inr t \<and> Secret t = Secret j"
  by (simp add: NewJWTService_def Let_def)

lemma sample_run: "\<exists>a. api_run sample_outside sample_env = Inr a \<and> IsProd (api_cfg a) \<and> Secret (api_tokens a) = replicate 32 97"
proof -
  obtain c where load: "Load sample_env = Inr c"
    and c: "cfg_Env c = lit ''production''" "cfg_DatabaseURL c = lit ''postgres://db/caliber''"
    "cfg_RedisURL c = lit ''redis://cache''" "cfg_OpenAIAPIKey c = lit ''k''" "cfg_AnthropicAPIKey c = lit ''k''"
    "cfg_JWTSecret c = replicate 32 97" "cfg_FieldEncryptionKey c = map uint (sample_key 7)" "cfg_FieldEncryptionKeyPrevious c = []"
    "cfg_AllowedOrigins c = [lit ''https://caliber.example'']" by (rule sample_loaded)
  have prod: "IsProd c" unfolding IsProd_def c by code_simp
  have "Validate_config id c = []" using sample_key_text(2) sample_set by (simp add: Validate_config_def c del: lit_simps)
  moreover have "ProdSafetyIssues c = []" unfolding ProdSafetyIssues_def c using sample_hosts by simp
  moreover obtain repos where "openRepositories sample_outside c = Inr repos"
    using sample_cipher [of 7 "[]"] by (simp add: openRepositories_def c sample_outside_def sample_key_text)
  moreover obtain tokens where "buildTokenService sample_outside c = Inr tokens" "Secret tokens = replicate 32 97"
  proof -
    let ?j = "\<lparr>Secret = replicate 32 97, Issuer = cfg_JWTIssuer c, Audience = cfg_JWTAudience c,
      AccessTTL = cfg_AccessTokenTTL c, RefreshTTL = cfg_RefreshTokenTTL c\<rparr>"
    have "byte_len (replicate 32 97) = 32" by code_simp
    then show thesis
      using NewJWTService_Secret [of ?j] sample_set(4) that by (auto simp: buildTokenService_def c blank_def minSecretBytes_def)
  qed
  ultimately show ?thesis
    using prod load by (simp add: api_run_def checked_config_def buildServices_def sample_outside_def c)
qed



end
