(* ===== verification/Log_Redaction.thy ===== *)
theory Log_Redaction
  imports Guard
begin

section \<open>Redaction of the log\<close>

text \<open>
  \<open>platform/logging/redact.go\<close>: the handler in front of the JSON log that blanks the values of sensitive keys
  and masks text shaped like an email address, a bearer credential or a signed token. A log value is a text, a
  group of attributes, or anything else, of which the model has the text that is written. The lemmas show
  that nothing of these shapes is left in a message or a text, and what passes in other values.
\<close>

subsection \<open>Expressions that match by their text alone\<close>

text \<open>The matches of \<open>r\<close> are the factors in \<open>L\<close>, wherever they stand.\<close>

definition matches_only :: "regex \<Rightarrow> (gostr \<Rightarrow> bool) \<Rightarrow> bool" where
  "matches_only r L \<longleftrightarrow> (\<forall>s i k. k \<in> set (ends r s i) \<longleftrightarrow> (\<exists>x. L x \<and> factor s i x k))"

definition one :: "(rune \<Rightarrow> bool) \<Rightarrow> gostr \<Rightarrow> bool" where "one P x \<longleftrightarrow> (\<exists>c. x = [c] \<and> P c)"
definition any :: "(rune \<Rightarrow> bool) \<Rightarrow> gostr \<Rightarrow> bool" where "any P x \<longleftrightarrow> (\<forall>c \<in> set x. P c)"
definition some_of :: "(rune \<Rightarrow> bool) \<Rightarrow> gostr \<Rightarrow> bool" where "some_of P x \<longleftrightarrow> x \<noteq> [] \<and> (\<forall>c \<in> set x. P c)"

definition followed :: "(gostr \<Rightarrow> bool) \<Rightarrow> (gostr \<Rightarrow> bool) \<Rightarrow> gostr \<Rightarrow> bool" where
  "followed L M x \<longleftrightarrow> (\<exists>y z. x = y @ z \<and> L y \<and> M z)"

named_theorems shapes \<open>The texts that a composed expression matches\<close>

lemma matches_Cls [shapes]: "matches_only (RCls P) (one P)"
  by (auto simp: matches_only_def in_ends_Cls one_def simp del: ends.simps)

lemma matches_Star [shapes]: "matches_only (RStar (RCls P)) (any P)"
  by (simp only: matches_only_def in_ends_Star_Cls any_def) simp

lemma matches_Plus [shapes]: "matches_only (RPlus (RCls P)) (some_of P)"
  by (simp only: matches_only_def in_ends_Plus_Cls some_of_def) blast

lemma matches_Seq [shapes]: "matches_only r L \<Longrightarrow> matches_only q M \<Longrightarrow> matches_only (RSeq r q) (followed L M)"
  unfolding matches_only_def in_ends_Seq followed_def by (metis factor_append)

lemma matches_Lit: "w \<noteq> [] \<Longrightarrow> matches_only (RLit w) (\<lambda>x. fold_eq x (lit w))"
  unfolding matches_only_def using in_ends_Lit by blast

lemma MatchString_only: "matches_only r L \<Longrightarrow> MatchString r s \<longleftrightarrow> (\<exists>x. L x \<and> sublist x s)"
proof -
  assume m: "matches_only r L"
  have "MatchString r s \<longleftrightarrow> (\<exists>i \<le> length s. \<exists>x k. L x \<and> factor s i x k)"
    using m unfolding MatchString_iff matches_only_def by (metis ex_in_conv set_empty)
  also have "\<dots> \<longleftrightarrow> (\<exists>x. L x \<and> sublist x s)"
  proof
    assume "\<exists>i \<le> length s. \<exists>x k. L x \<and> factor s i x k"
    then obtain i x k where "L x" "drop i s = x @ drop k s" by (auto simp: factor_def)
    then have "s = take i s @ x @ drop k s" using append_take_drop_id [of i s] by metis
    then show "\<exists>x. L x \<and> sublist x s" using \<open>L x\<close> unfolding sublist_def by blast
  next
    assume "\<exists>x. L x \<and> sublist x s"
    then obtain x p q where "L x" "s = p @ x @ q" by (auto simp: sublist_def)
    then show "\<exists>i \<le> length s. \<exists>x k. L x \<and> factor s i x k"
      by (intro exI [of _ "length p"]) (auto simp: factor_def)
  qed
  finally show ?thesis .
qed

subsection \<open>Masking\<close>

definition redactedPlaceholder :: gostr where "redactedPlaceholder = lit ''[REDACTED]''"

text \<open>A text that cannot overlap a placeholder.\<close>

definition apart :: "gostr \<Rightarrow> bool" where
  "apart x \<longleftrightarrow> x \<noteq> [] \<and> 91 \<notin> set x \<and> 93 \<notin> set x \<and> \<not> sublist x (lit ''REDACTED'')"

lemma placeholder_split: "redactedPlaceholder = 91 # lit ''REDACTED'' @ [93]"
  by (simp add: redactedPlaceholder_def)

lemma masked_prefix:
  "prefix x (replace_from r redactedPlaceholder s i) \<Longrightarrow> 91 \<notin> set x \<Longrightarrow> prefix x (drop i s)"
proof (induction r redactedPlaceholder s i arbitrary: x rule: replace_from.induct)
  case (1 r s i)
  show ?case
  proof (cases "length s \<le> i")
    case True
    with 1(4) show ?thesis by (simp add: replace_from.simps [of r _ s i])
  next
    case False
    then have d: "drop i s = s ! i # drop (Suc i) s" by (simp add: Cons_nth_drop_Suc)
    show ?thesis
    proof (cases "\<exists>k ks. ends r s i = k # ks \<and> i < k")
      case True
      with 1(4) False have "prefix x (91 # lit ''REDACTED'' @ [93] @ replace_from r redactedPlaceholder s (hd (ends r s i)))"
        by (auto simp: replace_from.simps [of r _ s i] placeholder_split simp del: lit_simps)
      with 1(5) have "x = []" by (cases x) auto
      then show ?thesis by simp
    next
      case no: False
      with 1(4) False have p: "prefix x (s ! i # replace_from r redactedPlaceholder s (Suc i))"
        by (auto simp: replace_from.simps [of r _ s i] split: list.splits if_splits)
      show ?thesis
      proof (cases x)
        case (Cons c y)
        with p 1(5) have y: "prefix y (replace_from r redactedPlaceholder s (Suc i))" "91 \<notin> set y" "c = s ! i" by auto
        have "prefix y (drop (Suc i) s)"
        proof (cases "ends r s i")
          case Nil
          then show ?thesis using 1(1) [OF False _ y(1,2)] by simp
        next
          case (Cons k ks)
          then show ?thesis using 1(2) [OF False Cons _ y(1,2)] no by (meson linorder_not_le)
        qed
        with y(3) Cons d show ?thesis by simp
      qed simp
    qed
  qed
qed

text \<open>Text of that kind in the output stood in the input where nothing matched.\<close>

lemma masked_sublist:
  "sublist x (replace_from r redactedPlaceholder s i) \<Longrightarrow> apart x \<Longrightarrow>
    \<exists>j. prefix x (drop j s) \<and> (\<forall>k ks. ends r s j = k # ks \<longrightarrow> k \<le> j)"
proof (induction r redactedPlaceholder s i rule: replace_from.induct)
  case (1 r s i)
  let ?out = "replace_from r redactedPlaceholder s"
  show ?case
  proof (cases "length s \<le> i")
    case True
    with 1(4,5) show ?thesis by (simp add: replace_from.simps [of r _ s i] apart_def)
  next
    case False
    then have d: "drop i s = s ! i # drop (Suc i) s" by (simp add: Cons_nth_drop_Suc)
    show ?thesis
    proof (cases "\<exists>k ks. ends r s i = k # ks \<and> i < k")
      case True
      then obtain k ks where k: "ends r s i = k # ks" "i < k" by blast
      have "?out i = (91 # lit ''REDACTED'') @ 93 # ?out k"
        using False k by (simp add: replace_from.simps [of r _ s i] placeholder_split del: lit_simps)
      with 1(4) have "sublist x ((91 # lit ''REDACTED'') @ 93 # ?out k)" by simp
      then have "sublist x (91 # lit ''REDACTED'') \<or> sublist x (?out k)"
        using 1(5) sublist_beside [of x "91 # lit ''REDACTED''" 93 "?out k"] by (simp add: apart_def)
      moreover have "\<not> sublist x (91 # lit ''REDACTED'')"
        using 1(5) sublist_beside [of x "[]" 91 "lit ''REDACTED''"] by (auto simp: apart_def simp del: lit_simps)
      ultimately show ?thesis using 1(3) [OF False k(1) _ _ 1(5)] k(2) by auto
    next
      case no: False
      have o': "?out i = s ! i # ?out (Suc i)"
        using False no by (auto simp: replace_from.simps [of r _ s i] split: list.splits)
      with 1(4) consider "prefix x (?out i)" | "sublist x (?out (Suc i))" by (auto simp: sublist_Cons_right)
      then show ?thesis
      proof cases
        case 1
        have "prefix x (drop i s)" by (rule masked_prefix [OF 1]) (use \<open>apart x\<close> in \<open>simp add: apart_def\<close>)
        then show ?thesis using no by (meson linorder_not_le)
      next
        case 2
        show ?thesis
        proof (cases "ends r s i")
          case Nil
          then show ?thesis using 1(1) [OF False _ 2 1(5)] by simp
        next
          case (Cons k ks)
          then show ?thesis using 1(2) [OF False Cons _ 2 1(5)] no by (meson linorder_not_le)
        qed
      qed
    qed
  qed
qed

lemma prefix_drop_sublist: "prefix x (drop j s) \<Longrightarrow> sublist x s"
  by (meson prefix_imp_sublist sublist_drop sublist_order.order.trans)

lemma masks_own:
  assumes "matches_only r L" and "\<And>x. L x \<Longrightarrow> apart x"
  shows "\<not> MatchString r (ReplaceAllString r s redactedPlaceholder)"
proof
  assume "MatchString r (ReplaceAllString r s redactedPlaceholder)"
  then obtain x where x: "L x" "sublist x (replace_from r redactedPlaceholder s 0)"
    using MatchString_only [OF assms(1)] by (auto simp: ReplaceAllString_def)
  from masked_sublist [OF x(2) assms(2) [OF x(1)]] obtain j where j: "prefix x (drop j s)"
    "\<forall>k ks. ends r s j = k # ks \<longrightarrow> k \<le> j" by blast
  obtain z where z: "drop j s = x @ z" using j(1) by (auto simp: prefix_def)
  then have "drop (j + length x) s = z" by (metis add.commute append_eq_conv_conj drop_drop)
  with z have "factor s j x (j + length x)" by (simp add: factor_def)
  then have "ends r s j \<noteq> []" using assms(1) x(1) unfolding matches_only_def by (metis empty_iff list.set(1))
  then obtain k ks where k: "ends r s j = k # ks" by (cases "ends r s j") auto
  then obtain y where "L y" "factor s j y k" using assms(1) unfolding matches_only_def by (metis list.set_intros(1))
  then have "j < k" using assms(2) [of y] by (auto simp: factor_def apart_def)
  with j(2) k show False by auto
qed

lemma masks_keep:
  assumes "matches_only q M" and "\<And>x. M x \<Longrightarrow> apart x" and "\<not> MatchString q s"
  shows "\<not> MatchString q (ReplaceAllString r s redactedPlaceholder)"
  using masked_sublist [of _ r s 0] assms(3) prefix_drop_sublist
  unfolding MatchString_only [OF assms(1)] ReplaceAllString_def by (metis assms(2))

subsection \<open>The patterns\<close>

definition email_local :: "rune \<Rightarrow> bool" where "email_local c \<longleftrightarrow> word_rune c \<or> c = 46 \<or> c = 43 \<or> c = 45"
definition email_domain :: "rune \<Rightarrow> bool" where "email_domain c \<longleftrightarrow> word_rune c \<or> c = 45"
definition email_rest :: "rune \<Rightarrow> bool" where "email_rest c \<longleftrightarrow> word_rune c \<or> c = 46 \<or> c = 45"

definition emailPattern :: regex where
  "emailPattern = RSeqs [RPlus (RCls email_local), RChar 64, RPlus (RCls email_domain), RChar 46, RPlus (RCls email_rest)]"

text \<open>Under \<open>(?i)\<close> the letters of a class include U+017F and U+212A.\<close>

definition credential_rune :: "rune \<Rightarrow> bool" where
  "credential_rune c \<longleftrightarrow> word_rune c \<or> c = 46 \<or> c = 126 \<or> c = 43 \<or> c = 47 \<or> c = 45 \<or> c = 383 \<or> c = 8490"

definition bearerPattern :: regex where
  "bearerPattern = RSeqs [RLit ''bearer'', RPlus (RCls re_space), RPlus (RCls credential_rune), RStar (RChar 61)]"

definition base64url_rune :: "rune \<Rightarrow> bool" where "base64url_rune c \<longleftrightarrow> word_rune c \<or> c = 45"

definition jwtPattern :: regex where
  "jwtPattern = RSeqs [RChar 101, RChar 121, RChar 74, RPlus (RCls base64url_rune), RChar 46, RPlus (RCls base64url_rune),
     RChar 46, RPlus (RCls base64url_rune)]"

definition redactString :: "gostr \<Rightarrow> gostr" where
  "redactString s =
     (let s = ReplaceAllString emailPattern s redactedPlaceholder;
          s = ReplaceAllString bearerPattern s redactedPlaceholder
      in ReplaceAllString jwtPattern s redactedPlaceholder)"

text \<open>The texts of the three shapes, and that none of them can overlap a placeholder.\<close>

definition email_text :: "gostr \<Rightarrow> bool" where
  "email_text = followed (some_of email_local) (followed (one (\<lambda>c. c = 64)) (followed (some_of email_domain)
     (followed (one (\<lambda>c. c = 46)) (some_of email_rest))))"

definition bearer_text :: "gostr \<Rightarrow> bool" where
  "bearer_text = followed (\<lambda>x. fold_eq x (lit ''bearer'')) (followed (some_of re_space)
     (followed (some_of credential_rune) (any (\<lambda>c. c = 61))))"

definition jwt_text :: "gostr \<Rightarrow> bool" where
  "jwt_text = followed (one (\<lambda>c. c = 101)) (followed (one (\<lambda>c. c = 121)) (followed (one (\<lambda>c. c = 74))
     (followed (some_of base64url_rune) (followed (one (\<lambda>c. c = 46)) (followed (some_of base64url_rune)
     (followed (one (\<lambda>c. c = 46)) (some_of base64url_rune)))))))"

lemma email_matches: "matches_only emailPattern email_text"
  unfolding emailPattern_def email_text_def RSeqs.simps RChar_def by (intro shapes)

lemma bearer_matches: "matches_only bearerPattern bearer_text"
  unfolding bearerPattern_def bearer_text_def RSeqs.simps RChar_def by (intro shapes matches_Lit list.distinct)

lemma jwt_matches: "matches_only jwtPattern jwt_text"
  unfolding jwtPattern_def jwt_text_def RSeqs.simps RChar_def by (intro shapes)

lemma apart_with: "c \<in> set x \<Longrightarrow> c \<notin> set (lit ''REDACTED'') \<Longrightarrow> 91 \<notin> set x \<Longrightarrow> 93 \<notin> set x \<Longrightarrow> apart x"
  using set_mono_sublist [of x "lit ''REDACTED''"] by (auto simp: apart_def simp del: lit_simps)

lemma class_brackets:
  "\<not> email_local 91" "\<not> email_local 93" "\<not> email_domain 91" "\<not> email_domain 93" "\<not> email_rest 91" "\<not> email_rest 93"
  "\<not> base64url_rune 91" "\<not> base64url_rune 93" "\<not> credential_rune 91" "\<not> credential_rune 93"
  by (simp_all add: email_local_def email_domain_def email_rest_def base64url_rune_def credential_rune_def word_rune_def)

lemma email_apart: "email_text x \<Longrightarrow> apart x"
proof (rule apart_with [of 64])
  assume e: "email_text x"
  show "64 \<in> set x" using e by (auto simp: email_text_def followed_def one_def)
  show "91 \<notin> set x" "93 \<notin> set x" using e class_brackets
    by (auto simp: email_text_def followed_def one_def some_of_def)
qed simp

lemma jwt_apart: "jwt_text x \<Longrightarrow> apart x"
proof (rule apart_with [of 46])
  assume e: "jwt_text x"
  show "46 \<in> set x" using e by (auto simp: jwt_text_def followed_def one_def)
  show "91 \<notin> set x" "93 \<notin> set x" using e class_brackets
    by (auto simp: jwt_text_def followed_def one_def some_of_def)
qed simp

lemma bearer_apart: "bearer_text x \<Longrightarrow> apart x"
proof -
  assume "bearer_text x"
  then obtain y s t u where x: "x = y @ s @ t @ u" and y: "fold_eq y (lit ''bearer'')" and s: "s \<noteq> []" "\<forall>c \<in> set s. re_space c"
    and t: "\<forall>c \<in> set t. credential_rune c" and u: "\<forall>c \<in> set u. c = 61"
    by (auto simp: bearer_text_def followed_def some_of_def any_def simp del: lit_simps)
  from s obtain c where c: "c \<in> set s" "re_space c" by (cases s) auto
  have "91 \<notin> set y \<and> 93 \<notin> set y"
    using y fold_eq_no [of y "lit ''bearer''"] by (auto simp: fold_eq_def simple_fold_def unicode_ToLower_def)
  moreover have "91 \<notin> set s" "93 \<notin> set s" using s re_space_no_bracket by blast+
  ultimately have "91 \<notin> set x" "93 \<notin> set x" using x t u class_brackets by auto
  moreover have "c \<notin> set (lit ''REDACTED'')" using c by (auto simp: re_space_def)
  ultimately show ?thesis using apart_with [of c x] x c by simp
qed

definition pii_free :: "gostr \<Rightarrow> bool" where
  "pii_free s \<longleftrightarrow> \<not> MatchString emailPattern s \<and> \<not> MatchString bearerPattern s \<and> \<not> MatchString jwtPattern s"

lemma redactString_free: "pii_free (redactString s)"
  unfolding pii_free_def redactString_def Let_def
  by (intro conjI masks_own [OF jwt_matches] masks_keep [OF email_matches] masks_keep [OF bearer_matches]
      masks_own [OF email_matches] masks_own [OF bearer_matches] email_apart bearer_apart jwt_apart)

subsection \<open>Attributes and records\<close>

text \<open>The value of an attribute, resolved.\<close>

datatype slog_value = SlogString gostr | SlogGroup "(gostr \<times> slog_value) list" | SlogOther gostr

type_synonym slog_attr = "gostr \<times> slog_value"

definition sensitive_names :: "gostr list" where
  "sensitive_names = map lit [''email'', ''e_mail'', ''mail'', ''password'', ''passwd'', ''pwd'', ''secret'', ''authorization'', ''auth_header'',
     ''token'', ''access_token'', ''refresh_token'', ''api_key'', ''apikey'', ''cookie'', ''set_cookie'', ''phone'', ''telephone'', ''msisdn'',
     ''ssn'', ''dob'', ''date_of_birth'']"

definition isSensitiveKey :: "gostr \<Rightarrow> bool" where
  "isSensitiveKey key = (let k = strings_ToLower key in
     k \<in> set sensitive_names \<or>
     list_ex (strings_Contains k) (map lit [''password'', ''secret'', ''email'', ''api_key'', ''apikey'']))"

fun redact_value :: "slog_value \<Rightarrow> slog_value" where
  "redact_value (SlogGroup as) = SlogGroup (map (\<lambda>(k, v). (k, if isSensitiveKey k then SlogString redactedPlaceholder else redact_value v)) as)"
| "redact_value (SlogString s) = SlogString (redactString s)"
| "redact_value (SlogOther s) = SlogOther s"

definition redactAttr :: "slog_attr \<Rightarrow> slog_attr" where
  "redactAttr a = (case a of (k, v) \<Rightarrow> (k, if isSensitiveKey k then SlogString redactedPlaceholder else redact_value v))"

record log_record =
  lr_Message :: gostr
  lr_Attrs :: "slog_attr list"

text \<open>What reaches the inner handler: its own attributes and those of the record.\<close>

definition redacting_Handle :: "log_record \<Rightarrow> log_record" where
  "redacting_Handle r = \<lparr>lr_Message = redactString (lr_Message r), lr_Attrs = map redactAttr (lr_Attrs r)\<rparr>"

definition redacting_WithAttrs :: "slog_attr list \<Rightarrow> slog_attr list \<Rightarrow> slog_attr list" where
  "redacting_WithAttrs inner attrs = inner @ map redactAttr attrs"

text \<open>Logging through handlers derived by \<open>With\<close>: the lines that are written.\<close>

definition logged :: "slog_attr list list \<Rightarrow> log_record \<Rightarrow> log_record" where
  "logged withs r = (let inner = foldl redacting_WithAttrs [] withs; r = redacting_Handle r
     in r\<lparr>lr_Attrs := inner @ lr_Attrs r\<rparr>)"

text \<open>A value is clean when its texts are, down through groups; sensitive keys have the placeholder.\<close>

fun clean_value :: "slog_value \<Rightarrow> bool" where
  "clean_value (SlogGroup as) \<longleftrightarrow> list_all (\<lambda>(k, v). clean_value v \<and> (isSensitiveKey k \<longrightarrow> v = SlogString redactedPlaceholder)) as"
| "clean_value (SlogString s) \<longleftrightarrow> pii_free s"
| "clean_value (SlogOther s) \<longleftrightarrow> True"

definition clean_attr :: "slog_attr \<Rightarrow> bool" where
  "clean_attr a = (case a of (k, v) \<Rightarrow> clean_value v \<and> (isSensitiveKey k \<longrightarrow> v = SlogString redactedPlaceholder))"

lemma placeholder_free: "pii_free redactedPlaceholder"
  unfolding pii_free_def by code_simp

lemma redact_value_clean: "clean_value (redact_value v)"
proof (induction v rule: redact_value.induct)
  case (1 as)
  then show ?case by (fastforce simp: list_all_iff placeholder_free)
qed (simp_all add: redactString_free)

lemma redactAttr_clean: "clean_attr (redactAttr a)"
  by (cases a) (simp add: redactAttr_def clean_attr_def redact_value_clean placeholder_free)

text \<open>
  C40: The texts of the log are masked. Whatever is logged, through whatever derived loggers,
  the message that is written contains no match of the three patterns for email addresses, bearer credentials
  and signed tokens; neither does any text among the attributes, inside groups of any depth; and an attribute
  with a sensitive key carries the placeholder and nothing else.
\<close>

theorem logged_clean: "pii_free (lr_Message (logged withs r)) \<and> list_all clean_attr (lr_Attrs (logged withs r))"
proof -
  have "list_all clean_attr (foldl redacting_WithAttrs [] withs)"
    by (induction withs rule: rev_induct) (auto simp: redacting_WithAttrs_def list_all_iff redactAttr_clean)
  then show ?thesis
    by (auto simp: logged_def Let_def redacting_Handle_def redactString_free list_all_iff redactAttr_clean)
qed

text \<open>A value that is neither a text nor a group is written as it is, an error with an address in it for one.\<close>

lemma other_values_pass: "\<not> isSensitiveKey k \<Longrightarrow> redactAttr (k, SlogOther s) = (k, SlogOther s)"
  by (simp add: redactAttr_def)

text \<open>Masking happens once: a text without these shapes is left alone.\<close>

lemma unmatched_left: "\<not> MatchString r (drop i s) \<Longrightarrow> matches_only r L \<Longrightarrow> replace_from r repl s i = drop i s"
proof (induction r repl s i rule: replace_from.induct)
  case (1 r repl s i)
  show ?case
  proof (cases "length s \<le> i")
    case False
    then have d: "drop i s = s ! i # drop (Suc i) s" by (simp add: Cons_nth_drop_Suc)
    have e: "ends r s i = []"
    proof (rule ccontr)
      assume "ends r s i \<noteq> []"
      then obtain x k where "L x" "factor s i x k" using 1(5) unfolding matches_only_def by (metis ex_in_conv set_empty)
      then have "sublist x (drop i s)" by (auto simp: factor_def)
      with 1(4) \<open>L x\<close> show False using MatchString_only [OF 1(5)] by blast
    qed
    have "\<not> MatchString r (drop (Suc i) s)"
      using 1(4) unfolding MatchString_only [OF 1(5)] d by (auto simp: sublist_Cons_right)
    with 1(1) [OF False e _ 1(5)] e d False show ?thesis by (simp add: replace_from.simps [of r repl s i])
  qed (simp add: replace_from.simps)
qed

lemma redactString_idem: "redactString (redactString s) = redactString s"
proof -
  have keep: "ReplaceAllString r t redactedPlaceholder = t" if "matches_only r L" "\<not> MatchString r t" for r L t
    using unmatched_left [of r 0 t L] that by (simp add: ReplaceAllString_def)
  from redactString_free [of s] show ?thesis
    by (simp add: redactString_def [of "redactString s"] pii_free_def keep [OF email_matches] keep [OF bearer_matches] keep [OF jwt_matches])
qed

end
