(* ===== verification/Store_Types.thy ===== *)
theory Store_Types
  imports Reviews Privacy Interviewer Shortlist Agent_Runner Profile_Builder Role_Specs Session
begin

section \<open>Every store holds values of its type\<close>

text \<open>
  The use-cases together, on the in-memory stack. A Go struct type says nothing about its fields; the type of
  a store here is the invariant the constructors of the domain promise for its values. \<open>io_types I m Q\<close> says that
  \<open>m\<close> keeps the invariant \<open>I\<close> of the world whether it succeeds or fails, and that a result has type \<open>Q\<close>; it has
  one rule per combinator and per operation of a repository, and the locale \<open>typed_part\<close> lifts the
  rules of a store to the world. \<open>stack_call\<close> lists the state-changing calls of the use-cases; the last theorem is
  that no sequence of them, whatever the model answers and whichever calls fail, stores an ill-typed value.
\<close>

subsection \<open>Typed calls\<close>

named_theorems typing \<open>typing rules of calls\<close>

definition io_types :: "('w \<Rightarrow> bool) \<Rightarrow> ('w, 'a) io \<Rightarrow> ('a \<Rightarrow> bool) \<Rightarrow> bool" where
  "io_types I m Q \<longleftrightarrow> (\<forall>w. I w \<longrightarrow> I (snd (m w)) \<and> (\<forall>a. fst (m w) = Inr a \<longrightarrow> Q a))"

abbreviation untyped :: "'a \<Rightarrow> bool" where "untyped \<equiv> \<lambda>a. True"

lemma io_typesI: "(\<And>w. I w \<Longrightarrow> I (snd (m w)) \<and> (\<forall>a. fst (m w) = Inr a \<longrightarrow> Q a)) \<Longrightarrow> io_types I m Q"
  by (simp add: io_types_def)

lemma io_typesD: "io_types I m Q \<Longrightarrow> I w \<Longrightarrow> I (snd (m w))"
  by (simp add: io_types_def)

lemma types_keeps: "io_types I m untyped \<longleftrightarrow> io_keeps I m"
  by (simp add: io_types_def io_keeps_def)

lemma types_ret [typing]: "Q a \<Longrightarrow> io_types I (io_ret a) Q"
  by (simp add: io_types_def io_simps)

lemma types_fail [typing]: "io_types I (io_fail e) Q"
  by (simp add: io_types_def io_simps)

lemma types_lift [typing]: "(\<And>a. r = Inr a \<Longrightarrow> Q a) \<Longrightarrow> io_types I (io_lift r) Q"
  by (simp add: io_types_def io_simps)

lemma types_bind: "io_types I m P \<Longrightarrow> (\<And>a. P a \<Longrightarrow> io_types I (f a) Q) \<Longrightarrow> io_types I (io_bind m f) Q"
  by (force simp: io_types_def io_simps split: prod.splits sum.splits)

lemma types_bind_lift [typing]: "(\<And>a. r = Inr a \<Longrightarrow> io_types I (f a) Q) \<Longrightarrow> io_types I (io_bind (io_lift r) f) Q"
  by (rule types_bind [OF types_lift])

lemma types_bind_guard [typing]: "(\<not> b \<Longrightarrow> io_types I (f ()) Q) \<Longrightarrow> io_types I (io_bind (io_guard b e) f) Q"
  by (cases b) (simp_all add: io_types_def io_simps)

lemma types_bind_ret [typing]: "io_types I (f a) Q \<Longrightarrow> io_types I (io_bind (io_ret a) f) Q"
  by (simp add: io_types_def io_simps)

lemma types_try: "io_types I m P \<Longrightarrow> io_types I (io_try m) (\<lambda>r. \<forall>a. r = Inr a \<longrightarrow> P a)"
  by (force simp: io_types_def io_simps split: prod.splits)

lemma types_bind_try: "io_types I m P \<Longrightarrow> (\<And>r. \<forall>a. r = Inr a \<longrightarrow> P a \<Longrightarrow> io_types I (f r) Q) \<Longrightarrow>
    io_types I (io_bind (io_try m) f) Q"
  by (rule types_bind [OF types_try])

lemma types_if [typing]: "(b \<Longrightarrow> io_types I m Q) \<Longrightarrow> (\<not> b \<Longrightarrow> io_types I n Q) \<Longrightarrow> io_types I (if b then m else n) Q"
  by simp

lemma types_option [typing]: "(x = None \<Longrightarrow> io_types I m Q) \<Longrightarrow> (\<And>a. x = Some a \<Longrightarrow> io_types I (f a) Q) \<Longrightarrow>
    io_types I (case x of None \<Rightarrow> m | Some a \<Rightarrow> f a) Q"
  by (cases x) simp_all

lemma types_sum [typing]: "(\<And>e. x = Inl e \<Longrightarrow> io_types I (f e) Q) \<Longrightarrow> (\<And>a. x = Inr a \<Longrightarrow> io_types I (g a) Q) \<Longrightarrow>
    io_types I (case x of Inl e \<Rightarrow> f e | Inr a \<Rightarrow> g a) Q"
  by (cases x) simp_all

lemma types_prod [typing]: "(\<And>a b. x = (a, b) \<Longrightarrow> io_types I (f a b) Q) \<Longrightarrow> io_types I (case x of (a, b) \<Rightarrow> f a b) Q"
  by (cases x) simp

lemma types_each: "(\<And>x. x \<in> set xs \<Longrightarrow> io_types I (f x) untyped) \<Longrightarrow> io_types I (io_each f xs) untyped"
  by (simp add: types_keeps io_keeps_each)

lemma types_weaken: "io_types I m P \<Longrightarrow> (\<And>a. P a \<Longrightarrow> Q a) \<Longrightarrow> io_types I m Q"
  by (simp add: io_types_def)

subsection \<open>The values of a map\<close>

definition vals :: "('k \<Rightarrow> 'v \<Rightarrow> bool) \<Rightarrow> ('k \<times> 'v) list \<Rightarrow> bool" where
  "vals P al \<longleftrightarrow> (\<forall>(k, v) \<in> set al. P k v)"

lemma vals_Nil [simp]: "vals P []"
  by (simp add: vals_def)

lemma vals_lookup: "vals P al \<Longrightarrow> map_of al k = Some v \<Longrightarrow> P k v"
  by (auto simp: vals_def dest: map_of_SomeD)

lemma set_update_subset: "set (AList.update k v al) \<subseteq> insert (k, v) (set al)"
  by (induction al) auto

lemma vals_update: "vals P al \<Longrightarrow> P k v \<Longrightarrow> vals P (AList.update k v al)"
  using set_update_subset [of k v al] by (auto simp: vals_def)

lemma vals_delete: "vals P al \<Longrightarrow> vals P (AList.delete k al)"
  by (auto simp: vals_def AList.delete_eq)

lemma vals_filter: "vals P al \<Longrightarrow> vals P (filter f al)"
  by (auto simp: vals_def)

subsection \<open>The types of the stores\<close>

text \<open>An account is a valid one, or what an erasure leaves: no name, no credential, the tombstone address.\<close>

definition user_type :: "ID \<Rightarrow> User \<Rightarrow> bool" where
  "user_type i u \<longleftrightarrow> User_ID u = i \<and> Role_Valid (User_Role u) \<and>
     (user_ok u \<or> User_Name u = [] \<and> User_PasswordHash u = [] \<and> User_Email u = erased_email i)"

definition profile_type :: "ID \<Rightarrow> TalentProfile \<Rightarrow> bool" where
  "profile_type i p \<longleftrightarrow> i \<noteq> [] \<and> TP_ID p = i \<and> passport_inv p"

definition audit_type :: "AuditEntry \<Rightarrow> bool" where
  "audit_type e \<longleftrightarrow> \<not> ID_IsZero (ActorUserID e) \<and> strings_TrimSpace (Aud_Action e) \<noteq> [] \<and> strings_TrimSpace (Entity e) \<noteq> []"

definition users_typed :: "UserRepo \<Rightarrow> bool" where "users_typed r \<longleftrightarrow> vals user_type (ur_byID r)"
definition roles_typed :: "RoleRepo \<Rightarrow> bool" where "roles_typed r \<longleftrightarrow> vals (\<lambda>i. role_inv) r"
definition candidates_typed :: "CandidateRepo \<Rightarrow> bool" where
  "candidates_typed r \<longleftrightarrow> vals (\<lambda>i c. \<not> ID_IsZero (Cand_UserID c)) (ks_byID r)"
definition profiles_typed :: "TalentProfileRepo \<Rightarrow> bool" where "profiles_typed r \<longleftrightarrow> vals profile_type (ks_byID r)"
definition apps_typed :: "ApplicationRepo \<Rightarrow> bool" where "apps_typed r \<longleftrightarrow> vals (\<lambda>i. application_inv) (ar_byID r)"
definition interviews_typed :: "InterviewRepo \<Rightarrow> bool" where "interviews_typed r \<longleftrightarrow> vals (\<lambda>i. interview_inv) r"
definition matches_typed :: "MatchRepo \<Rightarrow> bool" where "matches_typed r \<longleftrightarrow> vals (\<lambda>i. match_ok) r"
definition contests_typed :: "ContestRepo \<Rightarrow> bool" where "contests_typed r \<longleftrightarrow> vals (\<lambda>i. contest_inv) (cr_byID r)"
definition audit_typed :: "AuditRepo \<Rightarrow> bool" where "audit_typed r \<longleftrightarrow> list_all audit_type r"

lemmas typed_defs = users_typed_def roles_typed_def candidates_typed_def profiles_typed_def apps_typed_def
  interviews_typed_def matches_typed_def contests_typed_def audit_typed_def

text \<open>The source of identifiers never yields the empty one.\<close>

definition well_typed :: "World \<Rightarrow> bool" where
  "well_typed w \<longleftrightarrow> users_typed (w_users w) \<and> roles_typed (w_roles w) \<and> candidates_typed (w_candidates w) \<and>
     profiles_typed (w_profiles w) \<and> apps_typed (w_apps w) \<and> interviews_typed (w_interviews w) \<and>
     matches_typed (w_matches w) \<and> contests_typed (w_contests w) \<and> audit_typed (w_audit w) \<and> (\<forall>n. w_ids w n \<noteq> [])"

subsection \<open>The repositories\<close>

lemma users_types:
  "user_ok u \<Longrightarrow> io_types users_typed (UserRepo_Create u) untyped"
  "io_types users_typed (UserRepo_ByID i) untyped"
  "io_types users_typed (UserRepo_ByEmail em) untyped"
  "io_types users_typed (UserRepo_Anonymize i) untyped"
  "io_types users_typed (UserRepo_ListEligibleForRetention iter t) untyped"
  by (auto simp: io_types_def users_typed_def UserRepo_Create_def UserRepo_ByID_def UserRepo_ByEmail_def UserRepo_Anonymize_def
      UserRepo_ListEligibleForRetention_def Let_def user_type_def user_ok_def intro!: vals_update dest: vals_lookup
      split: option.splits)

lemma roles_types:
  "role_inv r \<Longrightarrow> io_types roles_typed (RoleRepo_Create r) untyped"
  "io_types roles_typed (RoleRepo_ByID i) role_inv"
  "role_inv r \<Longrightarrow> io_types roles_typed (RoleRepo_Update r) untyped"
  "io_types roles_typed (RoleRepo_ListOpen itr srt pg) untyped"
  by (auto simp: io_types_def roles_typed_def RoleRepo_Create_def RoleRepo_ByID_def RoleRepo_Update_def RoleRepo_ListOpen_def
      Let_def intro!: vals_update dest: vals_lookup split: option.splits)

lemma candidates_types:
  "\<not> ID_IsZero (Cand_UserID c) \<Longrightarrow> io_types candidates_typed (CandidateRepo_Create c) untyped"
  "io_types candidates_typed (CandidateRepo_ByID i) (\<lambda>c. \<not> ID_IsZero (Cand_UserID c))"
  "\<not> ID_IsZero (Cand_UserID c) \<Longrightarrow> io_types candidates_typed (CandidateRepo_Update c) untyped"
  "io_types candidates_typed (CandidateRepo_Delete i) untyped"
  by (auto simp: io_types_def candidates_typed_def CandidateRepo_Create_def CandidateRepo_ByID_def CandidateRepo_Update_def
      CandidateRepo_Delete_def ks_create_def ks_get_def ks_update_def ks_deleteByPrimary_def Let_def
      intro!: vals_update vals_delete dest: vals_lookup split: option.splits)

text \<open>A dangling index reads as the zero profile; an update of it is refused, as nothing has the empty identifier.\<close>

definition profile_read :: "TalentProfile \<Rightarrow> bool" where
  "profile_read p \<longleftrightarrow> p = zero_profile \<or> profile_type (TP_ID p) p"

lemma profiles_types:
  "profile_type (TP_ID p) p \<Longrightarrow> io_types profiles_typed (TalentProfileRepo_Create p) untyped"
  "io_types profiles_typed (TalentProfileRepo_ByCandidateID c) profile_read"
  "TP_ID p = [] \<or> profile_type (TP_ID p) p \<Longrightarrow> io_types profiles_typed (TalentProfileRepo_Update p) untyped"
  "io_types profiles_typed (TalentProfileRepo_DeleteByCandidate c) untyped"
proof -
  show "profile_type (TP_ID p) p \<Longrightarrow> io_types profiles_typed (TalentProfileRepo_Create p) untyped"
    by (auto simp: io_types_def profiles_typed_def TalentProfileRepo_Create_def ks_create_def Let_def intro!: vals_update)
  show "io_types profiles_typed (TalentProfileRepo_ByCandidateID c) profile_read"
    by (auto simp: io_types_def profiles_typed_def TalentProfileRepo_ByCandidateID_def ks_getBySecondary_def profile_read_def
        profile_type_def dest: vals_lookup split: option.splits)
  show "TP_ID p = [] \<or> profile_type (TP_ID p) p \<Longrightarrow> io_types profiles_typed (TalentProfileRepo_Update p) untyped"
    by (auto simp: io_types_def profiles_typed_def TalentProfileRepo_Update_def ks_update_def intro!: vals_update
        dest: vals_lookup [of profile_type] simp: profile_type_def)
  show "io_types profiles_typed (TalentProfileRepo_DeleteByCandidate c) untyped"
    by (auto simp: io_types_def profiles_typed_def TalentProfileRepo_DeleteByCandidate_def ks_deleteBySecondary_def
        ks_deleteByPrimary_def intro!: vals_delete split: option.splits)
qed

lemma application_delete_loop_vals: "vals P al \<Longrightarrow> vals P (snd (application_delete_loop c is al))"
  by (induction c "is" al rule: application_delete_loop.induct) (auto simp: Let_def split_beta vals_delete)

lemma apps_types:
  "application_inv a \<Longrightarrow> io_types apps_typed (ApplicationRepo_Create a) untyped"
  "io_types apps_typed (ApplicationRepo_ByCandidate c pg) untyped"
  "io_types apps_typed (ApplicationRepo_DeleteByCandidate c) untyped"
  using application_delete_loop_vals [of "\<lambda>i. application_inv"]
  by (auto simp: io_types_def apps_typed_def ApplicationRepo_Create_def ApplicationRepo_ByCandidate_def
      ApplicationRepo_DeleteByCandidate_def Let_def split_beta intro!: vals_update)

lemma interviews_types:
  "interview_inv iv \<Longrightarrow> io_types interviews_typed (InterviewRepo_Create iv) untyped"
  "io_types interviews_typed (InterviewRepo_ByID i) interview_inv"
  "interview_inv iv \<Longrightarrow> io_types interviews_typed (InterviewRepo_Update iv) untyped"
  "io_types interviews_typed (InterviewRepo_ByCandidate iti c pg) untyped"
  "io_types interviews_typed (InterviewRepo_DeleteByCandidate c) untyped"
  by (auto simp: io_types_def interviews_typed_def InterviewRepo_Create_def InterviewRepo_ByID_def InterviewRepo_Update_def
      InterviewRepo_ByCandidate_def InterviewRepo_DeleteByCandidate_def Let_def intro!: vals_update vals_filter
      dest: vals_lookup split: option.splits)

lemma matches_types:
  "match_ok m \<Longrightarrow> io_types matches_typed (MatchRepo_Upsert t m) untyped"
  "io_types matches_typed (MatchRepo_ByID itm i) untyped"
  "io_types matches_typed (MatchRepo_ForCandidate itm c pg) untyped"
  "io_types matches_typed (MatchRepo_DeleteByCandidate c) untyped"
  by (auto simp: io_types_def matches_typed_def MatchRepo_Upsert_def MatchRepo_ByID_def MatchRepo_ForCandidate_def
      MatchRepo_filter_def MatchRepo_DeleteByCandidate_def Let_def match_ok_def intro!: vals_update vals_filter
      split: option.splits list.splits)

lemma contest_delete_loop_vals: "vals P al \<Longrightarrow> vals P (snd (contest_delete_loop c is al))"
  by (induction c "is" al rule: contest_delete_loop.induct) (auto simp: Let_def split_beta vals_delete)

lemma contests_types:
  "contest_inv c \<Longrightarrow> io_types contests_typed (ContestRepo_Create c) untyped"
  "io_types contests_typed (ContestRepo_ByID i) contest_inv"
  "contest_inv c \<Longrightarrow> io_types contests_typed (ContestRepo_Update c) untyped"
  "io_types contests_typed (ContestRepo_DeleteByCandidate d) untyped"
  using contest_delete_loop_vals [of "\<lambda>i. contest_inv"]
  by (auto simp: io_types_def contests_typed_def ContestRepo_Create_def ContestRepo_ByID_def ContestRepo_Update_def
      ContestRepo_DeleteByCandidate_def Let_def split_beta intro!: vals_update dest: vals_lookup split: option.splits)

lemma audit_types:
  "audit_type e \<Longrightarrow> io_types audit_typed (AuditRepo_Append e) untyped"
  "io_types audit_typed (AuditRepo_TombstoneActor a) untyped"
proof -
  have "\<not> ID_IsZero (lit ''erased'')" by code_simp
  then show "io_types audit_typed (AuditRepo_TombstoneActor a) untyped"
    by (auto simp: io_types_def audit_typed_def AuditRepo_TombstoneActor_def list_all_iff audit_type_def simp del: lit_simps)
qed (simp add: io_types_def audit_typed_def AuditRepo_Append_def)

subsection \<open>The repositories in the world\<close>

text \<open>A store with a type, as a part of the well-typed world.\<close>

locale typed_part = part get put for get :: "World \<Rightarrow> 's" and put :: "'s \<Rightarrow> World \<Rightarrow> World" +
  fixes typed :: "'s \<Rightarrow> bool"
  assumes part_typed: "well_typed w \<Longrightarrow> typed (get w)"
    and put_typed: "well_typed w \<Longrightarrow> typed s \<Longrightarrow> well_typed (put s w)"
begin

lemma lift: "io_types typed m Q \<Longrightarrow> io_types well_typed (on_part get put m) Q"
  by (auto simp: io_types_def io_simps part_typed put_typed split: prod.splits) (metis fst_conv snd_conv part_typed put_typed)+

lemma bind: "io_types typed m P \<Longrightarrow> (\<And>a. P a \<Longrightarrow> io_types well_typed (f a) Q) \<Longrightarrow>
    io_types well_typed (io_bind (on_part get put m) f) Q"
  by (rule types_bind [OF lift])

lemma bind_try: "io_types typed m P \<Longrightarrow> (\<And>r. \<forall>a. r = Inr a \<longrightarrow> P a \<Longrightarrow> io_types well_typed (f r) Q) \<Longrightarrow>
    io_types well_typed (io_bind (io_try (on_part get put m)) f) Q"
  by (rule types_bind_try [OF lift])

end

interpretation tusers: typed_part w_users "\<lambda>s w. w\<lparr>w_users := s\<rparr>" users_typed
  by unfold_locales (auto simp: well_typed_def)

interpretation troles: typed_part w_roles "\<lambda>s w. w\<lparr>w_roles := s\<rparr>" roles_typed
  by unfold_locales (auto simp: well_typed_def)

interpretation tcandidates: typed_part w_candidates "\<lambda>s w. w\<lparr>w_candidates := s\<rparr>" candidates_typed
  by unfold_locales (auto simp: well_typed_def)

interpretation tprofiles: typed_part w_profiles "\<lambda>s w. w\<lparr>w_profiles := s\<rparr>" profiles_typed
  by unfold_locales (auto simp: well_typed_def)

interpretation tapps: typed_part w_apps "\<lambda>s w. w\<lparr>w_apps := s\<rparr>" apps_typed
  by unfold_locales (auto simp: well_typed_def)

interpretation tinterviews: typed_part w_interviews "\<lambda>s w. w\<lparr>w_interviews := s\<rparr>" interviews_typed
  by unfold_locales (auto simp: well_typed_def)

interpretation tmatches: typed_part w_matches "\<lambda>s w. w\<lparr>w_matches := s\<rparr>" matches_typed
  by unfold_locales (auto simp: well_typed_def)

interpretation tcontests: typed_part w_contests "\<lambda>s w. w\<lparr>w_contests := s\<rparr>" contests_typed
  by unfold_locales (auto simp: well_typed_def)

interpretation taudit: typed_part w_audit "\<lambda>s w. w\<lparr>w_audit := s\<rparr>" audit_typed
  by unfold_locales (auto simp: well_typed_def)

interpretation trefresh: typed_part w_refresh "\<lambda>s w. w\<lparr>w_refresh := s\<rparr>" untyped
  by unfold_locales (auto simp: well_typed_def)

lemmas store_rules =
  tusers.bind [OF users_types(1)] tusers.bind [OF users_types(2)] tusers.bind [OF users_types(3)]
  tusers.bind_try [OF users_types(2)] tusers.bind_try [OF users_types(3)] tusers.bind [OF users_types(4)]
  troles.bind [OF roles_types(1)] troles.bind [OF roles_types(2)] troles.bind [OF roles_types(3)] troles.bind [OF roles_types(4)]
  troles.bind_try [OF roles_types(2)] troles.lift [OF roles_types(3)]
  tcandidates.bind [OF candidates_types(1)] tcandidates.bind [OF candidates_types(2)] tcandidates.bind [OF candidates_types(4)]
  tcandidates.bind_try [OF candidates_types(2)] tcandidates.lift [OF candidates_types(1)] tcandidates.lift [OF candidates_types(3)]
  tprofiles.bind [OF profiles_types(1)] tprofiles.bind [OF profiles_types(3)] tprofiles.bind_try [OF profiles_types(2)]
  tprofiles.bind_try [OF profiles_types(3)]
  tapps.bind [OF apps_types(1)] tapps.bind_try [OF apps_types(2)]
  tinterviews.bind [OF interviews_types(1)] tinterviews.bind [OF interviews_types(2)] tinterviews.bind [OF interviews_types(3)]
  tinterviews.bind_try [OF interviews_types(4)]
  tmatches.lift [OF matches_types(1)] tmatches.bind [OF matches_types(2)] tmatches.bind_try [OF matches_types(3)]
  tcontests.bind [OF contests_types(1)] tcontests.bind [OF contests_types(2)] tcontests.bind [OF contests_types(3)]
  taudit.bind [OF audit_types(1)] taudit.bind_try [OF audit_types(1)] taudit.lift [OF audit_types(2)]

declare store_rules [typing]

subsection \<open>Calls to the outside\<close>

definition quiet :: "(World, 'a) io \<Rightarrow> bool" where
  "quiet m \<longleftrightarrow> (\<forall>w. stores (snd (m w)) = stores w \<and> w_ids (snd (m w)) = w_ids w)"

lemma well_typed_stores: "stores v = stores w \<Longrightarrow> w_ids v = w_ids w \<Longrightarrow> well_typed v \<longleftrightarrow> well_typed w"
  by (simp add: well_typed_def stores_eq_iff)

lemma quiet_types: "quiet m \<Longrightarrow> io_types well_typed m untyped"
proof (rule io_typesI)
  fix w assume q: "quiet m" and w: "well_typed w"
  have "well_typed (snd (m w)) \<longleftrightarrow> well_typed w" by (rule well_typed_stores) (use q in \<open>simp_all add: quiet_def\<close>)
  with w show "well_typed (snd (m w)) \<and> (\<forall>a. fst (m w) = Inr a \<longrightarrow> True)" by simp
qed

lemmas quiet_bind = types_bind [OF quiet_types]

lemma now_rule [typing]: "(\<And>t. io_types well_typed (f t) Q) \<Longrightarrow> io_types well_typed (io_bind (io_of World_now) f) Q"
  by (rule quiet_bind) (simp_all add: quiet_def io_simps World_now_def stores_def)

lemma newID_rule [typing]:
  "(\<And>i. i \<noteq> [] \<Longrightarrow> io_types well_typed (f i) Q) \<Longrightarrow> io_types well_typed (io_bind (io_of World_newID) f) Q"
proof (rule types_bind [of _ _ "\<lambda>i. i \<noteq> []"])
  show "io_types well_typed (io_of World_newID) (\<lambda>i. i \<noteq> [])"
  proof (rule io_typesI)
    fix w assume w: "well_typed w"
    then have "well_typed (snd (World_newID w))"
      using well_typed_stores [of "snd (World_newID w)" w] by (simp add: World_newID_def stores_def)
    with w show "well_typed (snd (io_of World_newID w)) \<and> (\<forall>a. fst (io_of World_newID w) = Inr a \<longrightarrow> a \<noteq> [])"
      by (simp add: io_simps World_newID_def well_typed_def)
  qed
qed

definition quiet_llm :: "World LLMClient \<Rightarrow> bool" where
  "quiet_llm llm \<longleftrightarrow> (\<forall>r. quiet (LLM_Complete llm r)) \<and> quiet (LLM_Warm llm)"

lemma decode_rule [typing]:
  assumes "quiet_llm llm" and "\<And>a. io_types well_typed (f a) Q"
  shows "io_types well_typed (io_bind (DecodeJSON d zero llm req n label) f) Q"
proof (rule types_bind [OF _ assms(2)])
  show "io_types well_typed (DecodeJSON d zero llm req n label) untyped"
    using assms(1) quiet_types unfolding quiet_llm_def types_keeps by (blast intro: DecodeJSON_keeps)
qed

subsection \<open>Decisions: contests and rejections\<close>

lemma audit_entry_type: "NewAuditEntry i a act ent eid b af t = Inr e \<Longrightarrow> audit_type (e\<lparr>OwnerID := own\<rparr>)"
  by (auto simp: NewAuditEntry_def audit_type_def split: if_splits)

lemma subjectRef_types: "io_types well_typed (subjectRef (memory_contest_service itr srt itm iti) sub i) untyped"
  by (cases sub) (auto intro!: typing)

lemma record_contest_types: "io_types well_typed (record_contest (memory_contest_service itr srt itm iti) a act i own) untyped"
  unfolding record_contest_def memory_contest_sel memory_sel
  by (intro typing) (auto intro: audit_entry_type)

lemma Raise_types: "io_types well_typed (Raise (memory_contest_service itr srt itm iti) c i sub reason) contest_inv"
  unfolding Raise_def memory_contest_sel memory_sel Let_def
  by (intro typing types_bind [OF subjectRef_types] types_bind [OF record_contest_types]) (auto dest: NewContest_inv)

lemma ownerOf_types: "io_types well_typed (ownerOf (memory_contest_service itr srt itm iti) c) untyped"
  unfolding ownerOf_def memory_contest_sel memory_sel
  by (intro typing types_bind [OF subjectRef_types]) simp

lemma Resolve_types: "io_types well_typed (Resolve (memory_contest_service itr srt itm iti) r i up txt) contest_inv"
  unfolding Resolve_def memory_contest_sel memory_sel
  by (intro typing types_bind [OF ownerOf_types] types_bind [OF record_contest_types]) (auto dest: Contest_Resolve_inv)

lemma Rejection_types: "io_types well_typed (RejectionRecorder_Record (memory_rejections itr srt) a r c reason ok) untyped"
  unfolding RejectionRecorder_Record_def memory_contest_sel memory_sel
  by (intro typing) (auto intro: audit_entry_type)

subsection \<open>Interviews\<close>

lemma MarkScreened_type: "profile_read p \<Longrightarrow> TP_ID (MarkScreened p) = [] \<or> profile_type (TP_ID (MarkScreened p)) (MarkScreened p)"
  by (auto simp: profile_read_def profile_type_def MarkScreened_def zero_profile_def passport_inv_def)

lemma markScreened_types: "io_types well_typed (markScreened (memory_interviewer itr srt iti llm cfg reg) c) untyped"
  unfolding markScreened_def memory_interviewer_sel memory_sel option.case
  by (intro typing) (auto dest: MarkScreened_type)

lemma ask_types: "quiet_llm (in_llm s) \<Longrightarrow> interview_inv iv \<Longrightarrow> io_types well_typed (ask s rl iv) interview_inv"
  unfolding ask_def by (intro typing) (auto intro: Ask_inv)

lemma shouldFinish_types: "io_types well_typed (shouldFinish (memory_interviewer itr srt iti llm cfg reg) iv) untyped"
  unfolding shouldFinish_def memory_interviewer_sel by (intro typing) simp_all

lemma finish_types:
  assumes "quiet_llm llm" and "interview_inv iv"
  shows "io_types well_typed (finish (memory_interviewer itr srt iti llm cfg reg) rl iv) interview_inv"
  unfolding finish_def memory_interviewer_sel memory_sel Let_def
  by (intro typing types_bind [OF markScreened_types] assms(1)) (use assms(2) in \<open>auto dest: Transition_inv Complete_inv\<close>)

lemma interview_started: "interview_inv (iv\<lparr>StartedAt := t\<rparr>) \<longleftrightarrow> interview_inv iv"
  by (simp add: interview_inv_def)

lemma Start_types:
  assumes "quiet_llm llm"
  shows "io_types well_typed (Start (memory_interviewer itr srt iti llm cfg reg) r c m) untyped"
  unfolding Start_def memory_interviewer_sel memory_sel Let_def
  by (intro typing types_bind [OF ask_types] quiet_bind)
    (use assms in \<open>auto simp: quiet_llm_def dest!: NewInterview_inv intro: Transition_inv [OF iffD2 [OF interview_started]]\<close>)

lemma Interviewer_Answer_types:
  assumes "quiet_llm llm"
  shows "io_types well_typed (Interviewer_Answer (memory_interviewer itr srt iti llm cfg reg) i a) untyped"
  unfolding Interviewer_Answer_def memory_interviewer_sel memory_sel
  by (intro typing types_bind [OF ask_types] types_bind [OF finish_types] types_bind [OF shouldFinish_types])
    (use assms in \<open>auto intro: Answer_inv\<close>)

lemma ScoreAsync_types:
  assumes "quiet_llm llm"
  shows "io_types well_typed (ScoreAsync (memory_interviewer itr srt iti llm cfg reg) i) untyped"
  unfolding ScoreAsync_def memory_interviewer_sel memory_sel
  by (intro typing types_bind [OF finish_types]) (use assms in auto)

subsection \<open>Shortlists\<close>

lemma score_types: "quiet_llm llm \<Longrightarrow> io_types well_typed (score (memory_shortlister itr srt itm recall emb llm reg) rl p) match_ok"
  unfolding score_def memory_shortlister_sel by (intro typing) (auto dest: NewMatch_ok)

lemma evaluateCandidate_types:
  assumes "quiet_llm llm"
  shows "io_types well_typed (evaluateCandidate (memory_shortlister itr srt itm recall emb llm reg) rl req c)
    (\<lambda>(m, ex). \<forall>x. m = Some x \<longrightarrow> match_ok x)"
  unfolding evaluateCandidate_def skip_missing_def memory_shortlister_sel memory_sel Let_def
  by (intro typing types_bind [OF score_types] assms) auto

lemma screen_loop_types:
  assumes "quiet_llm llm" and "\<forall>m \<in> set (Matches res). match_ok m"
  shows "io_types well_typed (screen_loop (memory_shortlister itr srt itm recall emb llm reg) rl req cs res)
    (\<lambda>res. \<forall>m \<in> set (Matches res). match_ok m)"
  using assms(2)
proof (induction cs arbitrary: res)
  case (Cons c cs)
  then show ?case
    unfolding screen_loop.simps
    by (intro types_bind [OF evaluateCandidate_types [OF assms(1)]] typing Cons.IH) (auto split: option.splits)
qed (simp add: types_ret)

lemma persist_types:
  "\<forall>m \<in> set ms. match_ok m \<Longrightarrow> io_types well_typed (persist (memory_shortlister itr srt itm recall emb llm reg) ms) untyped"
  unfolding persist_def memory_shortlister_sel memory_sel by (intro types_each typing) auto

lemma GenerateShortlist_types:
  assumes "quiet_llm llm" and "\<forall>t. quiet (emb t)" and "\<forall>e n. quiet (recall e n)"
  shows "io_types well_typed (GenerateShortlist (memory_shortlister itr srt itm recall emb llm reg) r a n) untyped"
  unfolding GenerateShortlist_def screenAndScore_def memory_shortlister_sel memory_sel Let_def
  by (intro typing quiet_bind types_bind [OF persist_types] types_bind [OF screen_loop_types])
    (use assms in auto)


lemma Refine_types:
  assumes "quiet_llm llm" and "\<forall>t. quiet (emb t)" and "\<forall>e n. quiet (recall e n)"
  shows "io_types well_typed (Refine \<lparr>rf_roles = memory_roles itr srt,
    rf_shortlister = memory_shortlister itr srt itm recall emb llm reg\<rparr> r a spec rub n) untyped"
  unfolding Refine_def Refiner.simps memory_sel
  by (intro typing GenerateShortlist_types assms) (auto dest: Role_Revise_inv)

subsection \<open>The agent\<close>

lemma Submit_type: "application_inv a \<Longrightarrow> Submit a = Inr b \<Longrightarrow> application_inv b"
  by (auto simp: Submit_def application_inv_def split: if_splits)

lemma recordSubmission_types:
  "io_types well_typed (recordSubmission (memory_runner itr srt iti itm llm reg q) c a r own) untyped"
  unfolding recordSubmission_def memory_runner_sel memory_sel option.case prod.case
  by (intro typing) (auto intro: audit_entry_type)

lemma assess_types:
  assumes "quiet_llm llm"
  shows "io_types well_typed (assess (memory_runner itr srt iti itm llm reg q) rl p) untyped"
  unfolding assess_def types_keeps
  using assms quiet_types unfolding quiet_llm_def types_keeps
  by (auto intro!: io_keeps_bind DecodeJSON_keeps simp: memory_runner_def)

lemma consider_role_types:
  assumes "quiet_llm llm"
  shows "io_types well_typed (consider_role (memory_runner itr srt iti itm llm reg q) c p rl) untyped"
  unfolding consider_role_def memory_runner_sel memory_sel Let_def
  by (intro types_bind [OF assess_types [OF assms]] types_bind [OF recordSubmission_types] typing)
    (auto dest!: NewAgentApplication_inv intro: Submit_type)

lemma scan_loop_types:
  assumes "quiet_llm llm"
  shows "io_types well_typed (scan_loop (memory_runner itr srt iti itm llm reg q) c cand p rls view) untyped"
proof (induction rls arbitrary: view)
  case (Cons rl rls)
  show ?case
    unfolding scan_loop.simps Let_def
    by (intro typing types_bind [OF consider_role_types [OF assms]] Cons.IH)
qed (simp add: types_ret)

lemma enrichInsights_types: "io_types well_typed (enrichInsights (memory_runner itr srt iti itm llm reg q) c view) untyped"
proof -
  have a: "io_types well_typed (io_bind (io_try (at_interviews (InterviewRepo_ByCandidate iti c (NewPage 1 insightWindow))))
     (\<lambda>x. io_ret (f x))) untyped" for f :: "_ \<Rightarrow> WakeUpView"
    by (intro typing) simp
  show ?thesis
    unfolding enrichInsights_def memory_runner_sel memory_sel option.case
    by (intro types_bind [OF a] typing) simp
qed

lemma Run_types:
  assumes "quiet_llm llm"
  shows "io_types well_typed (Run (memory_runner itr srt iti itm llm reg q) c n) untyped"
  unfolding Run_def scanRoles_def memory_runner_sel memory_sel Let_def
  by (intro typing types_bind [OF scan_loop_types [OF assms]] enrichInsights_types) simp_all

subsection \<open>Profiles and roles\<close>

lemma mergeIntake_types: "\<not> ID_IsZero (Cand_UserID c) \<Longrightarrow> io_types well_typed (mergeIntake (memory_builder llm emb reg) c it) untyped"
  unfolding mergeIntake_def memory_builder_sel memory_sel Let_def by (intro typing) simp

lemma merged_profile_type:
  "profile_read q \<Longrightarrow> profile_type (TP_ID p) p \<Longrightarrow>
    let r = q\<lparr>TP_Summary := x, TP_Competencies := TP_Competencies p, TP_Embedding := y\<rparr>
    in TP_ID r = [] \<or> profile_type (TP_ID r) r"
  by (auto simp: profile_read_def profile_type_def passport_inv_def zero_profile_def Let_def)

lemma upsert_types: "profile_type (TP_ID p) p \<Longrightarrow> io_types well_typed (upsert (memory_builder llm emb reg) c p) untyped"
  unfolding upsert_def memory_builder_sel memory_sel Let_def
  by (intro typing) (use merged_profile_type in \<open>auto simp: Let_def\<close>)

lemma builder_embed_types:
  assumes "\<forall>t. quiet (emb t)" and "profile_type (TP_ID p) p"
  shows "io_types well_typed (builder_embed (memory_builder llm emb reg) p) (\<lambda>q. profile_type (TP_ID q) q)"
  unfolding builder_embed_def memory_builder_sel option.case Let_def
  by (intro typing quiet_bind) (use assms in \<open>auto simp: profile_type_def passport_inv_def\<close>)

lemma CreateFromCV_types:
  assumes "quiet_llm llm" and "\<forall>t. quiet (emb t)"
  shows "io_types well_typed (CreateFromCV (memory_builder llm emb reg) c txt it) untyped"
  unfolding CreateFromCV_def memory_builder_sel memory_sel Let_def
  by (intro typing types_bind [OF builder_embed_types] types_bind [OF mergeIntake_types] upsert_types assms)
    (auto simp: profile_type_def dest: NewTalentProfile_inv)

lemma embed_role_types:
  assumes "\<forall>e t. emb = Some e \<longrightarrow> quiet (e t)" and "role_inv r"
  shows "io_types well_typed (embed_role emb r) role_inv"
  unfolding embed_role_def by (intro typing quiet_bind) (use assms in \<open>auto simp: role_inv_embedding\<close>)

definition memory_generator :: "(Role list \<Rightarrow> Role list) \<Rightarrow> ((Role \<Rightarrow> Role \<Rightarrow> bool) \<Rightarrow> Role list \<Rightarrow> Role list) \<Rightarrow>
    World LLMClient \<Rightarrow> World Embedder option \<Rightarrow> registry \<Rightarrow> World SpecGenerator" where
  "memory_generator itr srt llm emb reg = \<lparr>sg_llm = llm, sg_roles = memory_roles itr srt, sg_embedder = emb,
     sg_now = World_now, sg_prompts = reg, sg_newID = World_newID\<rparr>"

lemma Generate_types:
  assumes "quiet_llm llm" and "\<forall>e t. emb = Some e \<longrightarrow> quiet (e t)"
  shows "io_types well_typed (Generate (memory_generator itr srt llm emb reg) i txt) untyped"
  unfolding Generate_def memory_generator_def SpecGenerator.simps memory_sel
  by (intro typing types_bind [OF embed_role_types] assms) (auto dest: NewRole_inv)

lemma Editor_types:
  assumes "\<forall>e t. emb = Some e \<longrightarrow> quiet (e t)"
  shows "io_types well_typed (SpecEditor_Update (memory_editor itr srt emb) i spec rub) untyped"
    and "io_types well_typed (SpecEditor_Delete (memory_editor itr srt emb) i) untyped"
  unfolding SpecEditor_Update_def SpecEditor_Delete_def memory_editor_def SpecEditor.simps memory_sel
  by (intro typing types_bind [OF embed_role_types] assms; auto dest: Role_Revise_inv Role_Close_inv)+

subsection \<open>Accounts and sessions\<close>

definition quiet_hasher :: "World PasswordHasher \<Rightarrow> bool" where
  "quiet_hasher h \<longleftrightarrow> (\<forall>p. quiet (Hash h p)) \<and> (\<forall>e p. quiet (Verify h e p))"

definition quiet_tokens :: "World TokenService \<Rightarrow> bool" where
  "quiet_tokens tk \<longleftrightarrow> (\<forall>p. quiet (IssueAccess tk p) \<and> quiet (IssueRefresh tk p)) \<and> (\<forall>t. quiet (VerifyRefresh tk t))"

lemma any_types: "io_types untyped m untyped"
  by (simp add: io_types_def)

lemma throttle_types:
  "io_types well_typed (throttleCheck (memory_identity h tk) k) untyped"
  "io_types well_typed (throttleFail (memory_identity h tk) k) untyped"
  "io_types well_typed (throttleReset (memory_identity h tk) k) untyped"
proof -
  have d: "io_types well_typed (io_do (\<lambda>w. w\<lparr>w_throttle := f w\<rparr>)) untyped" for f
    by (rule io_typesI) (simp add: io_simps well_typed_def)
  have c: "io_types well_typed (\<lambda>w. (g w, w)) untyped" for g :: "World \<Rightarrow> unit res"
    by (rule io_typesI) simp
  show "io_types well_typed (throttleCheck (memory_identity h tk) k) untyped"
    unfolding throttleCheck_def memory_identity_sel memory_session_sel option.case by (intro now_rule c)
  show "io_types well_typed (throttleFail (memory_identity h tk) k) untyped"
    unfolding throttleFail_def memory_identity_sel memory_session_sel option.case by (intro now_rule d)
  show "io_types well_typed (throttleReset (memory_identity h tk) k) untyped"
    unfolding throttleReset_def memory_identity_sel memory_session_sel option.case by (rule d)
qed

lemma issue_types:
  assumes "quiet_tokens tk"
  shows "io_types well_typed (issue (memory_identity h tk) u) untyped"
  unfolding issue_def memory_identity_sel memory_session_sel Let_def
  by (intro quiet_bind typing trefresh.bind [OF any_types]) (use assms in \<open>simp_all add: quiet_tokens_def\<close>)

lemma provision_types: "io_types well_typed (CandidateProvisioner_Provision memory_candidates World_newID u) untyped"
  unfolding CandidateProvisioner_Provision_def memory_sel
  by (intro typing) (auto dest: NewCandidate_user)

lemma Register_types:
  assumes "quiet_hasher h" and "quiet_tokens tk"
  shows "io_types well_typed (Register (memory_identity h tk) inp) untyped"
  unfolding Register_def memory_identity_sel memory_sel option.case
  by (intro typing types_bind [OF provision_types] issue_types quiet_bind)
    (use assms in \<open>auto simp: quiet_hasher_def dest: NewUser_ok\<close>)

lemma verifyCredentials_types:
  assumes "quiet_hasher h"
  shows "io_types well_typed (verifyCredentials (memory_identity h tk) e p) untyped"
  unfolding verifyCredentials_def memory_identity_sel memory_sel
  by (intro typing quiet_bind types_bind_try [OF quiet_types]) (use assms in \<open>auto simp: quiet_hasher_def\<close>)

lemma Login_types:
  assumes "quiet_hasher h" and "quiet_tokens tk"
  shows "io_types well_typed (Login (memory_identity h tk) e p) untyped"
proof -
  have f: "io_types well_typed (if b then throttleFail (memory_identity h tk) k else io_ret ()) untyped" for b k
    by (simp add: throttle_types types_ret)
  show ?thesis
    unfolding Login_def
    by (intro types_sum types_fail types_if types_bind [OF throttle_types(1)] types_bind [OF throttle_types(3)]
        types_bind_try [OF verifyCredentials_types] types_bind [OF f] issue_types assms)
qed

lemma Refresh_types:
  assumes "quiet_tokens tk"
  shows "io_types well_typed (Refresh (memory_identity h tk) t) untyped"
  unfolding Refresh_def memory_identity_sel memory_session_sel memory_sel
  by (intro quiet_bind typing trefresh.bind [OF any_types] issue_types assms) (use assms in \<open>simp add: quiet_tokens_def\<close>)

lemma Logout_types:
  assumes "quiet_tokens tk"
  shows "io_types well_typed (Logout (memory_identity h tk) t) untyped"
  unfolding Logout_def memory_identity_sel memory_session_sel
  by (intro types_bind_try [OF quiet_types] typing trefresh.lift [OF any_types]) (use assms in \<open>simp_all add: quiet_tokens_def\<close>)

subsection \<open>Erasure\<close>

lemma Erase_types: "io_types well_typed (EraseCandidate BuildEraser c) untyped"
  unfolding EraseCandidate_def BuildEraser_def Eraser.simps
  by (intro typing types_bind [OF types_each])
    (auto intro: tprofiles.lift tapps.lift tinterviews.lift tmatches.lift tcontests.lift profiles_types apps_types
      interviews_types matches_types contests_types)

lemma sweep_loop_types:
  "well_typed w \<Longrightarrow> well_typed (snd (sweep_loop (EraseCandidate BuildEraser) ids r errs w))"
proof (induction ids arbitrary: r errs w)
  case (Cons i ids)
  have "well_typed (snd (EraseCandidate BuildEraser i w))" using io_typesD [OF Erase_types] Cons.prems by blast
  then show ?case by (auto split: prod.splits sum.splits intro: Cons.IH)
qed simp

lemma Sweep_types: "well_typed w \<Longrightarrow> well_typed (snd (Sweep (memory_sweeper iter d) w))"
proof -
  assume w: "well_typed w"
  have n: "well_typed (snd (World_now w))"
    using w well_typed_stores [of "snd (World_now w)" w] by (simp add: World_now_def stores_def)
  have l: "well_typed w' \<Longrightarrow> well_typed (snd (at_users (UserRepo_ListEligibleForRetention iter t) w'))" for t w'
    by (rule io_typesD [OF tusers.lift [OF users_types(5)]])
  show ?thesis
    using w n l sweep_loop_types
    by (auto simp: Sweep_def memory_sweeper_def Let_def split: prod.splits sum.splits) (metis snd_conv)+
qed

subsection \<open>Any history of the stack\<close>

text \<open>
  The state-changing calls of the use-cases, whatever is outside: the hasher, the tokens, the model, the
  embedder, the recall and the iteration orders can differ from call to call.
\<close>

definition effect :: "('w, 'a) io \<Rightarrow> 'w \<Rightarrow> 'w" where
  "effect m = (\<lambda>w. snd (m w))"

inductive stack_call :: "(World \<Rightarrow> World) \<Rightarrow> bool" where
  call_register: "quiet_hasher h \<Longrightarrow> quiet_tokens tk \<Longrightarrow> stack_call (effect (Register (memory_identity h tk) inp))"
| call_login: "quiet_hasher h \<Longrightarrow> quiet_tokens tk \<Longrightarrow> stack_call (effect (Login (memory_identity h tk) e p))"
| call_refresh: "quiet_tokens tk \<Longrightarrow> stack_call (effect (Refresh (memory_identity h tk) t))"
| call_logout: "quiet_tokens tk \<Longrightarrow> stack_call (effect (Logout (memory_identity h tk) t))"
| call_generate: "quiet_llm llm \<Longrightarrow> \<forall>e t. emb = Some e \<longrightarrow> quiet (e t) \<Longrightarrow>
    stack_call (effect (Generate (memory_generator itr srt llm emb reg) i txt))"
| call_edit: "\<forall>e t. emb = Some e \<longrightarrow> quiet (e t) \<Longrightarrow> stack_call (effect (SpecEditor_Update (memory_editor itr srt emb) i spec rub))"
| call_archive: "stack_call (effect (SpecEditor_Delete (memory_editor itr srt None) i))"
| call_intake: "quiet_llm llm \<Longrightarrow> \<forall>t. quiet (emb t) \<Longrightarrow> stack_call (effect (CreateFromCV (memory_builder llm emb reg) c txt it))"
| call_shortlist: "quiet_llm llm \<Longrightarrow> \<forall>t. quiet (emb t) \<Longrightarrow> \<forall>e n. quiet (recall e n) \<Longrightarrow>
    stack_call (effect (GenerateShortlist (memory_shortlister itr srt itm recall emb llm reg) r a n))"
| call_refine: "quiet_llm llm \<Longrightarrow> \<forall>t. quiet (emb t) \<Longrightarrow> \<forall>e n. quiet (recall e n) \<Longrightarrow>
    stack_call (effect (Refine \<lparr>rf_roles = memory_roles itr srt,
      rf_shortlister = memory_shortlister itr srt itm recall emb llm reg\<rparr> r a spec rub n))"
| call_start: "quiet_llm llm \<Longrightarrow> stack_call (effect (Start (memory_interviewer itr srt iti llm cfg reg) r c m))"
| call_answer: "quiet_llm llm \<Longrightarrow> stack_call (effect (Interviewer_Answer (memory_interviewer itr srt iti llm cfg reg) i a))"
| call_score: "quiet_llm llm \<Longrightarrow> stack_call (effect (ScoreAsync (memory_interviewer itr srt iti llm cfg reg) i))"
| call_agent: "quiet_llm llm \<Longrightarrow> stack_call (effect (Run (memory_runner itr srt iti itm llm reg q) c n))"
| call_raise: "stack_call (effect (Raise (memory_contest_service itr srt itm iti) c i sub reason))"
| call_resolve: "stack_call (effect (Resolve (memory_contest_service itr srt itm iti) r i up txt))"
| call_reject: "stack_call (effect (RejectionRecorder_Record (memory_rejections itr srt) a r c reason ok))"
| call_erase: "stack_call (effect (EraseCandidate BuildEraser c))"
| call_sweep: "stack_call (\<lambda>w. snd (Sweep (memory_sweeper iter d) w))"

inductive stack_reachable :: "World \<Rightarrow> bool" where
  stack_start: "\<forall>n. ids n \<noteq> [] \<Longrightarrow> stack_reachable (memory_world clock ids)"
| stack_step: "stack_reachable w \<Longrightarrow> stack_call f \<Longrightarrow> stack_reachable (f w)"

lemma effect_typed: "io_types well_typed m Q \<Longrightarrow> well_typed w \<Longrightarrow> well_typed (effect m w)"
  by (simp add: effect_def io_types_def)

lemmas call_types = Register_types Login_types Refresh_types Logout_types Generate_types Editor_types CreateFromCV_types
  GenerateShortlist_types Refine_types Start_types Interviewer_Answer_types ScoreAsync_types Run_types Raise_types
  Resolve_types Rejection_types Erase_types

lemma call_typed: "stack_call f \<Longrightarrow> well_typed w \<Longrightarrow> well_typed (f w)"
  by (induction rule: stack_call.induct) (rule effect_typed, rule call_types, (assumption | simp)+ | rule Sweep_types, assumption)+

text \<open>
  C3: Types are kept by the whole stack. After any sequence of registrations, logins, refreshes, role and
  profile generations, edits, shortlists, interviews, agent runs, contests, rejections, erasures and retention
  sweeps, succeeding or failing, whatever the model replied, every store holds only well-formed values: each
  account is valid or an erased shell without credential, roles keep their rubric valid, profiles their
  competencies in range, interviews their turns and reports, matches their scores in the unit interval,
  applications and contests their life cycle, and audit entries name an actor, an action and an entity.
\<close>

theorem stack_well_typed:
  assumes "stack_reachable w"
  shows "well_typed w"
  using assms
proof (induction rule: stack_reachable.induct)
  case (stack_start ids clock)
  then show ?case
    by (simp add: well_typed_def typed_defs memory_world_def NewUserRepo_def newKeyedStore_def)
next
  case (stack_step w f)
  then show ?case by (blast intro: call_typed)
qed

lemma sample_quiet: "quiet_hasher sample_hasher" "quiet_tokens sample_tokens"
  by (auto simp: quiet_hasher_def quiet_tokens_def quiet_def sample_hasher_def sample_tokens_def io_simps World_newID_def
      stores_def)

lemma stack_well_typed_witness:
  "well_typed (snd sample_run) \<and> length (ur_byID (w_users (snd sample_run))) = 1 \<and>
     length (ks_byID (w_candidates (snd sample_run))) = 1"
proof -
  have "stack_reachable sample_world" unfolding sample_world_def by (rule stack_start) simp
  then have "stack_reachable (snd sample_run)"
    using stack_step [OF _ call_register [OF sample_quiet, of sample_input]] by (simp add: sample_run_def effect_def)
  moreover have "length (ur_byID (w_users (snd sample_run))) = 1" "length (ks_byID (w_candidates (snd sample_run))) = 1"
    by code_simp+
  ultimately show ?thesis using stack_well_typed by blast
qed

end
