(* ===== verification/Spec2Isabelle.thy ===== *)
theory Spec2Isabelle
  imports Kernel Guard Salary Matching Interview CandidateAgent Contest_Audit Memory_Hiring Auth
    Session Reviews Privacy Interviewer Shortlist Agent_Runner
    LLM_Guard Profile_Builder Role_Specs API_Hiring API_Candidate API_Review API_Dashboard
    Task_Queue Jobs Field_Cipher Rate_Limit Jwt Argon2 Configuration HTTP_Server
    Startup Log_Redaction Store_Types
begin

text \<open>
  A model of the Caliber hiring platform (Go, \<open>src/internal\<close>), layered as the program is: a domain without
  effects, use-cases over ports, adapters that implement the ports, and the remote interface in front.

  \<^bold>\<open>The language and its library.\<close> \<open>Float64\<close> is IEEE binary64 arithmetic on the rationals, \<open>Unicode\<close> the tables
  and functions of the packages \<open>unicode\<close> and \<open>strings\<close>, \<open>Go_Prelude\<close> strings (lists of code points), 64-bit
  integers, slices and error values, \<open>Go_Sort\<close> the contract of \<open>sort.Slice\<close>, \<open>Go_Regexp\<close> the patterns the
  program compiles, \<open>Go_JSON\<close> the encoder and \<open>Go_JSON_Decode\<close> the decoder of \<open>encoding/json\<close>, \<open>Go_Fmt\<close> the
  verbs of \<open>fmt\<close>, \<open>Go_Time\<close> durations, \<open>Go_Strconv\<close> the readers of numbers and durations, \<open>Go_UTF8\<close> and \<open>Go_Base64\<close> bytes,
  \<open>Net_IP\<close> addresses and prefixes, \<open>Net_URL\<close> URLs, and \<open>Go_Effects\<close> computations with a state and an error,
  the state kept when an error is returned.

  \<^bold>\<open>The domain\<close> (\<open>domain\<close>): \<open>Kernel\<close> (error kinds, identifiers, pages), \<open>Identity\<close> (accounts, roles, the
  permission matrix of \<open>authz\<close>), \<open>Guard\<close> (untrusted text in prompts) with \<open>Fences\<close>, \<open>Role\<close>, \<open>Salary\<close>,
  \<open>Talent\<close>, \<open>Matching\<close> (scores and gates), \<open>Interview\<close> (the state machine of an interview),
  \<open>CandidateAgent\<close> (applications and the grounding of generated text), \<open>Contest_Audit\<close>.

  \<^bold>\<open>The stores\<close> (\<open>adapters/outbound/memory\<close>): \<open>Repository\<close> states what a repository promises as the locale
  \<open>repository\<close>; \<open>Memory\<close>, \<open>Memory_Hiring\<close> and \<open>Auth\<close> model the in-memory repositories, the refresh-token store
  and the login throttle, and interpret the locale on them.

  \<^bold>\<open>The use-cases\<close> (\<open>app\<close>): \<open>Ports\<close> has the interfaces of the application as records of operations over any
  world, and \<open>World\<close>, the stores of the in-memory configuration together, with the clock and the source of
  identifiers; its locale \<open>repository_part\<close> lifts the contract of one store to the world. \<open>Session\<close>
  (\<open>identity\<close>, \<open>provisioning\<close>), \<open>Reviews\<close> (\<open>contest\<close>, \<open>matching/rejection.go\<close>), \<open>Privacy\<close> (\<open>privacy\<close>),
  \<open>Interviewer\<close> (\<open>interview\<close>), \<open>Shortlist\<close> (\<open>matching\<close>), \<open>Agent_Runner\<close> (\<open>candidateagent\<close>),
  \<open>Profile_Builder\<close> (\<open>profiles\<close>), \<open>Role_Specs\<close> (\<open>roles\<close>) and \<open>Dashboard\<close> (\<open>dashboard\<close>) are services over these
  ports; their theorems run them on the world. \<open>LLM\<close> has the prompt registry and the loop that asks the model
  again until its reply decodes, \<open>AI_Calls\<close> the records, the spend and the alerts of model calls.

  \<open>Store_Types\<close> puts the use-cases together: its typing rules, lifted from the stores to the world by the locale
  \<open>typed_part\<close>, give that no history of calls stores an ill-formed value.

  \<^bold>\<open>The adapters.\<close> \<open>LLM_Guard\<close> is the chain in front of the model provider (\<open>adapters/outbound/llm\<close>),
  \<open>CV_Text\<close> the reader of uploaded files (\<open>cvtext\<close>), \<open>Jwt\<close> the token service (\<open>auth/jwt.go\<close>), \<open>Argon2\<close> the
  password hasher (\<open>auth/argon2.go\<close>) and what a login to an erased account reveals, \<open>Field_Cipher\<close>
  the encryption of columns (\<open>fieldcrypto\<close>), \<open>Task_Queue\<close> the dispatch of background work (\<open>app/queue\<close>,
  \<open>adapters/outbound/queue\<close>) and \<open>Jobs\<close> the worker (\<open>adapters/inbound/jobs\<close>), with the steps by which any
  number of workers share the claims in Redis.

  \<^bold>\<open>The remote interface\<close> (\<open>adapters/inbound/grpc\<close>): \<open>Access\<close> (interceptor, guards, statuses), \<open>Rate_Limit\<close>,
  \<open>Messages\<close> (the mapping of messages), and the servers \<open>API_Hiring\<close>, \<open>API_Candidate\<close>, \<open>API_Review\<close> and
  \<open>API_Dashboard\<close>.

  \<^bold>\<open>The process.\<close> \<open>Configuration\<close> reads the settings from the environment (\<open>platform/config\<close>) and
  \<open>HTTP_Server\<close> is the public HTTP surface (\<open>adapters/inbound/httpserver\<close>, the router of \<open>platform/server\<close>):
  the CORS policy, security headers, health checks and guarded pages in front of the gateway. Chi, the
  gateway and the mounted pages are parameters; the Asynqmon page stands at \<open>/asynqmon\<close>, the path \<open>cmd/api\<close> passes. \<open>Wiring\<close> chooses the stores, with the cipher of their
  columns, and encrypts every row again after a key rotation (\<open>platform/wiring\<close>); \<open>Startup\<close> is what \<open>cmd/api\<close> and
  \<open>cmd/worker\<close> check and build before they serve; \<open>Log_Redaction\<close> the mask in front of the log
  (\<open>platform/logging\<close>).

  \<^bold>\<open>Interfaces.\<close> Besides \<open>repository\<close> and \<open>repository_part\<close>: \<open>weak_order\<close> is what a comparison owes to a sort
  (interpreted on the rankings of matches, of candidates and of roles), \<open>order_delete\<close> a store with an
  insertion order from which records are deleted (applications, contests), \<open>fence_label\<close> the contract of
  a prompt's label (transcripts, evidence, profiles), \<open>alert_feed\<close> what a dashboard promises of its alerts (the
  computed and the cached one), \<open>idempotency_store\<close> the claim of a task's key (the in-memory store),
  \<open>typed_part\<close> a store with a type for its values (every store of the world).

  \<^bold>\<open>What is assumed.\<close> The iteration order of a Go map is a parameter, as are the result of \<open>sort.Slice\<close>
  (constrained by \<open>Go_Sort\<close>), the clock, the source of identifiers and random bytes, and what lies outside the
  source: the model provider, the embedder, the Argon2 key derivation, the JWT library (\<open>jwt_documented\<close>), AES-GCM
  (\<open>authentic_gcm\<close>), SHA-256 (the cache of embeddings is shown right for texts that do not collide), the queue client, the three
  Redis commands (\<open>redis_documented\<close>, failures included), the PDF, ZIP and XML readers. Texts
  nobody branches on are parameters too: RFC 3339 dates, the quoting of \<open>%q\<close>, the JSON of an export.
  Hypotheses on parameters are stated in each theorem. Mutexes are not modelled: every operation of a store
  holds its lock from beginning to end, so operations are steps of the state; where goroutines or
  processes meet in another way (the interview broker, the fleet of workers), their steps are taken in any order.

  \<^bold>\<open>Loops.\<close> Recursion is structural wherever a loop ranges over a slice, or has a measure. The paging loops of
  the export, the report, the dashboard and the re-encryption ask a repository that decides when they end: they are
  \<open>partial_function (option)\<close>, where \<open>None\<close> is a loop that does not end, and their return is proved for
  repositories whose totals are bounded. The retries of a structured reply are bounded by the attempts.

  \<^bold>\<open>Not modelled.\<close> Generated code (\<open>internal/gen\<close>) beyond the messages the handlers use, mocks, the PostgreSQL
  adapters (their behaviour is that of SQL text in a database outside the source), the HTTP clients of the
  model and embedding providers, telemetry and log writers, connections and shutdown, migrations, demo data, the web front end.
\<close>

end
